(* ===== verification/Prelude.thy ===== *)
theory Prelude
  imports Main "HOL-Library.Word" "HOL-Library.Multiset"
begin

text \<open>
  Shared vocabulary of the development.  A Go string or byte slice is a list of characters
  (a character is one byte), a Go map is a partial map, an error result is a sum whose left
  side carries the error.  The theory also holds the functions of the Go packages
  \<^verbatim>\<open>strings\<close>, \<^verbatim>\<open>bytes\<close> and \<^verbatim>\<open>strconv\<close> that the repository uses, with the lemmas
  the component theories share.
\<close>

named_theorems bits_simps \<open>bit-level facts used by the word proofs\<close>
named_theorems inv_intros \<open>preservation lemmas of component invariants\<close>
named_theorems step_simps \<open>one-step equations of component operations\<close>

unbundle bit_operations_syntax

text \<open>A text in the quotes that messages put around names.\<close>

definition in_quotes :: "string \<Rightarrow> string" where "in_quotes t = CHR 0x27 # t @ [CHR 0x27]"

section \<open>Results\<close>

text \<open>A fallible Go function returns a value and an error; the model returns one of the two.\<close>

type_synonym ('e, 'a) result = "'e + 'a"

definition rbind :: "('e, 'a) result \<Rightarrow> ('a \<Rightarrow> ('e, 'b) result) \<Rightarrow> ('e, 'b) result" where
  "rbind r k = (case r of Inl e \<Rightarrow> Inl e | Inr a \<Rightarrow> k a)"

lemma rbind_Inl [simp]: "rbind (Inl e) k = Inl e"
  by (simp add: rbind_def)

lemma rbind_Inr [simp]: "rbind (Inr a) k = k a"
  by (simp add: rbind_def)

lemma rbind_eq_Inr: "rbind r k = Inr b \<longleftrightarrow> (\<exists>a. r = Inr a \<and> k a = Inr b)"
  by (cases r) auto

lemma rbind_eq_Inl: "rbind r k = Inl e \<longleftrightarrow> r = Inl e \<or> (\<exists>a. r = Inr a \<and> k a = Inl e)"
  by (cases r) auto

lemma rbind_assoc: "rbind (rbind r k) l = rbind r (\<lambda>a. rbind (k a) l)"
  by (cases r) auto

text \<open>A loop that stops at the first error.\<close>

fun rfold :: "('a \<Rightarrow> 's \<Rightarrow> ('e, 's) result) \<Rightarrow> 'a list \<Rightarrow> 's \<Rightarrow> ('e, 's) result" where
  "rfold f [] s = Inr s"
| "rfold f (x # xs) s = rbind (f x s) (rfold f xs)"

lemma rfold_append: "rfold f (xs @ ys) s = rbind (rfold f xs s) (rfold f ys)"
proof (induction xs arbitrary: s)
  case (Cons x xs)
  show ?case by (cases "f x s") (simp_all add: Cons.IH)
qed simp

lemma rfold_invariant:
  assumes step: "\<And>x s t. x \<in> set xs \<Longrightarrow> P s \<Longrightarrow> f x s = Inr t \<Longrightarrow> P t"
  assumes start: "P s" and ok: "rfold f xs s = Inr t"
  shows "P t"
  using step start ok
proof (induction xs arbitrary: s)
  case (Cons x xs)
  from Cons.prems(3) obtain u where u: "f x s = Inr u" "rfold f xs u = Inr t"
    by (auto simp: rbind_eq_Inr)
  have "P u" using Cons.prems(1)[of x s u] Cons.prems(2) u(1) by simp
  show ?case by (rule Cons.IH[OF _ \<open>P u\<close> u(2)]) (use Cons.prems(1) in auto)
qed simp

text \<open>A loop that collects results and stops at the first error.\<close>

fun rmap :: "('a \<Rightarrow> ('e, 'b) result) \<Rightarrow> 'a list \<Rightarrow> ('e, 'b list) result" where
  "rmap f [] = Inr []"
| "rmap f (x # xs) = rbind (f x) (\<lambda>y. rbind (rmap f xs) (\<lambda>ys. Inr (y # ys)))"

lemma rmap_Inr: "rmap f xs = Inr ys \<longleftrightarrow> list_all2 (\<lambda>x y. f x = Inr y) xs ys"
proof (induction xs arbitrary: ys)
  case Nil
  show ?case by (cases ys) auto
next
  case (Cons x xs)
  show ?case by (cases ys) (auto simp: rbind_eq_Inr Cons.IH)
qed

lemma rmap_Inl: "(\<exists>e. rmap f xs = Inl e) \<longleftrightarrow> (\<exists>x\<in>set xs. \<exists>e. f x = Inl e)"
proof (induction xs)
  case (Cons x xs)
  show ?case
    using Cons.IH by (cases "f x"; cases "rmap f xs") auto
qed simp

section \<open>Integer division\<close>

text \<open>Go divides integers towards zero.\<close>

definition go_div :: "int \<Rightarrow> int \<Rightarrow> int" where
  "go_div a b = sgn a * sgn b * (\<bar>a\<bar> div \<bar>b\<bar>)"

lemma go_div_nonneg: "0 \<le> a \<Longrightarrow> 0 < b \<Longrightarrow> go_div a b = a div b"
  by (cases "a = 0") (auto simp: go_div_def)

section \<open>Strings\<close>

definition has_prefix :: "string \<Rightarrow> string \<Rightarrow> bool" where
  "has_prefix p s \<longleftrightarrow> take (length p) s = p"

lemma has_prefix_iff: "has_prefix p s \<longleftrightarrow> (\<exists>r. s = p @ r)"
  unfolding has_prefix_def by (metis append_eq_conv_conj append_take_drop_id)

lemma has_prefix_append [simp]: "has_prefix p (p @ r)"
  by (simp add: has_prefix_def)

lemma has_prefix_Nil [simp]: "has_prefix [] s"
  by (simp add: has_prefix_def)

definition has_suffix :: "string \<Rightarrow> string \<Rightarrow> bool" where
  "has_suffix p s \<longleftrightarrow> length p \<le> length s \<and> drop (length s - length p) s = p"

text \<open>\<^verbatim>\<open>strings.Index\<close>: the first position at which the needle occurs.\<close>

fun str_index :: "string \<Rightarrow> string \<Rightarrow> nat option" where
  "str_index sub [] = (if sub = [] then Some 0 else None)"
| "str_index sub (c # cs) =
     (if has_prefix sub (c # cs) then Some 0 else map_option Suc (str_index sub cs))"

lemma str_index_Some: "str_index sub s = Some i \<Longrightarrow> i + length sub \<le> length s \<and> has_prefix sub (drop i s)"
proof (induction s arbitrary: i)
  case (Cons c cs)
  show ?case
  proof (cases "has_prefix sub (c # cs)")
    case True
    with Cons.prems show ?thesis
      by (auto simp: has_prefix_iff) (metis le_add1 length_Cons length_append)
  next
    case False
    with Cons.prems obtain j where j: "str_index sub cs = Some j" "i = Suc j" by auto
    with Cons.IH[OF j(1)] show ?thesis by auto
  qed
qed (auto split: if_splits)

lemma str_index_first: "str_index sub s = Some i \<Longrightarrow> j < i \<Longrightarrow> \<not> has_prefix sub (drop j s)"
proof (induction s arbitrary: i j)
  case (Cons c cs)
  then show ?case by (cases j) (auto split: if_splits)
qed (auto split: if_splits)

lemma str_index_None: "str_index sub s = None \<Longrightarrow> \<not> has_prefix sub (drop j s)"
proof (induction s arbitrary: j)
  case Nil
  then show ?case by (auto simp: has_prefix_iff split: if_splits)
next
  case (Cons c cs)
  then show ?case by (cases j) (auto split: if_splits)
qed

lemma str_index_split:
  assumes "str_index sub s = Some i"
  shows "s = take i s @ sub @ drop (i + length sub) s"
proof -
  from str_index_Some[OF assms] obtain r where r: "drop i s = sub @ r"
    by (auto simp: has_prefix_iff)
  have "drop (i + length sub) s = drop (length sub) (drop i s)" by (simp add: add.commute)
  also have "\<dots> = r" using r by simp
  finally show ?thesis using r by (metis append_take_drop_id)
qed

lemma str_index_occurs: "str_index sub s \<noteq> None \<longleftrightarrow> (\<exists>a b. s = a @ sub @ b)"
proof
  assume "str_index sub s \<noteq> None"
  then show "\<exists>a b. s = a @ sub @ b" using str_index_split by blast
next
  assume "\<exists>a b. s = a @ sub @ b"
  then obtain a b where s: "s = a @ sub @ b" by blast
  have "has_prefix sub (drop (length a) s)" by (simp add: s)
  then show "str_index sub s \<noteq> None" using str_index_None by blast
qed

lemma str_index_least:
  assumes "str_index sub (a @ sub @ b) = Some i" shows "i \<le> length a"
proof (rule ccontr)
  assume "\<not> i \<le> length a"
  then have "\<not> has_prefix sub (drop (length a) (a @ sub @ b))"
    by (intro str_index_first[OF assms]) simp
  then show False by simp
qed

text \<open>\<^verbatim>\<open>strings.Split\<close> with a one-byte separator, and \<^verbatim>\<open>strings.Join\<close>.\<close>

fun split_on :: "char \<Rightarrow> string \<Rightarrow> string list" where
  "split_on d [] = [[]]"
| "split_on d (c # cs) =
     (if c = d then [] # split_on d cs
      else case split_on d cs of [] \<Rightarrow> [[c]] | w # ws \<Rightarrow> (c # w) # ws)"

fun str_join :: "string \<Rightarrow> string list \<Rightarrow> string" where
  "str_join sep [] = []"
| "str_join sep [x] = x"
| "str_join sep (x # y # ys) = x @ sep @ str_join sep (y # ys)"

lemma split_on_not_Nil [simp]: "split_on d s \<noteq> []"
  by (induction s) (auto split: list.splits)

lemma str_join_split_on: "str_join [d] (split_on d s) = s"
proof (induction s)
  case (Cons c cs)
  obtain w ws where w: "split_on d cs = w # ws"
    by (meson neq_Nil_conv split_on_not_Nil)
  show ?case
    using Cons.IH w by (cases ws) auto
qed simp

lemma split_on_no_sep: "d \<notin> set s \<Longrightarrow> split_on d s = [s]"
  by (induction s) auto

lemma split_on_append: "d \<notin> set a \<Longrightarrow> split_on d (a @ d # r) = a # split_on d r"
  by (induction a) auto

lemma split_on_parts: "w \<in> set (split_on d s) \<Longrightarrow> d \<notin> set w"
proof (induction s arbitrary: w)
  case (Cons c cs)
  then show ?case by (cases "split_on d cs") (auto split: if_splits)
qed simp

lemma split_on_str_join:
  "ws \<noteq> [] \<Longrightarrow> \<forall>w\<in>set ws. d \<notin> set w \<Longrightarrow> split_on d (str_join [d] ws) = ws"
  by (induction "[d]" ws rule: str_join.induct) (auto simp: split_on_no_sep split_on_append)

section \<open>Decimal numbers\<close>

definition is_digit :: "char \<Rightarrow> bool" where
  "is_digit c \<longleftrightarrow> 48 \<le> (of_char c :: nat) \<and> (of_char c :: nat) \<le> 57"

definition digit_val :: "char \<Rightarrow> nat" where
  "digit_val c = of_char c - 48"

definition dec_val :: "string \<Rightarrow> nat" where
  "dec_val s = foldl (\<lambda>n c. 10 * n + digit_val c) 0 s"

text \<open>\<^verbatim>\<open>strconv.ParseUint(s, 10, bits)\<close>: syntax errors and range errors are told apart,
  because a range error still yields the largest value.\<close>

datatype num_error = ErrSyntax | ErrRange

definition parse_uint :: "nat \<Rightarrow> string \<Rightarrow> (num_error, nat) result" where
  "parse_uint bits s =
     (if s = [] \<or> \<not> list_all is_digit s then Inl ErrSyntax
      else if dec_val s \<ge> 2 ^ bits then Inl ErrRange
      else Inr (dec_val s))"

text \<open>\<^verbatim>\<open>fmt.Sprint\<close> of a non-negative integer.\<close>

function itoa :: "nat \<Rightarrow> string" where
  "itoa n = (if n < 10 then [char_of (48 + n)] else itoa (n div 10) @ [char_of (48 + n mod 10)])"
  by pat_completeness auto
termination by (relation "measure id") auto

declare itoa.simps [simp del]

lemma digit_chars:
  "char_of (48 :: nat) = CHR ''0''" "char_of (49 :: nat) = CHR ''1''" "char_of (50 :: nat) = CHR ''2''"
  "char_of (51 :: nat) = CHR ''3''" "char_of (52 :: nat) = CHR ''4''" "char_of (53 :: nat) = CHR ''5''"
  "char_of (54 :: nat) = CHR ''6''" "char_of (55 :: nat) = CHR ''7''" "char_of (56 :: nat) = CHR ''8''"
  "char_of (57 :: nat) = CHR ''9''"
  by (simp_all add: char_of_eq_iff)

lemmas itoa_eval = itoa.simps digit_chars

lemma of_char_digit: "d < 10 \<Longrightarrow> (of_char (char_of (48 + d) :: char) :: nat) = 48 + d"
  by (simp add: of_char_of)

lemma itoa_not_Nil [simp]: "itoa n \<noteq> []"
  by (subst itoa.simps) simp

lemma itoa_digits: "list_all is_digit (itoa n)"
proof (induction n rule: itoa.induct)
  case (1 n)
  show ?case
  proof (cases "n < 10")
    case True
    then show ?thesis by (subst itoa.simps) (simp add: is_digit_def of_char_of)
  next
    case False
    have "list_all is_digit (itoa (n div 10))" using 1 False by simp
    moreover have "is_digit (char_of (48 + n mod 10))" by (simp add: is_digit_def of_char_of)
    ultimately show ?thesis using False by (subst itoa.simps) simp
  qed
qed

lemma dec_val_snoc: "dec_val (s @ [c]) = 10 * dec_val s + digit_val c"
  by (simp add: dec_val_def)

lemma dec_val_itoa [simp]: "dec_val (itoa n) = n"
proof (induction n rule: itoa.induct)
  case (1 n)
  show ?case
  proof (cases "n < 10")
    case True
    then show ?thesis by (subst itoa.simps) (simp add: dec_val_def digit_val_def of_char_of)
  next
    case False
    have "dec_val (itoa (n div 10)) = n div 10" using 1 False by simp
    moreover have "digit_val (char_of (48 + n mod 10)) = n mod 10"
      by (simp add: digit_val_def of_char_of)
    ultimately show ?thesis using False by (subst itoa.simps) (simp add: dec_val_snoc)
  qed
qed

lemma itoa_inject [simp]: "itoa m = itoa n \<longleftrightarrow> m = n"
  by (metis dec_val_itoa)

lemma parse_uint_itoa: "n < 2 ^ bits \<Longrightarrow> parse_uint bits (itoa n) = Inr n"
  by (simp add: parse_uint_def itoa_digits)

definition itoa_int :: "int \<Rightarrow> string" where
  "itoa_int i = (if i < 0 then ''-'' @ itoa (nat (- i)) else itoa (nat i))"

lemma itoa_int_of_nat [simp]: "itoa_int (int n) = itoa n"
  by (simp add: itoa_int_def)

lemma hd_itoa_digit: "is_digit (hd (itoa n))"
  using itoa_digits[of n] itoa_not_Nil[of n] by (cases "itoa n") auto

lemma itoa_int_inject [simp]: "itoa_int i = itoa_int j \<longleftrightarrow> i = j"
proof -
  have "itoa n \<noteq> CHR ''-'' # r" for n r
    using hd_itoa_digit[of n] by (auto simp: is_digit_def)
  then show ?thesis unfolding itoa_int_def by (auto simp: not_less dest: sym)
qed

lemma itoa_no_char: "\<not> is_digit c \<Longrightarrow> c \<notin> set (itoa n)"
  using itoa_digits[of n] by (auto simp: list_all_iff)

lemma takeWhile_itoa: "\<not> is_digit c \<Longrightarrow> takeWhile is_digit (itoa n @ c # r) = itoa n"
  using itoa_digits[of n] by (simp add: list_all_iff takeWhile_append2)

end
