(* ===== verification/Stream_Message.thy ===== *)
theory Stream_Message
  imports Prelude
begin

text \<open>
  The message type of \<^verbatim>\<open>base/stream/message.go\<close>: a 64-bit meta word that packs the exit code
  (bits 32 to 63), the level (bits 16 to 31) and the flags (bits 0 to 15).
\<close>

type_synonym flag = "16 word"
type_synonym meta = "64 word"

definition StreamFlag :: flag where "StreamFlag = 1"
definition ExitSuccessFlag :: flag where "ExitSuccessFlag = 2"
definition ExitErrorFlag :: flag where "ExitErrorFlag = 4"

definition NewMeta :: "16 word \<Rightarrow> flag list \<Rightarrow> meta" where
  "NewMeta level flags =
     ucast (fold (\<lambda>f m. m OR ucast f) flags (push_bit 16 (ucast level :: 32 word)))"

definition NewMetaWithCode :: "32 word \<Rightarrow> 16 word \<Rightarrow> flag list \<Rightarrow> meta" where
  "NewMetaWithCode code level flags = push_bit 32 (ucast code :: meta) OR NewMeta level flags"

definition Level :: "meta \<Rightarrow> 16 word" where
  "Level m = ucast (drop_bit 16 m AND 0xffff)"

definition Assert :: "meta \<Rightarrow> 16 word list \<Rightarrow> bool" where
  "Assert m levels \<longleftrightarrow> list_ex (\<lambda>lv. Level m = lv) levels"

definition Is :: "meta \<Rightarrow> flag \<Rightarrow> bool" where
  "Is m f \<longleftrightarrow> (ucast m :: 16 word) AND f \<noteq> 0"

definition SetFlag :: "meta \<Rightarrow> flag \<Rightarrow> meta" where
  "SetFlag m f = m OR ucast f"

definition Code :: "meta \<Rightarrow> 32 word" where
  "Code m = ucast (drop_bit 32 m)"

definition Base :: "meta \<Rightarrow> meta" where
  "Base m = m AND 0xffffffff"

record message =
  msg_text :: string
  msg_epoch :: int
  msg_meta :: meta

text \<open>\<^verbatim>\<open>(*Message).String\<close>\<close>

definition message_String :: "message \<Rightarrow> string" where
  "message_String m = itoa (unat (Level (msg_meta m))) @ ''|'' @ msg_text m"

section \<open>The bits of a meta word\<close>

lemma bit_0xffff [bits_simps]: "bit (0xffff :: 64 word) n \<longleftrightarrow> n < 16"
proof -
  have "(0xffff :: 64 word) = mask 16" by (simp add: mask_eq_exp_minus_1)
  then show ?thesis by (simp only: bit_mask_iff) auto
qed

lemma bit_0xffffffff [bits_simps]: "bit (0xffffffff :: 64 word) n \<longleftrightarrow> n < 32"
proof -
  have "(0xffffffff :: 64 word) = mask 32" by (simp add: mask_eq_exp_minus_1)
  then show ?thesis by (simp only: bit_mask_iff) auto
qed

lemma fold_or_bit [bits_simps]:
  "bit (fold (\<lambda>f m. m OR ucast f) fs (w :: 32 word)) n \<longleftrightarrow>
     bit w n \<or> (\<exists>f\<in>set fs. bit (f :: flag) n)"
  by (induction fs arbitrary: w) (auto simp: bit_simps dest: bit_imp_le_length)

lemma bit_NewMeta [bits_simps]:
  "bit (NewMeta level flags) n \<longleftrightarrow>
     (16 \<le> n \<and> bit level (n - 16)) \<or> (\<exists>f\<in>set flags. bit f n)"
proof -
  have a: "bit level (n - 16) \<Longrightarrow> 16 \<le> n \<Longrightarrow> n < 32"
    using bit_imp_le_length[of level "n - 16"] by simp
  have b: "bit f n \<Longrightarrow> n < 32" for f :: flag
    using bit_imp_le_length[of f n] by simp
  show ?thesis
    unfolding NewMeta_def using a b
    by (fastforce simp: bit_simps bits_simps)
qed

lemma bit_NewMetaWithCode [bits_simps]:
  "bit (NewMetaWithCode code level flags) n \<longleftrightarrow>
     (32 \<le> n \<and> bit code (n - 32)) \<or> (16 \<le> n \<and> bit level (n - 16)) \<or> (\<exists>f\<in>set flags. bit f n)"
proof -
  have a: "bit code (n - 32) \<Longrightarrow> 32 \<le> n \<Longrightarrow> n < 64"
    using bit_imp_le_length[of code "n - 32"] by simp
  show ?thesis
    unfolding NewMetaWithCode_def using a by (auto simp: bit_simps bits_simps)
qed

lemma bit_Level [bits_simps]: "bit (Level m) n \<longleftrightarrow> n < 16 \<and> bit m (16 + n)"
  unfolding Level_def by (simp only: bit_simps bits_simps) auto

lemma bit_Code [bits_simps]: "bit (Code m) n \<longleftrightarrow> n < 32 \<and> bit m (32 + n)"
  unfolding Code_def by (auto simp: bit_simps)

lemma bit_Base [bits_simps]: "bit (Base m) n \<longleftrightarrow> n < 32 \<and> bit m n"
  unfolding Base_def by (simp only: bit_and_iff bits_simps) auto

lemma bit_SetFlag [bits_simps]: "bit (SetFlag m f) n \<longleftrightarrow> bit m n \<or> bit f n"
  unfolding SetFlag_def by (auto simp: bit_simps dest: bit_imp_le_length)

lemma flag_bit_high: "bit (f :: flag) (16 + n) = False" "bit (f :: flag) (32 + n) = False"
  using bit_imp_le_length[of f "16 + n"] bit_imp_le_length[of f "32 + n"] by auto

lemma flag_and_neq_0: "(f :: flag) AND g \<noteq> 0 \<longleftrightarrow> (\<exists>n<16. bit f n \<and> bit g n)"
  using bit_eq_iff[of "f AND g" 0] by (auto simp: bit_simps dest: bit_imp_le_length)

lemma Is_iff: "Is m f \<longleftrightarrow> (\<exists>n<16. bit m n \<and> bit f n)"
  unfolding Is_def flag_and_neq_0 by (auto simp: bit_simps)

lemma level_bit_high: "bit (level :: 16 word) (16 + n) = False"
  using bit_imp_le_length[of level "16 + n"] by auto

lemma Level_NewMetaWithCode [simp]: "Level (NewMetaWithCode code level flags) = level"
  by (rule bit_word_eqI) (auto simp: bits_simps flag_bit_high dest: bit_imp_le_length)

lemma Level_NewMeta [simp]: "Level (NewMeta level flags) = level"
  by (rule bit_word_eqI) (auto simp: bits_simps flag_bit_high dest: bit_imp_le_length)

lemma Code_NewMetaWithCode [simp]: "Code (NewMetaWithCode code level flags) = code"
proof (rule bit_word_eqI)
  fix n assume "n < LENGTH(32)"
  then show "bit (Code (NewMetaWithCode code level flags)) n = bit code n"
    using level_bit_high[of level n] level_bit_high[of level "16 + n"]
    by (auto simp: bits_simps flag_bit_high)
qed

lemma Code_NewMeta [simp]: "Code (NewMeta level flags) = 0"
  by (rule bit_word_eqI) (use level_bit_high[of level] in \<open>auto simp: bits_simps flag_bit_high dest: bit_imp_le_length\<close>)

lemma Is_NewMetaWithCode: "Is (NewMetaWithCode code level flags) f \<longleftrightarrow> (\<exists>g\<in>set flags. g AND f \<noteq> 0)"
  unfolding Is_iff flag_and_neq_0 by (auto simp: bits_simps)

lemma Is_NewMeta: "Is (NewMeta level flags) f \<longleftrightarrow> (\<exists>g\<in>set flags. g AND f \<noteq> 0)"
  unfolding Is_iff flag_and_neq_0 by (auto simp: bits_simps)

lemma Level_SetFlag [simp]: "Level (SetFlag m f) = Level m"
  by (rule bit_word_eqI) (auto simp: bits_simps flag_bit_high)

lemma Code_SetFlag [simp]: "Code (SetFlag m f) = Code m"
  by (rule bit_word_eqI) (auto simp: bits_simps flag_bit_high)

lemma Is_SetFlag: "Is (SetFlag m f) g \<longleftrightarrow> Is m g \<or> f AND g \<noteq> 0"
  unfolding Is_iff flag_and_neq_0 by (auto simp: bits_simps)

lemma Base_NewMetaWithCode [simp]: "Base (NewMetaWithCode code level flags) = NewMeta level flags"
  by (rule bit_word_eqI)
    (use level_bit_high[of level] in \<open>auto simp: bits_simps dest: bit_imp_le_length\<close>)

end
