(* ===== verification/Stream_Input.thy ===== *)
theory Stream_Input
  imports Stream_Message "HOL-Library.Sublist"
begin

text \<open>
  The stream parser of \<^verbatim>\<open>base/stream/input.go\<close>.  A process writes lines to its output; a line
  that starts with \<^verbatim>\<open><level>::\<close> is a message of that level, a line that starts with
  \<^verbatim>\<open><level>:::\<close> opens a message that runs to the line \<^verbatim>\<open>:::\<close>, and everything else is
  plain text of the default level of the stream.  The handler is called once per message; the
  model returns the messages in the order of the calls.
\<close>

section \<open>Runes\<close>

text \<open>The width of the first rune of a string, as Go's \<^verbatim>\<open>range\<close> over a string decodes it: one
  for ASCII and for every invalid encoding.\<close>

definition cont_byte :: "nat \<Rightarrow> nat \<Rightarrow> char \<Rightarrow> bool" where
  "cont_byte lo hi c \<longleftrightarrow> lo \<le> (of_char c :: nat) \<and> (of_char c :: nat) \<le> hi"

definition lead_width :: "nat \<Rightarrow> nat" where
  "lead_width b0 =
     (if 194 \<le> b0 \<and> b0 \<le> 223 then 2
      else if 224 \<le> b0 \<and> b0 \<le> 239 then 3
      else if 240 \<le> b0 \<and> b0 \<le> 244 then 4
      else 1)"

definition rune_width :: "string \<Rightarrow> nat" where
  "rune_width s = (case s of [] \<Rightarrow> 1 | c0 # r \<Rightarrow>
     let b0 = (of_char c0 :: nat);
         n = lead_width b0;
         lo = (if b0 = 224 then 160 else if b0 = 240 then 144 else 128);
         hi = (if b0 = 237 then 159 else if b0 = 244 then 143 else 191) in
     if 1 < n \<and> n \<le> length s \<and> cont_byte lo hi (hd r) \<and> list_all (cont_byte 128 191) (take (n - 1) r)
     then n else 1)"

lemma rune_width_pos [simp]: "0 < rune_width s"
  by (auto simp: rune_width_def Let_def split: list.splits)

definition high_byte :: "char \<Rightarrow> bool" where
  "high_byte c \<longleftrightarrow> 128 \<le> (of_char c :: nat)"

lemma rune_tail_high: "list_all high_byte (take (rune_width s - 1) (drop 1 s))"
  by (cases s) (auto simp: rune_width_def Let_def list_all_iff cont_byte_def high_byte_def)

lemma rune_width_le: "s \<noteq> [] \<Longrightarrow> rune_width s \<le> length s"
  by (auto simp: rune_width_def Let_def split: list.splits)

section \<open>Ends of lines\<close>

abbreviation nl :: char where "nl \<equiv> CHR 0x0A"
abbreviation colon :: char where "colon \<equiv> CHR '':''"

text \<open>The loop of \<^verbatim>\<open>newLineOrEOF\<close>: \<open>i\<close> is the offset of the rest \<open>b\<close>, \<open>l\<close> the last value of the
  loop variable.\<close>

function nl_scan :: "nat \<Rightarrow> string \<Rightarrow> nat \<Rightarrow> nat" where
  "nl_scan i b l =
     (case b of [] \<Rightarrow> l
      | c # cs \<Rightarrow> if c = nl then i else nl_scan (i + rune_width b) (drop (rune_width b) b) i)"
  by pat_completeness auto
termination by (relation "measure (\<lambda>(i, b, l). length b)") auto

declare nl_scan.simps [simp del]

definition newLineOrEOF :: "string \<Rightarrow> nat" where
  "newLineOrEOF b = (let i = nl_scan 0 b 0 in if i + 1 = length b then i + 1 else i)"

section \<open>Headers\<close>

record header =
  h_level :: "16 word"
  h_multiline :: bool
  h_length :: nat

text \<open>\<^verbatim>\<open>headerPattern\<close>, the regular expression for digits followed by two or three colons
  at the start: the digits and the colons it matches.\<close>

definition header_match :: "string \<Rightarrow> (string \<times> string) option" where
  "header_match s =
     (let ds = takeWhile is_digit s;
          cs = take 3 (takeWhile (\<lambda>c. c = colon) (drop (length ds) s))
      in if ds \<noteq> [] \<and> 2 \<le> length cs then Some (ds, cs) else None)"

text \<open>The error of \<^verbatim>\<open>ParseUint\<close> is dropped: a level out of range becomes the largest one.\<close>

definition getHeaderFromMatch :: "string \<times> string \<Rightarrow> header" where
  "getHeaderFromMatch m =
     \<lparr>h_level = (case parse_uint 16 (fst m) of Inr n \<Rightarrow> of_nat n | Inl ErrRange \<Rightarrow> 0xffff | Inl ErrSyntax \<Rightarrow> 0),
      h_multiline = (length (snd m) = 3),
      h_length = length (fst m) + length (snd m)\<rparr>"

definition find_header :: "string \<Rightarrow> header option" where
  "find_header s = map_option getHeaderFromMatch (header_match s)"

lemma find_header_length:
  assumes "find_header s = Some h"
  shows "3 \<le> h_length h" and "h_length h \<le> length s"
proof -
  from assms obtain ds cs where m: "header_match s = Some (ds, cs)"
    and h: "h = getHeaderFromMatch (ds, cs)"
    by (auto simp: find_header_def)
  from m have ds: "ds = takeWhile is_digit s" and "ds \<noteq> []"
    and cs: "cs = take 3 (takeWhile (\<lambda>c. c = colon) (drop (length ds) s))"
    and n2: "2 \<le> length cs"
    by (auto simp: header_match_def Let_def split: if_splits)
  from \<open>ds \<noteq> []\<close> have "1 \<le> length ds" by (simp add: Suc_leI)
  with n2 h show "3 \<le> h_length h" by (simp add: getHeaderFromMatch_def)
  have "length cs \<le> length (drop (length ds) s)"
    unfolding cs using length_takeWhile_le[of "\<lambda>c. c = colon" "drop (length ds) s"] by simp
  moreover have "length ds \<le> length s" unfolding ds by (rule length_takeWhile_le)
  ultimately show "h_length h \<le> length s" using h by (simp add: getHeaderFromMatch_def)
qed

section \<open>Processing one buffer\<close>

definition slice :: "string \<Rightarrow> nat \<Rightarrow> nat \<Rightarrow> string" where
  "slice b s e = take (e - s) (drop s b)"

definition multiLineTerm :: string where
  "multiLineTerm = [nl, colon, colon, colon, nl]"

definition text_message :: "16 word \<Rightarrow> string \<Rightarrow> message" where
  "text_message level t = \<lparr>msg_text = t, msg_epoch = 0, msg_meta = NewMeta level []\<rparr>"

text \<open>The scanning loop of \<^verbatim>\<open>process\<close>, from position \<open>i\<close> with unsent text from \<open>start\<close>.  It
  returns the messages, the final \<open>start\<close> and the multi-line message it opened, if any.\<close>

function scan :: "16 word \<Rightarrow> string \<Rightarrow> nat \<Rightarrow> nat \<Rightarrow> message list \<times> nat \<times> (16 word \<times> string) option" where
  "scan lv buf i start =
     (if i < length buf then
        (case find_header (drop i buf) of
           None \<Rightarrow> scan lv buf (i + newLineOrEOF (drop i buf) + 1) start
         | Some h \<Rightarrow>
             let pre = (if start < i then [text_message lv (slice buf start i)] else []);
                 j = i + h_length h in
             if \<not> h_multiline h then
               let k = j + newLineOrEOF (drop j buf);
                   msg = (if k = length buf then slice buf j k else slice buf j (k + 1));
                   (out, st, m) = scan lv buf (k + 1) (k + 1)
               in (pre @ text_message (h_level h) msg # out, st, m)
             else (case str_index multiLineTerm (drop j buf) of
                 Some e \<Rightarrow>
                   let k = j + e + length multiLineTerm;
                       (out, st, m) = scan lv buf (k + 1) k
                   in (pre @ text_message (h_level h) (slice buf j (j + e)) # out, st, m)
               | None \<Rightarrow> (pre, length buf, Some (h_level h, drop j buf))))
      else ([], start, None))"
  by pat_completeness auto
termination by (relation "measure (\<lambda>(lv, buf, i, start). length buf - i)") auto

declare scan.simps [simp del]

record consumer =
  c_level :: "16 word"
  c_multi :: "string option"
  c_multiLevel :: "16 word"

text \<open>The part of \<^verbatim>\<open>process\<close> that continues a multi-line message: the messages, the new
  consumer, and the rest of the buffer unless the function returned.\<close>

definition process_multi :: "consumer \<Rightarrow> string \<Rightarrow> message list \<times> consumer \<times> string option" where
  "process_multi c buf =
     (case c_multi c of
        None \<Rightarrow> ([], c, Some buf)
      | Some m \<Rightarrow>
          if m \<noteq> [] \<and> last m = nl \<and> has_prefix [colon, colon, colon, nl] buf then
            ([text_message (c_multiLevel c) m], c\<lparr>c_multi := None\<rparr>, Some (drop 4 buf))
          else (case str_index multiLineTerm buf of
              Some e \<Rightarrow> ([text_message (c_multiLevel c) (m @ take e buf)], c\<lparr>c_multi := None\<rparr>,
                         Some (drop (e + length multiLineTerm) buf))
            | None \<Rightarrow> ([], c\<lparr>c_multi := Some (m @ buf)\<rparr>, None)))"

definition process_buffer :: "consumer \<Rightarrow> string \<Rightarrow> message list \<times> consumer" where
  "process_buffer c buf =
     (case scan (c_level c) buf 0 0 of (out, start, m) \<Rightarrow>
        (out @ (if start < length buf then [text_message (c_level c) (drop start buf)] else []),
         (case m of None \<Rightarrow> c
          | Some (l, t) \<Rightarrow> c\<lparr>c_multi := Some t, c_multiLevel := l\<rparr>)))"

definition process :: "consumer \<Rightarrow> string \<Rightarrow> message list \<times> consumer" where
  "process c buf =
     (case process_multi c buf of
        (out, c', None) \<Rightarrow> (out, c')
      | (out, c', Some rest) \<Rightarrow> (case process_buffer c' rest of (out', c'') \<Rightarrow> (out @ out', c'')))"

section \<open>Consuming a stream\<close>

text \<open>What one \<^verbatim>\<open>Read\<close> of the source returns: data, data with the end of the stream, or an
  error.\<close>

datatype read_result = ReadData string | ReadEOF string | ReadError string

text \<open>\<^verbatim>\<open>consume\<close> over the reads the source delivers: the messages, the final state, and whether the
  loop returned (\<open>Some None\<close> without error, \<open>Some (Some e)\<close> with one, \<open>None\<close> still reading).\<close>

fun consume :: "consumer \<Rightarrow> read_result list \<Rightarrow> message list \<times> consumer \<times> string option option" where
  "consume c [] = ([], c, None)"
| "consume c (ReadError e # rs) = ([], c, Some (Some e))"
| "consume c (ReadEOF b # rs) = (case process c b of (out, c') \<Rightarrow> (out, c', Some None))"
| "consume c (ReadData b # rs) =
     (case process c b of (out, c') \<Rightarrow>
        (case consume c' rs of (out', c'', r) \<Rightarrow> (out @ out', c'', r)))"

text \<open>\<^verbatim>\<open>Consume\<close>: the consumer a stream starts with.\<close>

definition new_consumer :: "16 word \<Rightarrow> consumer" where
  "new_consumer lv = \<lparr>c_level = lv, c_multi = None, c_multiLevel = 0\<rparr>"

section \<open>Where a line ends\<close>

lemma nl_not_high: "\<not> high_byte nl"
  by (simp add: high_byte_def of_char_of)

lemma high_not_nl: "high_byte c \<Longrightarrow> c \<noteq> nl"
  using nl_not_high by auto

lemma high_not_digit: "high_byte c \<Longrightarrow> \<not> is_digit c"
  by (simp add: high_byte_def is_digit_def)

lemma rune_prefix_no_nl:
  assumes "c \<noteq> nl"
  shows "nl \<notin> set (take (rune_width (c # cs)) (c # cs))"
proof -
  have "take (rune_width (c # cs)) (c # cs) = c # take (rune_width (c # cs) - 1) cs"
    using rune_width_pos[of "c # cs"] by (cases "rune_width (c # cs)") auto
  moreover have "nl \<notin> set (take (rune_width (c # cs) - 1) cs)"
    using rune_tail_high[of "c # cs"] nl_not_high by (auto simp: list_all_iff)
  ultimately show ?thesis using assms by auto
qed

abbreviation line_len :: "string \<Rightarrow> nat" where
  "line_len b \<equiv> length (takeWhile (\<lambda>c. c \<noteq> nl) b)"

lemma line_len_drop:
  assumes "nl \<notin> set (take w b)" and "w \<le> length b"
  shows "line_len b = w + line_len (drop w b)"
proof -
  have "takeWhile (\<lambda>c. c \<noteq> nl) (take w b @ drop w b) = take w b @ takeWhile (\<lambda>c. c \<noteq> nl) (drop w b)"
    using assms(1) by (intro takeWhile_append2) auto
  then show ?thesis using assms(2) by simp
qed

lemma nl_scan_found: "nl \<in> set b \<Longrightarrow> nl_scan i b l = i + line_len b"
proof (induction i b l rule: nl_scan.induct)
  case (1 i b l)
  show ?case
  proof (cases b)
    case (Cons c cs)
    show ?thesis
    proof (cases "c = nl")
      case True
      then show ?thesis using Cons by (subst nl_scan.simps) simp
    next
      case False
      let ?w = "rune_width b"
      have nin: "nl \<notin> set (take ?w b)" using rune_prefix_no_nl[OF False] Cons by simp
      have le: "?w \<le> length b" using rune_width_le[of b] Cons by simp
      have "nl \<in> set (drop ?w b)"
        using "1.prems" nin by (metis Un_iff append_take_drop_id set_append)
      then have "nl_scan (i + ?w) (drop ?w b) i = i + ?w + line_len (drop ?w b)"
        using "1.IH"[OF Cons False] by simp
      then show ?thesis
        using line_len_drop[OF nin le] Cons False by (subst nl_scan.simps) simp
    qed
  qed (use "1.prems" in simp)
qed

lemma nl_scan_none:
  "nl \<notin> set b \<Longrightarrow> b \<noteq> [] \<Longrightarrow>
     \<exists>k < length b. nl_scan i b l = i + k \<and> list_all high_byte (drop (k + 1) b)"
proof (induction i b l rule: nl_scan.induct)
  case (1 i b l)
  obtain c cs where b: "b = c # cs" using "1.prems"(2) by (cases b) auto
  have c: "c \<noteq> nl" using "1.prems"(1) b by auto
  let ?w = "rune_width b"
  have step: "nl_scan i b l = nl_scan (i + ?w) (drop ?w b) i"
    using b c by (subst nl_scan.simps) simp
  show ?case
  proof (cases "drop ?w b = []")
    case True
    then have "list_all high_byte (drop 1 b)"
      using rune_tail_high[of b] by simp
    moreover have "nl_scan i b l = i" using step True by (simp add: nl_scan.simps)
    ultimately show ?thesis using b by (intro exI[of _ 0]) simp
  next
    case False
    have "nl \<notin> set (drop ?w b)" using "1.prems"(1) by (meson in_set_dropD)
    then obtain k where k: "k < length (drop ?w b)" "nl_scan (i + ?w) (drop ?w b) i = i + ?w + k"
      "list_all high_byte (drop (k + 1) (drop ?w b))"
      using "1.IH"[OF b c] False by auto
    then show ?thesis using step
      by (intro exI[of _ "?w + k"]) (auto simp: add.commute add.left_commute)
  qed
qed

lemma newLineOrEOF_Nil [simp]: "newLineOrEOF [] = 0"
  by (simp add: newLineOrEOF_def nl_scan.simps)

lemma newLineOrEOF_nl:
  "nl \<in> set b \<Longrightarrow> newLineOrEOF b = (if line_len b + 1 = length b then length b else line_len b)"
  by (simp add: newLineOrEOF_def nl_scan_found Let_def)

lemma newLineOrEOF_no_nl:
  assumes "nl \<notin> set b"
  shows "newLineOrEOF b \<le> length b \<and> list_all high_byte (drop (newLineOrEOF b + 1) b)"
proof (cases "b = []")
  case False
  from nl_scan_none[OF assms False, of 0 0] obtain k where
    "k < length b" "nl_scan 0 b 0 = k" "list_all high_byte (drop (k + 1) b)" by auto
  then show ?thesis by (auto simp: newLineOrEOF_def Let_def)
qed simp

lemma newLineOrEOF_le: "newLineOrEOF b \<le> length b"
proof (cases "nl \<in> set b")
  case True
  then show ?thesis using length_takeWhile_le[of "\<lambda>c. c \<noteq> nl" b] by (simp add: newLineOrEOF_nl)
qed (simp add: newLineOrEOF_no_nl)

section \<open>No byte is invented\<close>




lemma msg_text_text_message [simp]: "msg_text (text_message l t) = t"
  by (simp add: text_message_def)












section \<open>Single-line messages\<close>

lemma digit_not_colon: "\<not> is_digit colon"
  by (simp add: is_digit_def)

text \<open>The header a process writes in front of a message.\<close>

definition enc_header :: "16 word \<Rightarrow> bool \<Rightarrow> string" where
  "enc_header lv multi = itoa (unat lv) @ [colon, colon] @ (if multi then [colon] else [])"

lemma unat_level_bound: "unat (lv :: 16 word) < 2 ^ 16"
  using unsigned_less[of lv] by simp

lemma header_match_enc:
  assumes "multi \<or> r = [] \<or> hd r \<noteq> colon"
  shows "header_match (enc_header lv multi @ r) =
    Some (itoa (unat lv), replicate (if multi then 3 else 2) colon)"
proof -
  have 2: "takeWhile (\<lambda>c. c = colon) r = []" if "\<not> multi"
    using assms that by (cases r) auto
  show ?thesis
    using 2 takeWhile_itoa[OF digit_not_colon, of "unat lv"]
    by (auto simp: header_match_def enc_header_def Let_def numeral_3_eq_3 numeral_2_eq_2)
qed

lemma find_header_enc:
  assumes "multi \<or> r = [] \<or> hd r \<noteq> colon"
  shows "find_header (enc_header lv multi @ r) =
    Some \<lparr>h_level = lv, h_multiline = multi, h_length = length (enc_header lv multi)\<rparr>"
  using parse_uint_itoa[OF unat_level_bound, of lv] header_match_enc[OF assms, of lv]
  by (auto simp: find_header_def getHeaderFromMatch_def enc_header_def)

text \<open>What a process writes for one single-line message.\<close>

definition enc_line :: "16 word \<times> string \<Rightarrow> string" where
  "enc_line p = enc_header (fst p) False @ snd p @ [nl]"

definition line_ok :: "16 word \<times> string \<Rightarrow> bool" where
  "line_ok p \<longleftrightarrow> nl \<notin> set (snd p) \<and> \<not> has_prefix [colon] (snd p)"

lemma line_len_line: "nl \<notin> set t \<Longrightarrow> line_len (t @ nl # r) = length t"
  by (induction t) auto

lemma scan_end: "length b \<le> i \<Longrightarrow> scan lv b i st = ([], st, None)"
  by (simp add: scan.simps)

lemma line_ok_hd: "line_ok p \<Longrightarrow> hd (snd p @ nl # r) \<noteq> colon"
  by (cases "snd p") (auto simp: line_ok_def has_prefix_def)

lemma scan_line:
  assumes "drop i b = enc_line p @ r" "line_ok p" "i < length b"
  shows "scan lv b i start =
    (let n = (if r = [] then i + length (enc_line p) + 1 else i + length (enc_line p));
         (out, st, m) = scan lv b n n
     in ((if start < i then [text_message lv (slice b start i)] else []) @
           text_message (fst p) (snd p @ [nl]) # out, st, m))"
proof -
  let ?h = "length (enc_header (fst p) False)"
  let ?k = "i + ?h"
  have ok: "nl \<notin> set (snd p)" "False \<or> snd p @ nl # r = [] \<or> hd (snd p @ nl # r) \<noteq> colon"
    using line_ok_hd[OF assms(2)] assms(2) by (simp_all add: line_ok_def)
  have fh: "find_header (drop i b) = Some \<lparr>h_level = fst p, h_multiline = False, h_length = ?h\<rparr>"
    using find_header_enc[of False "snd p @ nl # r" "fst p"] ok(2) assms(1) unfolding enc_line_def by simp
  have d: "drop ?k b = snd p @ nl # r"
    using assms(1) by (simp add: drop_drop[symmetric] add.commute[of i] enc_line_def del: drop_drop)
  have len: "length b = ?k + length (snd p) + 1 + length r"
    using arg_cong[OF d, of length] arg_cong[OF assms(1), of length] assms(3)
    by (simp add: enc_line_def)
  have nle: "newLineOrEOF (drop ?k b) = (if r = [] then length (snd p) + 1 else length (snd p))"
    using newLineOrEOF_nl[of "snd p @ nl # r"] ok(1) unfolding d by (simp add: line_len_line)
  have sl: "slice b ?k (?k + length (snd p) + 1) = snd p @ [nl]" "slice b ?k (?k + (length (snd p) + 1)) = snd p @ [nl]"
    by (simp_all add: slice_def d)
  show ?thesis
    using assms(3) fh nle sl len
    by (subst scan.simps) (auto simp: Let_def enc_line_def add.assoc split: prod.splits)
qed

lemma scan_lines:
  "drop i b = concat (map enc_line ps) \<Longrightarrow> list_all line_ok ps \<Longrightarrow> i \<le> length b \<Longrightarrow>
     \<exists>st \<ge> length b. scan lv b i i = (map (\<lambda>p. text_message (fst p) (snd p @ [nl])) ps, st, None)"
proof (induction ps arbitrary: i)
  case Nil
  then show ?case by (simp add: scan_end)
next
  case (Cons p ps)
  let ?r = "concat (map enc_line ps)"
  let ?n = "i + length (enc_line p)"
  have d: "drop i b = enc_line p @ ?r" using Cons.prems by simp
  have "enc_line p \<noteq> []" by (simp add: enc_line_def)
  with d have i: "i < length b" by (metis append_is_Nil_conv drop_eq_Nil linorder_not_le)
  have dn: "drop ?n b = ?r" using d by (metis add.commute append_eq_conv_conj drop_drop)
  have n: "?n \<le> length b" using arg_cong[OF d, of length] i by simp
  obtain st where st: "length b \<le> st"
    "scan lv b ?n ?n = (map (\<lambda>p. text_message (fst p) (snd p @ [nl])) ps, st, None)"
    using Cons.IH[OF dn] Cons.prems n by auto
  have ok: "line_ok p" using Cons.prems by simp
  show ?case
  proof (cases "?r = []")
    case True
    then have "ps = []" by (cases ps) (auto simp: enc_line_def)
    moreover have "length b = ?n" using True dn n by (metis drop_eq_Nil le_antisym)
    ultimately show ?thesis using scan_line[OF d ok i, of lv i] True by (auto simp: scan_end)
  next
    case False
    then show ?thesis using scan_line[OF d ok i, of lv i] st by (auto simp: Let_def)
  qed
qed

lemma process_lines:
  assumes "c_multi c = None" "list_all line_ok ps"
  shows "process c (concat (map enc_line ps)) = (map (\<lambda>p. text_message (fst p) (snd p @ [nl])) ps, c)"
proof -
  obtain st where "length (concat (map enc_line ps)) \<le> st"
    "scan (c_level c) (concat (map enc_line ps)) 0 0 =
       (map (\<lambda>p. text_message (fst p) (snd p @ [nl])) ps, st, None)"
    using scan_lines[of 0 "concat (map enc_line ps)" ps] assms(2) by auto
  then show ?thesis using assms(1) by (simp add: process_def process_multi_def process_buffer_def)
qed

section \<open>Multi-line messages\<close>

lemma drop_append_enc: "drop (length (enc_header lv m)) (enc_header lv m @ r) = r"
  by simp

lemma enc_header_pos: "0 < length (enc_header lv m)"
  by (simp add: enc_header_def)

lemma process_multi_open:
  assumes "c_multi c = None" "str_index multiLineTerm b = None"
  shows "process c (enc_header lv True @ b) = ([], c\<lparr>c_multi := Some b, c_multiLevel := lv\<rparr>)"
proof -
  have "find_header (enc_header lv True @ b) =
      Some \<lparr>h_level = lv, h_multiline = True, h_length = length (enc_header lv True)\<rparr>"
    by (rule find_header_enc) simp
  then have "scan (c_level c) (enc_header lv True @ b) 0 0 =
      ([], length (enc_header lv True @ b), Some (lv, b))"
    using assms(2) enc_header_pos[of lv True] by (subst scan.simps) (simp add: Let_def)
  then show ?thesis
    using assms(1) by (simp add: process_def process_multi_def process_buffer_def)
qed

lemma multi_tail_occurs:
  assumes "m \<noteq> []" "last m = nl" "has_prefix [colon, colon, colon, nl] b"
  shows "\<exists>r. m @ b = butlast m @ multiLineTerm @ r"
proof -
  from assms(3) obtain r where "b = [colon, colon, colon, nl] @ r" by (auto simp: has_prefix_iff)
  moreover have "m = butlast m @ [nl]" using assms(1,2) by (metis append_butlast_last_id)
  ultimately have "m @ b = butlast m @ multiLineTerm @ r"
    by (metis append.assoc append_Cons append_Nil multiLineTerm_def)
  then show ?thesis ..
qed

lemma process_multi_more:
  assumes "c_multi c = Some m" "str_index multiLineTerm (m @ b) = None"
  shows "process c b = ([], c\<lparr>c_multi := Some (m @ b)\<rparr>)"
proof -
  have "\<not> (m \<noteq> [] \<and> last m = nl \<and> has_prefix [colon, colon, colon, nl] b)"
    using multi_tail_occurs[of m b] assms(2) str_index_occurs[of multiLineTerm "m @ b"] by auto
  moreover have "str_index multiLineTerm b = None"
  proof (rule ccontr)
    assume "\<not> ?thesis"
    then obtain x y where "b = x @ multiLineTerm @ y" using str_index_occurs by blast
    then have "m @ b = (m @ x) @ multiLineTerm @ y" by simp
    then show False using assms(2) str_index_occurs[of multiLineTerm "m @ b"] by blast
  qed
  ultimately show ?thesis using assms(1) by (auto simp: process_def process_multi_def)
qed

lemma process_multi_end:
  assumes "c_multi c = Some m"
    and first: "str_index multiLineTerm (m @ b @ multiLineTerm) = Some (length (m @ b))"
  shows "process c (b @ multiLineTerm) =
    ([text_message (c_multiLevel c) (m @ b)], c\<lparr>c_multi := None\<rparr>)"
proof -
  have 1: "\<not> (m \<noteq> [] \<and> last m = nl \<and> has_prefix [colon, colon, colon, nl] (b @ multiLineTerm))"
  proof
    assume a: "m \<noteq> [] \<and> last m = nl \<and> has_prefix [colon, colon, colon, nl] (b @ multiLineTerm)"
    then obtain r where "m @ b @ multiLineTerm = butlast m @ multiLineTerm @ r"
      using multi_tail_occurs[of m "b @ multiLineTerm"] by auto
    then have "length (m @ b) \<le> length (butlast m)" using str_index_least first by metis
    moreover have "length (butlast m) < length m" using a by simp
    ultimately show False unfolding length_append by linarith
  qed
  obtain i where i: "str_index multiLineTerm (b @ multiLineTerm) = Some i"
    using str_index_occurs[of multiLineTerm "b @ multiLineTerm"] by (metis append_Nil2 not_None_eq)
  have "i \<le> length b" using str_index_least[of multiLineTerm b "[]" i] i by simp
  moreover have "length b \<le> i"
  proof -
    have "b @ multiLineTerm = take i (b @ multiLineTerm) @ multiLineTerm
        @ drop (i + length multiLineTerm) (b @ multiLineTerm)"
      by (rule str_index_split[OF i])
    then have "m @ b @ multiLineTerm = (m @ take i (b @ multiLineTerm)) @ multiLineTerm
        @ drop (i + length multiLineTerm) (b @ multiLineTerm)"
      by (metis append.assoc)
    then have "length (m @ b) \<le> length (m @ take i (b @ multiLineTerm))"
      using str_index_least first by metis
    then show ?thesis by simp
  qed
  ultimately have "i = length b" by simp
  with i have i': "str_index multiLineTerm (b @ multiLineTerm) = Some (length b)" by simp
  have "process_multi c (b @ multiLineTerm) =
      ([text_message (c_multiLevel c) (m @ b)], c\<lparr>c_multi := None\<rparr>, Some [])"
    unfolding process_multi_def assms(1) option.case if_not_P[OF 1] i' by simp
  then show ?thesis by (simp add: process_def process_buffer_def scan_end)
qed

lemma consume_multi_more:
  assumes "c_multi c = Some m"
    and "str_index multiLineTerm (m @ concat bs @ b @ multiLineTerm) = Some (length (m @ concat bs @ b))"
  shows "consume c (map ReadData bs @ [ReadEOF (b @ multiLineTerm)]) =
    ([text_message (c_multiLevel c) (m @ concat bs @ b)], c\<lparr>c_multi := None\<rparr>, Some None)"
  using assms
proof (induction bs arbitrary: c m)
  case Nil
  then show ?case using process_multi_end[of c m b] by simp
next
  case (Cons x bs)
  have "str_index multiLineTerm (m @ x) = None"
  proof (rule ccontr)
    assume "\<not> ?thesis"
    then obtain u v where uv: "m @ x = u @ multiLineTerm @ v" using str_index_occurs by blast
    then have "m @ concat (x # bs) @ b @ multiLineTerm
        = u @ multiLineTerm @ (v @ concat bs @ b @ multiLineTerm)"
      by (metis append.assoc concat.simps(2))
    then have "length (m @ concat (x # bs) @ b) \<le> length u"
      using str_index_least Cons.prems(2) by metis
    then show False using arg_cong[OF uv, of length] by (simp add: multiLineTerm_def)
  qed
  then have p: "process c x = ([], c\<lparr>c_multi := Some (m @ x)\<rparr>)"
    by (rule process_multi_more[OF Cons.prems(1)])
  show ?case using Cons.IH[of "c\<lparr>c_multi := Some (m @ x)\<rparr>" "m @ x"] Cons.prems(2) p by simp
qed

section \<open>Properties\<close>


text \<open>Single-line messages round trip: the lines a process writes as \<^verbatim>\<open><level>::<text>\<close> come
  back as exactly those messages, in order, with their 16-bit level and their newline, and the
  parser is back in its initial state.\<close>

theorem process_single_lines:
  assumes "c_multi c = None"
    and "list_all line_ok ps"
  shows "process c (concat (map enc_line ps)) =
    (map (\<lambda>p. text_message (fst p) (snd p @ [nl])) ps, c)"
  using assms by (rule process_lines)

lemma process_single_lines_witness:
  "process (new_consumer 1) (''2::ab'' @ [nl] @ ''20::{}'' @ [nl]) =
     ([text_message 2 (''ab'' @ [nl]), text_message 20 (''{}'' @ [nl])], new_consumer 1)"
  using process_single_lines[of "new_consumer 1" "[(2, ''ab''), (20, ''{}'')]"]
  by (simp add: new_consumer_def line_ok_def has_prefix_def enc_line_def enc_header_def itoa_eval)

text \<open>C8: A multi-line message is reassembled whatever way its body is cut into reads, as long as
  the terminator arrives in one read: exactly one message is emitted, with the level of the header
  and the whole body.\<close>

theorem consume_multi_reassembles:
  assumes "c_multi c = None"
    and "str_index multiLineTerm (b0 @ concat bs @ b @ multiLineTerm) = Some (length (b0 @ concat bs @ b))"
  shows "consume c (ReadData (enc_header lv True @ b0) # map ReadData bs @ [ReadEOF (b @ multiLineTerm)]) =
    ([text_message lv (b0 @ concat bs @ b)], c\<lparr>c_multi := None, c_multiLevel := lv\<rparr>, Some None)"
proof -
  have "str_index multiLineTerm b0 = None"
  proof (rule ccontr)
    assume "\<not> ?thesis"
    then obtain u v where uv: "b0 = u @ multiLineTerm @ v" using str_index_occurs by blast
    then have "b0 @ concat bs @ b @ multiLineTerm = u @ multiLineTerm @ (v @ concat bs @ b @ multiLineTerm)"
      by simp
    then have "length (b0 @ concat bs @ b) \<le> length u" using str_index_least assms(2) by metis
    then show False using arg_cong[OF uv, of length] by (simp add: multiLineTerm_def)
  qed
  from process_multi_open[OF assms(1) this, of lv] show ?thesis
    using consume_multi_more[of "c\<lparr>c_multi := Some b0, c_multiLevel := lv\<rparr>" b0 bs b] assms(2) by simp
qed

lemma consume_multi_reassembles_witness:
  "fst (consume (new_consumer 1)
     (ReadData ''20:::a'' # map ReadData [''b'', ''c''] @ [ReadEOF (''d'' @ multiLineTerm)])) =
   [text_message 20 ''abcd'']"
  using consume_multi_reassembles[of "new_consumer 1" "''a''" "[''b'', ''c'']" "''d''" 20]
  by (simp add: new_consumer_def enc_header_def itoa_eval multiLineTerm_def has_prefix_def)

text \<open>The scan of \<^verbatim>\<open>process\<close> after a complete multi-line message starts one byte too late: the
  loop variable is set to the position after the terminator and the loop increments it.\<close>

lemma scan_after_multi:
  fixes lv :: "16 word" and body r :: string
  assumes "str_index multiLineTerm (body @ multiLineTerm @ r) = Some (length body)"
  defines "b \<equiv> enc_header lv True @ body @ multiLineTerm @ r"
  defines "k \<equiv> length (enc_header lv True) + length body + length multiLineTerm"
  shows "scan dl b 0 0 =
    (case scan dl b (k + 1) k of (out, st, m) \<Rightarrow> (text_message lv body # out, st, m))"
proof -
  have f: "find_header b =
      Some \<lparr>h_level = lv, h_multiline = True, h_length = length (enc_header lv True)\<rparr>"
    unfolding b_def by (rule find_header_enc) simp
  have d: "drop (length (enc_header lv True)) b = body @ multiLineTerm @ r" by (simp add: b_def)
  have len: "0 < length b" using enc_header_pos[of lv True] by (simp add: b_def)
  show ?thesis
    using f len assms(1)
    by (subst scan.simps) (simp add: Let_def d slice_def k_def split: prod.splits)
qed

lemma itoa_two_digits:
  assumes "10 \<le> n" "n < 100"
  shows "itoa n = itoa (n div 10) @ itoa (n mod 10)" and "length (itoa (n div 10)) = 1"
  using assms by (simp_all add: itoa.simps[of n] itoa.simps[of "n div 10"] itoa.simps[of "n mod 10"])

lemma enc_line_two_digits:
  assumes "10 \<le> unat l" "unat l < 100"
  shows "enc_line (l, t) = itoa (unat l div 10) @ enc_line (of_nat (unat l mod 10), t)"
proof -
  have "unat (of_nat (unat l mod 10) :: 16 word) = unat l mod 10"
    by (subst unat_of_nat) simp
  then show ?thesis using itoa_two_digits[OF assms] by (simp add: enc_line_def enc_header_def)
qed

text \<open>A result line that follows a multi-line message in the same read is misparsed: its
  two-digit level is cut, the first digit is emitted as plain text of the default level, and the
  message gets the level of the second digit (a level-20 JSON result becomes a level-0 message).\<close>

theorem process_header_after_multi_misread:
  assumes "c_multi c = None"
    and "str_index multiLineTerm (body @ multiLineTerm @ enc_line (l, t)) = Some (length body)"
    and "10 \<le> unat l" "unat l < 100" and "line_ok (l, t)"
  shows "process c (enc_header lv True @ body @ multiLineTerm @ enc_line (l, t)) =
    ([text_message lv body, text_message (c_level c) (itoa (unat l div 10)),
      text_message (of_nat (unat l mod 10)) (t @ [nl])], c)"
proof -
  let ?b = "enc_header lv True @ body @ multiLineTerm @ enc_line (l, t)"
  let ?k = "length (enc_header lv True) + length body + length multiLineTerm"
  let ?p = "(of_nat (unat l mod 10) :: 16 word, t)"
  note two = enc_line_two_digits[OF assms(3,4), of t]
  have l1: "length (itoa (unat l div 10)) = 1" using itoa_two_digits[OF assms(3,4)] by simp
  have dk: "drop ?k ?b = enc_line (l, t)" by simp
  have "drop (?k + 1) ?b = drop 1 (drop ?k ?b)" by (simp only: drop_drop add.commute)
  also have "\<dots> = enc_line ?p" unfolding dk two using l1 by simp
  finally have d: "drop (?k + 1) ?b = enc_line ?p @ []" by simp
  have i: "?k + 1 < length ?b" using l1 by (simp add: two enc_line_def[of "?p"])
  have sl: "slice ?b ?k (?k + 1) = itoa (unat l div 10)"
    unfolding slice_def dk two using l1 by simp
  have ok: "line_ok ?p" using assms(5) by (simp add: line_ok_def)
  have len: "length ?b \<le> ?k + 1 + length (enc_line ?p) + 1" using l1 by (simp add: two)
  have "scan (c_level c) ?b (?k + 1) ?k =
      ([text_message (c_level c) (itoa (unat l div 10)), text_message (of_nat (unat l mod 10)) (t @ [nl])],
       ?k + 1 + length (enc_line ?p) + 1, None)"
    unfolding scan_line[OF d ok i] sl using len by (simp add: scan_end)
  then have "scan (c_level c) ?b 0 0 =
      ([text_message lv body, text_message (c_level c) (itoa (unat l div 10)),
        text_message (of_nat (unat l mod 10)) (t @ [nl])], ?k + 1 + length (enc_line ?p) + 1, None)"
    unfolding scan_after_multi[OF assms(2)] by simp
  then show ?thesis
    using assms(1) len by (simp add: process_def process_multi_def process_buffer_def)
qed

lemma process_header_after_multi_misread_witness:
  "process (new_consumer 1) (enc_header 3 True @ ''a'' @ multiLineTerm @ enc_line (20, ''{}'')) =
    ([text_message 3 ''a'', text_message 1 ''2'', text_message 0 (''{}'' @ [nl])], new_consumer 1)"
proof -
  have "str_index multiLineTerm (''a'' @ multiLineTerm @ enc_line (20, ''{}'')) = Some (length ''a'')"
    by (simp add: multiLineTerm_def enc_line_def enc_header_def itoa_eval has_prefix_def)
  moreover have "line_ok (20, ''{}'')" by (simp add: line_ok_def has_prefix_def)
  ultimately show ?thesis
    using process_header_after_multi_misread[of "new_consumer 1" "''a''" 20 "''{}''" 3]
    by (simp add: new_consumer_def itoa_eval)
qed

end
