(* ===== verification/Bounded_Log.thy ===== *)
theory Bounded_Log
  imports Prelude
begin

text \<open>
  The interface of a bounded log, which several components of the repository use: a push at the
  end that keeps the last \<open>cap\<close> entries.  \<^verbatim>\<open>base/stream/buffer.go\<close> provides it for the output
  buffers of a job (the interpretation is here); the history of an aggregated sample provides it
  in \<^verbatim>\<open>Aggregator\<close>.
\<close>

lemma drop_last_snoc:
  "drop (length (drop (length ys - c) ys) + 1 - c) (drop (length ys - c) ys @ [x]) =
     drop (length ys + 1 - c) (ys @ [x])"
proof (cases "length ys \<le> c")
  case False
  define m where "m = length ys - c"
  have m: "m \<le> length ys" "length (drop m ys) + 1 - c = 1" "length ys + 1 - c = 1 + m"
    using False by (auto simp: m_def)
  have "drop m ys @ [x] = drop m (ys @ [x])" using m(1) by simp
  then show ?thesis unfolding m_def[symmetric] m(2,3) by (simp only: drop_drop)
qed simp

locale bounded_log =
  fixes push :: "'a \<Rightarrow> 'b \<Rightarrow> 'b"
    and contents :: "'b \<Rightarrow> 'a list"
    and cap :: "'b \<Rightarrow> nat"
  assumes contents_push:
      "length (contents b) \<le> cap b \<Longrightarrow>
         contents (push x b) = drop (length (contents b) + 1 - cap b) (contents b @ [x])"
    and cap_push: "cap (push x b) = cap b"
begin

lemma push_bound: "length (contents b) \<le> cap b \<Longrightarrow> length (contents (push x b)) \<le> cap (push x b)"
  by (auto simp: contents_push cap_push)

lemma cap_pushes: "cap (fold push xs b) = cap b"
  by (induction xs arbitrary: b) (auto simp: cap_push)

lemma pushes_bound:
  "length (contents b) \<le> cap b \<Longrightarrow> length (contents (fold push xs b)) \<le> cap b"
proof (induction xs arbitrary: b)
  case (Cons x xs)
  then show ?case using Cons.IH[of "push x b"] push_bound[of b x] by (simp add: cap_push)
qed simp

text \<open>After any number of pushes the log holds the last entries, in order.\<close>

lemma contents_pushes:
  assumes "length (contents b) \<le> cap b"
  shows "contents (fold push xs b) = drop (length (contents b) + length xs - cap b) (contents b @ xs)"
proof (induction xs rule: rev_induct)
  case Nil
  then show ?case using assms by simp
next
  case (snoc x xs)
  let ?b = "fold push xs b"
  have "length (contents ?b) \<le> cap ?b" using pushes_bound[OF assms] by (simp add: cap_pushes)
  then have "contents (fold push (xs @ [x]) b)
      = drop (length (contents ?b) + 1 - cap b) (contents ?b @ [x])"
    by (simp add: contents_push cap_pushes)
  then show ?case
    using drop_last_snoc[of "contents b @ xs" "cap b" x] by (simp add: snoc.IH)
qed

end

section \<open>\<^verbatim>\<open>base/stream/buffer.go\<close>\<close>

record 'a buffer =
  buf_list :: "'a list"
  buf_size :: nat

definition NewBuffer :: "nat \<Rightarrow> 'a buffer" where
  "NewBuffer n = \<lparr>buf_list = [], buf_size = n\<rparr>"

text \<open>\<^verbatim>\<open>Buffer.String\<close> for the string buffers, the only ones it is called on.\<close>

definition buffer_String :: "string buffer \<Rightarrow> string" where
  "buffer_String b = concat (buf_list b)"

text \<open>\<^verbatim>\<open>Append\<close> pushes at the back and removes one entry of the front when the size is exceeded.\<close>

definition buffer_Append :: "'a \<Rightarrow> 'a buffer \<Rightarrow> 'a buffer" where
  "buffer_Append x b =
     (let l = buf_list b @ [x] in
      b\<lparr>buf_list := (if buf_size b < length l then tl l else l)\<rparr>)"

interpretation stream_buffer: bounded_log buffer_Append buf_list buf_size
proof unfold_locales
  fix b :: "'a buffer" and x
  show "buf_size (buffer_Append x b) = buf_size b" by (simp add: buffer_Append_def Let_def)
  assume "length (buf_list b) \<le> buf_size b"
  moreover have "tl (buf_list b @ [x]) = drop 1 (buf_list b @ [x])" by (simp only: drop_Suc One_nat_def drop_0)
  ultimately show "buf_list (buffer_Append x b) =
      drop (length (buf_list b) + 1 - buf_size b) (buf_list b @ [x])"
    by (cases "buf_size b = length (buf_list b)") (auto simp: buffer_Append_def Let_def)
qed

lemma NewBuffer_list [simp]: "buf_list (NewBuffer n) = []" "buf_size (NewBuffer n) = n"
  by (simp_all add: NewBuffer_def)

text \<open>A stream buffer of size \<open>n\<close> holds exactly the last \<open>n\<close> of the entries appended to it, in
  order, so the output a job keeps is a suffix of the output it produced.\<close>

theorem buffer_keeps_last:
  "buf_list (fold buffer_Append xs (NewBuffer n)) = drop (length xs - n) xs"
  using stream_buffer.contents_pushes[of "NewBuffer n" xs] by simp

end
