(* ===== verification/Pm_Types.thy ===== *)
theory Pm_Types
  imports Stream_Message Bounded_Log
begin

text \<open>
  The data of the process manager, \<^verbatim>\<open>base/pm\<close>: commands, levels, job states and results, the run
  errors with their codes, and the hooks a caller can attach to a job.  A hook action is a callback;
  a hook returns the events that stand for the calls of its action.
\<close>

section \<open>Commands: \<^verbatim>\<open>command.go\<close>\<close>

record job_flags =
  fl_Protected :: bool
  fl_NoOutput :: bool
  fl_NoSetPGID :: bool

text \<open>\<^verbatim>\<open>Arguments\<close> is raw JSON that only the process of the command reads.\<close>

record command =
  cmd_ID :: string
  cmd_Command :: string
  cmd_Arguments :: "string option"
  cmd_Queue :: string
  cmd_StatsInterval :: int
  cmd_MaxTime :: int
  cmd_MaxRestart :: int
  cmd_RecurringPeriod :: int
  cmd_Stream :: bool
  cmd_LogLevels :: "int list"
  cmd_Tags :: "string list"
  cmd_Core :: "16 word"
  cmd_Flags :: job_flags

definition new_command :: "string \<Rightarrow> string \<Rightarrow> command" where
  "new_command i c = \<lparr>cmd_ID = i, cmd_Command = c, cmd_Arguments = None, cmd_Queue = [],
     cmd_StatsInterval = 0, cmd_MaxTime = 0, cmd_MaxRestart = 0, cmd_RecurringPeriod = 0,
     cmd_Stream = False, cmd_LogLevels = [], cmd_Tags = [], cmd_Core = 0,
     cmd_Flags = \<lparr>fl_Protected = False, fl_NoOutput = False, fl_NoSetPGID = False\<rparr>\<rparr>"

section \<open>Results: \<^verbatim>\<open>result.go\<close>\<close>

datatype job_state =
  StateNone | StateSuccess | StateError | StateTimeout | StateKilled | StateUnknownCmd | StateDuplicateID

definition LevelStdout :: "16 word" where "LevelStdout = 1"
definition LevelStderr :: "16 word" where "LevelStderr = 2"
definition LevelPublic :: "16 word" where "LevelPublic = 3"
definition LevelOperator :: "16 word" where "LevelOperator = 4"
definition LevelUnknown :: "16 word" where "LevelUnknown = 5"
definition LevelStructured :: "16 word" where "LevelStructured = 6"
definition LevelWarning :: "16 word" where "LevelWarning = 7"
definition LevelOpsError :: "16 word" where "LevelOpsError = 8"
definition LevelCritical :: "16 word" where "LevelCritical = 9"
definition LevelStatsd :: "16 word" where "LevelStatsd = 10"
definition LevelDebug :: "16 word" where "LevelDebug = 11"
definition LevelResultJSON :: "16 word" where "LevelResultJSON = 20"
definition LevelResultYAML :: "16 word" where "LevelResultYAML = 21"
definition LevelResultTOML :: "16 word" where "LevelResultTOML = 22"
definition LevelResultHRD :: "16 word" where "LevelResultHRD = 23"
definition LevelResultJob :: "16 word" where "LevelResultJob = 30"

lemmas level_defs = LevelStdout_def LevelStderr_def LevelPublic_def LevelOperator_def
  LevelUnknown_def LevelStructured_def LevelWarning_def LevelOpsError_def LevelCritical_def
  LevelStatsd_def LevelDebug_def LevelResultJSON_def LevelResultYAML_def LevelResultTOML_def
  LevelResultHRD_def LevelResultJob_def

definition ResultMessageLevels :: "16 word list" where
  "ResultMessageLevels =
     [LevelResultJSON, LevelResultYAML, LevelResultTOML, LevelResultHRD, LevelResultJob]"

text \<open>\<^verbatim>\<open>Streams\<close>: the first entry is stdout, the second stderr; a missing entry reads as empty.\<close>

definition Streams_Stdout :: "string list \<Rightarrow> string" where
  "Streams_Stdout s = (if 1 \<le> length s then s ! 0 else [])"

definition Streams_Stderr :: "string list \<Rightarrow> string" where
  "Streams_Stderr s = (if 2 \<le> length s then s ! 1 else [])"

record job_result =
  jr_ID :: string
  jr_Command :: string
  jr_Data :: string
  jr_Streams :: "string list"
  jr_Critical :: string
  jr_Level :: "16 word"
  jr_State :: job_state
  jr_Code :: "32 word"
  jr_StartTime :: int
  jr_Time :: int
  jr_Tags :: "string list"
  jr_Container :: "64 word"

definition NewJobResult :: "command \<Rightarrow> job_result" where
  "NewJobResult cmd = \<lparr>jr_ID = cmd_ID cmd, jr_Command = cmd_Command cmd, jr_Data = [],
     jr_Streams = [], jr_Critical = [], jr_Level = 0, jr_State = StateNone, jr_Code = 0,
     jr_StartTime = 0, jr_Time = 0, jr_Tags = cmd_Tags cmd, jr_Container = 0\<rparr>"

section \<open>Run errors: \<^verbatim>\<open>error.go\<close>\<close>

text \<open>A Go \<^verbatim>\<open>error\<close> value: the unknown command error, a run error with a code, or any other error.
  Only the second kind implements \<^verbatim>\<open>RunError\<close>.\<close>

datatype go_error = UnknownCommand string | RunErr "32 word" string | PlainErr string

definition UnknownCommandErr :: "string \<Rightarrow> go_error" where
  "UnknownCommandErr c = UnknownCommand c"

definition IsUnknownCommand :: "go_error option \<Rightarrow> bool" where
  "IsUnknownCommand e = (case e of Some (UnknownCommand c) \<Rightarrow> True | _ \<Rightarrow> False)"

definition mkError :: "32 word \<Rightarrow> string \<Rightarrow> go_error" where
  "mkError code cause = RunErr code cause"

definition NotFoundError :: "string \<Rightarrow> go_error" where "NotFoundError = mkError 404"
definition BadRequestError :: "string \<Rightarrow> go_error" where "BadRequestError = mkError 400"
definition ServiceUnavailableError :: "string \<Rightarrow> go_error" where "ServiceUnavailableError = mkError 503"
definition NotAcceptableError :: "string \<Rightarrow> go_error" where "NotAcceptableError = mkError 406"
definition PreconditionFailedError :: "string \<Rightarrow> go_error" where "PreconditionFailedError = mkError 412"
definition InternalError :: "string \<Rightarrow> go_error" where "InternalError = mkError 500"

text \<open>The code a caller reads: the type assertion to \<^verbatim>\<open>RunError\<close>, zero when it fails.\<close>

definition error_code :: "go_error \<Rightarrow> 32 word" where
  "error_code e = (case e of RunErr c m \<Rightarrow> c | _ \<Rightarrow> 0)"

definition error_text :: "go_error \<Rightarrow> string" where
  "error_text e = (case e of UnknownCommand c \<Rightarrow> ''unknown command: '' @ c | RunErr c m \<Rightarrow> m | PlainErr m \<Rightarrow> m)"

section \<open>Hooks: \<^verbatim>\<open>runnerhook.go\<close>\<close>

datatype hook_event =
    DelayFired | ExitFired bool | PIDFired int | MatchFired message | MessageFired message

record delay_hook =
  dh_once :: bool
  dh_Delay :: int

record match_hook =
  mh_Match :: string
  mh_io :: bool
  mh_p :: "(string \<Rightarrow> bool) option"
  mh_o :: bool

record buffer_hook =
  bh_Stdout :: string
  bh_Stderr :: string

datatype hook =
    DelayHook delay_hook | ExitHook bool | PIDHook bool | MatchHook match_hook
  | BufferHook buffer_hook | MessageHook

definition DelayHook_Tick :: "int \<Rightarrow> delay_hook \<Rightarrow> delay_hook \<times> hook_event list" where
  "DelayHook_Tick d h =
     (if dh_Delay h < d then
        (if dh_once h then (h, []) else (h\<lparr>dh_once := True\<rparr>, [DelayFired]))
      else (h, []))"

text \<open>\<open>once\<close> is the state of the \<^verbatim>\<open>sync.Once\<close>.\<close>

definition ExitHook_Exit :: "job_state \<Rightarrow> bool \<Rightarrow> bool \<times> hook_event list" where
  "ExitHook_Exit s once =
     (let ok = (s = StateSuccess) in if once then (once, []) else (True, [ExitFired ok]))"

definition PIDHook_PID :: "int \<Rightarrow> bool \<Rightarrow> bool \<times> hook_event list" where
  "PIDHook_PID pid once = (if once then (once, []) else (True, [PIDFired pid]))"

text \<open>\<open>compile\<close> stands for \<^verbatim>\<open>regexp.CompilePOSIX\<close>: the matcher of a pattern, or nothing when the
  pattern is malformed.\<close>

definition MatchHook_Message ::
  "(string \<Rightarrow> (string \<Rightarrow> bool) option) \<Rightarrow> message \<Rightarrow> match_hook \<Rightarrow> match_hook \<times> hook_event list" where
  "MatchHook_Message compile msg h =
     (let h = (if mh_io h then h else h\<lparr>mh_io := True, mh_p := compile (mh_Match h)\<rparr>) in
      case mh_p h of
        None \<Rightarrow> (h, [])
      | Some p \<Rightarrow>
          if p (msg_text msg) then
            (if mh_o h then (h, []) else (h\<lparr>mh_o := True, mh_p := None\<rparr>, [MatchFired msg]))
          else (h, []))"

definition BufferHook_Message :: "message \<Rightarrow> buffer_hook \<Rightarrow> buffer_hook" where
  "BufferHook_Message msg h =
     (if Level (msg_meta msg) = LevelStdout then h\<lparr>bh_Stdout := bh_Stdout h @ msg_text msg\<rparr>
      else if Level (msg_meta msg) = LevelStderr then h\<lparr>bh_Stderr := bh_Stderr h @ msg_text msg\<rparr>
      else h)"

text \<open>The four methods of a hook; a hook that does not implement one inherits the empty method of
  \<^verbatim>\<open>NOOPHook\<close>.\<close>

definition hook_Tick :: "int \<Rightarrow> hook \<Rightarrow> hook \<times> hook_event list" where
  "hook_Tick d h = (case h of
      DelayHook x \<Rightarrow> (case DelayHook_Tick d x of (x', e) \<Rightarrow> (DelayHook x', e))
    | _ \<Rightarrow> (h, []))"

definition hook_Message :: "(string \<Rightarrow> (string \<Rightarrow> bool) option) \<Rightarrow> message \<Rightarrow> hook \<Rightarrow> hook \<times> hook_event list" where
  "hook_Message compile msg h = (case h of
      MatchHook x \<Rightarrow> (case MatchHook_Message compile msg x of (x', e) \<Rightarrow> (MatchHook x', e))
    | BufferHook x \<Rightarrow> (BufferHook (BufferHook_Message msg x), [])
    | MessageHook \<Rightarrow> (h, [MessageFired msg])
    | _ \<Rightarrow> (h, []))"

definition hook_Exit :: "job_state \<Rightarrow> hook \<Rightarrow> hook \<times> hook_event list" where
  "hook_Exit s h = (case h of
      ExitHook once \<Rightarrow> (case ExitHook_Exit s once of (x', e) \<Rightarrow> (ExitHook x', e))
    | _ \<Rightarrow> (h, []))"

definition hook_PID :: "int \<Rightarrow> hook \<Rightarrow> hook \<times> hook_event list" where
  "hook_PID pid h = (case h of
      PIDHook once \<Rightarrow> (case PIDHook_PID pid once of (x', e) \<Rightarrow> (PIDHook x', e))
    | _ \<Rightarrow> (h, []))"

text \<open>Calling one method on every hook of a job, in order.\<close>

definition run_hooks :: "(hook \<Rightarrow> hook \<times> hook_event list) \<Rightarrow> hook list \<Rightarrow> hook list \<times> hook_event list" where
  "run_hooks f hs = (map (fst \<circ> f) hs, concat (map (snd \<circ> f) hs))"

section \<open>A job as its hooks see it\<close>

datatype hook_call = CallTick int | CallMessage message | CallExit job_state | CallPID int

definition hook_call :: "(string \<Rightarrow> (string \<Rightarrow> bool) option) \<Rightarrow> hook_call \<Rightarrow> hook \<Rightarrow> hook \<times> hook_event list" where
  "hook_call compile c h = (case c of
      CallTick d \<Rightarrow> hook_Tick d h | CallMessage m \<Rightarrow> hook_Message compile m h
    | CallExit s \<Rightarrow> hook_Exit s h | CallPID p \<Rightarrow> hook_PID p h)"

fun hook_calls :: "(string \<Rightarrow> (string \<Rightarrow> bool) option) \<Rightarrow> hook_call list \<Rightarrow> hook \<Rightarrow> hook \<times> hook_event list" where
  "hook_calls compile [] h = (h, [])"
| "hook_calls compile (c # cs) h =
     (case hook_call compile c h of (h', e) \<Rightarrow>
        (case hook_calls compile cs h' of (h'', es) \<Rightarrow> (h'', e @ es)))"

text \<open>Hooks that act at most once.\<close>

definition one_shot :: "hook \<Rightarrow> bool" where
  "one_shot h = (case h of DelayHook x \<Rightarrow> True | ExitHook x \<Rightarrow> True | PIDHook x \<Rightarrow> True
                         | MatchHook x \<Rightarrow> True | _ \<Rightarrow> False)"

definition spent :: "hook \<Rightarrow> bool" where
  "spent h = (case h of DelayHook x \<Rightarrow> dh_once x | ExitHook x \<Rightarrow> x | PIDHook x \<Rightarrow> x
                      | MatchHook x \<Rightarrow> mh_o x | _ \<Rightarrow> False)"

lemmas hook_defs = hook_call_def hook_Tick_def hook_Message_def hook_Exit_def hook_PID_def
  DelayHook_Tick_def ExitHook_Exit_def PIDHook_PID_def MatchHook_Message_def one_shot_def spent_def

lemma hook_call_one_shot:
  assumes "one_shot h" "hook_call compile c h = (h', e)"
  shows "one_shot h'" and "spent h \<Longrightarrow> spent h' \<and> e = []"
    and "length e \<le> 1" and "e \<noteq> [] \<Longrightarrow> spent h'"
  using assms
  by (cases h; cases c; auto simp: hook_defs Let_def split: if_splits option.splits)+

lemma hook_calls_spent:
  "one_shot h \<Longrightarrow> spent h \<Longrightarrow> hook_calls compile cs h = (h', es) \<Longrightarrow> es = []"
proof (induction cs arbitrary: h es)
  case (Cons c cs)
  obtain h1 e where c: "hook_call compile c h = (h1, e)" by fastforce
  note one = hook_call_one_shot[OF Cons.prems(1) c]
  show ?case
    using Cons.prems(3) Cons.IH[of h1] one Cons.prems(2) c by (auto split: prod.splits)
qed simp

text \<open>A delay, exit, pid or match hook fires at most once in the life of a job, whatever ticks,
  messages, exits and restarts it sees (the manager relies on this to release a service once).\<close>

theorem hook_fires_once:
  assumes "one_shot h"
  shows "length (snd (hook_calls compile cs h)) \<le> 1"
  using assms
proof (induction cs arbitrary: h)
  case (Cons c cs)
  obtain h1 e where c: "hook_call compile c h = (h1, e)" by fastforce
  obtain h2 es where r: "hook_calls compile cs h1 = (h2, es)" by fastforce
  note one = hook_call_one_shot[OF Cons.prems c]
  have "length es \<le> 1" using Cons.IH[OF one(1)] r by simp
  then show ?case
    using one hook_calls_spent[OF one(1) _ r] c r by (cases "e = []") auto
qed simp

lemma hook_fires_once_witness:
  "length (snd (hook_calls (\<lambda>p. None) [CallTick 1, CallTick 5, CallTick 6]
     (DelayHook \<lparr>dh_once = False, dh_Delay = 2\<rparr>))) \<le> 1"
  by (rule hook_fires_once) (simp add: one_shot_def)

end
