(* ===== verification/Steps.thy ===== *)
theory Steps
  imports Pm_Types
begin

text \<open>
  Handlers as steps on a state: a step returns a value, fails with an error or panics, and leaves the state as it was at
  that point.  The plugins for machines, bridges and the other base actions are written with these steps.
\<close>

section \<open>Faults\<close>

text \<open>A handler returns an error or panics; a panic of a handler is caught where actions are run.\<close>

datatype fault = Fault go_error | Panic string

definition fail :: "string \<Rightarrow> (fault, 'a) result" where "fail e = Inl (Fault (PlainErr e))"

definition lift_err :: "(go_error, 'a) result \<Rightarrow> (fault, 'a) result" where
  "lift_err r = (case r of Inl e \<Rightarrow> Inl (Fault e) | Inr a \<Rightarrow> Inr a)"

lemma lift_err_simps [simp]: "lift_err (Inl e) = Inl (Fault e)" "lift_err (Inr a) = Inr a"
  by (simp_all add: lift_err_def)

lemma lift_err_Inr: "lift_err r = Inr a \<longleftrightarrow> r = Inr a"
  by (cases r) auto

lemma fail_simps [simp]: "fail e \<noteq> Inr a" "rbind (fail e) k = fail e" "fail e = Inl x \<longleftrightarrow> x = Fault (PlainErr e)"
  by (auto simp: fail_def)

section \<open>Steps that can fail\<close>

type_synonym ('s, 'a) act = "'s \<Rightarrow> (fault, 'a) result \<times> 's"

definition sret :: "'a \<Rightarrow> ('s, 'a) act" where "sret a = (\<lambda>s. (Inr a, s))"
definition slift :: "(fault, 'a) result \<Rightarrow> ('s, 'a) act" where "slift r = (\<lambda>s. (r, s))"
definition sget :: "('s \<Rightarrow> (fault, 'a) result) \<Rightarrow> ('s, 'a) act" where "sget f = (\<lambda>s. (f s, s))"

definition sbind :: "('s, 'a) act \<Rightarrow> ('a \<Rightarrow> ('s, 'b) act) \<Rightarrow> ('s, 'b) act" where
  "sbind m k = (\<lambda>s. case m s of (Inl e, s') \<Rightarrow> (Inl e, s') | (Inr a, s') \<Rightarrow> k a s')"

fun sfor :: "('a \<Rightarrow> ('s, unit) act) \<Rightarrow> 'a list \<Rightarrow> ('s, unit) act" where
  "sfor f [] = sret ()"
| "sfor f (x # xs) = sbind (f x) (\<lambda>_. sfor f xs)"

lemmas act_defs = sret_def slift_def sget_def sbind_def

text \<open>A step whose error is only logged, and the clean-up that a deferred function does when the step has failed.\<close>

definition signore :: "('s, 'a) act \<Rightarrow> ('s, unit) act" where
  "signore m = (\<lambda>s. case m s of (Inl (Panic p), s') \<Rightarrow> (Inl (Panic p), s') | (_, s') \<Rightarrow> (Inr (), s'))"

definition on_fault :: "('s, 'a) act \<Rightarrow> ('s, unit) act \<Rightarrow> ('s, 'a) act" where
  "on_fault m h = (\<lambda>s. case m s of (Inl (Fault e), s') \<Rightarrow> (Inl (Fault e), snd (h s')) | r \<Rightarrow> r)"

text \<open>An error with a text in front of it, and errors of a given kind.\<close>

definition werr :: "(go_error \<Rightarrow> go_error) \<Rightarrow> ('s, 'a) act \<Rightarrow> ('s, 'a) act" where
  "werr f m = (\<lambda>s. case m s of (Inl (Fault e), s') \<Rightarrow> (Inl (Fault (f e)), s') | r \<Rightarrow> r)"

definition told :: "string \<Rightarrow> go_error \<Rightarrow> go_error" where "told p e = PlainErr (p @ error_text e)"

text \<open>A call of the surroundings as a step.\<close>

definition scall :: "('s \<Rightarrow> (go_error, 'a) result \<times> 's) \<Rightarrow> ('s, 'a) act" where
  "scall f = (\<lambda>s. case f s of (r, s') \<Rightarrow> (lift_err r, s'))"

definition sask :: "('s \<Rightarrow> (go_error, 'a) result) \<Rightarrow> ('s, 'a) act" where
  "sask f = (\<lambda>s. (lift_err (f s), s))"

text \<open>Which steps keep a property of the state, shown from the steps they are made of.\<close>

definition preserves :: "('s \<Rightarrow> bool) \<Rightarrow> ('s, 'a) act \<Rightarrow> bool" where
  "preserves P m \<longleftrightarrow> (\<forall>s. P s \<longrightarrow> P (snd (m s)))"

named_theorems preserves_intros \<open>steps that keep a property of the state\<close>

lemma preservesD: "preserves P m \<Longrightarrow> P s \<Longrightarrow> P (snd (m s))"
  by (simp add: preserves_def)

lemma preserves_pure [preserves_intros]:
  "preserves P (sret a)" "preserves P (slift r)" "preserves P (sget f)" "preserves P (sask g)"
  by (simp_all add: preserves_def act_defs sask_def)

lemma preserves_sbind [preserves_intros]:
  "preserves P f \<Longrightarrow> (\<And>a. preserves P (g a)) \<Longrightarrow> preserves P (sbind f g)"
  unfolding preserves_def sbind_def
  by (auto split: prod.splits sum.splits)

lemma preserves_sfor [preserves_intros]: "(\<And>x. preserves P (f x)) \<Longrightarrow> preserves P (sfor f xs)"
  by (induction xs) (auto intro: preserves_intros)

lemma preserves_sfor_in: "(\<And>x. x \<in> set xs \<Longrightarrow> preserves P (f x)) \<Longrightarrow> preserves P (sfor f xs)"
  by (induction xs) (auto intro: preserves_intros)

lemma preserves_if [preserves_intros]:
  "preserves P f \<Longrightarrow> preserves P g \<Longrightarrow> preserves P (if b then f else g)"
  by simp

lemma preserves_Let [preserves_intros]: "preserves P (f a) \<Longrightarrow> preserves P (Let a f)"
  by (simp add: Let_def)

lemma preserves_option [preserves_intros]:
  "preserves P f \<Longrightarrow> (\<And>a. preserves P (g a)) \<Longrightarrow> preserves P (case x of None \<Rightarrow> f | Some a \<Rightarrow> g a)"
  by (cases x) auto

lemma preserves_prod [preserves_intros]: "(\<And>a b. preserves P (g a b)) \<Longrightarrow> preserves P (case x of (a, b) \<Rightarrow> g a b)"
  by (cases x) auto

lemma preserves_sum [preserves_intros]:
  "(\<And>a. preserves P (f a)) \<Longrightarrow> (\<And>b. preserves P (g b)) \<Longrightarrow> preserves P (case x of Inl a \<Rightarrow> f a | Inr b \<Rightarrow> g b)"
  by (cases x) auto

lemma preserves_signore [preserves_intros]: "preserves P m \<Longrightarrow> preserves P (signore m)"
  by (auto simp: preserves_def signore_def split: prod.splits sum.splits fault.splits)

lemma preserves_on_fault [preserves_intros]: "preserves P m \<Longrightarrow> preserves P h \<Longrightarrow> preserves P (on_fault m h)"
  by (auto simp: preserves_def on_fault_def split: prod.splits sum.splits fault.splits)

lemma preserves_scall: "(\<And>s. P s \<Longrightarrow> P (snd (f s))) \<Longrightarrow> preserves P (scall f)"
  by (auto simp: preserves_def scall_def split: prod.splits) (metis snd_conv)

text \<open>What holds of the state when a step fails.\<close>

definition fail_post :: "('s \<Rightarrow> bool) \<Rightarrow> ('s, 'a) act \<Rightarrow> 's \<Rightarrow> bool" where
  "fail_post P m s \<longleftrightarrow> (\<forall>e. fst (m s) = Inl (Fault e) \<longrightarrow> P (snd (m s)))"

lemma fail_post_sbind:
  "fail_post P m s \<Longrightarrow> (\<And>a s'. m s = (Inr a, s') \<Longrightarrow> fail_post P (k a) s') \<Longrightarrow> fail_post P (sbind m k) s"
  by (cases "m s") (auto simp: fail_post_def sbind_def split: sum.splits)

lemma fail_post_slift: "P s \<Longrightarrow> fail_post P (slift r) s"
  by (simp add: fail_post_def slift_def)

lemma fail_post_scall: "(isl (fst (f s)) \<Longrightarrow> P (snd (f s))) \<Longrightarrow> fail_post P (scall f) s"
  by (cases "f s") (auto simp: fail_post_def scall_def lift_err_def split: sum.splits)

lemma fail_post_on_fault: "(\<And>s. P (snd (h s))) \<Longrightarrow> fail_post P (on_fault m h) s"
  by (cases "m s") (auto simp: fail_post_def on_fault_def split: sum.splits fault.splits)

lemma fail_post_no_fault: "fst (m s) = Inr a \<Longrightarrow> fail_post P m s"
  by (simp add: fail_post_def)

text \<open>Steps that never panic.\<close>

definition no_panic :: "('s, 'a) act \<Rightarrow> bool" where
  "no_panic m \<longleftrightarrow> (\<forall>s p. fst (m s) \<noteq> Inl (Panic p))"

named_theorems no_panic_intros \<open>steps that never panic\<close>

lemma no_panic_pure [no_panic_intros]:
  "no_panic (sret a)" "no_panic (scall f)" "no_panic (sask g)" "no_panic (slift (fail e))" "no_panic (slift (Inl (Fault x)))"
  "no_panic (slift (lift_err r))" "no_panic (sget (\<lambda>s. Inr (h s)))"
  by (auto simp: no_panic_def act_defs scall_def sask_def lift_err_def fail_def split: prod.splits sum.splits)

lemma no_panicD: "no_panic m \<Longrightarrow> m s = (Inl (Panic p), s') \<Longrightarrow> False"
  unfolding no_panic_def by (metis fst_conv)

lemma no_panic_sbind [no_panic_intros]:
  assumes "no_panic f" and "\<And>a. no_panic (g a)" shows "no_panic (sbind f g)"
  unfolding no_panic_def
proof (intro allI)
  fix s p
  obtain r s' where f: "f s = (r, s')" by (cases "f s") blast
  show "fst (sbind f g s) \<noteq> Inl (Panic p)"
    using no_panicD[OF assms(1), of s p s'] assms(2) f by (cases r) (auto simp: sbind_def no_panic_def)
qed

lemma no_panic_sfor [no_panic_intros]: "(\<And>x. no_panic (f x)) \<Longrightarrow> no_panic (sfor f xs)"
  by (induction xs) (auto intro: no_panic_intros)

lemma no_panic_cases [no_panic_intros]:
  "no_panic f \<Longrightarrow> no_panic g \<Longrightarrow> no_panic (if b then f else g)"
  "no_panic (h a) \<Longrightarrow> no_panic (Let a h)"
  "no_panic f \<Longrightarrow> (\<And>a. no_panic (h a)) \<Longrightarrow> no_panic (case x of None \<Rightarrow> f | Some a \<Rightarrow> h a)"
  by (simp_all split: option.split)

lemma no_panic_prod [no_panic_intros]: "(\<And>a b. no_panic (g a b)) \<Longrightarrow> no_panic (case x of (a, b) \<Rightarrow> g a b)"
  by (cases x) auto

lemma no_panic_sum [no_panic_intros]:
  "(\<And>a. no_panic (f a)) \<Longrightarrow> (\<And>b. no_panic (g b)) \<Longrightarrow> no_panic (case x of Inl a \<Rightarrow> f a | Inr b \<Rightarrow> g b)"
  by (cases x) auto

text \<open>A step that never panics succeeds when its error is only logged.\<close>

lemma signore_Inr: "no_panic m \<Longrightarrow> fst (signore m s) = Inr ()"
  by (auto simp: signore_def dest: no_panicD split: prod.splits sum.splits fault.splits)

lemma snd_signore: "snd (signore m s) = snd (m s)"
  by (auto simp: signore_def split: prod.splits sum.splits fault.splits)

text \<open>Steps that always succeed.\<close>

definition succeeds :: "('s, 'a) act \<Rightarrow> bool" where
  "succeeds m \<longleftrightarrow> (\<forall>s. \<exists>a. fst (m s) = Inr a)"

named_theorems succeeds_intros \<open>steps that always succeed\<close>

lemma succeeds_pure [succeeds_intros]: "succeeds (sret a)" "succeeds (sget (\<lambda>s. Inr (h s)))"
  by (simp_all add: succeeds_def act_defs)

lemma succeeds_signore [succeeds_intros]: "no_panic m \<Longrightarrow> succeeds (signore m)"
  by (auto simp: succeeds_def signore_Inr)

lemma succeedsD: "succeeds m \<Longrightarrow> \<exists>a s'. m s = (Inr a, s')"
  unfolding succeeds_def by (metis prod.collapse)

lemma succeeds_sbind [succeeds_intros]:
  assumes "succeeds f" and "\<And>a. succeeds (g a)" shows "succeeds (sbind f g)"
  unfolding succeeds_def
proof
  fix s
  obtain a s' where f: "f s = (Inr a, s')" using succeedsD[OF assms(1)] by blast
  obtain b t where "g a s' = (Inr b, t)" using succeedsD[OF assms(2)] by blast
  with f show "\<exists>a. fst (sbind f g s) = Inr a" by (simp add: sbind_def)
qed

lemma succeeds_if [succeeds_intros]: "succeeds f \<Longrightarrow> succeeds g \<Longrightarrow> succeeds (if b then f else g)"
  by simp

lemma succeeds_sfor [succeeds_intros]: "(\<And>x. succeeds (f x)) \<Longrightarrow> succeeds (sfor f xs)"
  by (induction xs) (auto intro: succeeds_intros)

text \<open>A loop of steps that always succeed establishes what one round establishes and the others keep.\<close>

lemma sfor_establishes:
  assumes "\<And>x. succeeds (f x)" and "\<And>x. x \<in> set xs \<Longrightarrow> preserves P (f x)" and "k \<in> set xs"
    and "\<And>s. Q s \<Longrightarrow> P (snd (f k s))" and "\<And>x. x \<in> set xs \<Longrightarrow> preserves Q (f x)" and "Q s"
  shows "P (snd (sfor f xs s))"
  using assms(2,3,5,6)
proof (induction xs arbitrary: s)
  case (Cons x xs)
  obtain a s' where r: "f x s = (Inr a, s')" using succeedsD[OF assms(1)] by blast
  have q: "Q s'" using preservesD[OF Cons.prems(3) Cons.prems(4), of x] r by simp
  show ?case
  proof (cases "x = k")
    case True
    then have "P s'" using assms(4)[OF Cons.prems(4)] r by simp
    then have "P (snd (sfor f xs s'))" by (rule preservesD[OF preserves_sfor_in, rotated]) (simp add: Cons.prems(1))
    then show ?thesis using r by (simp add: sbind_def)
  next
    case False
    then show ?thesis using Cons.IH[OF _ _ _ q] Cons.prems(1-3) r by (simp add: sbind_def)
  qed
qed simp

section \<open>Errors with a text in front\<close>

lemma sbind_run: "m s = (Inr a, s') \<Longrightarrow> sbind m f s = f a s'"
  by (simp add: sbind_def)

lemma preserves_werr: "preserves P m \<Longrightarrow> preserves P (werr f m)"
  by (auto simp: preserves_def werr_def split: prod.splits sum.splits fault.splits)

lemma no_panic_werr: "no_panic m \<Longrightarrow> no_panic (werr f m)"
  by (auto simp: no_panic_def werr_def split: prod.splits sum.splits fault.splits) (metis fst_conv)

end
