(* ===== verification/Mgr_Queue.thy ===== *)
theory Mgr_Queue
  imports Pm_Types
begin

text \<open>
  The sequential queues of \<^verbatim>\<open>base/mgr/queue.go\<close>.  Jobs with a queue name run one after the other;
  jobs without one run at once.  The queue hands a job to the manager by sending it on a channel;
  an operation of the model returns the jobs it sends.  The interface \<open>sequencer\<close> is what the
  manager relies on, and it is interpreted on the code's operations.
\<close>

section \<open>The interface of a sequencer\<close>

text \<open>\<open>waiting q n\<close> are the jobs of queue \<open>n\<close> that are not finished, the front one being started.
  A job without a name is not queued.\<close>

locale sequencer =
  fixes waiting :: "'q \<Rightarrow> 'n \<Rightarrow> 'j list"
    and name :: "'j \<Rightarrow> 'n option"
    and push :: "'j \<Rightarrow> 'q \<Rightarrow> 'q \<times> 'j list"
    and notify :: "'j \<Rightarrow> 'q \<Rightarrow> 'q \<times> 'j list"
    and ok :: "'q \<Rightarrow> bool"
  assumes push_ok: "ok q \<Longrightarrow> ok (fst (push j q))"
    and notify_ok: "ok q \<Longrightarrow> ok (fst (notify j q))"
    and push_waiting: "ok q \<Longrightarrow>
      waiting (fst (push j q)) n = (if name j = Some n then waiting q n @ [j] else waiting q n)"
    and push_sends: "ok q \<Longrightarrow>
      snd (push j q) = (case name j of None \<Rightarrow> [j] | Some n \<Rightarrow> if waiting q n = [] then [j] else [])"
    and notify_waiting: "ok q \<Longrightarrow>
      waiting (fst (notify j q)) n = (if name j = Some n then tl (waiting q n) else waiting q n)"
    and notify_sends: "ok q \<Longrightarrow>
      snd (notify j q) = (case name j of None \<Rightarrow> [] | Some n \<Rightarrow> take 1 (tl (waiting q n)))"
    and names: "ok q \<Longrightarrow> j \<in> set (waiting q n) \<Longrightarrow> name j = Some n"
begin

abbreviation named :: "'n \<Rightarrow> 'j list \<Rightarrow> 'j list" where
  "named n js \<equiv> filter (\<lambda>j. name j = Some n) js"

text \<open>The history of a run: the jobs pushed, started, in flight and finished.\<close>

definition sequential :: "'q \<Rightarrow> 'j list \<Rightarrow> 'j list \<Rightarrow> 'j list \<Rightarrow> 'j list \<Rightarrow> 'n \<Rightarrow> bool" where
  "sequential q pushed started flight finished n \<longleftrightarrow>
     named n pushed = named n finished @ waiting q n \<and>
     named n flight = take 1 (waiting q n) \<and>
     named n started = named n finished @ take 1 (waiting q n)"

lemma waiting_named: "ok q \<Longrightarrow> named n (waiting q n) = waiting q n"
  by (simp add: names filter_id_conv)

lemma push_sequential:
  assumes "ok q" "sequential q pushed started flight finished n"
  shows "sequential (fst (push j q)) (pushed @ [j]) (started @ snd (push j q))
           (flight @ snd (push j q)) finished n"
  using assms(2) push_waiting[OF assms(1), of j n] push_sends[OF assms(1), of j]
  by (auto simp: sequential_def Suc_le_eq split: option.splits)

lemma named_remove1: "named n (remove1 j js) = (if name j = Some n then remove1 j (named n js) else named n js)"
  by (induction js) auto

lemma notify_sequential:
  assumes "ok q" "sequential q pushed started flight finished n" "j \<in> set flight"
  shows "sequential (fst (notify j q)) pushed (started @ snd (notify j q))
           (remove1 j flight @ snd (notify j q)) (finished @ [j]) n"
proof (cases "name j = Some n")
  case False
  have "named n (snd (notify j q)) = []"
  proof (cases "name j")
    case (Some m)
    have "name x = Some m" if "x \<in> set (take 1 (tl (waiting q m)))" for x
      using names[OF assms(1), of x m] that by (cases "waiting q m") (auto dest: in_set_takeD)
    then show ?thesis using notify_sends[OF assms(1), of j] False Some by (auto simp: filter_empty_conv)
  qed (simp add: notify_sends[OF assms(1)])
  then show ?thesis
    using False assms(2) notify_waiting[OF assms(1), of j n]
    by (simp add: sequential_def named_remove1)
next
  case True
  with assms(3) have "j \<in> set (named n flight)" by simp
  then have "j \<in> set (take 1 (waiting q n))" using assms(2) by (simp only: sequential_def)
  then obtain r where r: "waiting q n = j # r" by (cases "waiting q n") auto
  have "named n (take 1 r) = take 1 r"
    using names[OF assms(1), of _ n] r by (auto simp: filter_id_conv dest: in_set_takeD)
  then show ?thesis
    using True assms(2) r notify_waiting[OF assms(1), of j n] notify_sends[OF assms(1), of j]
    by (simp add: sequential_def named_remove1)
qed

lemma sequential_one: "sequential q pushed started flight finished n \<Longrightarrow> length (named n flight) \<le> 1"
  by (simp add: sequential_def)

lemma sequential_order:
  "sequential q pushed started flight finished n \<Longrightarrow> \<exists>r. named n pushed = named n started @ r"
  by (intro exI[of _ "drop 1 (waiting q n)"]) (simp add: sequential_def)

lemma sequential_complete:
  "sequential q pushed started flight finished n \<Longrightarrow> named n flight = [] \<Longrightarrow>
     named n finished = named n pushed"
  by (cases "waiting q n") (auto simp: sequential_def)

end

section \<open>The queue of the code\<close>

record queue =
  q_queues :: "string \<Rightarrow> command list option"
  q_closed :: bool

definition queue_Init :: queue where
  "queue_Init = \<lparr>q_queues = (\<lambda>n. None), q_closed = False\<rparr>"

text \<open>\<^verbatim>\<open>Close\<close>: closing the channel twice panics (\<open>None\<close>).\<close>

definition queue_Close :: "queue \<Rightarrow> queue option" where
  "queue_Close q = (if q_closed q then None else Some (q\<lparr>q_closed := True\<rparr>))"

definition queue_Push :: "command \<Rightarrow> queue \<Rightarrow> (go_error, queue \<times> command list) result" where
  "queue_Push job q =
     (if q_closed q then Inl (PlainErr ''closed queue'')
      else let name = cmd_Queue job in
        if name = [] then Inr (q, [job])
        else let l = (case q_queues q name of None \<Rightarrow> [] | Some l \<Rightarrow> l) @ [job] in
          Inr (q\<lparr>q_queues := (q_queues q)(name \<mapsto> l)\<rparr>, if length l = 1 then [job] else []))"

text \<open>\<^verbatim>\<open>Notify\<close>: removing the front of an empty list would panic (\<open>None\<close>).\<close>

definition queue_Notify :: "command \<Rightarrow> queue \<Rightarrow> (queue \<times> command list) option" where
  "queue_Notify job q =
     (if q_closed q then Some (q, [])
      else let name = cmd_Queue job in
        case q_queues q name of
          None \<Rightarrow> Some (q, [])
        | Some [] \<Rightarrow> None
        | Some [x] \<Rightarrow> Some (q\<lparr>q_queues := (q_queues q)(name := None)\<rparr>, [])
        | Some (x # y # r) \<Rightarrow> Some (q\<lparr>q_queues := (q_queues q)(name \<mapsto> y # r)\<rparr>, [y]))"

text \<open>The well-formed queues: no empty list, no queue for the empty name, every job under its name.\<close>

definition queue_wf :: "queue \<Rightarrow> bool" where
  "queue_wf q \<longleftrightarrow>
     (\<forall>n l. q_queues q n = Some l \<longrightarrow> l \<noteq> [] \<and> n \<noteq> [] \<and> (\<forall>j\<in>set l. cmd_Queue j = n))"

definition queue_waiting :: "queue \<Rightarrow> string \<Rightarrow> command list" where
  "queue_waiting q n = (case q_queues q n of None \<Rightarrow> [] | Some l \<Rightarrow> l)"

definition queue_name :: "command \<Rightarrow> string option" where
  "queue_name j = (if cmd_Queue j = [] then None else Some (cmd_Queue j))"

definition open_push :: "command \<Rightarrow> queue \<Rightarrow> queue \<times> command list" where
  "open_push j q = (case queue_Push j q of Inr r \<Rightarrow> r | Inl e \<Rightarrow> (q, []))"

definition open_notify :: "command \<Rightarrow> queue \<Rightarrow> queue \<times> command list" where
  "open_notify j q = (case queue_Notify j q of Some r \<Rightarrow> r | None \<Rightarrow> (q, []))"

lemma queue_wf_Init [simp]: "queue_wf queue_Init"
  by (simp add: queue_wf_def queue_Init_def)

lemma queue_wfD: "queue_wf q \<Longrightarrow> q_queues q n = Some l \<Longrightarrow> l \<noteq> [] \<and> n \<noteq> [] \<and> (\<forall>j\<in>set l. cmd_Queue j = n)"
  unfolding queue_wf_def by blast

lemma queue_wf_update:
  "queue_wf q \<Longrightarrow> n \<noteq> [] \<Longrightarrow> l \<noteq> [] \<Longrightarrow> (\<And>j. j \<in> set l \<Longrightarrow> cmd_Queue j = n) \<Longrightarrow>
     queue_wf (q\<lparr>q_queues := (q_queues q)(n \<mapsto> l)\<rparr>)"
  by (simp add: queue_wf_def)

lemma queue_wf_delete: "queue_wf q \<Longrightarrow> queue_wf (q\<lparr>q_queues := (q_queues q)(n := None)\<rparr>)"
  by (simp add: queue_wf_def)

lemma queue_wf_all: "queue_wf q \<Longrightarrow> \<forall>l. q_queues q n = Some l \<longrightarrow> l \<noteq> [] \<and> n \<noteq> [] \<and> (\<forall>j\<in>set l. cmd_Queue j = n)"
  using queue_wfD by blast

lemma queue_cases [consumes 1, case_names none single more]:
  assumes "queue_wf q"
  obtains "q_queues q (cmd_Queue j) = None"
    | x where "q_queues q (cmd_Queue j) = Some [x]" "cmd_Queue j \<noteq> []"
    | x y r where "q_queues q (cmd_Queue j) = Some (x # y # r)" "cmd_Queue j \<noteq> []"
  using queue_wfD[OF assms, of "cmd_Queue j"]
  by (metis list.exhaust option.exhaust)

lemma queue_Push_wf: "queue_wf q \<Longrightarrow> queue_Push j q = Inr (q', s) \<Longrightarrow> queue_wf q' \<and> q_closed q' = q_closed q"
  using queue_wf_all[of q "cmd_Queue j"]
  by (auto simp: queue_Push_def Let_def intro!: queue_wf_update split: if_splits option.splits)

lemma queue_Notify_wf: "queue_wf q \<Longrightarrow> queue_Notify j q = Some (q', s) \<Longrightarrow> queue_wf q' \<and> q_closed q' = q_closed q"
  using queue_wf_all[of q "cmd_Queue j"]
  by (auto simp: queue_Notify_def Let_def intro!: queue_wf_update queue_wf_delete
      split: if_splits option.splits list.splits)

lemma queue_Notify_total: "queue_wf q \<Longrightarrow> queue_Notify j q \<noteq> None"
  by (auto simp: queue_Notify_def Let_def dest: queue_wfD split: option.splits list.splits)

lemma queue_Push_open: "\<not> q_closed q \<Longrightarrow> queue_Push j q = Inr (open_push j q)"
  by (auto simp: queue_Push_def open_push_def Let_def)

lemma queue_Notify_open: "queue_wf q \<Longrightarrow> queue_Notify j q = Some (open_notify j q)"
  using queue_Notify_total[of q j] by (auto simp: open_notify_def)

interpretation mgr_queue: sequencer queue_waiting queue_name open_push open_notify
  "\<lambda>q. queue_wf q \<and> \<not> q_closed q"
proof unfold_locales
  fix q j and n :: string
  assume ok: "queue_wf q \<and> \<not> q_closed q"
  then have p: "queue_Push j q = Inr (open_push j q)" and n: "queue_Notify j q = Some (open_notify j q)"
    by (auto simp: queue_Push_open queue_Notify_open)
  show "queue_wf (fst (open_push j q)) \<and> \<not> q_closed (fst (open_push j q))"
    using queue_Push_wf[of q j "fst (open_push j q)"] p ok by (metis prod.collapse)
  show "queue_wf (fst (open_notify j q)) \<and> \<not> q_closed (fst (open_notify j q))"
    using queue_Notify_wf[of q j "fst (open_notify j q)"] n ok by (metis prod.collapse)
  show "queue_waiting (fst (open_push j q)) n =
      (if queue_name j = Some n then queue_waiting q n @ [j] else queue_waiting q n)"
    using ok by (auto simp: open_push_def queue_Push_def Let_def queue_waiting_def queue_name_def)
  show "snd (open_push j q) =
      (case queue_name j of None \<Rightarrow> [j] | Some n \<Rightarrow> if queue_waiting q n = [] then [j] else [])"
    using ok by (auto simp: open_push_def queue_Push_def Let_def queue_waiting_def queue_name_def)
  have none: "q_queues q [] = None" using ok queue_wfD[of q "[]"] by (cases "q_queues q []") auto
  show "queue_waiting (fst (open_notify j q)) n =
      (if queue_name j = Some n then tl (queue_waiting q n) else queue_waiting q n)"
    using conjunct1[OF ok] none
    by (cases rule: queue_cases[where j = j])

      (auto simp: open_notify_def queue_Notify_def Let_def queue_waiting_def queue_name_def ok)
  show "snd (open_notify j q) =
      (case queue_name j of None \<Rightarrow> [] | Some n \<Rightarrow> take 1 (tl (queue_waiting q n)))"
    using conjunct1[OF ok] none
    by (cases rule: queue_cases[where j = j])

      (auto simp: open_notify_def queue_Notify_def Let_def queue_waiting_def queue_name_def ok)
  show "j \<in> set (queue_waiting q n) \<Longrightarrow> queue_name j = Some n"
    using ok queue_wfD[of q n]
    by (cases "q_queues q n") (auto simp: queue_waiting_def queue_name_def)
qed

section \<open>Runs of the queue with its manager\<close>

text \<open>The manager starts every job it receives, and notifies the queue when a started job ends.
  A run records what was pushed, started, is in flight and has finished.\<close>

record run =
  r_queue :: queue
  r_pushed :: "command list"
  r_started :: "command list"
  r_flight :: "command list"
  r_finished :: "command list"

definition run_init :: run where
  "run_init = \<lparr>r_queue = queue_Init, r_pushed = [], r_started = [], r_flight = [], r_finished = []\<rparr>"

inductive qstep :: "run \<Rightarrow> run \<Rightarrow> bool" where
  push: "queue_Push j (r_queue s) = Inr (q, sent) \<Longrightarrow>
     qstep s (s\<lparr>r_queue := q, r_pushed := r_pushed s @ [j],
       r_started := r_started s @ sent, r_flight := r_flight s @ sent\<rparr>)"
| refused: "queue_Push j (r_queue s) = Inl e \<Longrightarrow> qstep s s"
| finish: "j \<in> set (r_flight s) \<Longrightarrow> queue_Notify j (r_queue s) = Some (q, sent) \<Longrightarrow>
     qstep s (s\<lparr>r_queue := q, r_started := r_started s @ sent,
       r_flight := remove1 j (r_flight s) @ sent, r_finished := r_finished s @ [j]\<rparr>)"
| close: "queue_Close (r_queue s) = Some q \<Longrightarrow> qstep s (s\<lparr>r_queue := q\<rparr>)"

inductive_cases qstepE: "qstep s t"

inductive qreach :: "run \<Rightarrow> bool" where
  init: "qreach run_init"
| step: "qreach s \<Longrightarrow> qstep s t \<Longrightarrow> qreach t"

abbreviation of_queue :: "string \<Rightarrow> command list \<Rightarrow> command list" where
  "of_queue n js \<equiv> filter (\<lambda>j. queue_name j = Some n) js"

text \<open>While the queue is open a run is sequential; once it is closed nothing more is started.\<close>

definition run_inv :: "run \<Rightarrow> bool" where
  "run_inv s \<longleftrightarrow> queue_wf (r_queue s) \<and>
     (\<forall>n. length (of_queue n (r_flight s)) \<le> 1 \<and>
        (\<exists>r. of_queue n (r_pushed s) = of_queue n (r_started s) @ r) \<and>
        (\<not> q_closed (r_queue s) \<longrightarrow>
           mgr_queue.sequential (r_queue s) (r_pushed s) (r_started s) (r_flight s) (r_finished s) n))"

lemma run_inv_openI:
  assumes "queue_wf (r_queue s)" "\<not> q_closed (r_queue s)"
    and "\<And>n. mgr_queue.sequential (r_queue s) (r_pushed s) (r_started s) (r_flight s) (r_finished s) n"
  shows "run_inv s"
  unfolding run_inv_def
  using assms mgr_queue.sequential_one mgr_queue.sequential_order by blast

lemma run_inv_init: "run_inv run_init"
  by (rule run_inv_openI)
    (simp_all add: run_init_def mgr_queue.sequential_def queue_waiting_def queue_Init_def queue_wf_def)

lemma of_queue_remove1: "length (of_queue n (remove1 j js)) \<le> length (of_queue n js)"
  by (induction js) auto

lemma run_inv_step:
  assumes "run_inv s" "qstep s t" shows "run_inv t"
  using assms(2)
proof (cases rule: qstep.cases)
  case (push j q sent)
  note 1 = push
  then have op: "\<not> q_closed (r_queue s)" by (auto simp: queue_Push_def split: if_splits)
  have wf: "queue_wf (r_queue s)" using assms(1) by (simp add: run_inv_def)
  have q: "q = fst (open_push j (r_queue s))" "sent = snd (open_push j (r_queue s))"
    using 1(2) queue_Push_open[OF op, of j] by auto
  show ?thesis
    using queue_Push_wf[OF wf 1(2)] op assms(1) mgr_queue.push_sequential[of "r_queue s"] wf
    unfolding 1(1) by (intro run_inv_openI) (simp_all add: run_inv_def q)
next
  case (refused j e)
  then show ?thesis using assms(1) by simp
next
  case (finish j q sent)
  note 3 = finish
  have wf: "queue_wf (r_queue s)" using assms(1) by (simp add: run_inv_def)
  show ?thesis
  proof (cases "q_closed (r_queue s)")
    case True
    then have "q = r_queue s" "sent = []" using 3(3) by (auto simp: queue_Notify_def)
    moreover have "length (of_queue n (remove1 j (r_flight s))) \<le> 1" for n
      using of_queue_remove1[of n j "r_flight s"] assms(1) le_trans unfolding run_inv_def by blast
    ultimately show ?thesis using assms(1) True unfolding 3(1) run_inv_def by simp
  next
    case False
    have q: "q = fst (open_notify j (r_queue s))" "sent = snd (open_notify j (r_queue s))"
      using 3(3) queue_Notify_open[OF wf, of j] by auto
    show ?thesis
      using queue_Notify_wf[OF wf 3(3)] False assms(1) mgr_queue.notify_sequential[of "r_queue s"] wf 3(2)
      unfolding 3(1) by (intro run_inv_openI) (simp_all add: run_inv_def q)
  qed
next
  case (close q)
  note 4 = close
  then have "q_closed q" "q_queues q = q_queues (r_queue s)"
    by (auto simp: queue_Close_def split: if_splits)
  then show ?thesis using assms(1) unfolding 4(1) run_inv_def queue_wf_def by simp
qed

lemma qreach_inv: "qreach s \<Longrightarrow> run_inv s"
  by (induction rule: qreach.induct) (auto intro: run_inv_init run_inv_step)

text \<open>Concrete runs for the witnesses.\<close>

definition run_push :: "command \<Rightarrow> run \<Rightarrow> run" where
  "run_push j s = (case open_push j (r_queue s) of (q, sent) \<Rightarrow>
     s\<lparr>r_queue := q, r_pushed := r_pushed s @ [j],
       r_started := r_started s @ sent, r_flight := r_flight s @ sent\<rparr>)"

lemma qreach_push: "qreach s \<Longrightarrow> \<not> q_closed (r_queue s) \<Longrightarrow> qreach (run_push j s)"
  using qstep.push[of j s "fst (open_push j (r_queue s))" "snd (open_push j (r_queue s))"]
  by (auto simp: run_push_def queue_Push_open split: prod.splits intro: qreach.step)

definition job_a :: command where "job_a = (new_command ''1'' ''ping'')\<lparr>cmd_Queue := ''a''\<rparr>"
definition job_b :: command where "job_b = (new_command ''2'' ''ping'')\<lparr>cmd_Queue := ''a''\<rparr>"

lemmas run_eval = run_push_def open_push_def queue_Push_def run_init_def queue_Init_def Let_def
  job_a_def job_b_def new_command_def queue_name_def

lemma qreach_ab: "qreach (run_push job_b (run_push job_a run_init))"
  by (intro qreach_push qreach.init) (simp_all add: run_eval)

section \<open>Properties\<close>

text \<open>C1: Jobs of one named queue never overlap and start in the order they were pushed: in every
  reachable state at most one of them is in flight, and the jobs started so far are a prefix of the
  jobs pushed, whatever pushes, completions and closings happened.\<close>

theorem queue_runs_sequentially:
  assumes "qreach s"
  shows "length (of_queue n (r_flight s)) \<le> 1 \<and>
    (\<exists>rest. of_queue n (r_pushed s) = of_queue n (r_started s) @ rest)"
  using qreach_inv[OF assms] unfolding run_inv_def by blast

lemma queue_runs_sequentially_witness:
  "length (of_queue ''a'' (r_flight (run_push job_b (run_push job_a run_init)))) \<le> 1 \<and>
   r_flight (run_push job_b (run_push job_a run_init)) = [job_a]"
  using queue_runs_sequentially[OF qreach_ab, of "''a''"] by (simp add: run_eval)

text \<open>C29: No job of an open queue is forgotten: if none of a queue's jobs is in flight, every job
  pushed on it has finished (the completion of a job always starts the next one).\<close>

theorem queue_forgets_no_job:
  assumes "qreach s" and "\<not> q_closed (r_queue s)" and "of_queue n (r_flight s) = []"
  shows "of_queue n (r_finished s) = of_queue n (r_pushed s)"
  using qreach_inv[OF assms(1)] assms(2,3) mgr_queue.sequential_complete
  unfolding run_inv_def by blast

lemma queue_forgets_no_job_witness:
  "of_queue ''b'' (r_finished (run_push job_b (run_push job_a run_init))) =
   of_queue ''b'' (r_pushed (run_push job_b (run_push job_a run_init)))"
  by (rule queue_forgets_no_job[OF qreach_ab]) (simp_all add: run_eval)

end
