(* ===== verification/Mgr_Backoff.thy ===== *)
theory Mgr_Backoff
  imports Prelude Complex_Main
begin

text \<open>
  The back-off policy of \<^verbatim>\<open>base/mgr/backoff.go\<close>.  A duration is a number of nanoseconds.  The
  policy multiplies the last delay by a \<^verbatim>\<open>float64\<close> and truncates; the multiplier is a rational
  here.  A delay is a whole number of seconds (or \<^verbatim>\<open>Max\<close>), so for the multipliers the
  repository uses (2 and 3/2) the product is an integer below \<open>2 ^ 53\<close>, which \<^verbatim>\<open>float64\<close> holds
  exactly (\<open>job_product_exact\<close>).
\<close>

definition Second :: int where "Second = 1000000000"
definition Minute :: int where "Minute = 60 * Second"

record backoff =
  bo_Delay :: int
  bo_Multiply :: rat
  bo_Max :: int
  bo_lastDelay :: int
  bo_lastCall :: int
  bo_o :: bool

definition backoff_defaults :: "int \<Rightarrow> backoff \<Rightarrow> backoff" where
  "backoff_defaults now b =
     (let b = b\<lparr>bo_lastCall := now\<rparr>;
          b = (if bo_Delay b = 0 then b\<lparr>bo_Delay := 30 * Second\<rparr> else b);
          b = (if bo_Multiply b = 0 then b\<lparr>bo_Multiply := 2\<rparr> else b);
          b = (if bo_Max b = 0 then b\<lparr>bo_Max := 10 * Minute\<rparr> else b)
      in b)"

definition rat_trunc :: "rat \<Rightarrow> int" where
  "rat_trunc r = (if 0 \<le> r then \<lfloor>r\<rfloor> else \<lceil>r\<rceil>)"

text \<open>\<^verbatim>\<open>Duration\<close>, with the two readings of the clock it makes: the one of \<^verbatim>\<open>defaults\<close>, when this
  is the first call, and its own.\<close>

definition backoff_Duration :: "int \<Rightarrow> int \<Rightarrow> backoff \<Rightarrow> backoff \<times> int" where
  "backoff_Duration t0 now b =
     (let b = (if bo_o b then b else (backoff_defaults t0 b)\<lparr>bo_o := True\<rparr>);
          since = now - bo_lastCall b;
          duration = (if since < bo_lastDelay b * 2
                      then rat_trunc (of_int (bo_lastDelay b) * bo_Multiply b)
                      else bo_Delay b);
          duration = go_div duration Second * Second;
          duration = (if bo_Max b \<le> duration then bo_Max b else duration)
      in (b\<lparr>bo_lastCall := now, bo_lastDelay := duration\<rparr>, duration))"

text \<open>The back-off of a job (\<^verbatim>\<open>newJob\<close> in \<^verbatim>\<open>base/mgr/job.go\<close>).\<close>

definition job_backoff :: backoff where
  "job_backoff = \<lparr>bo_Delay = 2 * Second, bo_Multiply = 3 / 2, bo_Max = 5 * Minute,
     bo_lastDelay = 0, bo_lastCall = 0, bo_o = False\<rparr>"

text \<open>A policy that backs off: whole seconds, a multiplier of at least one.\<close>

definition backoff_ok :: "backoff \<Rightarrow> bool" where
  "backoff_ok b \<longleftrightarrow> 0 < bo_Delay b \<and> bo_Delay b \<le> bo_Max b \<and>
     Second dvd bo_Delay b \<and> Second dvd bo_Max b \<and> 1 \<le> bo_Multiply b \<and>
     0 \<le> bo_lastDelay b \<and> bo_lastDelay b \<le> bo_Max b \<and> Second dvd bo_lastDelay b"

lemma Second_pos [simp]: "0 < Second" "Second \<noteq> 0"
  by (simp_all add: Second_def)

lemma trunc_second_dvd: "Second dvd go_div d Second * Second"
  by simp

lemma go_div_Second_ge: "0 \<le> d \<Longrightarrow> e \<le> d \<Longrightarrow> Second dvd e \<Longrightarrow> e \<le> go_div d Second * Second"
proof -
  assume "0 \<le> d" "e \<le> d" "Second dvd e"
  then obtain k where k: "e = k * Second" by (metis dvd_def mult.commute)
  have "k \<le> d div Second"
    using \<open>e \<le> d\<close> k zdiv_mono1[of "k * Second" d Second] by simp
  then show ?thesis using \<open>0 \<le> d\<close> k by (simp add: go_div_nonneg mult_right_mono)
qed

lemma go_div_Second_le: "0 \<le> d \<Longrightarrow> go_div d Second * Second \<le> d"
  by (simp add: go_div_nonneg Second_def)

lemma rat_trunc_mult_ge:
  assumes "0 \<le> d" "1 \<le> m" shows "d \<le> rat_trunc (of_int d * m)"
proof -
  have "of_int d * 1 \<le> (of_int d * m :: rat)" using assms by (intro mult_left_mono) auto
  then show ?thesis using assms unfolding rat_trunc_def by (auto simp: le_floor_iff)
qed

lemma backoff_defaults_ok:
  "backoff_ok b \<Longrightarrow> backoff_defaults t b = b\<lparr>bo_lastCall := t\<rparr>"
  by (auto simp: backoff_defaults_def backoff_ok_def Let_def)

text \<open>What one call yields, in terms of the state before it.\<close>

lemma backoff_Duration_ok:
  assumes ok: "backoff_ok b" and call: "backoff_Duration t0 now b = (b', d)"
  shows "backoff_ok b'" "d \<le> bo_Max b" "bo_lastDelay b' = d" "bo_lastCall b' = now" "bo_o b'"
    "bo_Max b' = bo_Max b" "bo_Delay b' = bo_Delay b" "bo_Multiply b' = bo_Multiply b"
    "bo_o b \<Longrightarrow> now - bo_lastCall b < 2 * bo_lastDelay b \<Longrightarrow> bo_lastDelay b \<le> d"
    "bo_o b \<Longrightarrow> 2 * bo_lastDelay b \<le> now - bo_lastCall b \<Longrightarrow> d = bo_Delay b"
proof -
  define c where "c = (if bo_o b then b else (backoff_defaults t0 b)\<lparr>bo_o := True\<rparr>)"
  have c: "bo_lastDelay c = bo_lastDelay b" "bo_Multiply c = bo_Multiply b"
    "bo_Delay c = bo_Delay b" "bo_Max c = bo_Max b" "bo_o c"
    using ok by (auto simp: backoff_defaults_ok c_def)
  have cb: "bo_o b \<Longrightarrow> c = b" by (simp add: c_def)
  define raw where "raw = (if now - bo_lastCall c < bo_lastDelay b * 2
      then rat_trunc (of_int (bo_lastDelay b) * bo_Multiply b) else bo_Delay b)"
  define cut where "cut = go_div raw Second * Second"
  have d: "d = (if bo_Max b \<le> cut then bo_Max b else cut)"
    and b': "b' = c\<lparr>bo_lastCall := now, bo_lastDelay := d\<rparr>"
    using call unfolding backoff_Duration_def Let_def c_def[symmetric] c raw_def[symmetric] cut_def[symmetric]
    by auto
  have fast: "bo_lastDelay b \<le> rat_trunc (of_int (bo_lastDelay b) * bo_Multiply b)"
    using ok by (intro rat_trunc_mult_ge) (auto simp: backoff_ok_def)
  have raw0: "0 \<le> raw" using fast ok by (auto simp: raw_def backoff_ok_def)
  have cut0: "0 \<le> cut" unfolding cut_def go_div_nonneg[OF raw0 Second_pos(1)]
    using raw0 by (intro mult_nonneg_nonneg) (simp_all add: pos_imp_zdiv_nonneg_iff less_imp_le)
  show "d \<le> bo_Max b" using d by auto
  then show "backoff_ok b'" using ok d cut0 trunc_second_dvd
    unfolding b' backoff_ok_def cut_def[symmetric] by (auto simp: c cut_def)
  show "bo_lastDelay b' = d" "bo_lastCall b' = now" "bo_Max b' = bo_Max b"
    "bo_Delay b' = bo_Delay b" "bo_Multiply b' = bo_Multiply b" "bo_o b'"
    by (auto simp: b' c)
  show "bo_lastDelay b \<le> d" if "bo_o b" "now - bo_lastCall b < 2 * bo_lastDelay b"
  proof -
    have "raw = rat_trunc (of_int (bo_lastDelay b) * bo_Multiply b)" using that by (simp add: raw_def cb)
    then have "bo_lastDelay b \<le> cut"
      unfolding cut_def using fast ok raw0 by (intro go_div_Second_ge) (auto simp: backoff_ok_def)
    then show ?thesis using d ok by (auto simp: backoff_ok_def)
  qed
  show "d = bo_Delay b" if "bo_o b" "2 * bo_lastDelay b \<le> now - bo_lastCall b"
  proof -
    have "raw = bo_Delay b" using that by (simp add: raw_def cb)
    then have "cut = bo_Delay b"
      unfolding cut_def using ok go_div_Second_ge[of "bo_Delay b" "bo_Delay b"] go_div_Second_le[of "bo_Delay b"]
      by (auto simp: backoff_ok_def)
    then show ?thesis using d ok by (auto simp: backoff_ok_def)
  qed
qed

lemma job_backoff_ok: "backoff_ok job_backoff"
  by (simp add: backoff_ok_def job_backoff_def Second_def Minute_def)

lemma job_product_exact:
  assumes "0 \<le> k" "k * Second \<le> 5 * Minute"
  shows "of_int (k * Second) * (3 / 2 :: rat) \<in> \<int>" and "of_int (k * Second) * (3 / 2 :: rat) < 2 ^ 53"
proof -
  have eq: "of_int (k * Second) * (3 / 2 :: rat) = of_int (k * 1500000000)" by (simp add: Second_def)
  show "of_int (k * Second) * (3 / 2 :: rat) \<in> \<int>" unfolding eq by (rule Ints_of_int)
  have "k * 1500000000 < 2 ^ 53" using assms by (simp add: Second_def Minute_def)
  then have "of_int (k * 1500000000) < (of_int (2 ^ 53) :: rat)" by (simp only: of_int_less_iff)
  then show "of_int (k * Second) * (3 / 2 :: rat) < 2 ^ 53" unfolding eq by simp
qed

section \<open>A service that keeps crashing\<close>

text \<open>Calls at the given pairs of clock readings; the delays, in order.\<close>

fun backoff_calls :: "(int \<times> int) list \<Rightarrow> backoff \<Rightarrow> backoff \<times> int list" where
  "backoff_calls [] b = (b, [])"
| "backoff_calls ((t0, now) # ts) b =
     (case backoff_Duration t0 now b of (b', d) \<Rightarrow>
        (case backoff_calls ts b' of (b'', ds) \<Rightarrow> (b'', d # ds)))"

lemma backoff_calls_bounds:
  "backoff_ok b \<Longrightarrow> backoff_calls ts b = (b', ds) \<Longrightarrow> \<forall>d\<in>set ds. 0 \<le> d \<and> d \<le> bo_Max b"
proof (induction ts arbitrary: b ds)
  case (Cons t ts)
  obtain t0 now where t: "t = (t0, now)" by fastforce
  obtain b1 d where c: "backoff_Duration t0 now b = (b1, d)" by fastforce
  obtain es where r: "backoff_calls ts b1 = (b', es)" "ds = d # es"
    using Cons.prems(2) t c by (auto split: prod.splits)
  note ok = backoff_Duration_ok[OF Cons.prems(1) c]
  have "0 \<le> d" using ok(1,3) by (auto simp: backoff_ok_def)
  then show ?case using Cons.IH[OF ok(1) r(1)] ok(2,6) r(2) by auto
qed simp

text \<open>A crash loop: every call comes less than two delays after the one before.\<close>

fun fast_calls :: "(int \<times> int) list \<Rightarrow> backoff \<Rightarrow> bool" where
  "fast_calls [] b = True"
| "fast_calls ((t0, now) # ts) b =
     ((bo_o b \<longrightarrow> now - bo_lastCall b < 2 * bo_lastDelay b) \<and>
      fast_calls ts (fst (backoff_Duration t0 now b)))"

lemma fast_calls_sorted:
  "backoff_ok b \<Longrightarrow> bo_o b \<Longrightarrow> fast_calls ts b \<Longrightarrow> backoff_calls ts b = (b', ds) \<Longrightarrow>
     sorted (bo_lastDelay b # ds)"
proof (induction ts arbitrary: b ds)
  case (Cons t ts)
  obtain t0 now where t: "t = (t0, now)" by fastforce
  obtain b1 d where c: "backoff_Duration t0 now b = (b1, d)" by fastforce
  obtain es where r: "backoff_calls ts b1 = (b', es)" "ds = d # es"
    using Cons.prems(4) t c by (auto split: prod.splits)
  note ok = backoff_Duration_ok[OF Cons.prems(1) c]
  have le: "bo_lastDelay b \<le> d" using ok(9) Cons.prems(2,3) t by auto
  have "sorted (d # es)" using Cons.IH[OF ok(1,5) _ r(1)] ok(3) Cons.prems(3) t c by simp
  then show ?case using le r(2) by auto
qed simp

section \<open>Properties\<close>

text \<open>In a crash loop (every failure follows the last within two delays) the delays between the
  restarts of a service never decrease and never exceed the maximum of its policy.\<close>

theorem backoff_crash_loop_monotone:
  assumes "backoff_ok b" and "fast_calls ts b"
  shows "sorted (snd (backoff_calls ts b)) \<and> (\<forall>d\<in>set (snd (backoff_calls ts b)). d \<le> bo_Max b)"
proof (cases ts)
  case (Cons t ts')
  obtain t0 now where t: "t = (t0, now)" by fastforce
  obtain b1 d where c: "backoff_Duration t0 now b = (b1, d)" by fastforce
  obtain b2 ds where r: "backoff_calls ts' b1 = (b2, ds)" by fastforce
  note ok = backoff_Duration_ok[OF assms(1) c]
  have "sorted (bo_lastDelay b1 # ds)"
    using fast_calls_sorted[OF ok(1,5) _ r] assms(2) Cons t c by simp
  moreover have "\<forall>d\<in>set (snd (backoff_calls ts b)). d \<le> bo_Max b"
    using backoff_calls_bounds[OF assms(1) prod.collapse[symmetric], of ts] by blast
  ultimately show ?thesis using ok(3) Cons t c r by simp
qed simp

lemma backoff_crash_loop_monotone_witness:
  "backoff_calls [(0, 0), (0, 2 * Second), (0, 5 * Second)] job_backoff
     = (job_backoff\<lparr>bo_lastDelay := 4 * Second, bo_lastCall := 5 * Second, bo_o := True\<rparr>,
        [2 * Second, 3 * Second, 4 * Second]) \<and>
   sorted (snd (backoff_calls [(0, 0), (0, 2 * Second), (0, 5 * Second)] job_backoff))"
proof
  have e: "backoff_Duration 0 0 job_backoff = (job_backoff\<lparr>bo_lastDelay := 2 * Second, bo_o := True\<rparr>, 2 * Second)"
    "backoff_Duration 0 (2 * Second) (job_backoff\<lparr>bo_lastDelay := 2 * Second, bo_o := True\<rparr>) =
      (job_backoff\<lparr>bo_lastDelay := 3 * Second, bo_lastCall := 2 * Second, bo_o := True\<rparr>, 3 * Second)"
    "backoff_Duration 0 (5 * Second) (job_backoff\<lparr>bo_lastDelay := 3 * Second, bo_lastCall := 2 * Second, bo_o := True\<rparr>) =
      (job_backoff\<lparr>bo_lastDelay := 4 * Second, bo_lastCall := 5 * Second, bo_o := True\<rparr>, 4 * Second)"
    by (simp_all add: backoff_Duration_def backoff_defaults_def job_backoff_def Let_def Second_def
        Minute_def go_div_def rat_trunc_def)
  show "backoff_calls [(0, 0), (0, 2 * Second), (0, 5 * Second)] job_backoff
     = (job_backoff\<lparr>bo_lastDelay := 4 * Second, bo_lastCall := 5 * Second, bo_o := True\<rparr>,
        [2 * Second, 3 * Second, 4 * Second])"
    by (simp add: e)
  have "fast_calls [(0, 0), (0, 2 * Second), (0, 5 * Second)] job_backoff"
    by (simp add: e) (simp add: job_backoff_def Second_def)
  then show "sorted (snd (backoff_calls [(0, 0), (0, 2 * Second), (0, 5 * Second)] job_backoff))"
    using backoff_crash_loop_monotone[OF job_backoff_ok] by blast
qed

end
