(* ===== verification/Settings_Condition.thy ===== *)
theory Settings_Condition
  imports Prelude
begin

text \<open>
  The start conditions of \<^verbatim>\<open>base/settings/condition.go\<close>: a small expression language
  (\<^verbatim>\<open>and\<close>, \<^verbatim>\<open>or\<close>, \<^verbatim>\<open>not\<close>, \<^verbatim>\<open>true\<close>, \<^verbatim>\<open>false\<close> and the names of kernel
  arguments) with a recursive parser.  The argument loop of the parser has no bound, so the parser
  takes fuel, one unit per call and per turn of the loop; out of fuel is \<open>None\<close>.
\<close>

section \<open>Expressions\<close>

text \<open>An argument the parser did not find is a nil interface, \<open>None\<close> here.\<close>

datatype expression =
    BoolExp bool
  | AndExp "expression option list"
  | OrExp "expression option list"
  | NotExp "expression option list"
  | UserExp string

text \<open>\<^verbatim>\<open>Examine\<close> for the set of given arguments; calling it on a nil interface panics
  (\<open>None\<close>).\<close>

fun Examine :: "(string \<Rightarrow> bool) \<Rightarrow> expression \<Rightarrow> bool option"
  and examine_all :: "(string \<Rightarrow> bool) \<Rightarrow> expression option list \<Rightarrow> bool option"
  and examine_any :: "(string \<Rightarrow> bool) \<Rightarrow> expression option list \<Rightarrow> bool option" where
  "Examine inp (BoolExp b) = Some b"
| "Examine inp (UserExp u) = Some (inp u)"
| "Examine inp (AndExp args) = examine_all inp args"
| "Examine inp (OrExp args) = examine_any inp args"
| "Examine inp (NotExp args) =
     (case args of
        [Some e] \<Rightarrow> map_option Not (Examine inp e)
      | [None] \<Rightarrow> None
      | _ \<Rightarrow> Some False)"
| "examine_all inp [] = Some True"
| "examine_all inp (None # r) = None"
| "examine_all inp (Some e # r) =
     (case Examine inp e of None \<Rightarrow> None | Some False \<Rightarrow> Some False | Some True \<Rightarrow> examine_all inp r)"
| "examine_any inp [] = Some False"
| "examine_any inp (None # r) = None"
| "examine_any inp (Some e # r) =
     (case Examine inp e of None \<Rightarrow> None | Some True \<Rightarrow> Some True | Some False \<Rightarrow> examine_any inp r)"

section \<open>The parser\<close>

definition word_char :: "char \<Rightarrow> bool" where
  "word_char c \<longleftrightarrow> (let n = (of_char c :: nat) in
     (48 \<le> n \<and> n \<le> 57) \<or> (65 \<le> n \<and> n \<le> 90) \<or> (97 \<le> n \<and> n \<le> 122) \<or> n = 95 \<or> n = 45)"

text \<open>\<^verbatim>\<open>strings.IndexFunc\<close> for the bytes that are not a space.\<close>

definition index_nonspace :: "string \<Rightarrow> nat option" where
  "index_nonspace s =
     (let n = length (takeWhile (\<lambda>c. c = CHR '' '') s) in if n < length s then Some n else None)"

definition forward :: "nat \<Rightarrow> string \<Rightarrow> nat" where
  "forward from s = (case index_nonspace (drop from s) of None \<Rightarrow> from | Some p \<Rightarrow> p + from)"

datatype parse_error = EOL | Expecting

definition builder :: "string \<Rightarrow> expression option list \<Rightarrow> expression" where
  "builder token args =
     (if token = ''true'' then BoolExp True
      else if token = ''false'' then BoolExp False
      else if token = ''and'' then AndExp args
      else if token = ''or'' then OrExp args
      else if token = ''not'' then NotExp args
      else UserExp token)"

text \<open>What \<^verbatim>\<open>getOne\<close> returns: the expression (nil when there is none), a position, an error.\<close>

type_synonym one = "expression option \<times> nat \<times> parse_error option"

definition finish_one :: "string \<Rightarrow> string \<Rightarrow> expression option list \<Rightarrow> nat \<Rightarrow> one" where
  "finish_one e token args nx =
     (Some (builder token args), nx, if length e \<le> nx then Some EOL else None)"

text \<open>\<open>getArgs\<close> is the argument loop: \<open>nx\<close> is the position of the opening bracket or of the last
  comma.  It yields the arguments and the position after the closing bracket, or an error with its
  position.  The position \<open>p\<close> after an argument is \<^verbatim>\<open>IndexFunc(...) + next\<close>, where \<^verbatim>\<open>IndexFunc\<close>
  is -1 when only spaces are left.\<close>

fun getOne :: "nat \<Rightarrow> nat \<Rightarrow> string \<Rightarrow> one option"
  and getArgs :: "nat \<Rightarrow> nat \<Rightarrow> string \<Rightarrow> expression option list \<Rightarrow>
    (nat \<times> parse_error, expression option list \<times> nat) result option" where
  "getOne 0 start e = None"
| "getOne (Suc n) start e =
     (let at = forward start e;
          token = takeWhile word_char (drop at e) in
      if token = [] then Some (None, at, None)
      else let nx = forward (at + length token) e in
        if nx + 1 < length e \<and> e ! nx = CHR ''('' then
          (case getArgs n nx e [] of
             None \<Rightarrow> None
           | Some (Inl (p, er)) \<Rightarrow> Some (None, p, Some er)
           | Some (Inr (args, p)) \<Rightarrow> Some (finish_one e token args p))
        else Some (finish_one e token [] nx))"
| "getArgs 0 nx e args = None"
| "getArgs (Suc n) nx e args =
     (case getOne n (nx + 1) e of
        None \<Rightarrow> None
      | Some (sub, p, Some er) \<Rightarrow> Some (Inl (p, er))
      | Some (sub, p, None) \<Rightarrow>
          let args = args @ [sub];
              p = (case index_nonspace (drop p e) of None \<Rightarrow> p - 1 | Some k \<Rightarrow> k + p) in
          if e ! p = CHR '')'' then Some (Inr (args, p + 1))
          else if e ! p \<noteq> CHR '','' then Some (Inl (p, Expecting))
          else getArgs n p e args)"

datatype cond_error = Garbage nat | SyntaxError "parse_error option" nat

definition GetExpression :: "nat \<Rightarrow> string \<Rightarrow> (cond_error, expression) result option" where
  "GetExpression fuel e =
     (if e = [] then Some (Inr (BoolExp True))
      else case getOne fuel 0 e of
          None \<Rightarrow> None
        | Some (ex, l, err) \<Rightarrow>
            (case (ex, err) of
               (Some x, Some EOL) \<Rightarrow> Some (Inr x)
             | _ \<Rightarrow> if l \<noteq> length e then Some (Inl (Garbage l)) else Some (Inl (SyntaxError err l))))"

section \<open>Printing\<close>

text \<open>The expressions a service file writes: names that are no keyword, and operators with at least
  one argument.\<close>

definition reserved_words :: "string list" where
  "reserved_words = [''true'', ''false'', ''and'', ''or'', ''not'']"

inductive wf_exp :: "expression \<Rightarrow> bool" where
  "wf_exp (BoolExp b)"
| "u \<noteq> [] \<Longrightarrow> list_all word_char u \<Longrightarrow> u \<notin> set reserved_words \<Longrightarrow> wf_exp (UserExp u)"
| "es \<noteq> [] \<Longrightarrow> (\<And>e. e \<in> set es \<Longrightarrow> wf_exp e) \<Longrightarrow> wf_exp (AndExp (map Some es))"
| "es \<noteq> [] \<Longrightarrow> (\<And>e. e \<in> set es \<Longrightarrow> wf_exp e) \<Longrightarrow> wf_exp (OrExp (map Some es))"
| "wf_exp e \<Longrightarrow> wf_exp (NotExp [Some e])"

fun print_exp :: "expression \<Rightarrow> string" where
  "print_exp (BoolExp b) = (if b then ''true'' else ''false'')"
| "print_exp (UserExp u) = u"
| "print_exp (AndExp args) = ''and('' @ str_join '','' (map (\<lambda>a. case a of None \<Rightarrow> [] | Some e \<Rightarrow> print_exp e) args) @ '')''"
| "print_exp (OrExp args) = ''or('' @ str_join '','' (map (\<lambda>a. case a of None \<Rightarrow> [] | Some e \<Rightarrow> print_exp e) args) @ '')''"
| "print_exp (NotExp args) = ''not('' @ str_join '','' (map (\<lambda>a. case a of None \<Rightarrow> [] | Some e \<Rightarrow> print_exp e) args) @ '')''"

section \<open>Fuel\<close>

text \<open>More fuel never changes a result.\<close>

lemma fuel_step:
  "getOne n at e = Some r \<Longrightarrow> getOne (Suc n) at e = Some r"
  "getArgs n nx e args = Some q \<Longrightarrow> getArgs (Suc n) nx e args = Some q"
proof (induction n at e and n nx e args arbitrary: r and q rule: getOne_getArgs.induct)
  case (2 n start e)
  let ?at = "forward start e"
  let ?token = "takeWhile word_char (drop ?at e)"
  let ?nx = "forward (?at + length ?token) e"
  show ?case
  proof (cases "?token \<noteq> [] \<and> ?nx + 1 < length e \<and> e ! ?nx = CHR ''(''")
    case True
    then obtain q where q: "getArgs n ?nx e [] = Some q"
      using 2(2) by (auto simp: Let_def split: option.splits)
    then have "getArgs (Suc n) ?nx e [] = Some q"
      using 2(1)[OF refl refl _ refl] True by blast
    then show ?thesis using 2(2) q True
      by (simp add: Let_def del: getOne.simps getArgs.simps add: getOne.simps(2)[of n] getOne.simps(2)[of "Suc n"])
  next
    case False
    then show ?thesis using 2(2)
      by (auto simp add: Let_def simp del: getOne.simps getArgs.simps simp add: getOne.simps(2)[of n] getOne.simps(2)[of "Suc n"])
  qed
next
  case (4 n nx e args)
  obtain sub p er where one: "getOne n (nx + 1) e = Some (sub, p, er)"
    using 4(3) by (auto split: option.splits prod.splits)
  then have one': "getOne (Suc n) (nx + 1) e = Some (sub, p, er)" using 4(1) by blast
  show ?case
  proof (cases er)
    case (Some x)
    then show ?thesis using 4(3) one one'
      by (simp del: getOne.simps getArgs.simps add: getArgs.simps(2)[of n] getArgs.simps(2)[of "Suc n"])
  next
    case None
    let ?p = "case index_nonspace (drop p e) of None \<Rightarrow> p - 1 | Some k \<Rightarrow> k + p"
    show ?thesis
      using 4(3) one one' None 4(2)[OF one refl refl None refl refl]
      by (simp add: Let_def del: getOne.simps getArgs.simps add: getArgs.simps(2)[of n] getArgs.simps(2)[of "Suc n"] split: if_splits)
  qed
qed simp_all

lemma getOne_fuel: "getOne n at e = Some r \<Longrightarrow> n \<le> m \<Longrightarrow> getOne m at e = Some r"
  by (induction m) (auto simp: le_Suc_eq fuel_step simp del: getOne.simps getArgs.simps)

declare getOne.simps(2) [simp del] getArgs.simps(2) [simp del]

section \<open>Parsing what was printed\<close>

lemma takeWhile_word: "list_all word_char t \<Longrightarrow> r = [] \<or> \<not> word_char (hd r) \<Longrightarrow> takeWhile word_char (t @ r) = t"
  by (cases r) (auto simp: list_all_iff takeWhile_append2)

lemma word_not_space: "word_char c \<Longrightarrow> c \<noteq> CHR '' ''"
  by (auto simp: word_char_def Let_def)

lemma forward_at: "drop at e \<noteq> [] \<Longrightarrow> hd (drop at e) \<noteq> CHR '' '' \<Longrightarrow> forward at e = at"
  by (cases "drop at e") (auto simp: forward_def index_nonspace_def Let_def)

lemma forward_end: "drop at e = [] \<Longrightarrow> forward at e = at"
  by (simp add: forward_def index_nonspace_def)

lemma index_nonspace_hd: "s \<noteq> [] \<Longrightarrow> hd s \<noteq> CHR '' '' \<Longrightarrow> index_nonspace s = Some 0"
  by (cases s) (auto simp: index_nonspace_def Let_def)

text \<open>What may follow an expression: nothing, a comma or a closing bracket.\<close>

definition post_ok :: "string \<Rightarrow> bool" where
  "post_ok post \<longleftrightarrow> post = [] \<or> hd post = CHR '','' \<or> hd post = CHR '')''"

lemma post_ok_hd: "post_ok post \<Longrightarrow> post = [] \<or> \<not> word_char (hd post) \<and> hd post \<noteq> CHR '' '' \<and> hd post \<noteq> CHR ''(''"
  by (auto simp: post_ok_def word_char_def Let_def)

definition parses :: "expression \<Rightarrow> string \<Rightarrow> bool" where
  "parses x t \<longleftrightarrow> (\<forall>n pre post. length t < n \<longrightarrow> post_ok post \<longrightarrow>
     getOne n (length pre) (pre @ t @ post) =
       Some (Some x, length pre + length t, if post = [] then Some EOL else None))"

lemma parsesD:
  "parses x t \<Longrightarrow> length t < n \<Longrightarrow> post_ok post \<Longrightarrow>
     getOne n (length pre) (pre @ t @ post) =
       Some (Some x, length pre + length t, if post = [] then Some EOL else None)"
  unfolding parses_def by blast

lemma forward_token:
  assumes "post = [] \<or> hd post \<noteq> CHR '' ''"
  shows "forward (length pre) (pre @ post) = length pre"
  using assms forward_at[of "length pre" "pre @ post"] forward_end[of "length pre" "pre @ post"]
  by (cases "post = []") auto

lemma parses_word:
  assumes "t \<noteq> []" "list_all word_char t"
  shows "parses (builder t []) t"
  unfolding parses_def
proof (intro allI impI)
  fix n and pre post :: string
  assume n: "length t < n" and post: "post_ok post"
  then obtain m where m: "n = Suc m" by (cases n) auto
  have hd: "word_char (hd t)" using assms by (cases t) auto
  have at: "forward (length pre) (pre @ t @ post) = length pre"
    using forward_token[of "t @ post" pre] hd word_not_space assms(1) by auto
  have tok: "takeWhile word_char (drop (length pre) (pre @ t @ post)) = t"
    using takeWhile_word[OF assms(2)] post_ok_hd[OF post] by (metis append_eq_conv_conj)
  have nx: "forward (length pre + length t) (pre @ t @ post) = length pre + length t"
    using forward_token[of post "pre @ t"] post_ok_hd[OF post] by auto
  have no: "\<not> (length pre + length t + 1 < length (pre @ t @ post) \<and>
      (pre @ t @ post) ! (length pre + length t) = CHR ''('')"
    using post_ok_hd[OF post] by (cases post) (auto simp: nth_append)
  show "getOne n (length pre) (pre @ t @ post) =
      Some (Some (builder t []), length pre + length t, if post = [] then Some EOL else None)"
    unfolding m getOne.simps(2) Let_def at tok nx if_not_P[OF no] using assms(1)
    by (simp add: finish_one_def)
qed

abbreviation join_args :: "string list \<Rightarrow> string" where
  "join_args ts \<equiv> str_join '','' ts"

lemma getArgs_one:
  assumes "getOne n (nx + 1) e = Some (Some x, p, None)" "p < length e" "e ! p = CHR '')''"
  shows "getArgs (Suc n) nx e args = Some (Inr (args @ [Some x], p + 1))"
proof -
  have "index_nonspace (drop p e) = Some 0"
    using assms(2,3) by (intro index_nonspace_hd) (auto simp: hd_drop_conv_nth)
  then show ?thesis using assms by (simp add: getArgs.simps(2) Let_def)
qed

lemma getArgs_more:
  assumes "getOne n (nx + 1) e = Some (Some x, p, None)" "p < length e" "e ! p = CHR '',''"
  shows "getArgs (Suc n) nx e args = getArgs n p e (args @ [Some x])"
proof -
  have "index_nonspace (drop p e) = Some 0"
    using assms(2,3) by (intro index_nonspace_hd) (auto simp: hd_drop_conv_nth)
  then show ?thesis using assms by (simp add: getArgs.simps(2) Let_def)
qed

lemma getArgs_print:
  assumes "list_all2 parses es ts" "es \<noteq> []" "length (join_args ts) + 1 < n"
  shows "getArgs n (length pre) (pre @ c # join_args ts @ CHR '')'' # post) acc =
    Some (Inr (acc @ map Some es, length pre + length (join_args ts) + 2))"
  using assms
proof (induction es ts arbitrary: n pre c acc rule: list_all2_induct)
  case (Cons x xs t ts)
  obtain m where m: "n = Suc m" using Cons.prems(2) by (cases n) auto
  show ?case
  proof (cases ts)
    case Nil
    then have xs: "xs = []" using Cons.hyps(2) by simp
    let ?e = "pre @ c # t @ CHR '')'' # post"
    have "getOne m (length (pre @ [c])) ((pre @ [c]) @ t @ (CHR '')'' # post)) =
        Some (Some x, length (pre @ [c]) + length t, None)"
      using parsesD[OF Cons.hyps(1), of m "CHR '')'' # post" "pre @ [c]"] Cons.prems(2) Nil m
      by (simp add: post_ok_def)
    then have "getOne m (length pre + 1) ?e = Some (Some x, length pre + 1 + length t, None)" by simp
    from getArgs_one[OF this] show ?thesis using Nil xs m by (simp add: nth_append)
  next
    case (Cons t2 ts')
    note ts = this
    let ?tail = "join_args ts @ CHR '')'' # post"
    let ?e = "pre @ c # t @ CHR '','' # ?tail"
    have j: "join_args (t # ts) = t @ CHR '','' # join_args ts" using ts by simp
    have "getOne m (length (pre @ [c])) ((pre @ [c]) @ t @ (CHR '','' # ?tail)) =
        Some (Some x, length (pre @ [c]) + length t, None)"
      using parsesD[OF Cons.hyps(1), of m "CHR '','' # ?tail" "pre @ [c]"] Cons.prems(2) j m
      by (simp add: post_ok_def)
    then have "getOne m (length pre + 1) ?e = Some (Some x, length pre + 1 + length t, None)" by simp
    from getArgs_more[OF this] have
      "getArgs n (length pre) ?e acc = getArgs m (length pre + 1 + length t) ?e (acc @ [Some x])"
      using m by (simp add: nth_append)
    also have "\<dots> = getArgs m (length (pre @ c # t)) ((pre @ c # t) @ CHR '','' # ?tail) (acc @ [Some x])"
      by simp
    also have "\<dots> = Some (Inr ((acc @ [Some x]) @ map Some xs, length (pre @ c # t) + length (join_args ts) + 2))"
      using Cons.IH[of m "pre @ c # t" "CHR '',''" "acc @ [Some x]"] Cons.hyps(2) Cons.prems(2) ts j m
      by (cases xs) auto
    finally show ?thesis using j by simp
  qed
qed simp

lemma parses_op:
  assumes "list_all2 parses es ts" "es \<noteq> []" "w \<noteq> []" "list_all word_char w"
  shows "parses (builder w (map Some es)) (w @ ''('' @ join_args ts @ '')'')"
  unfolding parses_def
proof (intro allI impI)
  fix n and pre post :: string
  let ?t = "w @ ''('' @ join_args ts @ '')''"
  let ?e = "pre @ ?t @ post"
  let ?nx = "length pre + length w"
  assume n: "length ?t < n" and post: "post_ok post"
  then obtain m where m: "n = Suc m" by (cases n) auto
  have hd: "word_char (hd w)" using assms(3,4) by (cases w) auto
  have at: "forward (length pre) ?e = length pre"
    using forward_token[of "?t @ post" pre] hd word_not_space assms(3) by auto
  have tok: "takeWhile word_char (drop (length pre) ?e) = w"
    using takeWhile_word[OF assms(4), of "''('' @ join_args ts @ '')'' @ post"]
    by (simp add: word_char_def)
  have nx: "forward ?nx ?e = ?nx"
    using forward_token[of "''('' @ join_args ts @ '')'' @ post" "pre @ w"] by simp
  have br: "?nx + 1 < length ?e \<and> ?e ! ?nx = CHR ''(''" by (simp add: nth_append)
  have "getArgs m (length (pre @ w)) ((pre @ w) @ CHR ''('' # join_args ts @ CHR '')'' # post) [] =
      Some (Inr (map Some es, length (pre @ w) + length (join_args ts) + 2))"
    using getArgs_print[OF assms(1,2), of m "pre @ w" "CHR ''(''" post "[]"] n m by simp
  then have args: "getArgs m ?nx ?e [] = Some (Inr (map Some es, length pre + length ?t))" by simp
  show "getOne n (length pre) ?e =
      Some (Some (builder w (map Some es)), length pre + length ?t, if post = [] then Some EOL else None)"
    unfolding m getOne.simps(2) Let_def at tok nx using assms(3) br args
    by (simp add: finish_one_def)
qed

lemma parses_print: "wf_exp x \<Longrightarrow> parses x (print_exp x)"
proof (induction rule: wf_exp.induct)
  case (1 b)
  show ?case using parses_word[of "''true''"] parses_word[of "''false''"]
    by (simp add: builder_def word_char_def)
next
  case (2 u)
  then show ?case using parses_word[of u] by (auto simp: builder_def reserved_words_def)
next
  case (3 es)
  have "list_all2 parses es (map print_exp es)"
    using 3(3) by (simp add: list_all2_map2 list.rel_refl_strong)
  from parses_op[OF this 3(1), of "''and''"] show ?case
    by (simp add: builder_def word_char_def comp_def)
next
  case (4 es)
  have "list_all2 parses es (map print_exp es)"
    using 4(3) by (simp add: list_all2_map2 list.rel_refl_strong)
  from parses_op[OF this 4(1), of "''or''"] show ?case
    by (simp add: builder_def word_char_def comp_def)
next
  case (5 e)
  from parses_op[of "[e]" "[print_exp e]" "''not''"] 5(2) show ?case
    by (simp add: builder_def word_char_def)
qed

lemma wf_exp_print_not_Nil: "wf_exp x \<Longrightarrow> print_exp x \<noteq> []"
  by (cases rule: wf_exp.cases) (auto split: if_splits)

section \<open>Properties\<close>

text \<open>C16: A condition round trips through its text: parsing the text of a well-formed expression
  with fuel above its length yields that expression, without error.\<close>

theorem GetExpression_print:
  assumes "wf_exp x" and "length (print_exp x) < fuel"
  shows "GetExpression fuel (print_exp x) = Some (Inr x)"
  using parsesD[OF parses_print[OF assms(1)] assms(2), of "[]" "[]"] wf_exp_print_not_Nil[OF assms(1)]
  by (simp add: GetExpression_def post_ok_def)

lemma GetExpression_print_witness:
  "GetExpression 20 ''and(kvm,not(debug))'' =
     Some (Inr (AndExp [Some (UserExp ''kvm''), Some (NotExp [Some (UserExp ''debug'')])]))"
proof -
  have "wf_exp (UserExp ''kvm'')" "wf_exp (NotExp [Some (UserExp ''debug'')])"
    by (auto intro!: wf_exp.intros simp: word_char_def reserved_words_def)
  then have "wf_exp (AndExp (map Some [UserExp ''kvm'', NotExp [Some (UserExp ''debug'')]]))"
    by (intro wf_exp.intros) auto
  from GetExpression_print[OF this, of 20] show ?thesis by simp
qed

text \<open>The parser does not return on an argument list that ends after a comma: the loop reads an
  absent argument, steps back to the comma and starts again, so no amount of fuel yields a result
  (on the machine it grows the argument list until memory is exhausted).\<close>

theorem GetExpression_open_list_diverges:
  assumes "wf_exp x"
  shows "GetExpression fuel (''and('' @ print_exp x @ '','') = None"
proof -
  let ?t = "print_exp x"
  let ?e = "''and('' @ ?t @ '',''"
  let ?p = "4 + length ?t"
  have comma: "?e ! ?p = CHR '',''" "?p < length ?e" "drop (?p + 1) ?e = []"
    by (simp_all add: nth_append nth_Cons')
  have stuck: "getArgs n ?p ?e args = None" for n args
  proof (induction n arbitrary: args)
    case (Suc n)
    have "getOne n (?p + 1) ?e = None \<or> getOne n (?p + 1) ?e = Some (None, ?p + 1, None)"
      using comma(3) forward_end[of "?p + 1" ?e] by (cases n) (auto simp: getOne.simps(2) Let_def)
    then show ?case
      using Suc comma by (auto simp: getArgs.simps(2) index_nonspace_def Let_def)
  qed simp
  have first: "getOne n 4 ?e = None \<or> getOne n 4 ?e = Some (Some x, ?p, None)" for n
  proof (cases "getOne n 4 ?e")
    case (Some r)
    have big: "getOne (n + length ?t + 1) 4 ?e = Some (Some x, ?p, None)"
      using parsesD[OF parses_print[OF assms], of "n + length ?t + 1" "'',''" "''and(''"]
      by (simp add: post_ok_def eval_nat_numeral)
    have "getOne (n + length ?t + 1) 4 ?e = Some r" by (rule getOne_fuel[OF Some]) simp
    then show ?thesis using big Some by simp
  qed simp
  have args: "getArgs n 3 ?e [] = None" for n
  proof (cases n)
    case (Suc m)
    from first[of m] show ?thesis
    proof
      assume "getOne m 4 ?e = Some (Some x, ?p, None)"
      then show ?thesis
        using getArgs_more[of m 3 ?e x ?p "[]"] comma stuck Suc by simp
    qed (simp add: Suc getArgs.simps(2))
  qed simp
  have "getOne n 0 ?e = None" for n
  proof (cases n)
    case (Suc m)
    have at: "forward 0 ?e = 0" and tok: "takeWhile word_char (drop 0 ?e) = ''and''"
      and nx: "forward (0 + length ''and'') ?e = 3"
      by (simp_all add: forward_def index_nonspace_def word_char_def Let_def)
    have br: "3 + 1 < length ?e \<and> ?e ! 3 = CHR ''(''"
      using wf_exp_print_not_Nil[OF assms] by (simp add: eval_nat_numeral)
    show ?thesis
      unfolding Suc getOne.simps(2) Let_def at tok nx if_P[OF br] args by simp
  qed simp
  then show ?thesis by (simp add: GetExpression_def)
qed

lemma GetExpression_open_list_diverges_witness: "GetExpression 1000 ''and(true,'' = None"
  using GetExpression_open_list_diverges[of "BoolExp True" 1000] by (simp add: wf_exp.intros)

text \<open>An operator with an empty argument list parses without error to an expression whose
  evaluation panics, whatever the kernel arguments are.\<close>

theorem GetExpression_empty_args_panics:
  "\<exists>x. GetExpression 3 ''and()'' = Some (Inr x) \<and> (\<forall>inp. Examine inp x = None)"
  by (rule exI[of _ "AndExp [None]"])
    (simp add: GetExpression_def getOne.simps getArgs.simps numeral_3_eq_3 forward_def
      index_nonspace_def word_char_def Let_def finish_one_def builder_def)

end
