(* ===== verification/Settings_Startup.thy ===== *)
theory Settings_Startup
  imports Prelude
begin

text \<open>
  Startup services, \<^verbatim>\<open>base/settings/startup.go\<close>, \<^verbatim>\<open>tree.go\<close> and \<^verbatim>\<open>include.go\<close>: the weight
  of a service is the sum of the weights of what it runs after, and the boot sequence runs the
  services of one weight range after the other.  A Go map of services is the list of its entries in
  iteration order; weights are 64-bit words read as signed numbers.
\<close>

section \<open>Data\<close>

text \<open>The argument values of a service, as the TOML and JSON decoders deliver them.\<close>

datatype arg =
    AStr string
  | AStrs "string list"
  | AList "arg list"
  | AMap "(string \<times> arg) list"
  | AOther string

record startup =
  su_After :: "string list"
  su_RunningDelay :: int
  su_RunningMatch :: string
  su_RecurringPeriod :: int
  su_MaxRestart :: int
  su_Protected :: bool
  su_Name :: string
  su_Tags :: "string list"
  su_Args :: "(string \<times> arg) list option"
  su_Condition :: string
  su_key :: string

record extension =
  ex_Binary :: string
  ex_Cwd :: string
  ex_Env :: "(string \<times> string) list"
  ex_Args :: "string list"
  ex_key :: string

record included =
  i_Extension :: "(string \<times> extension) list"
  i_Startup :: "(string \<times> startup) list"

definition AfterInit :: string where "AfterInit = ''init''"
definition AfterNet :: string where "AfterNet = ''net''"
definition AfterBoot :: string where "AfterBoot = ''boot''"
definition ToTheEnd :: string where "ToTheEnd = ''----''"

text \<open>The table of priorities, over any ring so that the 64-bit weights can be compared with exact
  ones.\<close>

definition Priority :: "string \<Rightarrow> 'w::comm_ring_1 option" where
  "Priority a =
     (if a = AfterInit then Some 1
      else if a = AfterNet then Some 1000
      else if a = AfterBoot then Some 1000000
      else if a = ToTheEnd then Some (- 1)
      else None)"

definition After_Weight :: "string \<Rightarrow> 64 word" where
  "After_Weight a = (case Priority a of Some v \<Rightarrow> v | None \<Rightarrow> 0)"

section \<open>Weights\<close>

datatype weight_error = CyclicDependency | UnknownDependency string

text \<open>\<^verbatim>\<open>Startup.Weight\<close> and its loop over the dependencies; \<open>chain\<close> are the keys on the way from the
  service whose weight is asked.\<close>

function gweight :: "(string \<times> startup) list \<Rightarrow> string list \<Rightarrow> startup \<Rightarrow> (weight_error, 'w::comm_ring_1) result"
  and gweights :: "(string \<times> startup) list \<Rightarrow> string list \<Rightarrow> string list \<Rightarrow> 'w \<Rightarrow> (weight_error, 'w) result" where
  "gweight i chain s =
     (if su_key s \<in> set chain then Inl CyclicDependency
      else if su_After s = [] then Inr (case Priority AfterBoot of Some v \<Rightarrow> v | None \<Rightarrow> 0)
      else gweights i (chain @ [su_key s]) (su_After s) 0)"
| "gweights i chain [] w = Inr w"
| "gweights i chain (a # as) w =
     (case Priority a of
        Some x \<Rightarrow> gweights i chain as (w + x)
      | None \<Rightarrow>
          (case map_of i a of
             Some d \<Rightarrow>
               (case gweight i chain d of
                  Inl e \<Rightarrow> Inl e
                | Inr dw \<Rightarrow> gweights i chain as (w + dw))
           | None \<Rightarrow> Inl (UnknownDependency a)))"
  by pat_completeness auto

definition keys_of :: "(string \<times> startup) list \<Rightarrow> string set" where
  "keys_of i = (su_key \<circ> snd) ` set i"

lemma finite_keys_of [simp]: "finite (keys_of i)"
  by (simp add: keys_of_def)

lemma map_of_key: "map_of i a = Some d \<Longrightarrow> su_key d \<in> keys_of i"
  by (force simp: keys_of_def dest: map_of_SomeD)

lemma chain_grows: "k \<in> keys_of i \<Longrightarrow> k \<notin> set chain \<Longrightarrow>
    card (keys_of i - set (chain @ [k])) < card (keys_of i - set chain)"
  by (rule psubset_card_mono) auto

lemma chain_mono: "card (keys_of i - set (chain @ [k])) \<le> card (keys_of i - set chain)"
  by (rule card_mono) auto

termination gweight
proof (relation "inv_image (less_than <*lex*> less_than <*lex*> less_than)
   (\<lambda>x. case x of
      Inl (i, chain, s) \<Rightarrow> (card (keys_of i - set chain), if su_key s \<in> keys_of i then 0 else 2, 0)
    | Inr (i, chain, as, w) \<Rightarrow> (card (keys_of i - set chain), 1, length as))", goal_cases)
  case (2 i chain s)
  then show ?case
    using chain_grows[of "su_key s" i chain] chain_mono[of i chain "su_key s"]
    by (cases "su_key s \<in> keys_of i") (auto simp: le_less)
qed (auto simp: map_of_key)

declare gweight.simps [simp del]

text \<open>The weight of the code, and the exact weight.\<close>

definition Weight :: "(string \<times> startup) list \<Rightarrow> startup \<Rightarrow> (weight_error, 64 word) result" where
  "Weight i s = gweight i [] s"

definition exact_weight :: "(string \<times> startup) list \<Rightarrow> startup \<Rightarrow> (weight_error, int) result" where
  "exact_weight i s = gweight i [] s"

definition map_res :: "('a \<Rightarrow> 'b) \<Rightarrow> ('e, 'a) result \<Rightarrow> ('e, 'b) result" where
  "map_res f r = (case r of Inl e \<Rightarrow> Inl e | Inr a \<Rightarrow> Inr (f a))"

lemma map_res_simps [simp]: "map_res f (Inl e) = Inl e" "map_res f (Inr a) = Inr (f a)"
  by (simp_all add: map_res_def)

lemma Priority_of_int: "Priority a = map_option of_int (Priority a :: int option)"
  by (simp add: Priority_def)

lemma gweight_of_int:
  fixes w :: int
  shows "(gweight i chain s :: (weight_error, 'w::comm_ring_1) result) =
      map_res of_int (gweight i chain s :: (weight_error, int) result)"
    and "gweights i chain as (of_int w :: 'w) = map_res of_int (gweights i chain as w)"
proof (induction i chain s and i chain as w rule: gweight_gweights.induct)
  case (1 i chain s)
  show ?case
    using 1 by (subst (1 2) gweight.simps) (simp add: Priority_def)
next
  case (3 i chain a as w)
  show ?case
  proof (cases "Priority a :: int option")
    case (Some x)
    then have "Priority a = Some (of_int x :: 'w)" by (subst Priority_of_int) simp
    then show ?thesis using Some 3(3)[OF Some] by simp
  next
    case None
    then have p: "(Priority a :: 'w option) = None" by (subst Priority_of_int) simp
    show ?thesis
    proof (cases "map_of i a")
      case (Some d)
      show ?thesis
      proof (cases "gweight i chain d :: (weight_error, int) result")
        case (Inl e)
        then show ?thesis using p None Some 3(1)[OF None Some] by simp
      next
        case (Inr dw)
        then show ?thesis using p None Some 3(1)[OF None Some] 3(2)[OF None Some Inr] by simp
      qed
    qed (simp add: p None)
  qed
qed simp

lemma Weight_exact: "Weight i s = map_res of_int (exact_weight i s)"
  unfolding Weight_def exact_weight_def by (rule gweight_of_int(1))

section \<open>Dependencies\<close>

text \<open>\<open>s\<close> runs after the service \<open>d\<close>.\<close>

definition depends :: "(string \<times> startup) list \<Rightarrow> startup \<Rightarrow> startup \<Rightarrow> bool" where
  "depends i s d \<longleftrightarrow>
     (\<exists>a\<in>set (su_After s). (Priority a :: int option) = None \<and> map_of i a = Some d)"






section \<open>The startup tree\<close>

text \<open>\<^verbatim>\<open>prepare\<close> stores the key of every service in the service.\<close>

definition prepare :: "included \<Rightarrow> included" where
  "prepare i = i\<lparr>i_Startup := map (\<lambda>(k, s). (k, s\<lparr>su_key := k\<rparr>)) (i_Startup i)\<rparr>"

record tree =
  t_startups :: "startup list"
  t_weights :: "64 word list"

text \<open>\<^verbatim>\<open>GetStartupTree\<close>: the services whose weight is defined, sorted by it, and the errors of the
  others.  The order of services of one weight is not specified by \<^verbatim>\<open>sort.Sort\<close>; it is the
  iteration order here.\<close>

definition weigh :: "(string \<times> startup) list \<Rightarrow> (startup \<times> 64 word) list \<times> (startup \<times> weight_error) list" where
  "weigh i =
     (concat (map (\<lambda>(k, s). case Weight i s of Inr w \<Rightarrow> [(s, w)] | Inl e \<Rightarrow> []) i),
      concat (map (\<lambda>(k, s). case Weight i s of Inr w \<Rightarrow> [] | Inl e \<Rightarrow> [(s, e)]) i))"

definition GetStartupTree :: "included \<Rightarrow> tree \<times> (startup \<times> weight_error) list" where
  "GetStartupTree inc =
     (let (ok, errors) = weigh (i_Startup (prepare inc));
          sorted = sort_key (\<lambda>p. sint (snd p)) ok
      in (\<lparr>t_startups = map fst sorted, t_weights = map snd sorted\<rparr>, errors))"


text \<open>\<^verbatim>\<open>Slice(s, e)\<close>: the services of weight in \<open>[s, e[\<close>, without upper bound when \<open>e\<close> is -1.\<close>

definition tree_Slice :: "tree \<Rightarrow> 64 word \<Rightarrow> 64 word \<Rightarrow> startup list" where
  "tree_Slice t s e =
     map fst (filter (\<lambda>(p, w). \<not> (w <s s) \<and> \<not> (e \<le>s w \<and> e \<noteq> -1)) (zip (t_startups t) (t_weights t)))"

lemma prepare_key: "(k, s) \<in> set (i_Startup (prepare inc)) \<Longrightarrow> su_key s = k"
  by (auto simp: prepare_def)

lemma weigh_ok: "(s, w) \<in> set (fst (weigh i)) \<longleftrightarrow> (\<exists>k. (k, s) \<in> set i) \<and> Weight i s = Inr w"
  by (force simp: weigh_def split: sum.splits)


lemma tree_zip:
  "zip (t_startups (fst (GetStartupTree inc))) (t_weights (fst (GetStartupTree inc))) =
     sort_key (\<lambda>p. sint (snd p)) (fst (weigh (i_Startup (prepare inc))))"
  by (simp add: GetStartupTree_def Let_def split_beta zip_map_fst_snd)

lemma tree_Slice_set:
  "p \<in> set (tree_Slice (fst (GetStartupTree inc)) s e) \<longleftrightarrow>
     (\<exists>w. (p, w) \<in> set (fst (weigh (i_Startup (prepare inc)))) \<and> \<not> (w <s s) \<and> \<not> (e \<le>s w \<and> e \<noteq> -1))"
  unfolding tree_Slice_def tree_zip by force

lemma gweight_chain_mono:
  "gweight i c s = Inr (w :: int) \<Longrightarrow> set c' \<subseteq> set c \<Longrightarrow> gweight i c' s = Inr w"
  "gweights i c as v = Inr (w :: int) \<Longrightarrow> set c' \<subseteq> set c \<Longrightarrow> gweights i c' as v = Inr w"
proof (induction i c s and i c as v arbitrary: w c' and w c' rule: gweight_gweights.induct)
  case (1 i chain s)
  have k: "su_key s \<notin> set chain" using "1.prems"(1) by (auto simp: gweight.simps[of i chain s] split: if_splits)
  then have k': "su_key s \<notin> set c'" using "1.prems"(2) by auto
  show ?case
  proof (cases "su_After s = []")
    case True
    then show ?thesis using "1.prems"(1) k k' by (simp add: gweight.simps[of i _ s])
  next
    case False
    then have g: "gweights i (chain @ [su_key s]) (su_After s) 0 = Inr w"
      using "1.prems"(1) k by (simp add: gweight.simps[of i chain s])
    have "set (c' @ [su_key s]) \<subseteq> set (chain @ [su_key s])" using "1.prems"(2) by auto
    from "1.IH"[OF k False g this]
    have "gweights i (c' @ [su_key s]) (su_After s) 0 = Inr w" .
    then show ?thesis using False k' by (simp add: gweight.simps[of i c' s])
  qed
next
  case (3 i chain a as v)
  show ?case
  proof (cases "Priority a :: int option")
    case (Some x)
    then show ?thesis using "3.prems"(1) "3.IH"(3)[OF Some _ "3.prems"(2), of w] by simp
  next
    case None
    then obtain d dw where d: "map_of i a = Some d" "gweight i chain d = Inr (dw :: int)"
      "gweights i chain as (v + dw) = Inr w"
      using "3.prems"(1) by (simp split: option.splits sum.splits)
    then show ?thesis
      using None "3.IH"(1)[OF None d(1) d(2) "3.prems"(2)] "3.IH"(2)[OF None d(1,2) d(3) "3.prems"(2)]
      by simp
  qed
qed simp

text \<open>Without the end marker, a weight is positive and at least the weight of each dependency.\<close>

definition no_end :: "(string \<times> startup) list \<Rightarrow> startup \<Rightarrow> bool" where
  "no_end i s \<longleftrightarrow> ToTheEnd \<notin> set (su_After s) \<and> (\<forall>p\<in>set i. ToTheEnd \<notin> set (su_After (snd p)))"

lemma Priority_pos: "a \<noteq> ToTheEnd \<Longrightarrow> Priority a = Some (x :: int) \<Longrightarrow> 0 < x"
  by (auto simp: Priority_def split: if_splits)

lemma gweight_pos:
  "gweight i c s = Inr (w :: int) \<Longrightarrow> no_end i s \<Longrightarrow> 0 < w"
  "gweights i c as v = Inr (w :: int) \<Longrightarrow> ToTheEnd \<notin> set as \<Longrightarrow> \<forall>p\<in>set i. ToTheEnd \<notin> set (su_After (snd p)) \<Longrightarrow>
     v \<le> w \<and> (as \<noteq> [] \<longrightarrow> v < w) \<and>
     (\<forall>a\<in>set as. \<forall>d. (Priority a :: int option) = None \<longrightarrow> map_of i a = Some d \<longrightarrow>
        (\<exists>dw. gweight i c d = Inr (dw :: int) \<and> 0 < dw \<and> v + dw \<le> w))"
proof (induction i c s and i c as v arbitrary: w and w rule: gweight_gweights.induct)
  case (1 i chain s)
  have k: "su_key s \<notin> set chain" using "1.prems"(1) by (auto simp: gweight.simps[of i chain s] split: if_splits)
  show ?case
  proof (cases "su_After s = []")
    case True
    then show ?thesis using "1.prems"(1) k
      by (auto simp: gweight.simps[of i chain s] Priority_def AfterBoot_def AfterInit_def AfterNet_def)
  next
    case False
    then have "gweights i (chain @ [su_key s]) (su_After s) 0 = Inr w"
      using "1.prems"(1) k by (simp add: gweight.simps[of i chain s])
    then show ?thesis using "1.IH"[OF k False] "1.prems"(2) False by (auto simp: no_end_def)
  qed
next
  case (3 i chain a as v)
  have end': "ToTheEnd \<notin> set as" "a \<noteq> ToTheEnd" using "3.prems"(2) by auto
  show ?case
  proof (cases "Priority a :: int option")
    case (Some x)
    then show ?thesis
      using "3.prems"(1) "3.IH"(3)[OF Some _ end'(1) "3.prems"(3), of w] Priority_pos[OF end'(2) Some]
      by fastforce
  next
    case None
    then obtain d dw where d: "map_of i a = Some d" "gweight i chain d = Inr (dw :: int)"
      "gweights i chain as (v + dw) = Inr w"
      using "3.prems"(1) by (simp split: option.splits sum.splits)
    have "no_end i d" using "3.prems"(3) map_of_SomeD[OF d(1)] by (auto simp: no_end_def)
    then have "0 < dw" using "3.IH"(1)[OF None d(1,2)] by blast
    then show ?thesis
      using "3.IH"(2)[OF None d(1,2,3) end'(1) "3.prems"(3)] d by fastforce
  qed
qed simp

lemma exact_weight_dep:
  assumes "exact_weight i s = Inr v" "depends i s d" "no_end i s"
  shows "\<exists>u. exact_weight i d = Inr u \<and> 0 < u \<and> u \<le> v"
proof -
  from assms(2) obtain a where a: "a \<in> set (su_After s)" "(Priority a :: int option) = None"
    "map_of i a = Some d" by (auto simp: depends_def)
  then have g: "gweights i [su_key s] (su_After s) (0 :: int) = Inr v"
    using assms(1) by (auto simp: exact_weight_def gweight.simps[of i "[]" s] split: if_splits)
  have e: "ToTheEnd \<notin> set (su_After s)" "\<forall>p\<in>set i. ToTheEnd \<notin> set (su_After (snd p))"
    using assms(3) by (simp_all add: no_end_def)
  have "\<exists>dw. gweight i [su_key s] d = Inr (dw :: int) \<and> 0 < dw \<and> 0 + dw \<le> v"
    using gweight_pos(2)[OF g e] a by blast
  then obtain u where "gweight i [su_key s] d = Inr (u :: int)" "0 < u" "u \<le> v" by auto
  then show ?thesis using gweight_chain_mono(1)[of i "[su_key s]" d u "[]"] by (auto simp: exact_weight_def)
qed

lemma sint_small: "0 \<le> v \<Longrightarrow> v < 2 ^ 63 \<Longrightarrow> sint (of_int v :: 64 word) = v"
  by (simp add: sint_sbintrunc' take_bit_int_eq_self signed_take_bit_int_eq_self)

text \<open>Two services for the witnesses: \<open>b\<close> runs after \<open>a\<close> and the network.\<close>

definition svc :: "string \<Rightarrow> string list \<Rightarrow> startup" where
  "svc k after = \<lparr>su_After = after, su_RunningDelay = 0, su_RunningMatch = [], su_RecurringPeriod = 0,
     su_MaxRestart = 0, su_Protected = False, su_Name = ''core.system'', su_Tags = [], su_Args = None,
     su_Condition = [], su_key = k\<rparr>"

definition ab :: included where
  "ab = \<lparr>i_Extension = [], i_Startup = [(''b'', svc ''b'' [''a'', ''net'']), (''a'', svc ''a'' [''init''])]\<rparr>"

lemma prepare_ab: "i_Startup (prepare ab) = [(''b'', svc ''b'' [''a'', ''net'']), (''a'', svc ''a'' [''init''])]"
  by (simp add: prepare_def ab_def svc_def)

lemma exact_weight_ab:
  "exact_weight (i_Startup (prepare ab)) (svc ''b'' [''a'', ''net'']) = Inr 1001"
  "exact_weight (i_Startup (prepare ab)) (svc ''a'' [''init'']) = Inr 1"
  by (simp_all add: prepare_ab exact_weight_def gweight.simps svc_def Priority_def AfterInit_def
      AfterNet_def AfterBoot_def ToTheEnd_def)

lemma depends_ab: "depends (i_Startup (prepare ab)) (svc ''b'' [''a'', ''net'']) (svc ''a'' [''init''])"
  by (simp add: prepare_ab depends_def svc_def Priority_def AfterInit_def AfterNet_def AfterBoot_def
      ToTheEnd_def)

section \<open>Properties\<close>




text \<open>The three boot slices (from init to net, from net to boot, from boot to the end) start every
  service whose weight reaches the init priority exactly once: none is skipped, none is in two.\<close>

theorem boot_slices_partition:
  "mset (tree_Slice t (After_Weight AfterInit) (After_Weight AfterNet)) +
   mset (tree_Slice t (After_Weight AfterNet) (After_Weight AfterBoot)) +
   mset (tree_Slice t (After_Weight AfterBoot) (After_Weight ToTheEnd)) =
   mset (map fst (filter (\<lambda>(p, w). 1 \<le>s w) (zip (t_startups t) (t_weights t))))"
proof -
  have w: "After_Weight AfterInit = 1" "After_Weight AfterNet = 1000" "After_Weight AfterBoot = 1000000"
    "After_Weight ToTheEnd = - 1"
    by (simp_all add: After_Weight_def Priority_def AfterInit_def AfterNet_def AfterBoot_def ToTheEnd_def)
  have "mset (map fst (filter (\<lambda>(p, w). \<not> w <s 1 \<and> \<not> (1000 \<le>s w \<and> 1000 \<noteq> (-1 :: 64 word))) l)) +
      mset (map fst (filter (\<lambda>(p, w). \<not> w <s 1000 \<and> \<not> (1000000 \<le>s w \<and> 1000000 \<noteq> (-1 :: 64 word))) l)) +
      mset (map fst (filter (\<lambda>(p, w). \<not> w <s 1000000 \<and> \<not> (-1 \<le>s w \<and> (-1 :: 64 word) \<noteq> -1)) l)) =
      mset (map fst (filter (\<lambda>(p, w). 1 \<le>s (w :: 64 word)) l))" for l :: "(startup \<times> 64 word) list"
    by (induction l) (auto simp: word_sless_alt word_sle_eq)
  then show ?thesis unfolding tree_Slice_def w by blast
qed

text \<open>Boot order respects dependencies: when the weight of a service does not overflow 63 bits
  (and the end marker is not used as a dependency), no service it runs after is in a later slice than
  the service itself.\<close>

theorem dependency_not_in_later_slice:
  assumes "p \<in> set (tree_Slice (fst (GetStartupTree inc)) s e)"
    and "depends (i_Startup (prepare inc)) p d" and "no_end (i_Startup (prepare inc)) p"
    and "exact_weight (i_Startup (prepare inc)) p = Inr v" and "v < 2 ^ 63" and "e \<noteq> -1"
  shows "d \<notin> set (tree_Slice (fst (GetStartupTree inc)) e e')"
proof
  let ?i = "i_Startup (prepare inc)"
  assume "d \<in> set (tree_Slice (fst (GetStartupTree inc)) e e')"
  then obtain wd where wd: "Weight ?i d = Inr wd" "\<not> wd <s e"
    by (auto simp: tree_Slice_set weigh_ok)
  from assms(1,6) obtain wp where wp: "Weight ?i p = Inr wp" "\<not> e \<le>s wp"
    by (auto simp: tree_Slice_set weigh_ok)
  obtain u where u: "exact_weight ?i d = Inr u" "0 < u" "u \<le> v"
    using exact_weight_dep[OF assms(4,2,3)] by blast
  have "sint wd = u" "sint wp = v"
    using wd(1) wp(1) u assms(4,5) by (auto simp: Weight_exact sint_small)
  then show False using wd(2) wp(2) u(3) by (simp add: word_sless_alt word_sle_eq)
qed

lemma dependency_not_in_later_slice_witness:
  "svc ''a'' [''init''] \<notin> set (tree_Slice (fst (GetStartupTree ab)) (After_Weight AfterBoot) (-1))"
proof -
  have "svc ''b'' [''a'', ''net''] \<in> set (tree_Slice (fst (GetStartupTree ab)) (After_Weight AfterNet) (After_Weight AfterBoot))"
    unfolding tree_Slice_set weigh_ok
    by (rule exI[of _ 1001])
      (simp add: prepare_ab[symmetric] Weight_exact exact_weight_ab After_Weight_def Priority_def
        AfterInit_def AfterNet_def AfterBoot_def ToTheEnd_def,
       auto simp: prepare_ab)
  moreover have "no_end (i_Startup (prepare ab)) (svc ''b'' [''a'', ''net''])"
    by (simp add: no_end_def prepare_ab svc_def ToTheEnd_def)
  moreover have "After_Weight AfterBoot \<noteq> -1"
    by (simp add: After_Weight_def Priority_def AfterInit_def AfterNet_def AfterBoot_def)
  ultimately show ?thesis
    using dependency_not_in_later_slice[OF _ depends_ab _ exact_weight_ab(1)] by simp
qed

end
