(* ===== verification/Utils_Model.thy ===== *)
theory Utils_Model
  imports Prelude
begin

text \<open>
  The helpers of \<^verbatim>\<open>base/utils\<close>: level lists (\<^verbatim>\<open>Expand\<close>), templates (\<^verbatim>\<open>Format\<close>), membership
  tests, and the kernel command line (\<^verbatim>\<open>cmdline.go\<close>).  White space is the ASCII white space.
  A Go map is the list of its entries in iteration order where the order can matter, a partial map
  otherwise.
\<close>

section \<open>Trimming and numbers\<close>

definition is_space :: "char \<Rightarrow> bool" where
  "is_space c \<longleftrightarrow> (let n = (of_char c :: nat) in (9 \<le> n \<and> n \<le> 13) \<or> n = 32)"

definition trim_left :: "(char \<Rightarrow> bool) \<Rightarrow> string \<Rightarrow> string" where
  "trim_left p s = dropWhile p s"

definition trim_right :: "(char \<Rightarrow> bool) \<Rightarrow> string \<Rightarrow> string" where
  "trim_right p s = rev (dropWhile p (rev s))"

definition TrimSpace :: "string \<Rightarrow> string" where
  "TrimSpace s = trim_right is_space (trim_left is_space s)"

text \<open>\<^verbatim>\<open>strings.Trim(s, " ")\<close>\<close>

definition TrimBlank :: "string \<Rightarrow> string" where
  "TrimBlank s = trim_right (\<lambda>c. c = CHR '' '') (trim_left (\<lambda>c. c = CHR '' '') s)"

text \<open>\<^verbatim>\<open>strings.SplitN(s, sep, 2)\<close> with a one-byte separator.\<close>

definition split2 :: "char \<Rightarrow> string \<Rightarrow> string list" where
  "split2 d s =
     (let a = takeWhile (\<lambda>c. c \<noteq> d) s in
      if length a < length s then [a, drop (length a + 1) s] else [s])"

text \<open>\<^verbatim>\<open>strconv.ParseInt(s, 10, bits)\<close>: an optional sign and digits.\<close>

definition parse_int :: "nat \<Rightarrow> string \<Rightarrow> (num_error, int) result" where
  "parse_int bits s =
     (let neg = (s \<noteq> [] \<and> hd s = CHR ''-'');
          ds = (if s \<noteq> [] \<and> (hd s = CHR ''-'' \<or> hd s = CHR ''+'') then tl s else s) in
      if ds = [] \<or> \<not> list_all is_digit ds then Inl ErrSyntax
      else if neg then (if dec_val ds \<le> 2 ^ (bits - 1) then Inr (- int (dec_val ds)) else Inl ErrRange)
      else (if dec_val ds < 2 ^ (bits - 1) then Inr (int (dec_val ds)) else Inl ErrRange))"

lemma trim_right_id: "s = [] \<or> \<not> p (last s) \<Longrightarrow> trim_right p s = s"
  by (cases s rule: rev_cases) (auto simp: trim_right_def)

lemma trim_left_id: "s = [] \<or> \<not> p (hd s) \<Longrightarrow> trim_left p s = s"
  by (cases s) (auto simp: trim_left_def)

lemma digit_not_space: "is_digit c \<Longrightarrow> \<not> is_space c \<and> c \<noteq> CHR '' '' \<and> c \<noteq> CHR ''-'' \<and> c \<noteq> CHR ''+'' \<and> c \<noteq> CHR ''*''"
  by (auto simp: is_digit_def is_space_def Let_def)

lemma itoa_hd_last: "is_digit (hd (itoa n))" "is_digit (last (itoa n))"
  using itoa_digits[of n] by (simp_all add: list_all_iff)

lemma TrimSpace_itoa [simp]: "TrimSpace (itoa n) = itoa n"
  using itoa_hd_last[of n] digit_not_space by (simp add: TrimSpace_def trim_left_id trim_right_id)

lemma TrimBlank_itoa [simp]: "TrimBlank (itoa n) = itoa n"
  using itoa_hd_last[of n] digit_not_space by (auto simp: TrimBlank_def trim_left_id trim_right_id)

lemma parse_int_itoa: "n < 2 ^ (bits - 1) \<Longrightarrow> parse_int bits (itoa n) = Inr (int n)"
  using itoa_hd_last(1)[of n] itoa_digits[of n] digit_not_space
  by (auto simp: parse_int_def Let_def)

section \<open>Membership\<close>

fun In :: "int list \<Rightarrow> int \<Rightarrow> bool" where
  "In [] x = False"
| "In (y # ys) x = (if y = x then True else In ys x)"

fun InString :: "string list \<Rightarrow> string \<Rightarrow> bool" where
  "InString [] x = False"
| "InString (y # ys) x = (if y = x then True else InString ys x)"

lemma In_set [simp]: "In l x \<longleftrightarrow> x \<in> set l"
  by (induction l) auto

lemma InString_set [simp]: "InString l x \<longleftrightarrow> x \<in> set l"
  by (induction l) auto

definition GetKeys :: "(string \<times> 'v) list \<Rightarrow> string list" where
  "GetKeys m = map fst m"

definition Update_map :: "(string \<Rightarrow> 'v option) \<Rightarrow> (string \<times> 'v) list \<Rightarrow> string \<Rightarrow> 'v option" where
  "Update_map dst src = fold (\<lambda>(k, v) m. m(k \<mapsto> v)) src dst"

section \<open>Log levels\<close>

definition validLevels :: "int list" where
  "validLevels = [1, 2, 3, 4, 5, 6, 7, 8, 9, 10, 11, 20, 21, 22, 23, 30]"

text \<open>The levels one comma-separated part adds.\<close>

definition expand_part :: "string \<Rightarrow> (num_error, int list) result" where
  "expand_part part0 =
     (let part = TrimSpace part0;
          boundries = split_on CHR ''-'' part;
          lower = TrimBlank (boundries ! 0);
          upper = (if 1 < length boundries
                   then map_sum id Some (parse_int 32 (TrimSpace (boundries ! 1)))
                   else Inr None)
      in rbind upper (\<lambda>upper.
        if lower = ''*'' then Inr validLevels
        else rbind (parse_int 32 lower) (\<lambda>lowerValue.
          case upper of
            None \<Rightarrow> Inr (if In validLevels lowerValue then [lowerValue] else [])
          | Some u \<Rightarrow>
              let u = (if 30 < u then 30 else u)
              in Inr (filter (In validLevels) [lowerValue..u]))))"

fun expand_parts :: "string list \<Rightarrow> int list \<Rightarrow> (num_error, int list) result" where
  "expand_parts [] levels = Inr levels"
| "expand_parts (p # ps) levels = rbind (expand_part p) (\<lambda>l. expand_parts ps (levels @ l))"

definition Expand :: "string \<Rightarrow> (num_error, int list) result" where
  "Expand s = rbind (expand_parts (split_on CHR '','' s) []) (\<lambda>levels. Inr (sort (remdups levels)))"

lemma expand_part_valid: "expand_part p = Inr l \<Longrightarrow> set l \<subseteq> set validLevels"
  by (auto simp: expand_part_def Let_def rbind_eq_Inr split: if_splits option.splits)

lemma expand_parts_valid:
  "expand_parts ps l = Inr l' \<Longrightarrow> set l \<subseteq> set validLevels \<Longrightarrow> set l' \<subseteq> set validLevels"
proof (induction ps arbitrary: l)
  case (Cons p ps)
  then obtain x where x: "expand_part p = Inr x" "expand_parts ps (l @ x) = Inr l'"
    by (auto simp: rbind_eq_Inr)
  show ?case using Cons.IH[OF x(2)] expand_part_valid[OF x(1)] Cons.prems(2) by auto
qed simp

lemma expand_part_level:
  assumes "int n \<in> set validLevels"
  shows "expand_part (itoa n) = Inr [int n]"
proof -
  have n: "n < 2 ^ (32 - 1)" using assms by (auto simp: validLevels_def)
  have s: "split_on CHR ''-'' (itoa n) = [itoa n]"
    by (rule split_on_no_sep, rule itoa_no_char) (simp add: is_digit_def)
  have "itoa n \<noteq> ''*''" using itoa_hd_last(1)[of n] digit_not_space[of "hd (itoa n)"] by auto
  then show ?thesis using assms parse_int_itoa[OF n]
    by (simp add: expand_part_def s Let_def)
qed

lemma expand_parts_levels:
  "\<forall>n\<in>set ns. int n \<in> set validLevels \<Longrightarrow> expand_parts (map itoa ns) l = Inr (l @ map int ns)"
  by (induction ns arbitrary: l) (simp_all add: expand_part_level)

section \<open>Templates\<close>

text \<open>\<^verbatim>\<open>Format\<close>: every match of \<^verbatim>\<open>\{[^}]+}\<close>, from the left, is replaced by the value of its
  key; a match without a value stays.  \<open>values\<close> yields the printed values.\<close>

definition format_match :: "string \<Rightarrow> (string \<times> string) option" where
  "format_match s =
     (case s of [] \<Rightarrow> None
      | c # r \<Rightarrow>
          let body = takeWhile (\<lambda>x. x \<noteq> CHR ''}'') r in
          if c = CHR ''{'' \<and> body \<noteq> [] \<and> length body < length r
          then Some (c # body @ ''}'', drop (length body + 1) r) else None)"

lemma format_match_length: "format_match s = Some (m, r) \<Longrightarrow> length r < length s"
  by (auto simp: format_match_def Let_def split: list.splits if_splits)

function Format :: "string \<Rightarrow> (string \<Rightarrow> string option) \<Rightarrow> string" where
  "Format s vals =
     (case format_match s of
        Some (m, r) \<Rightarrow>
          (let key = trim_right (\<lambda>c. c = CHR ''}'') (trim_left (\<lambda>c. c = CHR ''{'') m) in
           (case vals key of Some v \<Rightarrow> v | None \<Rightarrow> m) @ Format r vals)
      | None \<Rightarrow> (case s of [] \<Rightarrow> [] | c # r \<Rightarrow> c # Format r vals))"
  by pat_completeness auto
termination
  by (relation "measure (length \<circ> fst)") (auto dest: format_match_length)

declare Format.simps [simp del]

lemma Format_plain: "CHR ''{'' \<notin> set a \<Longrightarrow> Format (a @ s) vals = a @ Format s vals"
proof (induction a)
  case (Cons c cs)
  then have "format_match (c # cs @ s) = None" by (auto simp: format_match_def Let_def)
  then show ?case using Cons by (subst append_Cons, subst Format.simps) simp
qed simp

lemma Format_Nil [simp]: "Format [] vals = []"
  by (simp add: Format.simps format_match_def)

lemma Format_key:
  assumes "k \<noteq> []" "CHR ''}'' \<notin> set k" "hd k \<noteq> CHR ''{''"
  shows "Format (''{'' @ k @ ''}'' @ s) vals =
    (case vals k of Some v \<Rightarrow> v | None \<Rightarrow> ''{'' @ k @ ''}'') @ Format s vals"
proof -
  have tw: "takeWhile (\<lambda>x. x \<noteq> CHR ''}'') (k @ CHR ''}'' # s) = k"
    using assms(2) by (induction k) auto
  have m: "format_match (''{'' @ k @ ''}'' @ s) = Some (''{'' @ k @ ''}'', s)"
    using assms(1) tw by (simp add: format_match_def)
  have l: "trim_left (\<lambda>c. c = CHR ''{'') (''{'' @ k @ ''}'') = k @ ''}''"
    using assms(1,3) by (cases k) (auto simp: trim_left_def)
  have "trim_right (\<lambda>c. c = CHR ''}'') (k @ ''}'') = trim_right (\<lambda>c. c = CHR ''}'') k"
    by (simp add: trim_right_def)
  also have "\<dots> = k" using assms(1,2) by (intro trim_right_id) (metis last_in_set)
  finally show ?thesis using m l by (subst Format.simps) (simp split: option.splits)
qed

section \<open>The kernel command line\<close>

text \<open>The options of \<^verbatim>\<open>/proc/cmdline\<close>: the values of every key, a key without a value having none.\<close>

type_synonym kernel_options = "string \<Rightarrow> string list option"

text \<open>\<open>shlex\<close> stands for \<^verbatim>\<open>shlex.Split\<close>; its error is ignored.\<close>

definition add_option :: "string \<Rightarrow> kernel_options \<Rightarrow> kernel_options" where
  "add_option opt options =
     (let kv = split2 CHR ''='' opt; key = kv ! 0 in
      if length kv = 2 then
        options(key \<mapsto> (case options key of None \<Rightarrow> [] | Some l \<Rightarrow> l) @ [kv ! 1])
      else options(key \<mapsto> []))"

definition parseKernelOptions :: "(string \<Rightarrow> string list) \<Rightarrow> string \<Rightarrow> kernel_options" where
  "parseKernelOptions shlex content = fold add_option (shlex (TrimSpace content)) Map.empty"

definition ko_Is :: "kernel_options \<Rightarrow> string \<Rightarrow> bool" where
  "ko_Is k key \<longleftrightarrow> k key \<noteq> None"

definition ko_Get :: "kernel_options \<Rightarrow> string \<Rightarrow> string list option" where
  "ko_Get k key = k key"

definition ko_GetLast :: "kernel_options \<Rightarrow> string \<Rightarrow> string option" where
  "ko_GetLast k key = (case k key of None \<Rightarrow> None
     | Some vs \<Rightarrow> Some (if vs \<noteq> [] then last vs else []))"

definition ko_String :: "kernel_options \<Rightarrow> string list \<Rightarrow> string" where
  "ko_String k keys = str_join '', '' (concat (map (\<lambda>key.
     case k key of
       None \<Rightarrow> []
     | Some [] \<Rightarrow> [key]
     | Some vs \<Rightarrow> map (\<lambda>v. if v \<noteq> [] then key @ ''='' @ v else key) vs) keys))"

text \<open>\<^verbatim>\<open>Cmdline\<close>: the words of all options, each once.  The code keeps them as the keys of a map,
  so their order is not specified; here it is the order of the entries.\<close>

definition cmdline_word :: "string \<Rightarrow> string \<Rightarrow> string" where
  "cmdline_word k v =
     (if CHR '' '' \<in> set v \<or> CHR 0x09 \<in> set v then k @ ''='' @ [CHR 0x22] @ v @ [CHR 0x22] else k @ ''='' @ v)"

definition cmdline_words :: "(string \<times> string list) list \<Rightarrow> string list" where
  "cmdline_words opts = remdups (concat (map (\<lambda>(k, vs).
     if vs = [] then [k] else map (cmdline_word k) vs) opts))"

definition ko_Cmdline :: "(string \<times> string list) list \<Rightarrow> string" where
  "ko_Cmdline opts = str_join '' '' (cmdline_words opts)"

lemma split2_eq: "d \<notin> set k \<Longrightarrow> split2 d (k @ d # v) = [k, v]"
proof -
  assume "d \<notin> set k"
  then have "takeWhile (\<lambda>c. c \<noteq> d) (k @ d # v) = k" by (induction k) auto
  then show ?thesis by (simp add: split2_def)
qed

lemma split2_none: "d \<notin> set k \<Longrightarrow> split2 d k = [k]"
proof -
  assume "d \<notin> set k"
  then have "takeWhile (\<lambda>c. c \<noteq> d) k = k" by (intro takeWhile_eq_all_conv[THEN iffD2]) auto
  then show "split2 d k = [k]" by (simp only: split2_def Let_def) simp
qed

lemma add_option_value:
  "CHR ''='' \<notin> set k \<Longrightarrow>
     add_option (k @ CHR ''='' # v) m = m(k \<mapsto> (case m k of None \<Rightarrow> [] | Some l \<Rightarrow> l) @ [v])"
  by (simp add: add_option_def split2_eq)

lemma add_option_key: "CHR ''='' \<notin> set k \<Longrightarrow> add_option k m = m(k \<mapsto> [])"
  by (simp add: add_option_def split2_none)

lemma add_option_values:
  "CHR ''='' \<notin> set k \<Longrightarrow> vs \<noteq> [] \<Longrightarrow>
     fold add_option (map (\<lambda>v. k @ CHR ''='' # v) vs) m =
       m(k \<mapsto> (case m k of None \<Rightarrow> [] | Some l \<Rightarrow> l) @ vs)"
proof (induction vs arbitrary: m)
  case (Cons v vs)
  let ?m = "m(k \<mapsto> (case m k of None \<Rightarrow> [] | Some l \<Rightarrow> l) @ [v])"
  show ?case
  proof (cases "vs = []")
    case True
    then show ?thesis using Cons.prems(1) by (simp add: add_option_value)
  next
    case False
    have "fold add_option (map (\<lambda>v. k @ CHR ''='' # v) (v # vs)) m =
        fold add_option (map (\<lambda>v. k @ CHR ''='' # v) vs) ?m"
      by (simp only: list.map fold_Cons comp_apply add_option_value[OF Cons.prems(1)])
    also have "\<dots> = ?m(k \<mapsto> (case ?m k of None \<Rightarrow> [] | Some l \<Rightarrow> l) @ vs)"
      by (rule Cons.IH[OF Cons.prems(1) False])
    finally show ?thesis by (simp only: fun_upd_upd fun_upd_same option.case append.assoc append_Cons append_Nil)
  qed
qed simp

section \<open>Options that survive the command line\<close>

text \<open>Keys without an equals sign, values without blanks, no value twice.\<close>

definition options_ok :: "(string \<times> string list) list \<Rightarrow> bool" where
  "options_ok opts \<longleftrightarrow> distinct (map fst opts) \<and>
     (\<forall>(k, vs)\<in>set opts. CHR ''='' \<notin> set k \<and> distinct vs \<and>
        (\<forall>v\<in>set vs. CHR '' '' \<notin> set v \<and> CHR 0x09 \<notin> set v))"

definition plain_words :: "string \<times> string list \<Rightarrow> string list" where
  "plain_words p = (if snd p = [] then [fst p] else map (\<lambda>v. fst p @ CHR ''='' # v) (snd p))"

lemma plain_words_key:
  "w \<in> set (plain_words p) \<Longrightarrow> CHR ''='' \<notin> set (fst p) \<Longrightarrow> split2 CHR ''='' w ! 0 = fst p"
  by (auto simp: plain_words_def split2_eq split2_none split: if_splits)

lemma distinct_plain_words:
  "distinct (map fst opts) \<Longrightarrow> \<forall>p\<in>set opts. CHR ''='' \<notin> set (fst p) \<and> distinct (snd p) \<Longrightarrow>
     distinct (concat (map plain_words opts))"
proof (induction opts)
  case (Cons p ps)
  have "distinct (plain_words p)"
    using Cons.prems(2) by (auto simp: plain_words_def distinct_map inj_on_def)
  moreover have "set (plain_words p) \<inter> set (concat (map plain_words ps)) = {}"
  proof (rule ccontr)
    assume "\<not> ?thesis"
    then obtain w q where w: "w \<in> set (plain_words p)" "q \<in> set ps" "w \<in> set (plain_words q)" by auto
    then have "fst p = fst q" using plain_words_key[of w p] plain_words_key[of w q] Cons.prems(2) by auto
    then show False using Cons.prems(1) w(2) by force
  qed
  ultimately show ?case using Cons by simp
qed simp

lemma cmdline_words_plain:
  assumes "options_ok opts"
  shows "cmdline_words opts = concat (map plain_words opts)"
proof -
  have "concat (map (\<lambda>(k, vs). if vs = [] then [k] else map (cmdline_word k) vs) opts) =
      concat (map plain_words opts)"
    using assms by (intro arg_cong[where f = concat] map_cong)
      (auto simp: options_ok_def plain_words_def cmdline_word_def)
  moreover have "distinct (concat (map plain_words opts))"
    using assms by (intro distinct_plain_words) (auto simp: options_ok_def)
  ultimately show ?thesis by (simp add: cmdline_words_def distinct_remdups_id)
qed

lemma fold_plain_words:
  "distinct (map fst opts) \<Longrightarrow> \<forall>p\<in>set opts. CHR ''='' \<notin> set (fst p) \<Longrightarrow> \<forall>p\<in>set opts. m (fst p) = None \<Longrightarrow>
     fold add_option (concat (map plain_words opts)) m = m ++ map_of opts"
proof (induction opts arbitrary: m)
  case (Cons p ps)
  have "fold add_option (plain_words p) m = m(fst p \<mapsto> snd p)"
    using Cons.prems by (auto simp: plain_words_def add_option_key add_option_values)
  moreover have "fold add_option (concat (map plain_words ps)) (m(fst p \<mapsto> snd p)) =
      m(fst p \<mapsto> snd p) ++ map_of ps"
  proof (rule Cons.IH)
    have "fst q \<noteq> fst p" if "q \<in> set ps" for q
      using Cons.prems(1) imageI[OF that, of fst]
      by (metis distinct.simps(2) list.map(2) list.set_map)
    then show "\<forall>q\<in>set ps. (m(fst p \<mapsto> snd p)) (fst q) = None" using Cons.prems(3) by simp
  qed (use Cons.prems in simp_all)
  moreover have "m(fst p \<mapsto> snd p) ++ map_of ps = m ++ map_of (p # ps)"
  proof
    fix k
    have "fst p \<notin> dom (map_of ps)" using Cons.prems(1) by (simp add: dom_map_of_conv_image_fst)
    then show "(m(fst p \<mapsto> snd p) ++ map_of ps) k = (m ++ map_of (p # ps)) k"
      by (cases p) (auto simp: map_add_def split: option.splits)
  qed
  ultimately show ?case by (simp only: list.map concat.simps fold_append comp_apply)
qed simp

section \<open>Properties\<close>

text \<open>Whatever level string a client sends, a successful expansion is a sorted list of valid log
  levels without repetition.\<close>

theorem Expand_valid_sorted:
  "case Expand s of Inl e \<Rightarrow> True | Inr l \<Rightarrow> sorted l \<and> distinct l \<and> set l \<subseteq> set validLevels"
  using expand_parts_valid[of "split_on CHR '','' s" "[]"]
  by (auto simp: Expand_def rbind_def split: sum.splits)

text \<open>A list of valid levels written with commas expands to exactly those levels.\<close>

theorem Expand_levels:
  assumes "ns \<noteq> []" and "\<forall>n\<in>set ns. int n \<in> set validLevels"
  shows "Expand (str_join '','' (map itoa ns)) = Inr (sort (remdups (map int ns)))"
proof -
  have "split_on CHR '','' (str_join '','' (map itoa ns)) = map itoa ns"
    using assms(1) by (intro split_on_str_join) (auto intro!: itoa_no_char simp: is_digit_def)
  then show ?thesis using expand_parts_levels[OF assms(2)] by (simp add: Expand_def)
qed

lemma Expand_levels_witness: "Expand ''30,1,1'' = Inr [1, 30]"
  using Expand_levels[of "[30, 1, 1]"] by (simp add: validLevels_def itoa_eval)

text \<open>The kernel options survive being written to a command line and parsed again (with a word
  splitter that undoes the blanks), so a kernel started with that line sees the same options.\<close>

theorem cmdline_roundtrip:
  assumes "options_ok opts" and "shlex (TrimSpace (ko_Cmdline opts)) = cmdline_words opts"
  shows "parseKernelOptions shlex (ko_Cmdline opts) = map_of opts"
proof -
  have "fold add_option (concat (map plain_words opts)) Map.empty = Map.empty ++ map_of opts"
    using assms(1) by (intro fold_plain_words) (auto simp: options_ok_def)
  then show ?thesis
    using assms(2) cmdline_words_plain[OF assms(1)] by (simp add: parseKernelOptions_def)
qed

lemma cmdline_roundtrip_witness:
  "parseKernelOptions (split_on CHR '' '') (ko_Cmdline [(''debug'', []), (''zerotier'', [''a'', ''b''])]) =
     map_of [(''debug'', []), (''zerotier'', [''a'', ''b''])]"
  by (rule cmdline_roundtrip)
    (simp_all add: options_ok_def ko_Cmdline_def cmdline_words_def cmdline_word_def TrimSpace_def
      trim_left_def trim_right_def is_space_def)

text \<open>\<^verbatim>\<open>Format\<close> replaces a key by its value once: the text before is kept, the value is not
  expanded again, and an unknown key stays as written.\<close>

theorem Format_replaces_key:
  assumes "CHR ''{'' \<notin> set a" and "k \<noteq> []" and "CHR ''}'' \<notin> set k" and "hd k \<noteq> CHR ''{''"
  shows "Format (a @ ''{'' @ k @ ''}'' @ s) vals =
    a @ (case vals k of Some v \<Rightarrow> v | None \<Rightarrow> ''{'' @ k @ ''}'') @ Format s vals"
  unfolding Format_plain[OF assms(1)] Format_key[OF assms(2-4)] ..

lemma Format_replaces_key_witness:
  "Format ''--id={id} {x}'' [''id'' \<mapsto> ''{id}''] = ''--id={id} {x}''"
  using Format_replaces_key[of "''--id=''" "''id''" "'' {x}''" "[''id'' \<mapsto> ''{id}'']"]
    Format_plain[of "'' ''" "''{x}''" "[''id'' \<mapsto> ''{id}'']"]
    Format_key[of "''x''" "[]" "[''id'' \<mapsto> ''{id}'']"]
  by simp

end
