(* ===== verification/Mgr_Stats.thy ===== *)
theory Mgr_Stats
  imports Pm_Types Utils_Model
begin

text \<open>
  The handling of one message by the manager, \<^verbatim>\<open>msgCallback\<close> and \<^verbatim>\<open>handleStatsMessage\<close> of
  \<^verbatim>\<open>base/mgr/pm.go\<close>.  A statsd message has the form \<^verbatim>\<open>key:value|type[|tags]\<close>.  Indexing a
  slice out of range panics; \<open>parse_float\<close> stands for \<^verbatim>\<open>strconv.ParseFloat\<close>.
\<close>

record tag =
  tag_Key :: string
  tag_Value :: string

record 'f stats_call =
  st_op :: string
  st_key :: string
  st_value :: 'f
  st_id :: string
  st_tags :: "tag list"

datatype 'f stats_outcome = StatsPanic | StatsIgnored | StatsAggregate "'f stats_call"

fun parse_tags :: "string list \<Rightarrow> string \<times> tag list \<Rightarrow> string \<times> tag list" where
  "parse_tags [] (i, tags) = (i, tags)"
| "parse_tags (p # ps) (i, tags) =
     (let kv = split2 CHR ''='' p;
          v = (if length kv = 2 then kv ! 1 else []) in
      if kv ! 0 = ''id'' then parse_tags ps (v, tags)
      else parse_tags ps (i, tags @ [\<lparr>tag_Key = kv ! 0, tag_Value = v\<rparr>]))"

definition handleStatsMessage :: "(string \<Rightarrow> 'f option) \<Rightarrow> string \<Rightarrow> 'f stats_outcome" where
  "handleStatsMessage parse_float msg =
     (let parts = split_on CHR ''|'' msg in
      if length parts < 2 then StatsPanic
      else let optype = parts ! 1;
               tagsStr = (if length parts = 3 then parts ! 2 else []);
               dat = split_on CHR '':'' (parts ! 0) in
        if length dat < 2 then StatsPanic
        else (case parse_float (dat ! 1) of
            None \<Rightarrow> StatsIgnored
          | Some v \<Rightarrow>
              (case parse_tags (split_on CHR '','' tagsStr) ([], []) of (i, tags) \<Rightarrow>
                 StatsAggregate \<lparr>st_op = optype, st_key = TrimBlank (dat ! 0), st_value = v,
                   st_id = i, st_tags = tags\<rparr>)))"

text \<open>\<^verbatim>\<open>msgCallback\<close> at time \<open>now\<close>: the stats call it made, and the message as the handlers and
  the subscribers of the job get it; \<open>None\<close> for the message when it panicked (the caller recovers,
  and neither handlers nor subscribers are called).\<close>

definition msgCallback ::
  "(string \<Rightarrow> 'f option) \<Rightarrow> command \<Rightarrow> int \<Rightarrow> message \<Rightarrow> 'f stats_call option \<times> message option" where
  "msgCallback parse_float cmd now msg =
     (let st = (if Assert (msg_meta msg) [LevelStatsd]
                then handleStatsMessage parse_float (msg_text msg) else StatsIgnored) in
      case st of
        StatsPanic \<Rightarrow> (None, None)
      | _ \<Rightarrow>
          let msg = msg\<lparr>msg_epoch := now\<rparr>;
              msg = (if cmd_Stream cmd then msg\<lparr>msg_meta := SetFlag (msg_meta msg) StreamFlag\<rparr> else msg)
          in (case st of StatsAggregate c \<Rightarrow> Some c | _ \<Rightarrow> None, Some msg))"

section \<open>Well-formed stats messages\<close>

definition enc_tags :: "(string \<times> string) list \<Rightarrow> string" where
  "enc_tags kvs = str_join '','' (map (\<lambda>(k, v). k @ ''='' @ v) kvs)"

definition tag_ok :: "string \<times> string \<Rightarrow> bool" where
  "tag_ok kv \<longleftrightarrow> fst kv \<noteq> ''id'' \<and> CHR ''='' \<notin> set (fst kv) \<and>
     (\<forall>c\<in>set (fst kv @ snd kv). c \<noteq> CHR '','' \<and> c \<noteq> CHR ''|'')"

lemma tag_ok_chars: "tag_ok kv \<Longrightarrow> CHR '','' \<notin> set (fst kv @ ''='' @ snd kv) \<and> CHR ''|'' \<notin> set (fst kv @ ''='' @ snd kv)"
  by (simp add: tag_ok_def) blast

lemma tags_chars:
  assumes "list_all tag_ok kvs" "w \<in> set (map (\<lambda>(k, v). k @ ''='' @ v) kvs)"
  shows "CHR '','' \<notin> set w" "CHR ''|'' \<notin> set w"
proof -
  from assms(2) obtain kv where "kv \<in> set kvs" "w = fst kv @ ''='' @ snd kv" by auto
  then show "CHR '','' \<notin> set w" "CHR ''|'' \<notin> set w"
    using assms(1) tag_ok_chars[of kv] unfolding list_all_iff by blast+
qed

lemma parse_tags_enc:
  "list_all tag_ok kvs \<Longrightarrow>
     parse_tags (map (\<lambda>(k, v). k @ ''='' @ v) kvs) (i, tags) =
       (i, tags @ map (\<lambda>(k, v). \<lparr>tag_Key = k, tag_Value = v\<rparr>) kvs)"
proof (induction kvs arbitrary: tags)
  case (Cons p kvs)
  obtain k v where p: "p = (k, v)" by fastforce
  have "k \<noteq> ''id''" "split2 CHR ''='' (k @ CHR ''='' # v) = [k, v]"
    using Cons.prems p by (simp_all add: tag_ok_def split2_eq)
  then show ?case using Cons p by simp
qed simp

lemma split_on_append2: "d \<notin> set a \<Longrightarrow> split_on d (a @ [d] @ r) = a # split_on d r"
  by (simp add: split_on_append)

section \<open>Properties\<close>

text \<open>A well-formed stats message is aggregated as written: operation, key without surrounding
  blanks, parsed value, and every tag in order.\<close>

theorem handleStatsMessage_wellformed:
  assumes "list_all tag_ok kvs" and "kvs \<noteq> []"
    and "\<forall>c\<in>set (key @ value). c \<noteq> CHR ''|'' \<and> c \<noteq> CHR '':''" and "CHR ''|'' \<notin> set optype"
    and "parse_float value = Some v"
  shows "handleStatsMessage parse_float (key @ '':'' @ value @ ''|'' @ optype @ ''|'' @ enc_tags kvs) =
    StatsAggregate \<lparr>st_op = optype, st_key = TrimBlank key, st_value = v, st_id = [],
      st_tags = map (\<lambda>(k, v). \<lparr>tag_Key = k, tag_Value = v\<rparr>) kvs\<rparr>"
proof -
  have nk: "CHR ''|'' \<notin> set (key @ '':'' @ value)" "CHR '':'' \<notin> set key" "CHR '':'' \<notin> set value"
    using assms(3) by auto
  have join: "CHR ''|'' \<notin> set (str_join '','' ws)" if "\<forall>w\<in>set ws. CHR ''|'' \<notin> set w" for ws
    using that by (induction "'',''" ws rule: str_join.induct) auto
  have tags: "CHR ''|'' \<notin> set (enc_tags kvs)"
    unfolding enc_tags_def using tags_chars(2)[OF assms(1)] by (intro join) blast
  have "split_on CHR ''|'' ((key @ '':'' @ value) @ CHR ''|'' # optype @ CHR ''|'' # enc_tags kvs) =
      [key @ '':'' @ value, optype, enc_tags kvs]"
    using split_on_append[OF nk(1), of "optype @ CHR ''|'' # enc_tags kvs"]
      split_on_append[OF assms(4), of "enc_tags kvs"] split_on_no_sep[OF tags] by simp
  then have parts: "split_on CHR ''|'' (key @ '':'' @ value @ ''|'' @ optype @ ''|'' @ enc_tags kvs) =
      [key @ '':'' @ value, optype, enc_tags kvs]" by simp
  have dat: "split_on CHR '':'' (key @ '':'' @ value) = [key, value]"
    using split_on_append[OF nk(2), of "value"] split_on_no_sep[OF nk(3)] by simp
  have ts: "split_on CHR '','' (enc_tags kvs) = map (\<lambda>(k, v). k @ ''='' @ v) kvs"
    unfolding enc_tags_def using tags_chars(1)[OF assms(1)] assms(2)
    by (intro split_on_str_join) auto
  show ?thesis
    unfolding handleStatsMessage_def parts
    using assms(5) dat ts parse_tags_enc[OF assms(1), of "[]" "[]"] by (simp add: Let_def)
qed

lemma handleStatsMessage_wellformed_witness:
  "handleStatsMessage (\<lambda>s. if s = ''1'' then Some (1 :: int) else None) ''cpu:1|A|host=a'' =
    StatsAggregate \<lparr>st_op = ''A'', st_key = ''cpu'', st_value = 1, st_id = [],
      st_tags = [\<lparr>tag_Key = ''host'', tag_Value = ''a''\<rparr>]\<rparr>"
  using handleStatsMessage_wellformed[of "[(''host'', ''a'')]" "''cpu''" "''1''" "''A''"
      "\<lambda>s. if s = ''1'' then Some (1 :: int) else None" 1]
  by (simp add: tag_ok_def enc_tags_def TrimBlank_def trim_left_def trim_right_def)

text \<open>A malformed stats message from any process makes the handler panic: after the error is
  logged the code goes on and indexes the missing part, so the message reaches no handler and no
  subscriber.\<close>

theorem msgCallback_malformed_stats_dropped:
  assumes "Level (msg_meta msg) = LevelStatsd"
    and "CHR ''|'' \<notin> set (msg_text msg) \<or>
      (\<exists>a r. msg_text msg = a @ ''|'' @ r \<and> CHR ''|'' \<notin> set a \<and> CHR '':'' \<notin> set a)"
  shows "msgCallback parse_float cmd now msg = (None, None)"
proof -
  have "handleStatsMessage parse_float (msg_text msg) = StatsPanic"
    using assms(2)
  proof
    assume "CHR ''|'' \<notin> set (msg_text msg)"
    then show ?thesis by (simp add: handleStatsMessage_def split_on_no_sep)
  next
    assume "\<exists>a r. msg_text msg = a @ ''|'' @ r \<and> CHR ''|'' \<notin> set a \<and> CHR '':'' \<notin> set a"
    then obtain a r where m: "msg_text msg = a @ CHR ''|'' # r" "CHR ''|'' \<notin> set a" "CHR '':'' \<notin> set a"
      by auto
    have "split_on CHR ''|'' (msg_text msg) = a # split_on CHR ''|'' r"
      unfolding m(1) by (rule split_on_append[OF m(2)])
    then show ?thesis using m(3) by (simp add: handleStatsMessage_def Let_def split_on_no_sep)
  qed
  then show ?thesis using assms(1) by (simp add: msgCallback_def Assert_def)
qed

lemma msgCallback_malformed_stats_dropped_witness:
  "msgCallback (\<lambda>s. Some (0 :: int)) (new_command ''1'' ''x'') 5
     \<lparr>msg_text = ''hello'', msg_epoch = 0, msg_meta = NewMeta LevelStatsd []\<rparr> = (None, None)"
  by (rule msgCallback_malformed_stats_dropped) simp_all

end
