(* ===== verification/Mgr_Job.thy ===== *)
theory Mgr_Job
  imports Mgr_Stats Mgr_Backoff
begin

text \<open>
  One job of the manager, \<^verbatim>\<open>base/mgr/job.go\<close>.  The \<^verbatim>\<open>select\<close> of \<^verbatim>\<open>run\<close> receives one event at a
  time: a signal, the timeout, a tick, or a message of the process (or nil when the process closed
  its channel).  The model consumes the list of events in the order the loop receives them.
\<close>

section \<open>The loop of one run\<close>

text \<open>\<open>EvMessage now m\<close>: message \<open>m\<close> is received, and \<open>now\<close> is the time \<^verbatim>\<open>msgCallback\<close> reads.\<close>

datatype job_event = EvSignal int | EvTimeout | EvTick int | EvMessage int message | EvClosed

definition SIGKILL :: int where "SIGKILL = 9"
definition SIGTERM :: int where "SIGTERM = 15"

definition StandardStreamBufferSize :: nat where "StandardStreamBufferSize = 100"
definition GenericStreamBufferSize :: nat where "GenericStreamBufferSize = 10"

record run_state =
  rs_state :: job_state
  rs_code :: "32 word"
  rs_msg :: "message option"
  rs_critical :: string
  rs_stdout :: "string buffer"
  rs_stderr :: "string buffer"
  rs_backlog :: "message buffer"
  rs_hooks :: "hook list"
  rs_fired :: "hook_event list"
  rs_signals :: "int list"
  rs_forwarded :: "message list"

text \<open>How an iteration ends: go on, leave the loop, or panic (a nil message is dereferenced).\<close>

datatype iteration = Continue | Break | Panicked

text \<open>What a job needs from outside: whether its process takes signals, the regular expressions of
  the hooks, the float parser of the stats messages.\<close>

record 'f job_env =
  je_signaler :: bool
  je_compile :: "string \<Rightarrow> (string \<Rightarrow> bool) option"
  je_float :: "string \<Rightarrow> 'f option"

definition fire :: "(hook \<Rightarrow> hook \<times> hook_event list) \<Rightarrow> run_state \<Rightarrow> run_state" where
  "fire f st = (case run_hooks f (rs_hooks st) of (hs, es) \<Rightarrow>
     st\<lparr>rs_hooks := hs, rs_fired := rs_fired st @ es\<rparr>)"

definition classify :: "message \<Rightarrow> run_state \<Rightarrow> run_state" where
  "classify m st =
     (let meta = msg_meta m in
      if Assert meta ResultMessageLevels then st\<lparr>rs_msg := Some m\<rparr>
      else if Assert meta [LevelStdout] then st\<lparr>rs_stdout := buffer_Append (msg_text m) (rs_stdout st)\<rparr>
      else if Assert meta [LevelStderr] then st\<lparr>rs_stderr := buffer_Append (msg_text m) (rs_stderr st)\<rparr>
      else if Assert meta [LevelCritical] then st\<lparr>rs_critical := msg_text m\<rparr>
      else st)"

text \<open>The backlog keeps a pointer to the message; what it holds after the iteration is the message
  with the code dropped from its meta and the updates of \<^verbatim>\<open>msgCallback\<close>.\<close>

definition on_message :: "'f job_env \<Rightarrow> command \<Rightarrow> int \<Rightarrow> message \<Rightarrow> run_state \<Rightarrow> run_state \<times> iteration" where
  "on_message env cmd now m st =
     (let meta = msg_meta m;
          st = (if Is meta ExitSuccessFlag then st\<lparr>rs_state := StateSuccess\<rparr> else st);
          st = classify m st;
          st = fire (hook_Message (je_compile env) m) st;
          code = Code meta;
          m' = m\<lparr>msg_meta := Base meta\<rparr>;
          (call, out) = msgCallback (je_float env) cmd now m';
          m'' = (case out of Some x \<Rightarrow> x | None \<Rightarrow> m');
          st = st\<lparr>rs_backlog := buffer_Append m'' (rs_backlog st),
                  rs_forwarded := rs_forwarded st @ (case out of Some x \<Rightarrow> [x] | None \<Rightarrow> [])\<rparr>
      in if Is (msg_meta m'') (ExitSuccessFlag OR ExitErrorFlag)
         then (st\<lparr>rs_code := code\<rparr>, Break) else (st, Continue))"

definition on_event :: "'f job_env \<Rightarrow> command \<Rightarrow> job_event \<Rightarrow> run_state \<Rightarrow> run_state \<times> iteration" where
  "on_event env cmd ev st =
     (case ev of
        EvSignal sig \<Rightarrow>
          (if je_signaler env then st\<lparr>rs_signals := rs_signals st @ [sig]\<rparr> else st, Continue)
      | EvTimeout \<Rightarrow>
          (if 0 < cmd_MaxTime cmd \<and> je_signaler env
           then st\<lparr>rs_signals := rs_signals st @ [SIGKILL], rs_state := StateTimeout\<rparr> else st, Continue)
      | EvTick d \<Rightarrow> (fire (hook_Tick d) st, Continue)
      | EvMessage now m \<Rightarrow> on_message env cmd now m st
      | EvClosed \<Rightarrow> (st, Panicked))"

text \<open>The loop: \<open>None\<close> when the events end before it does, that is while the process runs.\<close>

fun run_loop :: "'f job_env \<Rightarrow> command \<Rightarrow> job_event list \<Rightarrow> run_state \<Rightarrow> (run_state \<times> iteration) option" where
  "run_loop env cmd [] st = None"
| "run_loop env cmd (e # es) st =
     (case on_event env cmd e st of
        (st', Continue) \<Rightarrow> run_loop env cmd es st'
      | (st', r) \<Rightarrow> Some (st', r))"

text \<open>How the process starts: its factory panics, its \<^verbatim>\<open>Run\<close> fails, or it delivers events.\<close>

datatype spawn = SpawnPanic string | SpawnError go_error | Spawned "job_event list"

definition run_begin :: "hook list \<Rightarrow> message buffer \<Rightarrow> run_state" where
  "run_begin hooks backlog = \<lparr>rs_state = StateError, rs_code = 0, rs_msg = None, rs_critical = [],
     rs_stdout = NewBuffer StandardStreamBufferSize, rs_stderr = NewBuffer StandardStreamBufferSize,
     rs_backlog = backlog, rs_hooks = hooks, rs_fired = [], rs_signals = [], rs_forwarded = []\<rparr>"

definition nil_panic :: string where
  "nil_panic = ''runtime error: invalid memory address or nil pointer dereference''"

definition panic_text :: "string \<Rightarrow> string" where
  "panic_text e = ''PANIC('' @ e @ '')''"

text \<open>\<^verbatim>\<open>run\<close>, with its start and end times in nanoseconds: the result and the last state of the
  loop, \<open>None\<close> while the process runs.\<close>

definition job_run ::
  "'f job_env \<Rightarrow> command \<Rightarrow> int \<Rightarrow> int \<Rightarrow> hook list \<Rightarrow> message buffer \<Rightarrow> spawn \<Rightarrow> (job_result \<times> run_state) option" where
  "job_run env cmd t0 t1 hooks backlog sp =
     (let jr = (NewJobResult cmd)\<lparr>jr_State := StateError, jr_StartTime := go_div t0 1000000,
                 jr_Time := go_div (t1 - t0) 1000000\<rparr>;
          st0 = run_begin hooks backlog in
      case sp of
        SpawnPanic e \<Rightarrow> Some (jr\<lparr>jr_Critical := panic_text e\<rparr>, st0)
      | SpawnError e \<Rightarrow> Some (jr\<lparr>jr_Code := error_code e, jr_Data := error_text e\<rparr>, st0)
      | Spawned evs \<Rightarrow>
          (case run_loop env cmd evs st0 of
             None \<Rightarrow> None
           | Some (st, Panicked) \<Rightarrow> Some (jr\<lparr>jr_Critical := panic_text nil_panic\<rparr>, st)
           | Some (st, _) \<Rightarrow>
               let jr = jr\<lparr>jr_State := rs_state st, jr_Code := rs_code st\<rparr>;
                   jr = (case rs_msg st of None \<Rightarrow> jr
                         | Some m \<Rightarrow> jr\<lparr>jr_Level := Level (msg_meta m), jr_Data := msg_text m\<rparr>)
               in Some (jr\<lparr>jr_Streams := [buffer_String (rs_stdout st), buffer_String (rs_stderr st)],
                           jr_Critical := rs_critical st\<rparr>, st)))"

section \<open>What a run reports\<close>

text \<open>The messages of a trace, and the texts of one level.\<close>

fun trace_msgs :: "job_event list \<Rightarrow> message list" where
  "trace_msgs [] = []"
| "trace_msgs (EvMessage now m # es) = m # trace_msgs es"
| "trace_msgs (e # es) = trace_msgs es"

definition at_level :: "16 word \<Rightarrow> message list \<Rightarrow> string list" where
  "at_level l ms = map msg_text (filter (\<lambda>m. Level (msg_meta m) = l) ms)"

definition results_of :: "message list \<Rightarrow> message list" where
  "results_of ms = filter (\<lambda>m. Level (msg_meta m) \<in> set ResultMessageLevels) ms"

definition exit_msg :: "message \<Rightarrow> bool" where
  "exit_msg m \<longleftrightarrow> Is (msg_meta m) ExitSuccessFlag \<or> Is (msg_meta m) ExitErrorFlag"

lemma Is_OR: "Is m (f OR g) \<longleftrightarrow> Is m f \<or> Is m g"
  unfolding Is_iff by (auto simp: bit_simps)

lemma Base_flags: "Is (Base m) f \<longleftrightarrow> Is m f"
  unfolding Is_iff by (auto simp: bits_simps)

lemma Base_Level: "Level (Base m) = Level m"
  by (rule bit_word_eqI) (auto simp: bits_simps)

lemma StreamFlag_exit: "StreamFlag AND (ExitSuccessFlag OR ExitErrorFlag) = 0"
  by (simp add: StreamFlag_def ExitSuccessFlag_def ExitErrorFlag_def)

lemma msgCallback_flags:
  "snd (msgCallback pf cmd now m) = Some x \<Longrightarrow>
     Is (msg_meta x) (ExitSuccessFlag OR ExitErrorFlag) = Is (msg_meta m) (ExitSuccessFlag OR ExitErrorFlag)"
  by (auto simp: msgCallback_def Let_def Is_SetFlag StreamFlag_exit split: stats_outcome.splits if_splits)

lemma on_message_exit:
  "snd (on_message env cmd now m st) = (if exit_msg m then Break else Continue)"
proof -
  let ?m = "m\<lparr>msg_meta := Base (msg_meta m)\<rparr>"
  obtain c out where o: "msgCallback (je_float env) cmd now ?m = (c, out)" by fastforce
  have "Is (msg_meta (case out of None \<Rightarrow> ?m | Some x \<Rightarrow> x)) (ExitSuccessFlag OR ExitErrorFlag) \<longleftrightarrow> exit_msg m"
    using msgCallback_flags[of "je_float env" cmd now ?m] o
    by (cases out) (simp_all add: Base_flags Is_OR exit_msg_def)
  then show ?thesis using o by (simp add: on_message_def Let_def)
qed

text \<open>What one event does to the fields a result is made of.\<close>

record view =
  v_state :: job_state
  v_msg :: "message option"
  v_critical :: string
  v_stdout :: "string buffer"
  v_stderr :: "string buffer"

definition view_of :: "run_state \<Rightarrow> view" where
  "view_of st = \<lparr>v_state = rs_state st, v_msg = rs_msg st, v_critical = rs_critical st,
     v_stdout = rs_stdout st, v_stderr = rs_stderr st\<rparr>"

definition view_msg :: "message \<Rightarrow> view \<Rightarrow> view" where
  "view_msg m v =
     (let l = Level (msg_meta m);
          v = (if Is (msg_meta m) ExitSuccessFlag then v\<lparr>v_state := StateSuccess\<rparr> else v) in
      if l \<in> set ResultMessageLevels then v\<lparr>v_msg := Some m\<rparr>
      else if l = LevelStdout then v\<lparr>v_stdout := buffer_Append (msg_text m) (v_stdout v)\<rparr>
      else if l = LevelStderr then v\<lparr>v_stderr := buffer_Append (msg_text m) (v_stderr v)\<rparr>
      else if l = LevelCritical then v\<lparr>v_critical := msg_text m\<rparr>
      else v)"

lemma Assert_iff: "Assert m ls \<longleftrightarrow> Level m \<in> set ls"
  by (auto simp: Assert_def list_ex_iff)

lemma on_event_message [simp]: "on_event env cmd (EvMessage now m) st = on_message env cmd now m st"
  by (simp add: on_event_def)

lemma run_loop_break:
  "on_message env cmd now m st = (st', Break) \<Longrightarrow>
     run_loop env cmd (EvMessage now m # es) st = Some (st', Break)"
  by simp

lemma view_fire [simp]: "view_of (fire f st) = view_of st"
  by (simp add: fire_def view_of_def split: prod.splits)

lemma view_tail [simp]:
  "view_of (st\<lparr>rs_backlog := b, rs_forwarded := x\<rparr>) = view_of st"
  "view_of (st\<lparr>rs_code := c\<rparr>) = view_of st"
  by (simp_all add: view_of_def)

lemma view_classify:
  "view_of (classify m (if Is (msg_meta m) ExitSuccessFlag then st\<lparr>rs_state := StateSuccess\<rparr> else st)) =
     view_msg m (view_of st)"
  by (simp add: view_of_def view_msg_def classify_def Assert_iff Let_def)

lemma view_on_message: "view_of (fst (on_message env cmd now m st)) = view_msg m (view_of st)"
  unfolding on_message_def Let_def view_classify[symmetric]
  by (simp split: prod.splits)

lemma level_distinct: "LevelStdout \<notin> set ResultMessageLevels" "LevelStderr \<notin> set ResultMessageLevels"
  "LevelStdout \<noteq> LevelStderr"
  by (simp_all add: ResultMessageLevels_def level_defs)

text \<open>The state of a run after a trace without exit message.\<close>

definition running_state :: "'f job_env \<Rightarrow> command \<Rightarrow> job_event list \<Rightarrow> job_state" where
  "running_state env cmd es =
     (if EvTimeout \<in> set es \<and> 0 < cmd_MaxTime cmd \<and> je_signaler env then StateTimeout else StateError)"

definition quiet :: "job_event list \<Rightarrow> bool" where
  "quiet es \<longleftrightarrow> EvClosed \<notin> set es \<and> (\<forall>m\<in>set (trace_msgs es). \<not> exit_msg m)"

lemma trace_msgs_append: "trace_msgs (xs @ ys) = trace_msgs xs @ trace_msgs ys"
  by (induction xs rule: trace_msgs.induct) auto

lemma run_loop_append:
  "quiet es \<Longrightarrow> run_loop env cmd (es @ fs) st = run_loop env cmd fs (fold (\<lambda>e s. fst (on_event env cmd e s)) es st)"
proof (induction es arbitrary: st)
  case (Cons e es)
  have q: "quiet es" using Cons.prems by (cases e) (auto simp: quiet_def)
  have "snd (on_event env cmd e st) = Continue"
    using Cons.prems by (cases e) (auto simp: quiet_def on_event_def on_message_exit)
  then obtain st1 where "on_event env cmd e st = (st1, Continue)" by (metis prod.collapse)
  then show ?case using Cons.IH[OF q] by simp
qed simp

definition view_event :: "'f job_env \<Rightarrow> command \<Rightarrow> job_event \<Rightarrow> view \<Rightarrow> view" where
  "view_event env cmd e v = (case e of
      EvMessage now m \<Rightarrow> view_msg m v
    | EvTimeout \<Rightarrow> if 0 < cmd_MaxTime cmd \<and> je_signaler env then v\<lparr>v_state := StateTimeout\<rparr> else v
    | _ \<Rightarrow> v)"

lemma view_on_event: "view_of (fst (on_event env cmd e st)) = view_event env cmd e (view_of st)"
  by (cases e) (simp_all add: view_event_def view_on_message, simp_all add: on_event_def,
    simp_all add: view_of_def)

lemma view_fold:
  "view_of (fold (\<lambda>e s. fst (on_event env cmd e s)) es st) = fold (view_event env cmd) es (view_of st)"
  by (induction es arbitrary: st) (simp_all add: view_on_event)

lemma view_msg_fields:
  assumes "\<not> Is (msg_meta m) ExitSuccessFlag"
  shows "v_state (view_msg m v) = v_state v"
  using assms by (simp add: view_msg_def Let_def)

lemma view_msg_output:
  "v_msg (view_msg m v) = (if Level (msg_meta m) \<in> set ResultMessageLevels then Some m else v_msg v)"
  "v_stdout (view_msg m v) =
     (if Level (msg_meta m) = LevelStdout then buffer_Append (msg_text m) (v_stdout v) else v_stdout v)"
  "v_stderr (view_msg m v) =
     (if Level (msg_meta m) = LevelStderr then buffer_Append (msg_text m) (v_stderr v) else v_stderr v)"
  using level_distinct by (auto simp: view_msg_def Let_def)

text \<open>The fields of the view after a trace.\<close>

definition view_spec :: "'f job_env \<Rightarrow> command \<Rightarrow> job_event list \<Rightarrow> view \<Rightarrow> bool" where
  "view_spec env cmd es v \<longleftrightarrow>
     v_state v = running_state env cmd es \<and>
     v_msg v = (if results_of (trace_msgs es) = [] then None else Some (last (results_of (trace_msgs es)))) \<and>
     v_stdout v = fold buffer_Append (at_level LevelStdout (trace_msgs es)) (NewBuffer StandardStreamBufferSize) \<and>
     v_stderr v = fold buffer_Append (at_level LevelStderr (trace_msgs es)) (NewBuffer StandardStreamBufferSize)"

lemma view_spec_message:
  "view_spec env cmd es v \<Longrightarrow> \<not> Is (msg_meta m) ExitSuccessFlag \<Longrightarrow>
     view_spec env cmd (es @ [EvMessage now m]) (view_msg m v)"
  by (simp add: view_spec_def view_msg_fields view_msg_output trace_msgs_append results_of_def
      at_level_def running_state_def)

lemma view_spec_other:
  "view_spec env cmd es v \<Longrightarrow> trace_msgs [e] = [] \<Longrightarrow> view_spec env cmd (es @ [e]) (view_event env cmd e v)"
  by (cases e) (simp_all add: view_spec_def view_event_def trace_msgs_append running_state_def)

lemma fold_view:
  "quiet es \<Longrightarrow> view_spec env cmd es (fold (view_event env cmd) es (view_of (run_begin hooks backlog)))"
proof (induction es rule: rev_induct)
  case Nil
  then show ?case
    by (simp add: view_spec_def view_of_def run_begin_def running_state_def results_of_def at_level_def)
next
  case (snoc e es)
  have q: "quiet es" and e: "\<forall>m\<in>set (trace_msgs [e]). \<not> exit_msg m"
    using snoc.prems by (auto simp: quiet_def trace_msgs_append)
  show ?case
  proof (cases "\<exists>now m. e = EvMessage now m")
    case True
    then obtain now m where m: "e = EvMessage now m" by blast
    then have "\<not> Is (msg_meta m) ExitSuccessFlag" using e by (simp add: exit_msg_def)
    from view_spec_message[OF snoc.IH[OF q] this, of now] show ?thesis
      by (simp add: m view_event_def)
  next
    case False
    then have "trace_msgs [e] = []" by (cases e) auto
    from view_spec_other[OF snoc.IH[OF q] this] show ?thesis by simp
  qed
qed

section \<open>The life of a job\<close>

text \<open>One turn of the loop of \<^verbatim>\<open>start\<close>: the result of the run, whether the job is protected when
  the run ends (\<^verbatim>\<open>Terminate\<close> can clear the flag), and whether the unscheduling comes before the
  restart.\<close>

record turn =
  tn_result :: job_result
  tn_protected :: bool
  tn_unscheduled :: bool

text \<open>The result the job ends with and the number of runs, \<open>None\<close> while it goes on.\<close>

fun start_loop :: "command \<Rightarrow> int \<Rightarrow> turn list \<Rightarrow> (job_result \<times> nat) option" where
  "start_loop cmd runs [] = None"
| "start_loop cmd runs (t # ts) =
     (if tn_protected t then map_option (\<lambda>(r, n). (r, Suc n)) (start_loop cmd runs ts)
      else
        let failed = (jr_State (tn_result t) \<noteq> StateSuccess \<and> 0 < cmd_MaxRestart cmd);
            runs = (if failed then runs + 1 else runs);
            restarting = (failed \<and> runs < cmd_MaxRestart cmd);
            restarting = (if 0 < cmd_RecurringPeriod cmd then True else restarting) in
        if restarting then
          (if tn_unscheduled t then Some (tn_result t, 1)
           else map_option (\<lambda>(r, n). (r, Suc n)) (start_loop cmd runs ts))
        else Some (tn_result t, 1))"

record job =
  jb_command :: command
  jb_running :: bool
  jb_signals :: "int list"
  jb_unscheduled :: bool
  jb_result :: "job_result option"

definition newJob :: "command \<Rightarrow> job" where
  "newJob cmd = \<lparr>jb_command = cmd, jb_running = False, jb_signals = [], jb_unscheduled = False,
     jb_result = None\<rparr>"

definition signal_buffer :: nat where "signal_buffer = 5"

definition job_Unschedule :: "job \<Rightarrow> job" where
  "job_Unschedule j = j\<lparr>jb_unscheduled := True\<rparr>"

definition job_Signal :: "int \<Rightarrow> job \<Rightarrow> (go_error, job) result" where
  "job_Signal sig j =
     (if \<not> jb_running j then Inl (PlainErr ''job is not running'')
      else if length (jb_signals j) < signal_buffer then Inr (j\<lparr>jb_signals := jb_signals j @ [sig]\<rparr>)
      else Inl (PlainErr ''job not receiving signals''))"

text \<open>\<^verbatim>\<open>Terminate\<close> unschedules and unprotects the job whatever becomes of the signal.\<close>

definition job_Terminate :: "int \<Rightarrow> job \<Rightarrow> job \<times> go_error option" where
  "job_Terminate sig j =
     (let j = job_Unschedule j;
          j = j\<lparr>jb_command := (jb_command j)\<lparr>cmd_Flags := (cmd_Flags (jb_command j))\<lparr>fl_Protected := False\<rparr>\<rparr>\<rparr>
      in case job_Signal sig j of Inl e \<Rightarrow> (j, Some e) | Inr j' \<Rightarrow> (j', None))"

text \<open>The deferred end of \<^verbatim>\<open>start\<close>; the result handlers get the result with the tags of the
  command.\<close>

definition job_finish :: "job_result \<Rightarrow> job \<Rightarrow> job \<times> job_result" where
  "job_finish r j =
     (let r = r\<lparr>jr_Tags := cmd_Tags (jb_command j)\<rparr> in
      ((job_Unschedule j)\<lparr>jb_running := False, jb_result := Some r\<rparr>, r))"

lemma start_loop_count:
  "start_loop cmd runs ts = Some (r, n) \<Longrightarrow> n \<le> length ts \<and> n \<noteq> 0"
  by (induction cmd runs ts arbitrary: n rule: start_loop.induct)
    (fastforce simp: Let_def split: if_splits)+



section \<open>Properties\<close>

text \<open>C9: The result of a run that ends with an exit message reports what the process did: the state
  is success exactly when the exit message says so, else timeout if the job was killed on its time
  limit, else error; the code is the code of the exit message; the streams are the last 100 messages
  of stdout and stderr; the data is the text of the last result message.\<close>

theorem job_run_reports:
  assumes "quiet es" and "exit_msg m"
  defines "ms \<equiv> trace_msgs es @ [m]"
  shows "\<exists>jr st. job_run env cmd t0 t1 hooks backlog (Spawned (es @ EvMessage now m # rest)) = Some (jr, st) \<and>
    jr_State jr = (if Is (msg_meta m) ExitSuccessFlag then StateSuccess else running_state env cmd es) \<and>
    jr_Code jr = Code (msg_meta m) \<and>
    jr_Streams jr = [concat (drop (length (at_level LevelStdout ms) - 100) (at_level LevelStdout ms)),
                     concat (drop (length (at_level LevelStderr ms) - 100) (at_level LevelStderr ms))] \<and>
    jr_Data jr = (if results_of ms = [] then [] else msg_text (last (results_of ms)))"
proof -
  let ?s = "fold (\<lambda>e s. fst (on_event env cmd e s)) es (run_begin hooks backlog)"
  let ?s' = "fst (on_message env cmd now m ?s)"
  have f: "view_spec env cmd es (view_of ?s)"
    unfolding view_fold by (rule fold_view[OF assms(1)])
  have br: "on_message env cmd now m ?s = (?s', Break)"
    using on_message_exit[of env cmd now m ?s] assms(2) by (metis prod.collapse)
  have loop: "run_loop env cmd (es @ EvMessage now m # rest) (run_begin hooks backlog) = Some (?s', Break)"
    unfolding run_loop_append[OF assms(1)] by (rule run_loop_break[OF br])
  have code: "rs_code ?s' = Code (msg_meta m)"
    using br by (auto simp: on_message_def Let_def split: prod.splits if_splits)
  have v: "view_of ?s' = view_msg m (view_of ?s)" by (rule view_on_message)
  have "rs_state ?s' = (if Is (msg_meta m) ExitSuccessFlag then StateSuccess else running_state env cmd es)"
    using arg_cong[OF v, of v_state] f
    by (cases "Is (msg_meta m) ExitSuccessFlag")
      (simp_all add: view_spec_def view_msg_fields, simp_all add: view_of_def view_msg_def Let_def)
  moreover have "rs_msg ?s' = (if results_of ms = [] then None else Some (last (results_of ms)))"
    using arg_cong[OF v, of v_msg] f unfolding view_msg_output
    by (simp add: view_spec_def view_of_def ms_def results_of_def)
  moreover have "rs_stdout ?s' = fold buffer_Append (at_level LevelStdout ms) (NewBuffer StandardStreamBufferSize)"
    using arg_cong[OF v, of v_stdout] f unfolding view_msg_output
    by (simp add: view_spec_def view_of_def ms_def at_level_def)
  moreover have "rs_stderr ?s' = fold buffer_Append (at_level LevelStderr ms) (NewBuffer StandardStreamBufferSize)"
    using arg_cong[OF v, of v_stderr] f unfolding view_msg_output
    by (simp add: view_spec_def view_of_def ms_def at_level_def)
  moreover have "buf_list (fold buffer_Append xs (NewBuffer 100)) = drop (length xs - 100) xs" for xs :: "string list"
    using stream_buffer.contents_pushes[of "NewBuffer 100" xs] by simp
  ultimately show ?thesis
    using loop code by (simp add: job_run_def Let_def NewJobResult_def buffer_String_def StandardStreamBufferSize_def)
qed


text \<open>A recurring job ends only by being unscheduled, after a run that was not protected: its runs
  can succeed, fail or exceed the restart budget without ending it.\<close>

theorem recurring_job_ends_only_unscheduled:
  assumes "0 < cmd_RecurringPeriod cmd" and "start_loop cmd runs ts = Some (r, n)"
  shows "0 < n \<and> n \<le> length ts \<and> tn_unscheduled (ts ! (n - 1)) \<and> \<not> tn_protected (ts ! (n - 1)) \<and>
    r = tn_result (ts ! (n - 1))"
  using assms(2)
proof (induction ts arbitrary: runs n)
  case (Cons t ts)
  show ?case
  proof (cases "\<not> tn_protected t \<and> tn_unscheduled t")
    case True
    then show ?thesis using Cons.prems assms(1) by (auto simp: Let_def)
  next
    case False
    then obtain runs' k where k: "start_loop cmd runs' ts = Some (r, k)" "n = Suc k"
      using Cons.prems assms(1) by (auto simp: Let_def split: if_splits)
    then show ?thesis using Cons.IH[OF k(1)] by (auto simp: nth_Cons')
  qed
qed simp

text \<open>Concrete turns for the witnesses.\<close>

definition failed_turn :: turn where
  "failed_turn = \<lparr>tn_result = (NewJobResult (new_command ''1'' ''x''))\<lparr>jr_State := StateError\<rparr>,
     tn_protected = False, tn_unscheduled = False\<rparr>"


lemma recurring_job_ends_only_unscheduled_witness:
  "tn_unscheduled ([failed_turn, failed_turn\<lparr>tn_unscheduled := True\<rparr>] ! 1)"
  using recurring_job_ends_only_unscheduled[of "(new_command ''1'' ''x'')\<lparr>cmd_RecurringPeriod := 5\<rparr>" 0
      "[failed_turn, failed_turn\<lparr>tn_unscheduled := True\<rparr>]" "tn_result failed_turn" 2]
  by (simp add: failed_turn_def new_command_def Let_def)

definition env0 :: "int job_env" where
  "env0 = \<lparr>je_signaler = True, je_compile = (\<lambda>p. None), je_float = (\<lambda>s. None)\<rparr>"

lemma job_run_reports_witness:
  "\<exists>jr st. job_run env0 (new_command ''1'' ''x'') 0 5000000 [] (NewBuffer 10)
      (Spawned [EvMessage 1 \<lparr>msg_text = ''out'', msg_epoch = 0, msg_meta = NewMeta LevelStdout []\<rparr>,
                EvMessage 2 \<lparr>msg_text = [], msg_epoch = 0,
                  msg_meta = NewMetaWithCode 1001 LevelStderr [ExitErrorFlag]\<rparr>]) = Some (jr, st) \<and>
     jr_State jr = StateError \<and> jr_Code jr = 1001 \<and> jr_Streams jr = [''out'', []] \<and> jr_Data jr = []"
proof -
  let ?es = "[EvMessage 1 \<lparr>msg_text = ''out'', msg_epoch = 0, msg_meta = NewMeta LevelStdout []\<rparr>]"
  let ?m = "\<lparr>msg_text = [], msg_epoch = 0, msg_meta = NewMetaWithCode 1001 LevelStderr [ExitErrorFlag]\<rparr>"
  have "quiet ?es" by (simp add: quiet_def exit_msg_def Is_NewMeta)
  moreover have "exit_msg ?m" "\<not> Is (msg_meta ?m) ExitSuccessFlag"
    by (simp_all add: exit_msg_def Is_NewMetaWithCode ExitErrorFlag_def ExitSuccessFlag_def)
  ultimately show ?thesis
    using job_run_reports[of ?es ?m env0 "new_command ''1'' ''x''" 0 5000000 "[]" "NewBuffer 10" 2 "[]"]
    by (simp add: running_state_def at_level_def results_of_def level_defs ResultMessageLevels_def)
qed

end
