(* ===== verification/Mgr_Slice.thy ===== *)
theory Mgr_Slice
  imports Settings_Startup Settings_Condition Utils_Model
begin

text \<open>
  Starting a slice of services: the wait machine of \<^verbatim>\<open>base/mgr/waitmachine.go\<close> and
  \<^verbatim>\<open>RunSlice\<close> of \<^verbatim>\<open>base/mgr/pm.go\<close>.  Every service has one channel that is closed when
  the service is released, with a flag that says whether it runs; a service waits for the channels
  of the services it comes after.  The goroutines of the services are interleaved by a step
  relation.
\<close>

section \<open>The wait machine\<close>

record state_w =
  sw_closed :: bool
  sw_s :: bool

type_synonym machine = "string \<Rightarrow> state_w option"

definition newStateMachine :: "string list \<Rightarrow> machine" where
  "newStateMachine keys = (\<lambda>k. if k \<in> set keys then Some \<lparr>sw_closed = False, sw_s = False\<rparr> else None)"

text \<open>One turn of the loop of \<^verbatim>\<open>Wait\<close>, over the keys still to wait for and the result so far; it
  blocks (\<open>None\<close>) on a channel that is open, and skips an unknown key.\<close>

definition wait_step :: "machine \<Rightarrow> string list \<times> bool \<Rightarrow> (string list \<times> bool) option" where
  "wait_step m w =
     (case w of
        ([], r) \<Rightarrow> None
      | (k # ks, r) \<Rightarrow>
          (case m k of
             None \<Rightarrow> Some (ks, r)
           | Some x \<Rightarrow> if sw_closed x then Some (ks, r \<and> sw_s x) else None))"

text \<open>\<^verbatim>\<open>Release\<close> sets the flag even when the channel is closed already; closing it again panics,
  and the panic is recovered.\<close>

definition Release :: "string \<Rightarrow> bool \<Rightarrow> machine \<Rightarrow> (unit, machine) result" where
  "Release key st m =
     (case m key of
        None \<Rightarrow> Inl ()
      | Some x \<Rightarrow> Inr (m(key \<mapsto> \<lparr>sw_closed = True, sw_s = st\<rparr>)))"

definition release :: "string \<Rightarrow> bool \<Rightarrow> machine \<Rightarrow> machine" where
  "release key st m = (case Release key st m of Inr m' \<Rightarrow> m' | Inl e \<Rightarrow> m)"

text \<open>\<^verbatim>\<open>WaitAll\<close> returns when every channel is closed.\<close>

definition all_released :: "machine \<Rightarrow> bool" where
  "all_released m \<longleftrightarrow> (\<forall>k x. m k = Some x \<longrightarrow> sw_closed x)"

lemma release_dom [simp]: "release k st m k' = None \<longleftrightarrow> m k' = None"
  by (auto simp: release_def Release_def split: option.splits)

lemma release_same: "m k = Some x \<Longrightarrow> release k st m k = Some \<lparr>sw_closed = True, sw_s = st\<rparr>"
  by (simp add: release_def Release_def)

lemma release_other [simp]: "k' \<noteq> k \<Longrightarrow> release k st m k' = m k'"
  by (auto simp: release_def Release_def split: option.splits)

section \<open>The arguments of a service\<close>

text \<open>\<open>exp\<close> is the condition parser; a condition on which it does not return, or whose evaluation
  panics, ends the processing (\<open>None\<close>).  Arguments nested deeper than the fuel are not reached; the
  depth of the arguments is enough fuel.\<close>

definition alist_update :: "'k \<Rightarrow> 'v \<Rightarrow> ('k \<times> 'v) list \<Rightarrow> ('k \<times> 'v) list" where
  "alist_update k v al =
     (if k \<in> set (map fst al) then map (\<lambda>p. if fst p = k then (k, v) else p) al else al @ [(k, v)])"

definition alist_delete :: "'k \<Rightarrow> ('k \<times> 'v) list \<Rightarrow> ('k \<times> 'v) list" where
  "alist_delete k al = filter (\<lambda>p. fst p \<noteq> k) al"

lemma map_of_replace:
  "x \<noteq> k \<Longrightarrow> map_of (map (\<lambda>p. if fst p = k then (k, v) else p) al) x = map_of al x"
  "k \<in> fst ` set al \<Longrightarrow> map_of (map (\<lambda>p. if fst p = k then (k, v) else p) al) k = Some v"
  by (induction al) auto

lemma map_of_alist_update [simp]: "map_of (alist_update k v al) = (map_of al)(k \<mapsto> v)"
proof
  fix x
  show "map_of (alist_update k v al) x = ((map_of al)(k \<mapsto> v)) x"
  proof (cases "k \<in> fst ` set al")
    case True
    then show ?thesis by (cases "x = k") (simp_all add: alist_update_def map_of_replace)
  next
    case False
    then have "map_of al k = None" by (simp add: map_of_eq_None_iff)
    then show ?thesis using False
      by (cases "x = k") (simp_all add: alist_update_def map_add_def split: option.splits)
  qed
qed

lemma map_of_alist_delete [simp]: "map_of (alist_delete k al) = (map_of al)(k := None)"
  by (induction al) (auto simp: alist_delete_def fun_upd_def)

type_synonym kvals = "string \<Rightarrow> string option"

definition format_value :: "((string \<times> arg) list \<Rightarrow> (string \<times> arg) list option) \<Rightarrow> kvals \<Rightarrow> arg \<Rightarrow> arg option" where
  "format_value sub vals v =
     (case v of
        AStr s \<Rightarrow> Some (AStr (Format s vals))
      | AStrs l \<Rightarrow> Some (AStrs (map (\<lambda>s. Format s vals) l))
      | AList l \<Rightarrow> Some (AList (map (\<lambda>x. case x of AStr s \<Rightarrow> AStr (Format s vals) | _ \<Rightarrow> x) l))
      | AMap m \<Rightarrow> map_option AMap (sub m)
      | AOther s \<Rightarrow> None)"

text \<open>The treatment of one key.  A value of another type is left as it is under its old key, which a
  condition has deleted already.\<close>

definition process_key ::
  "(string \<Rightarrow> (cond_error, expression) result option) \<Rightarrow>
   ((string \<times> arg) list \<Rightarrow> (string \<times> arg) list option) \<Rightarrow> kvals \<Rightarrow> string \<Rightarrow>
   (string \<times> arg) list \<Rightarrow> (string \<times> arg) list option" where
  "process_key exp sub vals key args =
     (case map_of args key of
        None \<Rightarrow> Some args
      | Some v \<Rightarrow>
          (let parts = split2 CHR ''|'' key;
               store = (\<lambda>key args. case v of
                  AOther s \<Rightarrow> Some args
                | _ \<Rightarrow> map_option (\<lambda>v'. alist_update key v' args) (format_value sub vals v)) in
           if length parts = 2 then
             (case exp (TrimSpace (parts ! 0)) of
                None \<Rightarrow> None
              | Some (Inl e) \<Rightarrow> Some args
              | Some (Inr x) \<Rightarrow>
                  (case Examine (\<lambda>k. vals k \<noteq> None) x of
                     None \<Rightarrow> None
                   | Some False \<Rightarrow> Some (alist_delete key args)
                   | Some True \<Rightarrow> store (TrimSpace (parts ! 1)) (alist_delete key args)))
           else store key args))"

fun process_keys ::
  "(string \<Rightarrow> (string \<times> arg) list \<Rightarrow> (string \<times> arg) list option) \<Rightarrow> string list \<Rightarrow>
   (string \<times> arg) list \<Rightarrow> (string \<times> arg) list option" where
  "process_keys f [] args = Some args"
| "process_keys f (k # ks) args = (case f k args of None \<Rightarrow> None | Some a \<Rightarrow> process_keys f ks a)"

fun processArgs ::
  "nat \<Rightarrow> (string \<Rightarrow> (cond_error, expression) result option) \<Rightarrow> kvals \<Rightarrow>
   (string \<times> arg) list \<Rightarrow> (string \<times> arg) list option" where
  "processArgs 0 exp vals args = Some args"
| "processArgs (Suc n) exp vals args =
     process_keys (process_key exp (processArgs n exp vals) vals) (GetKeys args) args"

text \<open>\<^verbatim>\<open>osEnvironAsMap\<close>\<close>

definition osEnvironAsMap :: "string list \<Rightarrow> kvals" where
  "osEnvironAsMap env = fold (\<lambda>l m. let parts = split2 CHR ''='' l in
     if length parts = 2 then m(parts ! 0 \<mapsto> parts ! 1) else m) env Map.empty"

section \<open>Running a slice\<close>

text \<open>The goroutine of a service: not dispatched yet, skipped by its condition, waiting for the rest
  of its dependencies, started, or given up.\<close>

datatype phase = Pending | Skipped | Waiting "string list" bool | Running | Failed

record slice_state =
  sl_machine :: machine
  sl_phase :: "string \<Rightarrow> phase"
  sl_log :: "(string \<times> bool) list"

definition slice_init :: "startup list \<Rightarrow> slice_state" where
  "slice_init svcs = \<lparr>sl_machine = newStateMachine (map su_key svcs), sl_phase = (\<lambda>k. Pending), sl_log = []\<rparr>"

definition do_release :: "string \<Rightarrow> bool \<Rightarrow> slice_state \<Rightarrow> slice_state" where
  "do_release k r st = st\<lparr>sl_machine := release k r (sl_machine st), sl_log := sl_log st @ [(k, r)]\<rparr>"

definition set_phase :: "string \<Rightarrow> phase \<Rightarrow> slice_state \<Rightarrow> slice_state" where
  "set_phase k p st = st\<lparr>sl_phase := (sl_phase st)(k := p)\<rparr>"

text \<open>\<open>cond up\<close> is the outcome of the condition of the service.  The dispatch loop of \<^verbatim>\<open>RunSlice\<close>
  goes over the slice in order, which the relation does not need: a service is dispatched at some
  time.  A running service is released by its hooks: with true when it matched its pattern, ran for
  its delay, or exited with success, with false when it failed.\<close>

inductive slice_step :: "startup list \<Rightarrow> (startup \<Rightarrow> bool) \<Rightarrow> slice_state \<Rightarrow> slice_state \<Rightarrow> bool"
  for svcs cond where
  skip: "up \<in> set svcs \<Longrightarrow> sl_phase st (su_key up) = Pending \<Longrightarrow> \<not> cond up \<Longrightarrow>
    slice_step svcs cond st (do_release (su_key up) False (set_phase (su_key up) Skipped st))"
| dispatch: "up \<in> set svcs \<Longrightarrow> sl_phase st (su_key up) = Pending \<Longrightarrow> cond up \<Longrightarrow>
    slice_step svcs cond st (set_phase (su_key up) (Waiting (su_After up) True) st)"
| wait: "up \<in> set svcs \<Longrightarrow> sl_phase st (su_key up) = Waiting ks r \<Longrightarrow>
    wait_step (sl_machine st) (ks, r) = Some (ks', r') \<Longrightarrow>
    slice_step svcs cond st (set_phase (su_key up) (Waiting ks' r') st)"
| give_up: "up \<in> set svcs \<Longrightarrow> sl_phase st (su_key up) = Waiting [] False \<Longrightarrow>
    slice_step svcs cond st (do_release (su_key up) False (set_phase (su_key up) Failed st))"
| start: "up \<in> set svcs \<Longrightarrow> sl_phase st (su_key up) = Waiting [] True \<Longrightarrow>
    slice_step svcs cond st (set_phase (su_key up) Running st)"
| refused: "up \<in> set svcs \<Longrightarrow> sl_phase st (su_key up) = Running \<Longrightarrow>
    slice_step svcs cond st (do_release (su_key up) False (set_phase (su_key up) Failed st))"
| hook: "up \<in> set svcs \<Longrightarrow> sl_phase st (su_key up) = Running \<Longrightarrow>
    slice_step svcs cond st (do_release (su_key up) r st)"

inductive slice_reach :: "startup list \<Rightarrow> (startup \<Rightarrow> bool) \<Rightarrow> slice_state \<Rightarrow> bool"
  for svcs cond where
  init: "slice_reach svcs cond (slice_init svcs)"
| step: "slice_reach svcs cond s \<Longrightarrow> slice_step svcs cond s t \<Longrightarrow> slice_reach svcs cond t"

text \<open>The dependencies of a service that are in the slice.\<close>

definition deps :: "startup list \<Rightarrow> startup \<Rightarrow> string set" where
  "deps svcs up = set (su_After up) \<inter> set (map su_key svcs)"

text \<open>What holds of every service in every reachable state.\<close>

definition svc_inv :: "startup list \<Rightarrow> slice_state \<Rightarrow> startup \<Rightarrow> bool" where
  "svc_inv svcs st up \<longleftrightarrow>
     (case sl_phase st (su_key up) of
        Pending \<Rightarrow> True
      | Waiting ks r \<Rightarrow> set ks \<subseteq> set (su_After up) \<and>
          (r \<longrightarrow> (\<forall>d\<in>deps svcs up. d \<in> set ks \<or> (d, True) \<in> set (sl_log st)))
      | Running \<Rightarrow> \<forall>d\<in>deps svcs up. (d, True) \<in> set (sl_log st)
      | _ \<Rightarrow> \<exists>x. sl_machine st (su_key up) = Some x \<and> sw_closed x)"

definition slice_inv :: "startup list \<Rightarrow> slice_state \<Rightarrow> bool" where
  "slice_inv svcs st \<longleftrightarrow>
     (\<forall>k. sl_machine st k \<noteq> None \<longleftrightarrow> k \<in> set (map su_key svcs)) \<and>
     (\<forall>k x. sl_machine st k = Some x \<longrightarrow> sw_s x \<longrightarrow> (k, True) \<in> set (sl_log st)) \<and>
     (\<forall>up\<in>set svcs. svc_inv svcs st up)"

lemma slice_inv_init: "slice_inv svcs (slice_init svcs)"
  by (auto simp: slice_inv_def slice_init_def svc_inv_def newStateMachine_def)

lemma svc_inv_do_release:
  assumes "svc_inv svcs st up" shows "svc_inv svcs (do_release k r st) up"
proof (cases "k = su_key up")
  case True
  then show ?thesis using assms release_same
    by (auto simp: svc_inv_def do_release_def split: phase.splits)
next
  case False
  then show ?thesis using assms by (auto simp: svc_inv_def do_release_def split: phase.splits)
qed

lemma slice_inv_do_release:
  assumes "slice_inv svcs st" "k \<in> set (map su_key svcs)"
  shows "slice_inv svcs (do_release k r st)"
proof -
  obtain x where x: "sl_machine st k = Some x" using assms by (force simp: slice_inv_def)
  have "(k', True) \<in> set (sl_log st) \<or> k' = k \<and> r"
    if "release k r (sl_machine st) k' = Some y" "sw_s y" for k' y
    using that assms(1) release_same[of "sl_machine st", OF x, of r] by (cases "k' = k") (auto simp: slice_inv_def)
  then show ?thesis
    using assms(1) svc_inv_do_release unfolding slice_inv_def by (auto simp: do_release_def)
qed

lemma svc_inv_other:
  assumes "svc_inv svcs st u" "su_key u \<noteq> k" shows "svc_inv svcs (set_phase k p st) u"
  using assms by (cases "sl_phase st (su_key u)") (simp_all add: svc_inv_def set_phase_def)

lemma slice_inv_set_phase:
  assumes "slice_inv svcs st" "distinct (map su_key svcs)" "up \<in> set svcs"
    and "svc_inv svcs (set_phase (su_key up) p st) up"
  shows "slice_inv svcs (set_phase (su_key up) p st)"
proof -
  have "svc_inv svcs (set_phase (su_key up) p st) u" if "u \<in> set svcs" for u
  proof (cases "u = up")
    case False
    then have "su_key u \<noteq> su_key up" using assms(2,3) that by (auto simp: distinct_map inj_on_def)
    then show ?thesis using assms(1) that svc_inv_other unfolding slice_inv_def by blast
  qed (use assms(4) in simp)
  then show ?thesis using assms(1) by (auto simp: slice_inv_def set_phase_def)
qed

lemma slice_inv_closing:
  assumes "slice_inv svcs st" "distinct (map su_key svcs)" "up \<in> set svcs" "p = Skipped \<or> p = Failed"
  shows "slice_inv svcs (do_release (su_key up) r (set_phase (su_key up) p st))"
proof -
  let ?k = "su_key up" and ?t = "set_phase (su_key up) p st"
  obtain x where x: "sl_machine st ?k = Some x" using assms(1,3) by (force simp: slice_inv_def)
  have "svc_inv svcs (do_release ?k r ?t) u" if "u \<in> set svcs" for u
  proof (cases "u = up")
    case True
    then show ?thesis using assms(4) release_same[of "sl_machine st", OF x, of r]
      by (auto simp: svc_inv_def do_release_def set_phase_def)
  next
    case False
    then have "su_key u \<noteq> ?k" using assms(2,3) that by (auto simp: distinct_map inj_on_def)
    then show ?thesis
      using assms(1) that svc_inv_do_release svc_inv_other unfolding slice_inv_def by blast
  qed
  moreover have "(k', True) \<in> set (sl_log st) \<or> k' = ?k \<and> r"
    if "release ?k r (sl_machine st) k' = Some y" "sw_s y" for k' y
    using that assms(1) release_same[of "sl_machine st", OF x, of r] by (cases "k' = ?k") (auto simp: slice_inv_def)
  ultimately show ?thesis
    using assms(1) unfolding slice_inv_def by (auto simp: do_release_def set_phase_def)
qed

lemma wait_step_inv:
  assumes "slice_inv svcs st" "up \<in> set svcs" "sl_phase st (su_key up) = Waiting ks r"
    "wait_step (sl_machine st) (ks, r) = Some (ks', r')"
  shows "svc_inv svcs (set_phase (su_key up) (Waiting ks' r') st) up"
proof -
  obtain k where k: "ks = k # ks'" using assms(4)
    by (auto simp: wait_step_def split: list.splits option.splits if_splits)
  have inv: "set ks \<subseteq> set (su_After up)" "r \<Longrightarrow> \<forall>d\<in>deps svcs up. d \<in> set ks \<or> (d, True) \<in> set (sl_log st)"
    using assms(1,2,3) by (force simp: slice_inv_def svc_inv_def)+
  have known: "k \<in> deps svcs up \<Longrightarrow> sl_machine st k \<noteq> None"
    and flag: "\<And>x. sl_machine st k = Some x \<Longrightarrow> sw_s x \<Longrightarrow> (k, True) \<in> set (sl_log st)"
    using assms(1) unfolding slice_inv_def deps_def by blast+
  have "r' \<Longrightarrow> r \<and> (k \<in> deps svcs up \<longrightarrow> (k, True) \<in> set (sl_log st))"
    using assms(4) k known flag by (auto simp: wait_step_def split: option.splits if_splits)
  then show ?thesis using inv k by (auto simp: svc_inv_def set_phase_def)
qed

lemma slice_inv_step:
  assumes "slice_inv svcs st" "distinct (map su_key svcs)" "slice_step svcs cond st t"
  shows "slice_inv svcs t"
  using assms(3)
proof (cases rule: slice_step.cases)
  case (wait up ks r ks' r')
  then show ?thesis
    using slice_inv_set_phase[OF assms(1,2)] wait_step_inv[OF assms(1)] by simp
next
  case (start up)
  then have "svc_inv svcs st up" using assms(1) by (simp add: slice_inv_def)
  then have "svc_inv svcs (set_phase (su_key up) Running st) up"
    using start by (auto simp: svc_inv_def set_phase_def)
  then show ?thesis using slice_inv_set_phase[OF assms(1,2)] start by simp
next
  case (dispatch up)
  have "svc_inv svcs (set_phase (su_key up) (Waiting (su_After up) True) st) up"
    by (auto simp: svc_inv_def set_phase_def deps_def)
  then show ?thesis using slice_inv_set_phase[OF assms(1,2)] dispatch by simp
next
  case (hook up r)
  then show ?thesis using slice_inv_do_release[OF assms(1)] by simp
qed (use assms(1,2) in \<open>auto intro: slice_inv_closing\<close>)

lemma slice_reach_inv:
  assumes "distinct (map su_key svcs)" "slice_reach svcs cond st"
  shows "slice_inv svcs st"
  using assms(2)
  by (induction rule: slice_reach.induct) (auto intro: slice_inv_init slice_inv_step[OF _ assms(1)])

section \<open>Nothing hangs\<close>

text \<open>The slice is quiet when no goroutine can move except through the hooks of a running service.\<close>

definition quiescent :: "startup list \<Rightarrow> (startup \<Rightarrow> bool) \<Rightarrow> slice_state \<Rightarrow> bool" where
  "quiescent svcs cond st \<longleftrightarrow>
     (\<forall>up\<in>set svcs. sl_phase st (su_key up) \<noteq> Pending \<and>
        (\<forall>ks r. sl_phase st (su_key up) = Waiting ks r \<longrightarrow>
           ks \<noteq> [] \<and> wait_step (sl_machine st) (ks, r) = None))"

definition released :: "slice_state \<Rightarrow> string \<Rightarrow> bool" where
  "released st k \<longleftrightarrow> (\<exists>x. sl_machine st k = Some x \<and> sw_closed x)"

text \<open>The dependencies inside the slice, as a relation on the keys.\<close>

definition dep_rel :: "startup list \<Rightarrow> (string \<times> string) set" where
  "dep_rel svcs = {(d, su_key up) | d up. up \<in> set svcs \<and> d \<in> deps svcs up}"

lemma finite_dep_rel: "finite (dep_rel svcs)"
proof -
  have "dep_rel svcs \<subseteq> set (map su_key svcs) \<times> set (map su_key svcs)"
    by (auto simp: dep_rel_def deps_def)
  then show ?thesis by (rule finite_subset) simp
qed

lemma quiescent_released:
  assumes inv: "slice_inv svcs st" and q: "quiescent svcs cond st"
    and running: "\<forall>up\<in>set svcs. sl_phase st (su_key up) = Running \<longrightarrow> released st (su_key up)"
    and acyclic: "acyclic (dep_rel svcs)"
    and up: "up \<in> set svcs"
  shows "released st (su_key up)"
proof -
  have "wf (dep_rel svcs)" using finite_dep_rel acyclic by (rule finite_acyclic_wf)
  then show ?thesis
    using up
  proof (induction "su_key up" arbitrary: up rule: wf_induct_rule)
    case less
    have svc: "svc_inv svcs st up" using inv less.prems by (simp add: slice_inv_def)
    show ?case
    proof (cases "sl_phase st (su_key up)")
      case (Waiting ks r)
      then obtain k ks' where ks: "ks = k # ks'" and none: "wait_step (sl_machine st) (k # ks', r) = None"
        using q less.prems by (cases ks) (auto simp: quiescent_def)
      then obtain x where x: "sl_machine st k = Some x" "\<not> sw_closed x"
        by (auto simp: wait_step_def split: option.splits if_splits)
      then have "k \<in> set (map su_key svcs)" using inv by (force simp: slice_inv_def)
      then obtain u where u: "u \<in> set svcs" "su_key u = k" by auto
      have "k \<in> deps svcs up"
        using svc Waiting ks u by (auto simp: svc_inv_def deps_def)
      then have "(su_key u, su_key up) \<in> dep_rel svcs" using less.prems u(2) by (auto simp: dep_rel_def)
      from less.hyps[OF this u(1)] show ?thesis using x u(2) by (simp add: released_def)
    qed (use svc q running less.prems in \<open>auto simp: svc_inv_def released_def quiescent_def\<close>)
  qed
qed

text \<open>A slice of two services for the witnesses: \<open>a\<close> is started and released, then \<open>b\<close>.\<close>

definition svc_a :: startup where "svc_a = svc ''a'' [''init'']"
definition svc_b :: startup where "svc_b = svc ''b'' [''a'', ''net'']"

definition a_runs :: slice_state where
  "a_runs = do_release ''a'' True (set_phase ''a'' Running (set_phase ''a'' (Waiting [] True)
     (set_phase ''a'' (Waiting [''init''] True) (slice_init [svc_a, svc_b]))))"

definition b_runs :: slice_state where
  "b_runs = do_release ''b'' True (set_phase ''b'' Running (set_phase ''b'' (Waiting [] True)
     (set_phase ''b'' (Waiting [''net''] True) (set_phase ''b'' (Waiting [''a'', ''net''] True) a_runs))))"

lemmas boot_eval = svc_a_def svc_b_def svc_def slice_init_def newStateMachine_def set_phase_def
  do_release_def release_def Release_def wait_step_def

lemma service_boots:
  assumes "slice_reach svcs (\<lambda>u. True) st" "up \<in> set svcs" "su_key up = k" "sl_phase st k = Pending"
  shows "slice_reach svcs (\<lambda>u. True) (set_phase k (Waiting (su_After up) True) st)"
  using slice_reach.step[OF assms(1) slice_step.dispatch[of up]] assms(2-4) by simp

lemma service_waits:
  assumes "slice_reach svcs cond (set_phase k (Waiting ks r) st)" "k \<in> set (map su_key svcs)"
    "wait_step (sl_machine st) (ks, r) = Some (ks', r')"
  shows "slice_reach svcs cond (set_phase k (Waiting ks' r') (set_phase k (Waiting ks r) st))"
proof -
  obtain up where up: "up \<in> set svcs" "su_key up = k" using assms(2) by auto
  show ?thesis
    using slice_reach.step[OF assms(1) slice_step.wait[OF up(1), of _ ks r ks' r']] up assms(3)
    by (simp add: set_phase_def)
qed

lemma service_starts:
  assumes "slice_reach svcs cond (set_phase k (Waiting [] True) st)" "k \<in> set (map su_key svcs)"
  shows "slice_reach svcs cond (do_release k r (set_phase k Running (set_phase k (Waiting [] True) st)))"
proof -
  obtain up where up: "up \<in> set svcs" "su_key up = k" using assms(2) by auto
  have "slice_reach svcs cond (set_phase k Running (set_phase k (Waiting [] True) st))"
    using slice_reach.step[OF assms(1) slice_step.start[OF up(1)]] up by (simp add: set_phase_def)
  from slice_reach.step[OF this slice_step.hook[OF up(1)]] up show ?thesis by (simp add: set_phase_def)
qed

lemma a_runs_reach: "slice_reach [svc_a, svc_b] (\<lambda>u. True) a_runs"
  unfolding a_runs_def
  by (intro service_starts service_waits service_boots[where up = svc_a, unfolded svc_a_def svc_def, simplified]
      slice_reach.init) (simp_all add: boot_eval)

lemma b_runs_reach: "slice_reach [svc_a, svc_b] (\<lambda>u. True) b_runs"
  unfolding b_runs_def
  by (intro service_starts service_waits service_boots[where up = svc_b, unfolded svc_b_def svc_def, simplified]
      a_runs_reach) (simp_all add: boot_eval a_runs_def)

section \<open>Properties\<close>

text \<open>C2: A service of a slice is started only after every service of the slice it comes after has
  been released as running; a service whose dependency failed or was skipped is never started before
  that dependency is released as running.\<close>

theorem started_after_dependencies:
  assumes "distinct (map su_key svcs)" and "slice_reach svcs cond st"
    and "up \<in> set svcs" and "sl_phase st (su_key up) = Running" and "d \<in> deps svcs up"
  shows "(d, True) \<in> set (sl_log st)"
  using slice_reach_inv[OF assms(1,2)] assms(3-5) by (auto simp: slice_inv_def svc_inv_def)

lemma started_after_dependencies_witness: "(''a'', True) \<in> set (sl_log b_runs)"
  using started_after_dependencies[OF _ b_runs_reach, of svc_b "''a''"]
  by (simp add: deps_def b_runs_def boot_eval)

text \<open>C4: Booting a slice does not hang: when the dependencies are acyclic, every service that runs
  has been released by a hook, and no goroutine can move, then every service is released and the
  wait for the whole slice returns.\<close>

theorem slice_boot_completes:
  assumes "distinct (map su_key svcs)" and "slice_reach svcs cond st"
    and "acyclic (dep_rel svcs)" and "quiescent svcs cond st"
    and "\<forall>up\<in>set svcs. sl_phase st (su_key up) = Running \<longrightarrow> released st (su_key up)"
  shows "all_released (sl_machine st)"
proof -
  have inv: "slice_inv svcs st" by (rule slice_reach_inv[OF assms(1,2)])
  have rel: "released st (su_key up)" if "up \<in> set svcs" for up
    by (rule quiescent_released[OF inv assms(4,5,3) that])
  show ?thesis unfolding all_released_def
  proof (intro allI impI)
    fix k x assume x: "sl_machine st k = Some x"
    then have "k \<in> set (map su_key svcs)" using inv by (force simp: slice_inv_def)
    then obtain up where "up \<in> set svcs" "su_key up = k" by auto
    with rel x show "sw_closed x" by (force simp: released_def)
  qed
qed

lemma slice_boot_completes_witness: "all_released (sl_machine b_runs)"
proof (rule slice_boot_completes[OF _ b_runs_reach])
  have sub: "dep_rel [svc_a, svc_b] \<subseteq> {(''a'', ''b'')}"
    by (auto simp: dep_rel_def deps_def svc_a_def svc_b_def svc_def)
  have "acyclic {(''a'', ''b'')}" by (simp add: acyclic_insert wf_acyclic)
  then show "acyclic (dep_rel [svc_a, svc_b])" using sub by (rule acyclic_subset)
  show "distinct (map su_key [svc_a, svc_b])" by (simp add: boot_eval)
  show "quiescent [svc_a, svc_b] (\<lambda>u. True) b_runs"
    by (simp add: quiescent_def b_runs_def a_runs_def boot_eval)
  show "\<forall>up\<in>set [svc_a, svc_b]. sl_phase b_runs (su_key up) = Running \<longrightarrow> released b_runs (su_key up)"
    by (simp add: released_def b_runs_def a_runs_def boot_eval)
qed

end
