(* ===== verification/Mgr_Manager.thy ===== *)
theory Mgr_Manager
  imports Mgr_Queue Mgr_Job
begin

text \<open>
  The manager of \<^verbatim>\<open>base/mgr/pm.go\<close> and the command table of \<^verbatim>\<open>base/mgr/builtin.go\<close>, as operations on
  its state.  An operation returns the jobs it sends to the scheduling loop.  The interleaving of
  the goroutines, with the locks, is in \<^verbatim>\<open>Mgr_Deadlock\<close>.
\<close>

section \<open>Factories\<close>

text \<open>A process factory: the two built-in ones, an extension, or an action of a router.\<close>

datatype factory = SystemFactory | ContainerFactory | ExtensionFactory string | InternalFactory string

definition CommandSystem :: string where "CommandSystem = ''core.system''"
definition CommandContainer :: string where "CommandContainer = ''core.container''"

definition builtin_factories :: "string \<Rightarrow> factory option" where
  "builtin_factories = [CommandSystem \<mapsto> SystemFactory, CommandContainer \<mapsto> ContainerFactory]"

text \<open>\<open>routers\<close> are the routers in the order they were added; each maps a command name to an action.\<close>

fun route :: "(string \<Rightarrow> string option) list \<Rightarrow> string \<Rightarrow> string option" where
  "route [] name = None"
| "route (r # rs) name = (case r name of Some a \<Rightarrow> Some a | None \<Rightarrow> route rs name)"

definition getFactory ::
  "(string \<Rightarrow> factory option) \<Rightarrow> (string \<Rightarrow> string option) list \<Rightarrow> command \<Rightarrow> (go_error, factory) result" where
  "getFactory factories routers cmd =
     (case factories (cmd_Command cmd) of
        Some f \<Rightarrow> Inr f
      | None \<Rightarrow> (case route routers (cmd_Command cmd) of
            Some a \<Rightarrow> Inr (InternalFactory a)
          | None \<Rightarrow> Inl (UnknownCommandErr (cmd_Command cmd))))"

definition RegisterExtension ::
  "string \<Rightarrow> string \<Rightarrow> (string \<Rightarrow> factory option) \<Rightarrow> (go_error, string \<Rightarrow> factory option) result" where
  "RegisterExtension cmd exe factories =
     (if factories cmd \<noteq> None
      then Inl (PlainErr (''job factory with the same name already registered: '' @ cmd))
      else Inr (factories(cmd \<mapsto> ExtensionFactory exe)))"

section \<open>The state of the manager\<close>

record manager =
  mg_jobs :: "string \<Rightarrow> job option"
  mg_queue :: queue

definition DuplicateIDErr :: go_error where "DuplicateIDErr = PlainErr ''duplicate job id''"

text \<open>The handlers that run before a command, in order.\<close>

definition run_pre :: "(command \<Rightarrow> command) list \<Rightarrow> command \<Rightarrow> command" where
  "run_pre pre cmd = fold (\<lambda>h c. h c) pre cmd"

text \<open>\<^verbatim>\<open>RunFactory\<close>: the error or the job, the state after, the jobs sent to the loop.  \<open>uuid\<close> is the
  fresh identifier for a command without one.\<close>

definition RunFactory ::
  "string \<Rightarrow> (command \<Rightarrow> command) list \<Rightarrow> command \<Rightarrow> manager \<Rightarrow>
   (go_error, job) result \<times> manager \<times> command list" where
  "RunFactory uuid pre cmd0 m =
     (let cmd = (if length (cmd_ID cmd0) = 0 then cmd0\<lparr>cmd_ID := uuid\<rparr> else cmd0);
          cmd = run_pre pre cmd in
      if mg_jobs m (cmd_ID cmd) \<noteq> None then (Inl DuplicateIDErr, m, [])
      else let j = newJob cmd;
               m = m\<lparr>mg_jobs := (mg_jobs m)(cmd_ID cmd \<mapsto> j)\<rparr> in
        (case queue_Push cmd (mg_queue m) of
           Inl e \<Rightarrow> (Inl e, m, [])
         | Inr (q, sent) \<Rightarrow> (Inr j, m\<lparr>mg_queue := q\<rparr>, sent)))"

definition Run ::
  "(string \<Rightarrow> factory option) \<Rightarrow> (string \<Rightarrow> string option) list \<Rightarrow> string \<Rightarrow> (command \<Rightarrow> command) list \<Rightarrow>
   command \<Rightarrow> manager \<Rightarrow> (go_error, job) result \<times> manager \<times> command list" where
  "Run factories routers uuid pre cmd m =
     (case getFactory factories routers cmd of
        Inl e \<Rightarrow> (Inl e, m, [])
      | Inr f \<Rightarrow> RunFactory uuid pre cmd m)"

text \<open>\<^verbatim>\<open>cleanUp\<close> when a job ends; \<open>None\<close> if the notification panics.\<close>

definition cleanUp :: "command \<Rightarrow> manager \<Rightarrow> (manager \<times> command list) option" where
  "cleanUp cmd m =
     (let m = m\<lparr>mg_jobs := (mg_jobs m)(cmd_ID cmd := None)\<rparr> in
      map_option (\<lambda>(q, sent). (m\<lparr>mg_queue := q\<rparr>, sent)) (queue_Notify cmd (mg_queue m)))"

definition JobOf :: "string \<Rightarrow> manager \<Rightarrow> job option" where
  "JobOf i m = mg_jobs m i"

definition Jobs :: "manager \<Rightarrow> string \<Rightarrow> job option" where
  "Jobs m = mg_jobs m"

text \<open>\<^verbatim>\<open>terminateAll\<close> over the jobs in some order; the errors of the signals are dropped.\<close>

fun terminateAll :: "int \<Rightarrow> string list \<Rightarrow> string list \<Rightarrow> manager \<Rightarrow> manager" where
  "terminateAll sig except [] m = m"
| "terminateAll sig except (i # ids) m =
     (case mg_jobs m i of
        None \<Rightarrow> terminateAll sig except ids m
      | Some j \<Rightarrow>
          if InString except (cmd_ID (jb_command j)) then terminateAll sig except ids m
          else terminateAll sig except ids (m\<lparr>mg_jobs := (mg_jobs m)(i \<mapsto> fst (job_Terminate sig j))\<rparr>))"

text \<open>\<^verbatim>\<open>Shutdown\<close>: the second round runs five seconds later, over the jobs that are left then.  Closing
  the queue twice panics.\<close>

definition Shutdown_first :: "string list \<Rightarrow> string list \<Rightarrow> manager \<Rightarrow> manager option" where
  "Shutdown_first except ids m =
     (case queue_Close (mg_queue m) of
        None \<Rightarrow> None
      | Some q \<Rightarrow> Some (terminateAll SIGTERM except ids (m\<lparr>mg_queue := q\<rparr>)))"

definition Shutdown_second :: "string list \<Rightarrow> string list \<Rightarrow> manager \<Rightarrow> manager" where
  "Shutdown_second except ids m = terminateAll SIGKILL except ids m"

definition Kill :: "string \<Rightarrow> manager \<Rightarrow> (go_error, manager) result" where
  "Kill i m =
     (case mg_jobs m i of
        None \<Rightarrow> Inl (PlainErr ''not found'')
      | Some j \<Rightarrow>
          Inr (case job_Signal SIGTERM j of
             Inl e \<Rightarrow> m
           | Inr j' \<Rightarrow> m\<lparr>mg_jobs := (mg_jobs m)(i \<mapsto> j')\<rparr>))"

section \<open>Results of builtin commands\<close>

text \<open>\<^verbatim>\<open>System\<close>: the job result with the full output of the buffer hook, or an error with the code of
  the job.  Writing the streams of a result without two of them would panic (\<open>None\<close>).\<close>

definition System_result :: "job_result \<Rightarrow> buffer_hook \<Rightarrow> (go_error, job_result) result option" where
  "System_result jr out =
     (if jr_State jr \<noteq> StateSuccess then Some (Inl (mkError (jr_Code jr) ''system''))
      else if length (jr_Streams jr) < 2 then None
      else Some (Inr (jr\<lparr>jr_Streams := (jr_Streams jr)[0 := bh_Stdout out, 1 := bh_Stderr out]\<rparr>)))"

text \<open>\<^verbatim>\<open>Internal\<close>, with the JSON decoder as a parameter; no decoding when the caller wants no value.\<close>

definition Internal_result ::
  "(string \<Rightarrow> (go_error, 'v) result) \<Rightarrow> bool \<Rightarrow> job_result \<Rightarrow> (go_error, 'v option) result" where
  "Internal_result unmarshal wanted jr =
     (if jr_State jr \<noteq> StateSuccess then Inl (mkError (jr_Code jr) ''internal'')
      else if jr_Level jr \<noteq> LevelResultJSON then Inl (PlainErr ''invalid return format expecting json'')
      else if \<not> wanted then Inr None
      else map_sum id Some (unmarshal (jr_Data jr)))"

section \<open>Process identifiers\<close>

text \<open>The table of child processes: a channel per registered pid, holding the exit status once the
  child was reaped.\<close>

type_synonym pid_table = "int \<Rightarrow> int option option"

definition registerPID :: "(go_error, int) result \<Rightarrow> pid_table \<Rightarrow> (go_error, int) result \<times> pid_table" where
  "registerPID g t = (case g of Inl e \<Rightarrow> (Inl e, t) | Inr pid \<Rightarrow> (Inr pid, t(pid \<mapsto> None)))"

text \<open>A child that nobody registered is reaped and forgotten.\<close>

definition reap :: "int \<Rightarrow> int \<Rightarrow> pid_table \<Rightarrow> pid_table" where
  "reap pid status t = (case t pid of None \<Rightarrow> t | Some c \<Rightarrow> t(pid \<mapsto> Some status))"

text \<open>\<^verbatim>\<open>waitPID\<close>: status zero for an unknown pid; blocks (\<open>None\<close>) until the child was reaped; receiving
  the status removes the entry.\<close>

definition waitPID :: "int \<Rightarrow> pid_table \<Rightarrow> (int \<times> pid_table) option" where
  "waitPID pid t =
     (case t pid of
        None \<Rightarrow> Some (0, t)
      | Some None \<Rightarrow> None
      | Some (Some st) \<Rightarrow> Some (st, t(pid := None)))"

text \<open>The exit message of a system process (the end of \<^verbatim>\<open>Run\<close> in \<^verbatim>\<open>systemprocess.go\<close>); a negative
  status is a signal.\<close>

definition system_exit :: "int \<Rightarrow> message" where
  "system_exit code =
     (if code = 0 then \<lparr>msg_text = [], msg_epoch = 0, msg_meta = NewMeta LevelStdout [ExitSuccessFlag]\<rparr>
      else \<lparr>msg_text = [], msg_epoch = 0,
            msg_meta = NewMetaWithCode (of_int (1000 + code)) LevelStderr [ExitErrorFlag]\<rparr>)"

text \<open>The exit message of a builtin command (\<^verbatim>\<open>builtinprocess.go\<close>): the value, an error, or a panic,
  with \<open>json\<close> the JSON encoder of a string.\<close>

datatype action_outcome = ActionValue string | ActionError go_error | ActionPanic string

definition internal_exit :: "(string \<Rightarrow> string) \<Rightarrow> action_outcome \<Rightarrow> message" where
  "internal_exit json r =
     (case r of
        ActionValue v \<Rightarrow> \<lparr>msg_text = v, msg_epoch = 0, msg_meta = NewMeta LevelResultJSON [ExitSuccessFlag]\<rparr>
      | ActionError e \<Rightarrow>
          \<lparr>msg_text = json (error_text e), msg_epoch = 0,
           msg_meta = NewMetaWithCode (case e of RunErr c m \<Rightarrow> c | _ \<Rightarrow> 500) LevelResultJSON [ExitErrorFlag]\<rparr>
      | ActionPanic p \<Rightarrow>
          \<lparr>msg_text = json p, msg_epoch = 0,
           msg_meta = NewMetaWithCode 500 LevelResultJSON [ExitErrorFlag]\<rparr>)"

text \<open>\<^verbatim>\<open>Context.Log\<close>: more than one level panics (\<open>None\<close>).\<close>

definition context_Log :: "string \<Rightarrow> 16 word list \<Rightarrow> message option" where
  "context_Log t level =
     (case level of
        [] \<Rightarrow> Some \<lparr>msg_text = t @ [CHR 0x0A], msg_epoch = 0, msg_meta = NewMeta LevelStdout []\<rparr>
      | [l] \<Rightarrow> Some \<lparr>msg_text = t @ [CHR 0x0A], msg_epoch = 0, msg_meta = NewMeta l []\<rparr>
      | _ \<Rightarrow> None)"

text \<open>The arguments an extension passes to its program: \<^verbatim>\<open>{}\<close> is the whole raw input, every other
  argument is a template over it.\<close>

definition extension_args :: "string \<Rightarrow> (string \<Rightarrow> string option) \<Rightarrow> string list \<Rightarrow> string list" where
  "extension_args raw input args = map (\<lambda>a. if a = ''{}'' then raw else Format a input) args"

section \<open>The invariant of the job table\<close>

text \<open>Every job is filed under the identifier of its command.\<close>

definition jobs_ok :: "manager \<Rightarrow> bool" where
  "jobs_ok m \<longleftrightarrow> (\<forall>i j. mg_jobs m i = Some j \<longrightarrow> cmd_ID (jb_command j) = i) \<and> queue_wf (mg_queue m)"

lemma jobs_ok_init: "jobs_ok \<lparr>mg_jobs = (\<lambda>i. None), mg_queue = queue_Init\<rparr>"
  by (simp add: jobs_ok_def)

lemma RunFactory_ok: "jobs_ok m \<Longrightarrow> RunFactory uuid pre cmd m = (r, m', sent) \<Longrightarrow> jobs_ok m'"
  by (auto simp: RunFactory_def Let_def jobs_ok_def newJob_def dest: queue_Push_wf
      split: if_splits sum.splits prod.splits)

lemma cleanUp_ok: "jobs_ok m \<Longrightarrow> cleanUp cmd m = Some (m', sent) \<Longrightarrow> jobs_ok m'"
  by (auto simp: cleanUp_def Let_def jobs_ok_def dest: queue_Notify_wf split: if_splits)

lemma job_Signal_command: "job_Signal sig j = Inr j' \<Longrightarrow> jb_command j' = jb_command j"
  by (auto simp: job_Signal_def split: if_splits)

lemma job_Terminate_command:
  "jb_command (fst (job_Terminate sig j)) =
     (jb_command j)\<lparr>cmd_Flags := (cmd_Flags (jb_command j))\<lparr>fl_Protected := False\<rparr>\<rparr>"
  "jb_unscheduled (fst (job_Terminate sig j))"
  by (auto simp: job_Terminate_def job_Unschedule_def job_Signal_def Let_def split: sum.splits if_splits)

lemma jobs_ok_update:
  "jobs_ok m \<Longrightarrow> mg_jobs m i = Some j \<Longrightarrow> cmd_ID (jb_command j') = cmd_ID (jb_command j) \<Longrightarrow>
     jobs_ok (m\<lparr>mg_jobs := (mg_jobs m)(i \<mapsto> j')\<rparr>)"
  by (simp add: jobs_ok_def)

lemma terminateAll_ok: "jobs_ok m \<Longrightarrow> jobs_ok (terminateAll sig except ids m)"
proof (induction sig except ids m rule: terminateAll.induct)
  case (2 sig except i ids m)
  show ?case
  proof (cases "mg_jobs m i")
    case None
    then show ?thesis using 2 by simp
  next
    case (Some j)
    then have "jobs_ok (m\<lparr>mg_jobs := (mg_jobs m)(i \<mapsto> fst (job_Terminate sig j))\<rparr>)"
      using jobs_ok_update[OF 2(4) Some] by (simp add: job_Terminate_command)
    then show ?thesis using 2 Some by simp
  qed
qed simp

lemma queue_wf_closed: "queue_wf (q\<lparr>q_closed := b\<rparr>) = queue_wf q"
  by (simp add: queue_wf_def)

lemma jobs_ok_close: "jobs_ok m \<Longrightarrow> queue_Close (mg_queue m) = Some q \<Longrightarrow> jobs_ok (m\<lparr>mg_queue := q\<rparr>)"
  by (auto simp: jobs_ok_def queue_Close_def queue_wf_closed split: if_splits)

lemma Shutdown_ok: "jobs_ok m \<Longrightarrow> Shutdown_first except ids m = Some m' \<Longrightarrow> jobs_ok m'"
  by (auto simp: Shutdown_first_def intro!: terminateAll_ok jobs_ok_close split: option.splits)

lemma Kill_ok: "jobs_ok m \<Longrightarrow> Kill i m = Inr m' \<Longrightarrow> jobs_ok m'"
  by (auto simp: Kill_def job_Signal_command intro: jobs_ok_update split: option.splits sum.splits)

lemma terminateAll_other: "i \<notin> set ids \<Longrightarrow> mg_jobs (terminateAll sig except ids m) i = mg_jobs m i"
  by (induction sig except ids m rule: terminateAll.induct) (auto split: option.splits)

text \<open>A job that is ending: unscheduled and no longer protected.\<close>

definition ending :: "job \<Rightarrow> bool" where
  "ending j \<longleftrightarrow> jb_unscheduled j \<and> \<not> fl_Protected (cmd_Flags (jb_command j))"

lemma ending_Terminate [simp]: "ending (fst (job_Terminate sig j))"
  by (simp add: ending_def job_Terminate_command)

lemma terminateAll_ending:
  "mg_jobs m i = Some j \<Longrightarrow> ending j \<Longrightarrow> \<exists>j'. mg_jobs (terminateAll sig except ids m) i = Some j' \<and> ending j'"
proof (induction sig except ids m arbitrary: j rule: terminateAll.induct)
  case (2 sig except k ids m)
  show ?case
  proof (cases "mg_jobs m k")
    case None
    then show ?thesis using 2(1)[OF None 2(4,5)] by simp
  next
    case (Some jk)
    let ?m = "m\<lparr>mg_jobs := (mg_jobs m)(k \<mapsto> fst (job_Terminate sig jk))\<rparr>"
    have "\<exists>x. mg_jobs ?m i = Some x \<and> ending x" using 2(4,5) by simp
    then show ?thesis using 2(2)[OF Some _ 2(4,5)] 2(3)[OF Some] Some by fastforce
  qed
qed simp

lemma terminateAll_spared:
  "jobs_ok m \<Longrightarrow> mg_jobs m i = Some j \<Longrightarrow> i \<in> set except \<Longrightarrow> mg_jobs (terminateAll sig except ids m) i = Some j"
proof (induction sig except ids m rule: terminateAll.induct)
  case (2 sig except k ids m)
  show ?case
  proof (cases "mg_jobs m k")
    case (Some jk)
    have id: "cmd_ID (jb_command jk) = k" using 2(4) Some by (simp add: jobs_ok_def)
    show ?thesis
    proof (cases "k \<in> set except")
      case False
      then have "k \<noteq> i" using 2(6) by auto
      moreover have "jobs_ok (m\<lparr>mg_jobs := (mg_jobs m)(k \<mapsto> fst (job_Terminate sig jk))\<rparr>)"
        using jobs_ok_update[OF 2(4) Some] by (simp add: job_Terminate_command)
      ultimately show ?thesis using 2(3)[OF Some] Some id False 2(5,6) by simp
    qed (use 2 Some id in simp)
  qed (use 2 in simp)
qed simp

lemma terminateAll_ended:
  "jobs_ok m \<Longrightarrow> mg_jobs m i = Some j \<Longrightarrow> i \<in> set ids \<Longrightarrow> i \<notin> set except \<Longrightarrow>
     \<exists>j'. mg_jobs (terminateAll sig except ids m) i = Some j' \<and> ending j'"
proof (induction sig except ids m arbitrary: j rule: terminateAll.induct)
  case (2 sig except k ids m)
  show ?case
  proof (cases "mg_jobs m k")
    case None
    then have "k \<noteq> i" using 2(5) by auto
    then show ?thesis using 2(1)[OF None 2(4,5) _ 2(7)] 2(6) None by simp
  next
    case (Some jk)
    have id: "cmd_ID (jb_command jk) = k" using 2(4) Some by (simp add: jobs_ok_def)
    let ?m = "m\<lparr>mg_jobs := (mg_jobs m)(k \<mapsto> fst (job_Terminate sig jk))\<rparr>"
    have ok: "jobs_ok ?m" using jobs_ok_update[OF 2(4) Some] by (simp add: job_Terminate_command)
    show ?thesis
    proof (cases "k = i")
      case True
      then have "terminateAll sig except (k # ids) m = terminateAll sig except ids ?m"
        using Some id 2(7) by simp
      then show ?thesis using True terminateAll_ending[of ?m i "fst (job_Terminate sig jk)"] by simp
    next
      case False
      then have i: "i \<in> set ids" using 2(6) by simp
      show ?thesis
      proof (cases "k \<in> set except")
        case True
        then show ?thesis using 2(2)[OF Some _ 2(4,5) i 2(7)] Some id by simp
      next
        case no: False
        then show ?thesis using 2(3)[OF Some _ ok _ i 2(7)] Some id False 2(5) by simp
      qed
    qed
  qed
qed simp

section \<open>Properties\<close>

text \<open>C11: No two jobs share an identifier: a command whose identifier is in use is refused without any
  change of state, and every operation of the manager keeps each job filed under the identifier of
  its command.\<close>

theorem manager_ids_unique:
  assumes "jobs_ok m"
  shows "(mg_jobs m (cmd_ID (run_pre pre cmd)) \<noteq> None \<longrightarrow> cmd_ID cmd \<noteq> [] \<longrightarrow>
           RunFactory uuid pre cmd m = (Inl DuplicateIDErr, m, [])) \<and>
    jobs_ok (fst (snd (RunFactory uuid pre cmd m))) \<and>
    (\<forall>m' sent. cleanUp cmd m = Some (m', sent) \<longrightarrow> jobs_ok m') \<and>
    (\<forall>m'. Shutdown_first except ids m = Some m' \<longrightarrow> jobs_ok m') \<and>
    (\<forall>m'. Kill i m = Inr m' \<longrightarrow> jobs_ok m')"
proof (intro conjI allI impI)
  show "jobs_ok (fst (snd (RunFactory uuid pre cmd m)))"
    using RunFactory_ok[OF assms] by (metis prod.collapse)
qed (use cleanUp_ok[OF assms] Shutdown_ok[OF assms] Kill_ok[OF assms] in
    \<open>auto simp: RunFactory_def Let_def\<close>)

definition mgr1 :: manager where
  "mgr1 = fst (snd (RunFactory ''u'' [] (new_command ''1'' ''ping'') \<lparr>mg_jobs = (\<lambda>i. None), mg_queue = queue_Init\<rparr>))"

lemma jobs_ok_mgr1: "jobs_ok mgr1"
  unfolding mgr1_def using RunFactory_ok[OF jobs_ok_init] by (metis prod.collapse)

lemmas mgr1_eval = mgr1_def RunFactory_def Let_def run_pre_def new_command_def queue_Push_def queue_Init_def newJob_def

lemma manager_ids_unique_witness:
  "RunFactory ''u'' [] (new_command ''1'' ''kill'') mgr1 = (Inl DuplicateIDErr, mgr1, [])"
proof -
  have "mg_jobs mgr1 (cmd_ID (run_pre [] (new_command ''1'' ''kill''))) \<noteq> None" by (simp add: mgr1_eval)
  then show ?thesis
    using manager_ids_unique[OF jobs_ok_mgr1, where pre = "[]" and cmd = "new_command ''1'' ''kill''" and uuid = "''u''"]
    by (simp add: new_command_def)
qed

text \<open>A command that comes after the queue was closed is refused but leaves its job behind: the job
  stays in the table, was sent to nobody, and blocks its identifier for every later command.\<close>

theorem RunFactory_closed_queue_leaks:
  assumes "q_closed (mg_queue m)" and "cmd_ID cmd \<noteq> []" and "mg_jobs m (cmd_ID cmd) = None"
  shows "\<exists>m'. RunFactory uuid [] cmd m = (Inl (PlainErr ''closed queue''), m', []) \<and>
    mg_jobs m' (cmd_ID cmd) = Some (newJob cmd) \<and>
    fst (RunFactory uuid [] cmd m') = Inl DuplicateIDErr"
  using assms by (simp add: RunFactory_def run_pre_def Let_def queue_Push_def)

lemma RunFactory_closed_queue_leaks_witness:
  "fst (RunFactory ''u'' [] (new_command ''1'' ''ping'')
     \<lparr>mg_jobs = (\<lambda>i. None), mg_queue = queue_Init\<lparr>q_closed := True\<rparr>\<rparr>) = Inl (PlainErr ''closed queue'')"
  using RunFactory_closed_queue_leaks[of
      "\<lparr>mg_jobs = (\<lambda>i. None), mg_queue = queue_Init\<lparr>q_closed := True\<rparr>\<rparr>" "new_command ''1'' ''ping''" "''u''"]
  by (auto simp: new_command_def)

text \<open>Shutdown ends every job it goes over, except the spared ones: it is unscheduled and no longer
  protected, so its restart loop stops, and a spared job is left as it was.\<close>

theorem terminateAll_correct:
  assumes "jobs_ok m" and "mg_jobs m i = Some j"
  shows "(i \<in> set except \<longrightarrow> mg_jobs (terminateAll sig except ids m) i = Some j) \<and>
    (i \<in> set ids \<and> i \<notin> set except \<longrightarrow>
      (\<exists>j'. mg_jobs (terminateAll sig except ids m) i = Some j' \<and> ending j'))"
  using terminateAll_spared[OF assms] terminateAll_ended[OF assms] by blast

lemma terminateAll_correct_witness:
  "\<exists>j'. mg_jobs (terminateAll SIGTERM [''2''] [''1''] mgr1) ''1'' = Some j' \<and> ending j'"
  using terminateAll_correct[OF jobs_ok_mgr1, of "''1''" "newJob (new_command ''1'' ''ping'')" "[''2'']" SIGTERM "[''1'']"]
  by (simp add: mgr1_eval)

end
