(* ===== verification/Mgr_Deadlock.thy ===== *)
theory Mgr_Deadlock
  imports Mgr_Queue
begin

text \<open>
  The goroutines of the manager and their locks (\<^verbatim>\<open>base/mgr/pm.go\<close>, \<^verbatim>\<open>queue.go\<close>):
  \<^verbatim>\<open>RunFactory\<close> takes the lock of the job table, adds the job and pushes it on the queue, all
  under the lock; the push sends on an unbuffered channel while it holds the lock of the queue;
  \<^verbatim>\<open>loop\<close> receives from the channel, unless the number of jobs has reached \<^verbatim>\<open>MaxJobs\<close>, when it
  waits for a broadcast; \<^verbatim>\<open>cleanUp\<close> removes the ended job under the lock of the table, notifies
  the queue (which sends the next job, under the lock of the queue), and broadcasts last.
\<close>

datatype loop_pc = LoopCheck | LoopWait | LoopRecv

datatype thread =
    RFStart command | RFAdd command | RFPush command | RFSend command
  | JobRun command | CUDelete command | CUNotify command | CUSend command | CUBroadcast
  | Done

record conc =
  cc_jobs :: "string list"
  cc_jobsM :: "nat option"
  cc_queue :: queue
  cc_qlock :: "nat option"
  cc_loop :: loop_pc
  cc_threads :: "nat \<Rightarrow> thread option"
  cc_next :: nat

definition conc_init :: conc where
  "conc_init = \<lparr>cc_jobs = [], cc_jobsM = None, cc_queue = queue_Init, cc_qlock = None,
     cc_loop = LoopCheck, cc_threads = (\<lambda>t. None), cc_next = 0\<rparr>"

definition goto :: "nat \<Rightarrow> thread \<Rightarrow> conc \<Rightarrow> conc" where
  "goto t p s = s\<lparr>cc_threads := (cc_threads s)(t \<mapsto> p)\<rparr>"

definition spawn_thread :: "thread \<Rightarrow> conc \<Rightarrow> conc" where
  "spawn_thread p s = s\<lparr>cc_threads := (cc_threads s)(cc_next s \<mapsto> p), cc_next := cc_next s + 1\<rparr>"

text \<open>A step of one goroutine, or the meeting of a sender with the loop.  \<open>mx\<close> is \<^verbatim>\<open>MaxJobs\<close>.\<close>

inductive cstep :: "nat \<Rightarrow> conc \<Rightarrow> conc \<Rightarrow> bool" for mx where
  call: "cmd_ID cmd \<noteq> [] \<Longrightarrow> cstep mx s (spawn_thread (RFStart cmd) s)"
| rf_lock: "cc_threads s t = Some (RFStart cmd) \<Longrightarrow> cc_jobsM s = None \<Longrightarrow>
    cstep mx s (goto t (RFAdd cmd) (s\<lparr>cc_jobsM := Some t\<rparr>))"
| rf_duplicate: "cc_threads s t = Some (RFAdd cmd) \<Longrightarrow> cmd_ID cmd \<in> set (cc_jobs s) \<Longrightarrow>
    cstep mx s (goto t Done (s\<lparr>cc_jobsM := None\<rparr>))"
| rf_add: "cc_threads s t = Some (RFAdd cmd) \<Longrightarrow> cmd_ID cmd \<notin> set (cc_jobs s) \<Longrightarrow>
    cstep mx s (goto t (RFPush cmd) (s\<lparr>cc_jobs := cc_jobs s @ [cmd_ID cmd]\<rparr>))"
| rf_push: "cc_threads s t = Some (RFPush cmd) \<Longrightarrow> cc_qlock s = None \<Longrightarrow>
    queue_Push cmd (cc_queue s) = Inr (q, [cmd]) \<Longrightarrow>
    cstep mx s (goto t (RFSend cmd) (s\<lparr>cc_queue := q, cc_qlock := Some t\<rparr>))"
| rf_queued: "cc_threads s t = Some (RFPush cmd) \<Longrightarrow> cc_qlock s = None \<Longrightarrow>
    queue_Push cmd (cc_queue s) = Inr (q, []) \<Longrightarrow>
    cstep mx s (goto t Done (s\<lparr>cc_queue := q, cc_jobsM := None\<rparr>))"
| rf_refused: "cc_threads s t = Some (RFPush cmd) \<Longrightarrow> cc_qlock s = None \<Longrightarrow>
    queue_Push cmd (cc_queue s) = Inl e \<Longrightarrow> cstep mx s (goto t Done (s\<lparr>cc_jobsM := None\<rparr>))"
| rf_send: "cc_threads s t = Some (RFSend cmd) \<Longrightarrow> cc_loop s = LoopRecv \<Longrightarrow>
    cstep mx s (spawn_thread (JobRun cmd)
      (goto t Done (s\<lparr>cc_jobsM := None, cc_qlock := None, cc_loop := LoopCheck\<rparr>)))"
| job_ends: "cc_threads s t = Some (JobRun cmd) \<Longrightarrow> cstep mx s (goto t (CUDelete cmd) s)"
| cu_delete: "cc_threads s t = Some (CUDelete cmd) \<Longrightarrow> cc_jobsM s = None \<Longrightarrow>
    cstep mx s (goto t (CUNotify cmd) (s\<lparr>cc_jobs := remove1 (cmd_ID cmd) (cc_jobs s)\<rparr>))"
| cu_notify: "cc_threads s t = Some (CUNotify cmd) \<Longrightarrow> cc_qlock s = None \<Longrightarrow>
    queue_Notify cmd (cc_queue s) = Some (q, []) \<Longrightarrow>
    cstep mx s (goto t CUBroadcast (s\<lparr>cc_queue := q\<rparr>))"
| cu_next: "cc_threads s t = Some (CUNotify cmd) \<Longrightarrow> cc_qlock s = None \<Longrightarrow>
    queue_Notify cmd (cc_queue s) = Some (q, [nxt]) \<Longrightarrow>
    cstep mx s (goto t (CUSend nxt) (s\<lparr>cc_queue := q, cc_qlock := Some t\<rparr>))"
| cu_send: "cc_threads s t = Some (CUSend nxt) \<Longrightarrow> cc_loop s = LoopRecv \<Longrightarrow>
    cstep mx s (spawn_thread (JobRun nxt)
      (goto t CUBroadcast (s\<lparr>cc_qlock := None, cc_loop := LoopCheck\<rparr>)))"
| cu_broadcast: "cc_threads s t = Some CUBroadcast \<Longrightarrow>
    cstep mx s (goto t Done (s\<lparr>cc_loop := (if cc_loop s = LoopWait then LoopCheck else cc_loop s)\<rparr>))"
| loop_full: "cc_loop s = LoopCheck \<Longrightarrow> mx \<le> length (cc_jobs s) \<Longrightarrow> cstep mx s (s\<lparr>cc_loop := LoopWait\<rparr>)"
| loop_free: "cc_loop s = LoopCheck \<Longrightarrow> length (cc_jobs s) < mx \<Longrightarrow> cstep mx s (s\<lparr>cc_loop := LoopRecv\<rparr>)"

definition creach :: "nat \<Rightarrow> conc \<Rightarrow> bool" where
  "creach mx s \<longleftrightarrow> (cstep mx)\<^sup>*\<^sup>* conc_init s"

lemma creach_init: "creach mx conc_init"
  by (simp add: creach_def)

lemma creach_step: "creach mx s \<Longrightarrow> cstep mx s t \<Longrightarrow> creach mx t"
  by (simp add: creach_def rtranclp.rtrancl_into_rtrancl)

section \<open>The lock-up\<close>

text \<open>A \<^verbatim>\<open>RunFactory\<close> that sends its job, with both locks, while the loop waits because the table is
  full.\<close>

definition locked_up :: "nat \<Rightarrow> nat \<Rightarrow> command \<Rightarrow> string list \<Rightarrow> conc \<Rightarrow> bool" where
  "locked_up mx t cmd js s \<longleftrightarrow>
     t < cc_next s \<and> cc_threads s t = Some (RFSend cmd) \<and> cc_jobsM s = Some t \<and> cc_qlock s = Some t \<and>
     cc_loop s \<noteq> LoopRecv \<and> cc_jobs s = js \<and> mx \<le> length js \<and>
     (\<forall>u c. cc_threads s u = Some (RFAdd c) \<longrightarrow> u = t) \<and> (\<forall>u c. cc_threads s u = Some (RFPush c) \<longrightarrow> u = t)"

lemma locked_up_step: "locked_up mx t cmd js s \<Longrightarrow> cstep mx s s' \<Longrightarrow> locked_up mx t cmd js s'"
  by (erule cstep.cases) (auto simp: locked_up_def goto_def spawn_thread_def split: if_splits)

lemma locked_up_forever:
  assumes "(cstep mx)\<^sup>*\<^sup>* s s'" "locked_up mx t cmd js s" shows "locked_up mx t cmd js s'"
  using assms by (induction rule: rtranclp_induct) (auto intro: locked_up_step)

text \<open>The way there: one call after the other fills the table.\<close>

definition nth_cmd :: "nat \<Rightarrow> command" where
  "nth_cmd k = new_command (itoa k) ''core.ping''"

definition filled :: "nat \<Rightarrow> nat \<Rightarrow> conc \<Rightarrow> bool" where
  "filled mx k s \<longleftrightarrow> creach mx s \<and> cc_jobs s = map itoa [0..<k] \<and> cc_jobsM s = None \<and> cc_qlock s = None \<and>
     cc_loop s = LoopCheck \<and> \<not> q_closed (cc_queue s) \<and>
     (\<forall>u c. cc_threads s u \<noteq> Some (RFAdd c) \<and> cc_threads s u \<noteq> Some (RFPush c))"

text \<open>One call up to its send; the loop is anywhere but in the way.\<close>

lemma call_to_send:
  assumes "creach mx s" "cc_jobsM s = None" "cc_qlock s = None" "\<not> q_closed (cc_queue s)"
    "cc_jobs s = map itoa [0..<k]"
    "\<forall>u c. cc_threads s u \<noteq> Some (RFAdd c) \<and> cc_threads s u \<noteq> Some (RFPush c)"
  defines "t \<equiv> cc_next s"
  shows "\<exists>s'. creach mx s' \<and> t < cc_next s' \<and> cc_threads s' t = Some (RFSend (nth_cmd k)) \<and>
    cc_jobsM s' = Some t \<and> cc_qlock s' = Some t \<and> cc_loop s' = cc_loop s \<and>
    \<not> q_closed (cc_queue s') \<and> cc_jobs s' = map itoa [0..<Suc k] \<and>
    (\<forall>u c. cc_threads s' u \<noteq> Some (RFAdd c) \<and> cc_threads s' u \<noteq> Some (RFPush c))"
proof -
  let ?c = "nth_cmd k"
  have id: "cmd_ID ?c = itoa k" "cmd_Queue ?c = []" by (simp_all add: nth_cmd_def new_command_def)
  let ?s1 = "spawn_thread (RFStart ?c) s"
  let ?s2 = "goto t (RFAdd ?c) (?s1\<lparr>cc_jobsM := Some t\<rparr>)"
  let ?s3 = "goto t (RFPush ?c) (?s2\<lparr>cc_jobs := cc_jobs ?s2 @ [itoa k]\<rparr>)"
  let ?s4 = "goto t (RFSend ?c) (?s3\<lparr>cc_queue := cc_queue s, cc_qlock := Some t\<rparr>)"
  have "creach mx ?s1" by (rule creach_step[OF assms(1)], rule cstep.call) (simp add: id)
  then have "creach mx ?s2"
    by (rule creach_step) (rule cstep.rf_lock, simp_all add: spawn_thread_def t_def assms(2))
  moreover have "cstep mx ?s2 ?s3"
  proof -
    have "cmd_ID ?c \<notin> set (cc_jobs ?s2)"
      using assms(5) id by (auto simp: goto_def spawn_thread_def)
    from cstep.rf_add[OF _ this, of t mx] id show ?thesis by (simp add: goto_def)
  qed
  ultimately have "creach mx ?s3" by (rule creach_step)
  moreover have "cstep mx ?s3 ?s4"
    using cstep.rf_push[of ?s3 t ?c "cc_queue s" mx] id assms(3,4)
    by (simp add: goto_def spawn_thread_def queue_Push_def)
  ultimately have "creach mx ?s4" by (rule creach_step)
  then show ?thesis
    using assms(4-6) by (intro exI[of _ ?s4]) (auto simp: goto_def spawn_thread_def t_def)
qed

lemma fill_one: "filled mx k s \<Longrightarrow> k < mx \<Longrightarrow> \<exists>s'. filled mx (Suc k) s'"
proof -
  assume f: "filled mx k s" and k: "k < mx"
  let ?s0 = "s\<lparr>cc_loop := LoopRecv\<rparr>"
  have "creach mx ?s0"
    using f k by (auto simp: filled_def intro!: creach_step[of mx s] cstep.loop_free)
  then obtain s' where s': "creach mx s'" "cc_threads s' (cc_next s) = Some (RFSend (nth_cmd k))"
    "cc_loop s' = LoopRecv" "\<not> q_closed (cc_queue s')" "cc_jobs s' = map itoa [0..<Suc k]"
    "\<forall>u c. cc_threads s' u \<noteq> Some (RFAdd c) \<and> cc_threads s' u \<noteq> Some (RFPush c)"
    using call_to_send[of mx ?s0 k] f by (auto simp: filled_def)
  let ?t = "spawn_thread (JobRun (nth_cmd k))
      (goto (cc_next s) Done (s'\<lparr>cc_jobsM := None, cc_qlock := None, cc_loop := LoopCheck\<rparr>))"
  have "creach mx ?t" by (rule creach_step[OF s'(1)], rule cstep.rf_send) (use s' in simp_all)
  then show ?thesis using s' by (intro exI[of _ ?t]) (auto simp: filled_def goto_def spawn_thread_def)
qed

lemma fill: "k \<le> mx \<Longrightarrow> \<exists>s. filled mx k s"
proof (induction k)
  case 0
  show ?case
    by (intro exI[of _ conc_init]) (simp add: filled_def creach_init, simp add: conc_init_def queue_Init_def)
next
  case (Suc k)
  then show ?case using fill_one by (metis Suc_leD Suc_le_lessD)
qed

section \<open>Properties\<close>

text \<open>C31: The process manager can lock up for good, whatever the limit on jobs is: from the start it
  reaches, by nothing but calls to run a command, a state from which no continuation ever removes a
  job, lets the loop receive another job, or lets the last call return (the call holds the job table
  while it sends, the loop waits for the table to shrink).\<close>

theorem manager_locks_up_at_MaxJobs:
  "\<exists>s t cmd js. creach mx s \<and> length js = Suc mx \<and>
     (\<forall>s'. (cstep mx)\<^sup>*\<^sup>* s s' \<longrightarrow>
        cc_jobs s' = js \<and> cc_loop s' \<noteq> LoopRecv \<and> cc_threads s' t = Some (RFSend cmd))"
proof -
  obtain s where f: "filled mx mx s" using fill by blast
  let ?s0 = "s\<lparr>cc_loop := LoopWait\<rparr>"
  have "creach mx ?s0"
    using f by (auto simp: filled_def intro!: creach_step[of mx s] cstep.loop_full)
  then obtain s' where s': "creach mx s'" "cc_next s < cc_next s'"
    "cc_threads s' (cc_next s) = Some (RFSend (nth_cmd mx))" "cc_jobsM s' = Some (cc_next s)"
    "cc_qlock s' = Some (cc_next s)" "cc_loop s' = LoopWait" "cc_jobs s' = map itoa [0..<Suc mx]"
    "\<forall>u c. cc_threads s' u \<noteq> Some (RFAdd c) \<and> cc_threads s' u \<noteq> Some (RFPush c)"
    using call_to_send[of mx ?s0 mx] f by (auto simp: filled_def)
  then have l: "locked_up mx (cc_next s) (nth_cmd mx) (map itoa [0..<Suc mx]) s'"
    by (simp add: locked_up_def)
  show ?thesis
  proof (intro exI conjI allI impI)
    show "creach mx s'" by (rule s'(1))
    show "length (map itoa [0..<Suc mx]) = Suc mx" by simp
    fix s'' assume "(cstep mx)\<^sup>*\<^sup>* s' s''"
    from locked_up_forever[OF this l] show "cc_jobs s'' = map itoa [0..<Suc mx]" "cc_loop s'' \<noteq> LoopRecv"
      "cc_threads s'' (cc_next s) = Some (RFSend (nth_cmd mx))"
      by (simp_all add: locked_up_def)
  qed
qed

text \<open>With the default limit of 100 jobs.\<close>

lemma manager_locks_up_at_MaxJobs_witness:
  "\<exists>s t cmd. creach 100 s \<and> length (cc_jobs s) = 101 \<and> cc_loop s \<noteq> LoopRecv \<and> cc_threads s t = Some (RFSend cmd)"
proof -
  obtain s t cmd js where s: "creach 100 s" "length js = Suc 100"
      "\<forall>s'. (cstep 100)\<^sup>*\<^sup>* s s' \<longrightarrow> cc_jobs s' = js \<and> cc_loop s' \<noteq> LoopRecv \<and> cc_threads s' t = Some (RFSend cmd)"
    using manager_locks_up_at_MaxJobs[of 100] by blast
  then show ?thesis by (intro exI[of _ s] exI[of _ t] exI[of _ cmd]) auto
qed

end
