(* ===== verification/Plugin_Manager.thy ===== *)
theory Plugin_Manager
  imports Utils_Model
begin

text \<open>
  The plugin manager of core0 (\<^verbatim>\<open>apps/core0/plugin\<close>): loading plugins with their requirements,
  routing a command name to an action, and the stores of the plugins.  The router of coreX
  (\<^verbatim>\<open>apps/coreX/router.go\<close>) and its queueing of plugin commands are here too.
\<close>

section \<open>The interface of a key-value store\<close>

locale kv_store =
  fixes get :: "'s \<Rightarrow> 'k \<Rightarrow> 'v option"
    and put :: "'k \<Rightarrow> 'v \<Rightarrow> 's \<Rightarrow> 's"
    and del :: "'k \<Rightarrow> 's \<Rightarrow> 's"
  assumes get_put: "get (put k v s) k' = (if k' = k then Some v else get s k')"
    and get_del: "get (del k s) k' = (if k' = k then None else get s k')"
begin

lemma get_puts_other: "k \<notin> fst ` set kvs \<Longrightarrow> get (fold (\<lambda>(a, b). put a b) kvs s) k = get s k"
  by (induction kvs arbitrary: s) (auto simp: get_put split_beta)

lemma get_puts:
  "distinct (map fst kvs) \<Longrightarrow> (k, v) \<in> set kvs \<Longrightarrow> get (fold (\<lambda>(a, b). put a b) kvs s) k = Some v"
proof (induction kvs arbitrary: s)
  case (Cons p kvs)
  show ?case
  proof (cases "(k, v) \<in> set kvs")
    case True
    then show ?thesis using Cons by simp
  next
    case False
    then have p: "p = (k, v)" using Cons.prems(2) by simp
    then have "k \<notin> fst ` set kvs" using Cons.prems(1) by simp
    then show ?thesis using p by (simp add: get_puts_other get_put)
  qed
qed simp

lemma del_put_same: "get (del k (put k v s)) k' = get (del k s) k'"
  by (simp add: get_put get_del)

lemma put_commute: "k \<noteq> l \<Longrightarrow> get (put k v (put l w s)) x = get (put l w (put k v s)) x"
  by (simp add: get_put)

end

section \<open>Stores: \<^verbatim>\<open>store.go\<close> and the scopes of \<^verbatim>\<open>api.go\<close>\<close>

type_synonym store = "string \<Rightarrow> string option"

definition newStore :: store where "newStore = (\<lambda>k. None)"

definition store_Set :: "string \<Rightarrow> string \<Rightarrow> store \<Rightarrow> store" where
  "store_Set key v s = s(key \<mapsto> v)"

definition store_Get :: "store \<Rightarrow> string \<Rightarrow> string option" where
  "store_Get s key = s key"

definition store_Del :: "string \<Rightarrow> store \<Rightarrow> store" where
  "store_Del key s = s(key := None)"

definition store_List :: "store \<Rightarrow> store" where
  "store_List s = s"

interpretation plugin_store: kv_store store_Get store_Set store_Del
  by unfold_locales (auto simp: store_Get_def store_Set_def store_Del_def)

text \<open>\<^verbatim>\<open>Manager.Store\<close> creates the store of a scope on its first use.\<close>

type_synonym stores = "string \<Rightarrow> store option"

definition Manager_Store :: "string \<Rightarrow> stores \<Rightarrow> store \<times> stores" where
  "Manager_Store scope m =
     (case m scope of
        Some s \<Rightarrow> (s, m)
      | None \<Rightarrow> (newStore, m(scope \<mapsto> newStore)))"

text \<open>The operations of a plugin on its own store, by scope and key.\<close>

definition scoped_Get :: "stores \<Rightarrow> string \<times> string \<Rightarrow> string option" where
  "scoped_Get m k = store_Get (fst (Manager_Store (fst k) m)) (snd k)"

definition scoped_Set :: "string \<times> string \<Rightarrow> string \<Rightarrow> stores \<Rightarrow> stores" where
  "scoped_Set k v m = (case Manager_Store (fst k) m of (s, m') \<Rightarrow> m'(fst k \<mapsto> store_Set (snd k) v s))"

definition scoped_Del :: "string \<times> string \<Rightarrow> stores \<Rightarrow> stores" where
  "scoped_Del k m = (case Manager_Store (fst k) m of (s, m') \<Rightarrow> m'(fst k \<mapsto> store_Del (snd k) s))"

interpretation scoped_store: kv_store scoped_Get scoped_Set scoped_Del
  by unfold_locales
    (auto simp: scoped_Get_def scoped_Set_def scoped_Del_def Manager_Store_def newStore_def
      store_Get_def store_Set_def store_Del_def prod_eq_iff split: option.splits)

section \<open>Plugins\<close>

text \<open>What the \<^verbatim>\<open>Open\<close> function of a plugin does: there is none, it succeeds, fails or panics.\<close>

datatype open_outcome = NoOpen | OpenOk | OpenError string | OpenPanic string

record plugin =
  pl_Name :: string
  pl_Version :: string
  pl_CanUpdate :: bool
  pl_Requires :: "string list"
  pl_Open :: open_outcome
  pl_hasAPI :: bool
  pl_isHandler :: bool
  pl_Actions :: "string list"

datatype plugin_error = MissingDep string string | OpenFailed string

type_synonym plugins = "string \<Rightarrow> plugin option"

definition safeOpen :: "plugin \<Rightarrow> plugin_error option" where
  "safeOpen pl = (case pl_Open pl of
      OpenError e \<Rightarrow> Some (OpenFailed e)
    | OpenPanic e \<Rightarrow> Some (OpenFailed (''paniced on plugin initialization: '' @ e))
    | _ \<Rightarrow> None)"

text \<open>\<^verbatim>\<open>openRecursive\<close> and its loop over the requirements; \<open>op\<close> are the open plugins in the order
  they were opened.  The recursion follows the requirements without a check for cycles, so it takes
  fuel; \<open>None\<close> is out of fuel.\<close>

fun openRecursive :: "nat \<Rightarrow> plugins \<Rightarrow> plugin \<Rightarrow> string list \<Rightarrow> (plugin_error option \<times> string list) option"
  and openRequires :: "nat \<Rightarrow> plugins \<Rightarrow> string \<Rightarrow> string list \<Rightarrow> string list \<Rightarrow> (plugin_error option \<times> string list) option" where
  "openRecursive 0 m pl op = None"
| "openRecursive (Suc n) m pl op =
     (if pl_Name pl \<in> set op then Some (None, op)
      else (case openRequires n m (pl_Name pl) (pl_Requires pl) op of
          None \<Rightarrow> None
        | Some (Some e, op') \<Rightarrow> Some (Some e, op')
        | Some (None, op') \<Rightarrow>
            (case safeOpen pl of
               Some e \<Rightarrow> Some (Some e, op')
             | None \<Rightarrow> Some (None, op' @ [pl_Name pl]))))"
| "openRequires n m name [] op = Some (None, op)"
| "openRequires n m name (req # reqs) op =
     (case m req of
        None \<Rightarrow> Some (Some (MissingDep name req), op)
      | Some q \<Rightarrow>
          (case openRecursive n m q op of
             None \<Rightarrow> None
           | Some (Some e, op') \<Rightarrow> Some (Some e, op')
           | Some (None, op') \<Rightarrow> openRequires n m name reqs op'))"

text \<open>The loop of \<^verbatim>\<open>Load\<close> over the plugins, in iteration order: the open plugins, the names that
  failed, the registered handlers.\<close>

fun load_loop :: "nat \<Rightarrow> plugins \<Rightarrow> plugin list \<Rightarrow> string list \<Rightarrow> (string list \<times> string list \<times> string list) option" where
  "load_loop n m [] op = Some (op, [], [])"
| "load_loop n m (p # ps) op =
     (case openRecursive n m p op of
        None \<Rightarrow> None
      | Some (err, op') \<Rightarrow>
          (case load_loop n m ps op' of
             None \<Rightarrow> None
           | Some (op'', errored, handlers) \<Rightarrow>
               (if err \<noteq> None then Some (op'', pl_Name p # errored, handlers)
                else Some (op'', errored,
                  (if pl_hasAPI p \<and> pl_isHandler p then [pl_Name p] else []) @ handlers))))"

definition plugins_of :: "plugin list \<Rightarrow> plugins" where
  "plugins_of ps = map_of (map (\<lambda>p. (pl_Name p, p)) ps)"

text \<open>\<^verbatim>\<open>Load\<close> over the plugins that were read from the plugin path (a name once): the remaining plugins,
  the open ones, the handlers.\<close>

definition Load :: "nat \<Rightarrow> plugin list \<Rightarrow> (plugins \<times> string list \<times> string list) option" where
  "Load n ps =
     (let m = plugins_of ps in
      case load_loop n m ps [] of
        None \<Rightarrow> None
      | Some (op, errored, handlers) \<Rightarrow> Some ((\<lambda>k. if k \<in> set errored then None else m k), op, handlers))"

text \<open>\<^verbatim>\<open>Get\<close>: the action a command name is routed to, as plugin and action name.\<close>

definition PluginNamespace :: string where "PluginNamespace = ''plugin''"

definition internal_action :: "string \<Rightarrow> (string \<times> string) option" where
  "internal_action name = (if name = ''list'' \<or> name = ''load'' then Some (PluginNamespace, name) else None)"

definition manager_Get :: "plugins \<Rightarrow> string \<Rightarrow> (string \<times> string) option" where
  "manager_Get m name =
     (let parts = split2 CHR ''.'' name;
          target = (if length parts = 2 then parts ! 1 else []) in
      if parts ! 0 = PluginNamespace then internal_action target
      else (case m (parts ! 0) of
          None \<Rightarrow> None
        | Some p \<Rightarrow> if target \<in> set (pl_Actions p) then Some (parts ! 0, target) else None))"

text \<open>The router of coreX has no plugin namespace.\<close>

definition router_Get :: "plugins \<Rightarrow> string \<Rightarrow> (string \<times> string) option" where
  "router_Get m name =
     (let parts = split2 CHR ''.'' name;
          target = (if length parts = 2 then parts ! 1 else []) in
      case m (parts ! 0) of
        None \<Rightarrow> None
      | Some p \<Rightarrow> if target \<in> set (pl_Actions p) then Some (parts ! 0, target) else None)"

datatype api_error = NotFound | NoAPI

definition manager_Plugin :: "plugins \<Rightarrow> string \<Rightarrow> (api_error, plugin) result" where
  "manager_Plugin m name =
     (case m name of
        None \<Rightarrow> Inl NotFound
      | Some p \<Rightarrow> if pl_hasAPI p then Inr p else Inl NoAPI)"

text \<open>\<^verbatim>\<open>MustPlugin\<close> panics (\<open>None\<close>).\<close>

definition MustPlugin :: "plugins \<Rightarrow> string \<Rightarrow> plugin option" where
  "MustPlugin m name = (case manager_Plugin m name of Inr p \<Rightarrow> Some p | Inl e \<Rightarrow> None)"

text \<open>The action \<^verbatim>\<open>plugin.load\<close>, over the plugins of one file: it stops at the first that does not
  support an update or fails to open; the ones before it stay.\<close>

datatype load_error = NoHotUpdate string | LoadOpen plugin_error

fun load_action :: "nat \<Rightarrow> plugins \<Rightarrow> string list \<Rightarrow> plugin list \<Rightarrow> (load_error option \<times> plugins \<times> string list) option" where
  "load_action n m op [] = Some (None, m, op)"
| "load_action n m op (pl # pls) =
     (case m (pl_Name pl) of
        Some cur \<Rightarrow>
          if \<not> pl_CanUpdate cur then Some (Some (NoHotUpdate (pl_Name cur)), m, op)
          else (case openRecursive n m pl (removeAll (pl_Name pl) op) of
              None \<Rightarrow> None
            | Some (Some e, op') \<Rightarrow> Some (Some (LoadOpen e), m, op')
            | Some (None, op') \<Rightarrow> load_action n (m(pl_Name pl \<mapsto> pl)) op' pls)
      | None \<Rightarrow>
          (case openRecursive n m pl op of
             None \<Rightarrow> None
           | Some (Some e, op') \<Rightarrow> Some (Some (LoadOpen e), m, op')
           | Some (None, op') \<Rightarrow> load_action n (m(pl_Name pl \<mapsto> pl)) op' pls))"

text \<open>The commands of a coreX plugin with a queue run one after the other.\<close>

definition pre_queue :: "string \<Rightarrow> string \<Rightarrow> string \<Rightarrow> string" where
  "pre_queue domain cmd queue = (if has_prefix (domain @ ''.'') cmd then domain else queue)"

section \<open>Which plugins can be opened\<close>

text \<open>A plugin can be opened when its own opening works and all it requires can be opened.\<close>

inductive openable :: "plugins \<Rightarrow> plugin \<Rightarrow> bool" for m where
  "safeOpen p = None \<Longrightarrow> (\<And>r. r \<in> set (pl_Requires p) \<Longrightarrow> \<exists>q. m r = Some q \<and> openable m q) \<Longrightarrow> openable m p"

inductive_simps openable_iff: "openable m p"

definition named_ok :: "plugins \<Rightarrow> bool" where
  "named_ok m \<longleftrightarrow> (\<forall>k p. m k = Some p \<longrightarrow> pl_Name p = k)"

definition opened_ok :: "plugins \<Rightarrow> string list \<Rightarrow> bool" where
  "opened_ok m op \<longleftrightarrow> distinct op \<and>
     (\<forall>i < length op. \<exists>p. m (op ! i) = Some p \<and> openable m p \<and> set (pl_Requires p) \<subseteq> set (take i op))"

lemma opened_ok_member: "opened_ok m op \<Longrightarrow> k \<in> set op \<Longrightarrow> \<exists>p. m k = Some p \<and> openable m p"
  by (auto simp: opened_ok_def in_set_conv_nth)

lemma opened_ok_snoc:
  assumes "opened_ok m op" "m k = Some p" "openable m p" "set (pl_Requires p) \<subseteq> set op" "k \<notin> set op"
  shows "opened_ok m (op @ [k])"
  using assms by (auto simp: opened_ok_def nth_append less_Suc_eq)

text \<open>The requirements, as a relation on names; what can be opened does not depend on itself.\<close>

definition req_rel :: "plugins \<Rightarrow> (string \<times> string) set" where
  "req_rel m = {(a, b). \<exists>p. m a = Some p \<and> b \<in> set (pl_Requires p)}"

lemma openable_acyclic: "openable m p \<Longrightarrow> m k = Some p \<Longrightarrow> (k, k) \<notin> (req_rel m)\<^sup>+"
proof (induction arbitrary: k rule: openable.induct)
  case (1 p)
  show ?case
  proof
    assume "(k, k) \<in> (req_rel m)\<^sup>+"
    then obtain r where r: "(k, r) \<in> req_rel m" "(r, k) \<in> (req_rel m)\<^sup>*" by (meson tranclD)
    then have "r \<in> set (pl_Requires p)" using 1(3) by (auto simp: req_rel_def)
    then obtain q where "m r = Some q" "\<forall>k. m k = Some q \<longrightarrow> (k, k) \<notin> (req_rel m)\<^sup>+" using 1(2) by blast
    moreover have "(r, r) \<in> (req_rel m)\<^sup>+" using r by (rule rtrancl_into_trancl1[rotated])
    ultimately show False by blast
  qed
qed

lemma open_correct:
  "openRecursive n m pl op = Some (err, op') \<Longrightarrow> named_ok m \<Longrightarrow> m (pl_Name pl) = Some pl \<Longrightarrow> opened_ok m op \<Longrightarrow>
     opened_ok m op' \<and> set op \<subseteq> set op' \<and>
     (err = None \<longleftrightarrow> openable m pl) \<and> (err = None \<longrightarrow> pl_Name pl \<in> set op') \<and>
     (\<forall>k\<in>set op' - set op. (pl_Name pl, k) \<in> (req_rel m)\<^sup>*)"
  "openRequires n m name reqs op = Some (err, op') \<Longrightarrow> named_ok m \<Longrightarrow> opened_ok m op \<Longrightarrow>
     opened_ok m op' \<and> set op \<subseteq> set op' \<and>
     (err = None \<longleftrightarrow> (\<forall>r\<in>set reqs. \<exists>q. m r = Some q \<and> openable m q)) \<and>
     (err = None \<longrightarrow> set reqs \<subseteq> set op') \<and>
     (\<forall>k\<in>set op' - set op. \<exists>r\<in>set reqs. (r, k) \<in> (req_rel m)\<^sup>*)"
proof (induction n m pl op and n m name reqs op arbitrary: err op' and err op'
    rule: openRecursive_openRequires.induct)
  case (2 n m pl op)
  show ?case
  proof (cases "pl_Name pl \<in> set op")
    case True
    then show ?thesis using 2 opened_ok_member[OF 2(5) True] by auto
  next
    case False
    obtain e1 op1 where r: "openRequires n m (pl_Name pl) (pl_Requires pl) op = Some (e1, op1)"
      using 2(2) False by (auto split: option.splits)
    note IH = 2(1)[OF False r 2(3,5)]
    have reach: "(pl_Name pl, k) \<in> (req_rel m)\<^sup>+" if "k \<in> set op1 - set op" for k
    proof -
      obtain q where "q \<in> set (pl_Requires pl)" "(q, k) \<in> (req_rel m)\<^sup>*" using IH \<open>k \<in> set op1 - set op\<close> by blast
      then show ?thesis using 2(4) by (auto simp: req_rel_def intro: rtrancl_into_trancl2)
    qed
    have reach': "\<forall>k\<in>set op1 - set op. (pl_Name pl, k) \<in> (req_rel m)\<^sup>*"
      using reach by (auto intro: trancl_into_rtrancl)
    show ?thesis
    proof (cases e1)
      case (Some e)
      then have "err \<noteq> None" "op' = op1" using 2(2) False r by auto
      moreover have "\<not> openable m pl" using IH Some by (subst openable_iff) blast
      ultimately show ?thesis using IH reach' by auto
    next
      case None
      then have reqs: "\<forall>r\<in>set (pl_Requires pl). \<exists>q. m r = Some q \<and> openable m q" using IH by simp
      show ?thesis
      proof (cases "safeOpen pl")
        case (Some e)
        then have "err \<noteq> None" "op' = op1" using 2(2) False r None by (simp_all, metis)
        moreover have "\<not> openable m pl" using Some by (subst openable_iff) simp
        ultimately show ?thesis using IH reach' by auto
      next
        case ok: None
        then have e: "err = None" "op' = op1 @ [pl_Name pl]"
          using 2(2) False r None by auto
        have o: "openable m pl" by (rule openable.intros[OF ok]) (use reqs in blast)
        then have "pl_Name pl \<notin> set op1" using reach False openable_acyclic[OF o 2(4)] by blast
        then have "opened_ok m op'"
          unfolding e(2) by (intro opened_ok_snoc[OF _ 2(4) o]) (use IH None in auto)
        then show ?thesis using e IH o reach' by auto
      qed
    qed
  qed
next
  case (4 n m name req reqs op)
  show ?case
  proof (cases "m req")
    case None
    then show ?thesis using 4(3,5) by auto
  next
    case (Some q)
    then have q: "m (pl_Name q) = Some q" "pl_Name q = req" using 4(4) by (auto simp: named_ok_def)
    obtain e1 op1 where r: "openRecursive n m q op = Some (e1, op1)"
      using 4(3) Some by (auto split: option.splits)
    note IH = 4(1)[OF Some r 4(4) q(1) 4(5)]
    show ?thesis
    proof (cases e1)
      case e: (Some e)
      then have "err \<noteq> None" "op' = op1" using 4(3) Some r by auto
      then show ?thesis using IH e Some q(2) by auto
    next
      case e: None
      then have "openRequires n m name reqs op1 = Some (err, op')" using 4(3) Some r by simp
      from 4(2)[OF Some r refl e this 4(4) conjunct1[OF IH]] IH show ?thesis using e Some q(2) by auto
    qed
  qed
qed auto

lemma load_loop_correct:
  "load_loop n m ps op = Some (op', errored, handlers) \<Longrightarrow> named_ok m \<Longrightarrow> \<forall>p\<in>set ps. m (pl_Name p) = Some p \<Longrightarrow>
     opened_ok m op \<Longrightarrow>
     opened_ok m op' \<and> set op \<subseteq> set op' \<and>
     errored = map pl_Name (filter (\<lambda>p. \<not> openable m p) ps) \<and>
     (\<forall>p\<in>set ps. openable m p \<longrightarrow> pl_Name p \<in> set op')"
proof (induction ps arbitrary: op errored handlers)
  case (Cons p ps)
  obtain err op1 where o: "openRecursive n m p op = Some (err, op1)"
    using Cons.prems(1) by (auto split: option.splits)
  obtain er hs where l: "load_loop n m ps op1 = Some (op', er, hs)"
    and e: "errored = (if err \<noteq> None then [pl_Name p] else []) @ er"
    using Cons.prems(1) o by (auto split: option.splits prod.splits if_splits)
  have p: "m (pl_Name p) = Some p" using Cons.prems(3) by simp
  note c = open_correct(1)[OF o Cons.prems(2) p Cons.prems(4)]
  have "opened_ok m op1" using c by simp
  from Cons.IH[OF l Cons.prems(2) _ this] Cons.prems(3) have IH:
    "opened_ok m op'" "set op1 \<subseteq> set op'" "er = map pl_Name (filter (\<lambda>p. \<not> openable m p) ps)"
    "\<forall>p\<in>set ps. openable m p \<longrightarrow> pl_Name p \<in> set op'" by auto
  then show ?case using c e by auto
qed auto

lemma plugins_of_named: "distinct (map pl_Name ps) \<Longrightarrow> named_ok (plugins_of ps) \<and> (\<forall>p\<in>set ps. plugins_of ps (pl_Name p) = Some p)"
  by (auto simp: named_ok_def plugins_of_def map_of_eq_Some_iff comp_def dest!: map_of_SomeD)

text \<open>Requirements that go round in a circle through their first entries.\<close>

lemma first_requires_loop:
  assumes "\<And>k. k \<in> S \<Longrightarrow> k \<notin> set op \<and> (\<exists>p r rs. m k = Some p \<and> pl_Name p = k \<and> pl_Requires p = r # rs \<and> r \<in> S)"
    and "k \<in> S" "m k = Some p"
  shows "openRecursive n m p op = None"
  using assms(2,3)
proof (induction n arbitrary: k p)
  case (Suc n)
  then obtain r rs where p: "pl_Name p = k" "pl_Requires p = r # rs" "r \<in> S" "k \<notin> set op"
    using assms(1) by fastforce
  then obtain q where "m r = Some q" using assms(1) by blast
  then show ?case using Suc.IH[OF p(3)] p by simp
qed simp

section \<open>Properties\<close>

text \<open>C13: Loading opens exactly the plugins that can be opened: when \<^verbatim>\<open>Load\<close> returns, the plugins left
  are those whose own opening and all whose requirements succeed; each is open exactly once, after
  everything it requires.\<close>

theorem Load_opens_exactly_openable:
  assumes "distinct (map pl_Name ps)" and "Load n ps = Some (m, op, handlers)"
  shows "distinct op \<and>
    (\<forall>p\<in>set ps. m (pl_Name p) = (if openable (plugins_of ps) p then Some p else None) \<and>
       (openable (plugins_of ps) p \<longrightarrow> pl_Name p \<in> set op)) \<and>
    (\<forall>i < length op. \<exists>p. m (op ! i) = Some p \<and> set (pl_Requires p) \<subseteq> set (take i op))"
proof -
  let ?m = "plugins_of ps"
  note nm = plugins_of_named[OF assms(1)]
  obtain errored where l: "load_loop n ?m ps [] = Some (op, errored, handlers)"
    and m: "m = (\<lambda>k. if k \<in> set errored then None else ?m k)"
    using assms(2) by (auto simp: Load_def Let_def split: option.splits prod.splits)
  have c: "opened_ok ?m op" "errored = map pl_Name (filter (\<lambda>p. \<not> openable ?m p) ps)"
    "\<forall>p\<in>set ps. openable ?m p \<longrightarrow> pl_Name p \<in> set op"
    using load_loop_correct[OF l] nm by (simp_all add: opened_ok_def)
  have err: "k \<in> set errored \<longleftrightarrow> (\<exists>p. ?m k = Some p \<and> p \<in> set ps \<and> \<not> openable ?m p)" for k
    using nm c(2) unfolding named_ok_def by auto
  have "m (pl_Name p) = (if openable ?m p then Some p else None)" if "p \<in> set ps" for p
    using nm that err[of "pl_Name p"] m by auto
  moreover have "\<exists>p. m (op ! i) = Some p \<and> set (pl_Requires p) \<subseteq> set (take i op)" if "i < length op" for i
    using c(1) that err[of "op ! i"] unfolding opened_ok_def m by force
  ultimately show ?thesis using c unfolding opened_ok_def by blast
qed

text \<open>Where no plugin requires itself, however indirectly, the recursion ends: its depth is at most the number of
  plugins that the first one needs.\<close>

definition needs :: "plugins \<Rightarrow> string \<Rightarrow> string set" where
  "needs m k = ((req_rel m)\<^sup>+ `` {k}) \<inter> dom m"

lemma needs_less:
  assumes "acyclic (req_rel m)" "finite (dom m)" "m k = Some p" "r \<in> set (pl_Requires p)" "m r = Some q"
  shows "card (needs m r) < card (needs m k)"
proof (rule psubset_card_mono)
  have kr: "(k, r) \<in> req_rel m" using assms(3,4) by (auto simp: req_rel_def)
  then have "r \<in> needs m k" using assms(5) by (auto simp: needs_def)
  moreover have "r \<notin> needs m r" using assms(1) by (auto simp: needs_def acyclic_def)
  moreover have "needs m r \<subseteq> needs m k" using kr by (auto simp: needs_def intro: trancl_into_trancl2)
  ultimately show "needs m r \<subset> needs m k" by blast
qed (simp add: needs_def assms(2))

lemma requires_ends:
  assumes "\<And>r q op. r \<in> set reqs \<Longrightarrow> m r = Some q \<Longrightarrow> openRecursive n m q op \<noteq> None"
  shows "openRequires n m name reqs op \<noteq> None"
  using assms
proof (induction reqs arbitrary: op)
  case (Cons r reqs)
  have IH: "openRequires n m name reqs op' \<noteq> None" for op'
    by (rule Cons.IH, rule Cons.prems) (auto intro: list.set_intros)
  have "openRecursive n m q op \<noteq> None" if "m r = Some q" for q by (rule Cons.prems[OF _ that]) simp
  then show ?case using IH by (simp split: option.split) auto
qed simp

lemma open_ends:
  assumes "acyclic (req_rel m)" "finite (dom m)" "named_ok m"
  shows "m k = Some p \<Longrightarrow> card (needs m k) < n \<Longrightarrow> openRecursive n m p op \<noteq> None"
proof (induction n arbitrary: k p op)
  case (Suc n)
  have "openRequires n m (pl_Name p) (pl_Requires p) op \<noteq> None"
  proof (rule requires_ends)
    fix r q op assume r: "r \<in> set (pl_Requires p)" "m r = Some q"
    show "openRecursive n m q op \<noteq> None"
      by (rule Suc.IH[OF r(2)]) (use needs_less[OF assms(1,2) Suc.prems(1) r] Suc.prems(2) in simp)
  qed
  then show ?case by (auto split: option.split)
qed simp

text \<open>C39: Loading ends: when no plugin requires itself, directly or through others, \<^verbatim>\<open>Load\<close> returns, with a depth of recursion
  of at most one more than the number of plugins.\<close>

theorem Load_returns:
  assumes "distinct (map pl_Name ps)" and "acyclic (req_rel (plugins_of ps))" and "length ps < n"
  shows "Load n ps \<noteq> None"
proof -
  let ?m = "plugins_of ps"
  have nm: "named_ok ?m" "\<forall>p\<in>set ps. ?m (pl_Name p) = Some p" using plugins_of_named[OF assms(1)] by simp_all
  have fin: "finite (dom ?m)" by (simp add: plugins_of_def finite_dom_map_of)
  have "card (needs ?m k) \<le> card (dom ?m)" for k by (rule card_mono[OF fin]) (auto simp: needs_def)
  moreover have "card (dom ?m) \<le> length ps"
    unfolding plugins_of_def dom_map_of_conv_image_fst by (metis card_length length_map list.set_map)
  ultimately have n: "card (needs ?m k) < n" for k using assms(3) by (meson le_less_trans)
  have "load_loop n ?m qs op \<noteq> None" if "set qs \<subseteq> set ps" for qs op
    using that
  proof (induction qs arbitrary: op)
    case (Cons q qs)
    have "openRecursive n ?m q op \<noteq> None" by (rule open_ends[OF assms(2) fin nm(1) _ n]) (use nm(2) Cons.prems in auto)
    then obtain err op1 where o: "openRecursive n ?m q op = Some (err, op1)" by auto
    have "load_loop n ?m qs op1 \<noteq> None" by (rule Cons.IH) (use Cons.prems in auto)
    then show ?case using o by auto
  qed simp
  then show ?thesis by (auto simp: Load_def Let_def split: option.split)
qed

text \<open>Opening does not return on circular requirements: for plugins whose first requirements lead
  back to themselves no amount of fuel yields a result (on the machine the recursion overflows the
  stack, which cannot be recovered).\<close>

theorem circular_requires_diverge:
  assumes "\<forall>k\<in>S. \<exists>p r rs. plugins_of ps k = Some p \<and> pl_Name p = k \<and> pl_Requires p = r # rs \<and> r \<in> S"
    and "k \<in> S" and "plugins_of ps k = Some p"
  shows "openRecursive n (plugins_of ps) p [] = None"
  using first_requires_loop[of S "[]" "plugins_of ps" k p n] assms by simp

text \<open>Plugins for the witnesses.\<close>

definition plug :: "string \<Rightarrow> string list \<Rightarrow> open_outcome \<Rightarrow> plugin" where
  "plug n reqs out = \<lparr>pl_Name = n, pl_Version = ''1.0'', pl_CanUpdate = False, pl_Requires = reqs,
     pl_Open = out, pl_hasAPI = True, pl_isHandler = False, pl_Actions = []\<rparr>"

lemma Load_opens_exactly_openable_witness:
  "\<exists>m op h. Load 5 [plug ''socat'' [''nft''] NoOpen, plug ''nft'' [] OpenOk, plug ''x'' [] (OpenError ''e'')]
     = Some (m, op, h) \<and> distinct op \<and> op = [''nft'', ''socat''] \<and> m ''x'' = None"
proof -
  let ?ps = "[plug ''socat'' [''nft''] NoOpen, plug ''nft'' [] OpenOk, plug ''x'' [] (OpenError ''e'')]"
  obtain m op h where l: "Load 5 ?ps = Some (m, op, h)" "op = [''nft'', ''socat'']" "m ''x'' = None"
    by (simp add: Load_def plugins_of_def plug_def safeOpen_def eval_nat_numeral)
  have "distinct (map pl_Name ?ps)" by (simp add: plug_def)
  from Load_opens_exactly_openable[OF this l(1)] l show ?thesis by blast
qed

lemma circular_requires_diverge_witness:
  "openRecursive 100 (plugins_of [plug ''a'' [''b''] NoOpen, plug ''b'' [''a''] NoOpen]) (plug ''a'' [''b''] NoOpen) [] = None"
  by (rule circular_requires_diverge[of "{''a'', ''b''}" _ "''a''"]) (auto simp: plugins_of_def plug_def)

lemma Load_returns_witness:
  "Load 3 [plug ''socat'' [''nft''] NoOpen, plug ''nft'' [] OpenOk] \<noteq> None"
proof (rule Load_returns)
  let ?r = "req_rel (plugins_of [plug ''socat'' [''nft''] NoOpen, plug ''nft'' [] OpenOk])"
  have "?r \<subseteq> {(''socat'', ''nft'')}" by (auto simp: req_rel_def plugins_of_def plug_def split: if_splits)
  then show "acyclic ?r" by (rule acyclic_subset[rotated]) (auto simp: acyclic_def trancl_insert)
qed (simp_all add: plug_def)

end
