(* ===== verification/Aggregator.thy ===== *)
theory Aggregator
  imports Mgr_Stats Bounded_Log
begin

text \<open>
  The statistics aggregator, \<^verbatim>\<open>apps/plugins/aggregator/plugin\<close>: samples per period and their history
  (\<^verbatim>\<open>stats.go\<close>), and the handling of a stats call (\<^verbatim>\<open>manager.go\<close>).  The \<^verbatim>\<open>float64\<close> operations are a
  record of functions, so the theorems hold for the machine's rounding.  Times and durations are
  seconds.
\<close>

record 'f float_ops =
  f_zero :: 'f
  f_add :: "'f \<Rightarrow> 'f \<Rightarrow> 'f"
  f_sub :: "'f \<Rightarrow> 'f \<Rightarrow> 'f"
  f_div :: "'f \<Rightarrow> 'f \<Rightarrow> 'f"
  f_of_int :: "int \<Rightarrow> 'f"
  f_gt :: "'f \<Rightarrow> 'f \<Rightarrow> bool"
  f_isNaN :: "'f \<Rightarrow> bool"

section \<open>Samples\<close>

record 'f sample =
  sm_Avg :: 'f
  sm_Total :: 'f
  sm_Max :: 'f
  sm_Count :: nat
  sm_Start :: int

definition empty_sample :: "'f float_ops \<Rightarrow> 'f sample" where
  "empty_sample F = \<lparr>sm_Avg = f_zero F, sm_Total = f_zero F, sm_Max = f_zero F, sm_Count = 0, sm_Start = 0\<rparr>"

text \<open>\<^verbatim>\<open>Sample.Feed\<close>: the sample after, and the finished sample when a new period starts.\<close>

definition sample_Feed ::
  "'f float_ops \<Rightarrow> 'f \<Rightarrow> int \<Rightarrow> int \<Rightarrow> 'f sample \<Rightarrow> 'f sample \<times> 'f sample option" where
  "sample_Feed F v now duration m =
     (let period = go_div now duration * duration in
      if period \<noteq> 0 \<and> sm_Start m < period then
        (m\<lparr>sm_Total := v, sm_Avg := v, sm_Max := v, sm_Count := 1, sm_Start := period\<rparr>, Some m)
      else
        let m = (if sm_Start m = 0 then m\<lparr>sm_Start := period\<rparr> else m);
            m = m\<lparr>sm_Total := f_add F (sm_Total m) v, sm_Count := sm_Count m + 1\<rparr>;
            m = m\<lparr>sm_Avg := f_div F (sm_Total m) (f_of_int F (int (sm_Count m)))\<rparr>;
            m = (if f_gt F v (sm_Max m) then m\<lparr>sm_Max := v\<rparr> else m)
        in (m, None))"

section \<open>The state of a metric\<close>

definition Average :: string where "Average = ''A''"
definition Differential :: string where "Differential = ''D''"
definition HistoryLength :: nat where "HistoryLength = 5"

record 'f agg_state =
  as_Operation :: string
  as_LastValue :: 'f
  as_LastTime :: int
  as_Tags :: "tag list"
  as_Current :: "(int \<times> 'f sample) list"
  as_History :: "int \<Rightarrow> 'f sample list"

definition NewState :: "'f float_ops \<Rightarrow> string \<Rightarrow> int list \<Rightarrow> 'f agg_state" where
  "NewState F op durations = \<lparr>as_Operation = op, as_LastValue = f_zero F, as_LastTime = -1, as_Tags = [],
     as_Current = map (\<lambda>d. (d, empty_sample F)) durations, as_History = (\<lambda>d. [])\<rparr>"

text \<open>\<^verbatim>\<open>log\<close>: an undefined sample is not kept; the history of a period keeps its last entries.\<close>

definition agg_log :: "int \<Rightarrow> 'f sample \<Rightarrow> 'f agg_state \<Rightarrow> 'f agg_state" where
  "agg_log period s st =
     (if sm_Start s = 0 then st
      else let his = as_History st period @ [s];
               his = (if HistoryLength < length his then drop (length his - HistoryLength) his else his)
           in st\<lparr>as_History := (as_History st)(period := his)\<rparr>)"

definition agg_init :: "'f float_ops \<Rightarrow> int \<Rightarrow> 'f \<Rightarrow> 'f agg_state \<Rightarrow> 'f agg_state" where
  "agg_init F now v st =
     st\<lparr>as_Current := map (\<lambda>(d, s). (d, if as_Operation st = Average then fst (sample_Feed F v now d s) else s))
        (as_Current st)\<rparr>"

text \<open>The loop of \<^verbatim>\<open>FeedOn\<close> over the samples, in iteration order.\<close>

fun feed_loop ::
  "'f float_ops \<Rightarrow> 'f \<Rightarrow> int \<Rightarrow> (int \<times> 'f sample) list \<Rightarrow> 'f agg_state \<Rightarrow>
   (int \<times> 'f sample) list \<times> (int \<times> 'f sample) list \<times> 'f agg_state" where
  "feed_loop F v now [] st = ([], [], st)"
| "feed_loop F v now ((d, s) # ss) st =
     (case sample_Feed F v now d s of
        (s', upd) \<Rightarrow>
          let st = (case upd of None \<Rightarrow> st | Some u \<Rightarrow> agg_log d u st) in
          (case feed_loop F v now ss st of
             (cur, upds, st') \<Rightarrow>
               ((d, s') # cur, (case upd of None \<Rightarrow> [] | Some u \<Rightarrow> [(d, u)]) @ upds, st')))"

definition FeedOn ::
  "'f float_ops \<Rightarrow> int \<Rightarrow> 'f \<Rightarrow> 'f agg_state \<Rightarrow> 'f agg_state \<times> (int \<times> 'f sample) list" where
  "FeedOn F now orig st =
     (let finish = (\<lambda>st. st\<lparr>as_LastValue := orig, as_LastTime := now\<rparr>) in
      if as_LastTime st = -1 then (finish (agg_init F now orig st), [])
      else if now \<le> as_LastTime st then (finish st, [])
      else let v = (if as_Operation st = Differential
                    then f_div F (f_sub F orig (as_LastValue st)) (f_of_int F (now - as_LastTime st))
                    else orig) in
        if f_isNaN F v then (finish st, [])
        else (case feed_loop F v now (as_Current st) st of
            (cur, upds, st') \<Rightarrow> (finish (st'\<lparr>as_Current := cur\<rparr>), upds)))"

section \<open>The history is a bounded log\<close>

definition log_push :: "'f sample \<Rightarrow> 'f sample list \<Rightarrow> 'f sample list" where
  "log_push s his = (let his = his @ [s] in
     if HistoryLength < length his then drop (length his - HistoryLength) his else his)"

interpretation agg_history: bounded_log log_push "\<lambda>h. h" "\<lambda>h. HistoryLength"
  by unfold_locales (auto simp: log_push_def Let_def)

lemma agg_log_push:
  "sm_Start s \<noteq> 0 \<Longrightarrow> as_History (agg_log p s st) = (as_History st)(p := log_push s (as_History st p))"
  by (simp add: agg_log_def log_push_def Let_def)

definition history_ok :: "'f agg_state \<Rightarrow> bool" where
  "history_ok st \<longleftrightarrow> (\<forall>p. length (as_History st p) \<le> HistoryLength)"

lemma agg_log_ok: "history_ok st \<Longrightarrow> history_ok (agg_log p s st)"
proof (cases "sm_Start s = 0")
  case True
  then show "history_ok st \<Longrightarrow> ?thesis" by (simp add: agg_log_def)
next
  case False
  assume "history_ok st"
  then show ?thesis
    using agg_history.push_bound[of "as_History st p" s] by (simp add: history_ok_def agg_log_push[OF False])
qed

lemma feed_loop_ok: "feed_loop F v now ss st = (cur, upds, st') \<Longrightarrow> history_ok st \<Longrightarrow> history_ok st'"
proof (induction ss arbitrary: st cur upds)
  case (Cons p ss)
  obtain d s where p: "p = (d, s)" by fastforce
  obtain s' upd where f: "sample_Feed F v now d s = (s', upd)" by fastforce
  let ?st = "case upd of None \<Rightarrow> st | Some u \<Rightarrow> agg_log d u st"
  obtain cur1 upds1 where r: "feed_loop F v now ss ?st = (cur1, upds1, st')"
    using Cons.prems(1) p f by (auto simp: Let_def split: prod.splits)
  have "history_ok ?st" using Cons.prems(2) agg_log_ok by (auto split: option.splits)
  then show ?case by (rule Cons.IH[OF r])
qed simp

lemma FeedOn_history_ok: "history_ok st \<Longrightarrow> history_ok (fst (FeedOn F now v st))"
  using feed_loop_ok[of F _ now "as_Current st" st]
  by (auto simp: FeedOn_def Let_def agg_init_def history_ok_def split: prod.splits)

fun feeds :: "'f float_ops \<Rightarrow> (int \<times> 'f) list \<Rightarrow> 'f agg_state \<Rightarrow> 'f agg_state" where
  "feeds F [] st = st"
| "feeds F ((t, v) # xs) st = feeds F xs (fst (FeedOn F t v st))"

lemma feeds_history_ok: "history_ok st \<Longrightarrow> history_ok (feeds F xs st)"
  by (induction F xs st rule: feeds.induct) (auto intro: FeedOn_history_ok)

section \<open>What a sample holds within its period\<close>

text \<open>The sample of a period, after the values \<open>v # vs\<close>.\<close>

definition sample_of :: "'f float_ops \<Rightarrow> int \<Rightarrow> 'f \<Rightarrow> 'f list \<Rightarrow> 'f sample" where
  "sample_of F start v vs =
     (let total = foldl (f_add F) v vs in
      \<lparr>sm_Avg = (if vs = [] then v else f_div F total (f_of_int F (int (Suc (length vs))))),
       sm_Total = total,
       sm_Max = foldl (\<lambda>m x. if f_gt F x m then x else m) v vs,
       sm_Count = Suc (length vs), sm_Start = start\<rparr>)"

fun sample_feeds :: "'f float_ops \<Rightarrow> int \<Rightarrow> (int \<times> 'f) list \<Rightarrow> 'f sample \<Rightarrow> 'f sample" where
  "sample_feeds F d [] s = s"
| "sample_feeds F d ((t, v) # xs) s = sample_feeds F d xs (fst (sample_Feed F v t d s))"

lemma sample_feeds_append: "sample_feeds F d (xs @ ys) s = sample_feeds F d ys (sample_feeds F d xs s)"
  by (induction F d xs s rule: sample_feeds.induct) auto

lemma sample_feed_same_period:
  assumes "go_div t d * d = start" "start \<noteq> 0"
  shows "sample_Feed F x t d (sample_of F start v vs) = (sample_of F start v (vs @ [x]), None)"
  using assms by (simp add: sample_Feed_def sample_of_def Let_def)

lemma sample_feeds_same_period:
  assumes "\<forall>(t, x)\<in>set xs. go_div t d * d = start" "start \<noteq> 0"
  shows "sample_feeds F d xs (sample_of F start v vs) = sample_of F start v (vs @ map snd xs)"
  using assms
proof (induction xs arbitrary: vs)
  case (Cons p xs)
  then show ?case by (cases p) (auto simp: sample_feed_same_period)
qed simp

section \<open>Properties\<close>

text \<open>The history of a metric is bounded: whatever is fed, at most five samples are kept for each
  period.\<close>

theorem history_bounded:
  "length (as_History (feeds F xs (NewState F op durations)) p) \<le> 5"
  using feeds_history_ok[of "NewState F op durations" F xs]
  by (simp add: history_ok_def NewState_def HistoryLength_def)

text \<open>A sample summarises its period: after the first value of a new period and any further values
  of the same period, it holds their count, sum, maximum and mean, and none of the values of the
  period before; that period's sample is handed out once, unchanged.\<close>

theorem sample_summarises_period:
  assumes "go_div t d * d = start" and "start \<noteq> 0" and "sm_Start s < start"
    and "\<forall>(u, x)\<in>set xs. go_div u d * d = start"
  shows "sample_feeds F d ((t, v) # xs) s = sample_of F start v (map snd xs) \<and>
    snd (sample_Feed F v t d s) = Some s"
proof -
  have "sample_Feed F v t d s = (sample_of F start v [], Some s)"
    using assms(1-3) by (simp add: sample_Feed_def sample_of_def Let_def)
  then show ?thesis using sample_feeds_same_period[OF assms(4,2), of F v "[]"] by simp
qed

definition int_ops :: "int float_ops" where
  "int_ops = \<lparr>f_zero = 0, f_add = (+), f_sub = (-), f_div = (div), f_of_int = id, f_gt = (>), f_isNaN = (\<lambda>x. False)\<rparr>"

lemma sample_summarises_period_witness:
  "sample_feeds int_ops 300 ((600, 4) # [(601, 8), (899, 3)]) (empty_sample int_ops) =
     \<lparr>sm_Avg = 5, sm_Total = 15, sm_Max = 8, sm_Count = 3, sm_Start = 600\<rparr>"
  using sample_summarises_period[of 600 300 600 "empty_sample int_ops" "[(601, 8), (899, 3)]" int_ops 4]
  by (simp add: sample_of_def int_ops_def empty_sample_def go_div_def Let_def)

end
