(* ===== verification/Protocol.thy ===== *)
theory Protocol
  imports Mgr_Manager
begin

text \<open>
  The command protocol over redis, \<^verbatim>\<open>apps/plugins/protocol/plugin\<close>.  Redis is a service outside the
  repository; the state holds what the plugin keeps there, the flags and the result queues, and the
  redis commands the plugin uses are taken at their documented meaning: \<^verbatim>\<open>RPUSH\<close> creates a key,
  \<^verbatim>\<open>EXISTS\<close> tests it, \<^verbatim>\<open>EXPIRE\<close> gives an existing key a time to live, \<^verbatim>\<open>BRPOPLPUSH\<close> on one key takes
  the last entry and puts it in front.  Errors of the connection are not modelled.
\<close>

record proto =
  pr_flags :: "string \<Rightarrow> int option option"
  pr_results :: "string \<Rightarrow> (job_result list \<times> int option) option"

definition ReturnExpire :: int where "ReturnExpire = 300"

text \<open>A key is a list of flags with its time to live; the length of the list does not matter.\<close>

definition Flag_job :: "string \<Rightarrow> proto \<Rightarrow> proto" where
  "Flag_job i p = p\<lparr>pr_flags := (pr_flags p)(i \<mapsto> (case pr_flags p i of None \<Rightarrow> None | Some ttl \<Rightarrow> ttl))\<rparr>"

definition UnFlag :: "string \<Rightarrow> proto \<Rightarrow> proto" where
  "UnFlag i p = (case pr_flags p i of None \<Rightarrow> p
     | Some ttl \<Rightarrow> p\<lparr>pr_flags := (pr_flags p)(i \<mapsto> Some ReturnExpire)\<rparr>)"

definition Flagged :: "string \<Rightarrow> proto \<Rightarrow> bool" where
  "Flagged i p \<longleftrightarrow> pr_flags p i \<noteq> None"

definition setResult :: "job_result \<Rightarrow> proto \<Rightarrow> (go_error, proto) result" where
  "setResult r p =
     (if jr_ID r = [] then Inl (PlainErr ''result with no ID, not pushing results back'')
      else let q = (case pr_results p (jr_ID r) of None \<Rightarrow> [] | Some (l, ttl) \<Rightarrow> l) in
        Inr (p\<lparr>pr_results := (pr_results p)(jr_ID r \<mapsto> (q @ [r], Some ReturnExpire))\<rparr>))"

definition Set_result :: "job_result \<Rightarrow> proto \<Rightarrow> (go_error, unit) result \<times> proto" where
  "Set_result r p =
     (let p = UnFlag (jr_ID r) p in
      case setResult r p of Inl e \<Rightarrow> (Inl e, p) | Inr p' \<Rightarrow> (Inr (), p'))"

text \<open>\<^verbatim>\<open>Get\<close>: an unflagged job is unknown; else wait for the queue of its results, which blocks
  (\<open>None\<close>) while there is none, up to the timeout of the caller.\<close>

definition Get_result :: "string \<Rightarrow> proto \<Rightarrow> (go_error, job_result) result option \<times> proto" where
  "Get_result i p =
     (if Flagged i p then
        (case pr_results p i of
           Some (l, ttl) \<Rightarrow>
             if l = [] then (None, p)
             else (Some (Inr (last l)), p\<lparr>pr_results := (pr_results p)(i \<mapsto> (last l # butlast l, ttl))\<rparr>)
         | None \<Rightarrow> (None, p))
      else (Some (Inl (PlainErr ''unknown job id (may be it has expired)'')), p))"

text \<open>Time passes: every key with a time to live loses one second, and is gone at zero.\<close>

definition expire_second :: "proto \<Rightarrow> proto" where
  "expire_second p = p\<lparr>
     pr_flags := (\<lambda>i. case pr_flags p i of
        Some (Some t) \<Rightarrow> if t \<le> 1 then None else Some (Some (t - 1)) | x \<Rightarrow> x),
     pr_results := (\<lambda>i. case pr_results p i of
        Some (l, Some t) \<Rightarrow> if t \<le> 1 then None else Some (l, Some (t - 1)) | x \<Rightarrow> x)\<rparr>"

text \<open>One turn of the loop of \<^verbatim>\<open>process\<close> for a received command; \<open>run\<close> is what \<^verbatim>\<open>api.Run\<close> returns.\<close>

datatype dispatch = Dropped | Dispatched "go_error option"

definition process_command :: "(command \<Rightarrow> go_error option) \<Rightarrow> command \<Rightarrow> proto \<Rightarrow> dispatch \<times> proto" where
  "process_command run cmd p =
     (if cmd_ID cmd = [] then (Dropped, p)
      else if Flagged (cmd_ID cmd) p then (Dropped, p)
      else let p = Flag_job (cmd_ID cmd) p; err = run cmd in
        if IsUnknownCommand err then
          (Dispatched err, snd (Set_result ((NewJobResult cmd)\<lparr>jr_State := StateUnknownCmd\<rparr>) p))
        else (Dispatched err, p))"

lemma Flagged_Flag [simp]: "Flagged i (Flag_job j p) \<longleftrightarrow> i = j \<or> Flagged i p"
  by (auto simp: Flagged_def Flag_job_def)

lemma Flagged_UnFlag [simp]: "Flagged i (UnFlag j p) \<longleftrightarrow> Flagged i p"
  by (auto simp: Flagged_def UnFlag_def split: option.splits)

lemma Flagged_setResult: "setResult r p = Inr p' \<Longrightarrow> Flagged i p' \<longleftrightarrow> Flagged i p"
  by (auto simp: setResult_def Let_def Flagged_def split: if_splits)

lemma Flagged_Set_result [simp]: "Flagged i (snd (Set_result r p)) \<longleftrightarrow> Flagged i p"
  using Flagged_setResult[of r "UnFlag (jr_ID r) p"]
  by (auto simp: Set_result_def Let_def split: sum.splits)

section \<open>Properties\<close>

text \<open>A result can be read back: after the result of a flagged job is set, a reader gets that result,
  again and again, until the keys expire.\<close>

theorem Get_after_Set:
  assumes "Flagged (jr_ID r) p" and "jr_ID r \<noteq> []" and "pr_results p (jr_ID r) = None"
  shows "case Get_result (jr_ID r) (snd (Set_result r p)) of (v, p') \<Rightarrow>
    v = Some (Inr r) \<and> fst (Get_result (jr_ID r) p') = Some (Inr r)"
proof -
  have u: "pr_results (UnFlag (jr_ID r) p) (jr_ID r) = None"
    using assms(3) by (simp add: UnFlag_def split: option.splits)
  then have s: "snd (Set_result r p) = (UnFlag (jr_ID r) p)
      \<lparr>pr_results := (pr_results (UnFlag (jr_ID r) p))(jr_ID r \<mapsto> ([r], Some ReturnExpire))\<rparr>"
    using assms(2) by (simp add: Set_result_def setResult_def Let_def)
  have "Flagged (jr_ID r) (snd (Set_result r p))" using assms(1) by simp
  then show ?thesis unfolding s by (simp add: Get_result_def Flagged_def)
qed

lemma Get_after_Set_witness:
  "let r = NewJobResult (new_command ''7'' ''core.ping'');
       p = Flag_job ''7'' \<lparr>pr_flags = (\<lambda>i. None), pr_results = (\<lambda>i. None)\<rparr>
   in case Get_result (jr_ID r) (snd (Set_result r p)) of (v, p') \<Rightarrow>
     v = Some (Inr r) \<and> fst (Get_result (jr_ID r) p') = Some (Inr r)"
  unfolding Let_def
  by (rule Get_after_Set) (simp_all add: NewJobResult_def new_command_def Flag_job_def Flagged_def)

text \<open>A command that is refused for any reason but an unknown name stays flagged for ever: no result
  is set, the flag has no time to live, so waiting for its result blocks at any later time and the
  same identifier is dropped as a duplicate at any later time.\<close>

theorem refused_command_stays_flagged:
  fixes n :: nat
  assumes "cmd_ID cmd \<noteq> []" and "\<not> Flagged (cmd_ID cmd) p" and "pr_results p (cmd_ID cmd) = None"
    and "run cmd = Some (PlainErr e)"
  defines "p' \<equiv> (expire_second ^^ n) (snd (process_command run cmd p))"
  shows "fst (Get_result (cmd_ID cmd) p') = None \<and> fst (process_command run cmd p') = Dropped"
proof -
  have p0: "snd (process_command run cmd p) = Flag_job (cmd_ID cmd) p"
    using assms(1,2,4) by (simp add: process_command_def Let_def IsUnknownCommand_def)
  have "pr_flags ((expire_second ^^ n) (Flag_job (cmd_ID cmd) p)) (cmd_ID cmd) = Some None \<and>
      pr_results ((expire_second ^^ n) (Flag_job (cmd_ID cmd) p)) (cmd_ID cmd) = None"
    using assms(2,3) by (induction n) (auto simp: Flag_job_def Flagged_def expire_second_def)
  then show ?thesis
    using assms(1) unfolding p'_def p0 by (simp add: Get_result_def Flagged_def process_command_def)
qed

lemma refused_command_stays_flagged_witness:
  "let p = \<lparr>pr_flags = (\<lambda>i. None), pr_results = (\<lambda>i. None)\<rparr>;
       run = (\<lambda>c. Some DuplicateIDErr); cmd = new_command ''7'' ''core.ping''
   in fst (process_command run cmd ((expire_second ^^ 1000) (snd (process_command run cmd p)))) = Dropped"
  using refused_command_stays_flagged[of "new_command ''7'' ''core.ping''"
      "\<lparr>pr_flags = (\<lambda>i. None), pr_results = (\<lambda>i. None)\<rparr>" "\<lambda>c. Some DuplicateIDErr" "''duplicate job id''" 1000]
  by (simp add: new_command_def Flagged_def DuplicateIDErr_def Let_def)

end
