(* ===== verification/Net_Ip.thy ===== *)
theory Net_Ip
  imports Prelude
begin

text \<open>
  The part of Go's \<^verbatim>\<open>net\<close> package that the network plugins use, for IPv4: \<^verbatim>\<open>ParseIP\<close>,
  \<^verbatim>\<open>ParseCIDR\<close>, \<^verbatim>\<open>IP.String\<close>, \<^verbatim>\<open>IPNet.String\<close>, \<^verbatim>\<open>IPNet.Contains\<close>.  An address is a
  32-bit word.  Texts of IPv6 addresses are outside: the functions here reject them.
\<close>

type_synonym ipv4 = "32 word"

definition octets :: "ipv4 \<Rightarrow> nat list" where
  "octets w = [unat w div 16777216 mod 256, unat w div 65536 mod 256, unat w div 256 mod 256, unat w mod 256]"

definition of_octets :: "nat \<Rightarrow> nat \<Rightarrow> nat \<Rightarrow> nat \<Rightarrow> ipv4" where
  "of_octets a b c d = of_nat (((a * 256 + b) * 256 + c) * 256 + d)"

definition print_ipv4 :: "ipv4 \<Rightarrow> string" where
  "print_ipv4 w = str_join ''.'' (List.map itoa (octets w))"

definition octet_ok :: "string \<Rightarrow> bool" where
  "octet_ok s \<longleftrightarrow> s \<noteq> [] \<and> list_all is_digit s \<and> dec_val s < 256"

definition ParseIP :: "string \<Rightarrow> ipv4 option" where
  "ParseIP s = (case split_on (CHR ''.'') s of
     [a, b, c, d] \<Rightarrow>
       if octet_ok a \<and> octet_ok b \<and> octet_ok c \<and> octet_ok d
       then Some (of_octets (dec_val a) (dec_val b) (dec_val c) (dec_val d)) else None
   | _ \<Rightarrow> None)"

record ipnet =
  net_ip :: ipv4
  net_len :: nat

definition cidr_mask :: "nat \<Rightarrow> ipv4" where
  "cidr_mask n = push_bit (32 - n) (-1)"

definition ParseCIDR :: "string \<Rightarrow> (ipv4 \<times> ipnet) option" where
  "ParseCIDR s = (case str_index ''/'' s of
     None \<Rightarrow> None
   | Some i \<Rightarrow> (case ParseIP (take i s) of
       None \<Rightarrow> None
     | Some ip \<Rightarrow> let m = drop (Suc i) s in
         if m \<noteq> [] \<and> list_all is_digit m \<and> dec_val m \<le> 32
         then Some (ip, \<lparr>net_ip = ip AND cidr_mask (dec_val m), net_len = dec_val m\<rparr>)
         else None))"

definition ipnet_String :: "ipnet \<Rightarrow> string" where
  "ipnet_String n = print_ipv4 (net_ip n) @ ''/'' @ itoa (net_len n)"

definition net_contains :: "ipnet \<Rightarrow> ipv4 \<Rightarrow> bool" where
  "net_contains n ip \<longleftrightarrow> ip AND cidr_mask (net_len n) = net_ip n AND cidr_mask (net_len n)"

section \<open>Printing and parsing\<close>

lemma octets_inverse: "of_octets (unat w div 16777216 mod 256) (unat w div 65536 mod 256)
    (unat w div 256 mod 256) (unat w mod 256) = (w :: ipv4)"
proof -
  have b: "unat w < 4294967296" using unsigned_less[of w] by simp
  let ?u = "unat w"
  have 1: "?u div 256 * 256 + ?u mod 256 = ?u" by simp
  have 2: "?u div 65536 * 256 + ?u div 256 mod 256 = ?u div 256"
    using div_mult_mod_eq[of "?u div 256" 256] by (simp add: div_mult2_eq[symmetric])
  have 3: "?u div 16777216 * 256 + ?u div 65536 mod 256 = ?u div 65536"
    using div_mult_mod_eq[of "?u div 65536" 256] by (simp add: div_mult2_eq[symmetric])
  have 4: "?u div 16777216 mod 256 = ?u div 16777216" using b by simp
  have "((?u div 16777216 mod 256 * 256 + ?u div 65536 mod 256) * 256 + ?u div 256 mod 256) * 256
      + ?u mod 256 = ?u"
    by (simp only: 1 2 3 4)
  then show ?thesis by (simp only: of_octets_def) simp
qed

lemma octet_ok_itoa: "n < 256 \<Longrightarrow> octet_ok (itoa n)"
  by (simp add: octet_ok_def itoa_digits)

lemma dot_not_itoa [simp]: "CHR ''.'' \<notin> set (itoa n)" "CHR ''/'' \<notin> set (itoa n)"
    "CHR '':'' \<notin> set (itoa n)"
  by (rule itoa_no_char, simp add: is_digit_def)+

lemma ParseIP_print [simp]: "ParseIP (print_ipv4 w) = Some w"
proof -
  have "split_on (CHR ''.'') (print_ipv4 w) = List.map itoa (octets w)"
    unfolding print_ipv4_def by (rule split_on_str_join) (auto simp: octets_def)
  then show ?thesis by (simp add: ParseIP_def octets_def octet_ok_itoa octets_inverse)
qed

lemma print_ipv4_inject: "print_ipv4 v = print_ipv4 w \<longleftrightarrow> v = w"
  by (metis ParseIP_print option.inject)

lemma print_ipv4_chars: "c \<notin> {CHR ''.''} \<Longrightarrow> \<not> is_digit c \<Longrightarrow> c \<notin> set (print_ipv4 w)"
  by (auto simp: print_ipv4_def octets_def dest: itoa_no_char[of c])

lemma print_ipv4_not_Nil [simp]: "print_ipv4 w \<noteq> []"
  by (simp add: print_ipv4_def octets_def)

lemma str_index_single: "c \<notin> set a \<Longrightarrow> str_index [c] (a @ c # r) = Some (length a)"
  by (induction a) (auto simp: has_prefix_def)

lemma str_index_single_None: "c \<notin> set a \<Longrightarrow> str_index [c] a = None"
  by (induction a) (auto simp: has_prefix_def)

lemma ParseCIDR_print:
  "n \<le> 32 \<Longrightarrow> ParseCIDR (print_ipv4 w @ ''/'' @ itoa n) =
     Some (w, \<lparr>net_ip = w AND cidr_mask n, net_len = n\<rparr>)"
  using print_ipv4_chars[of "CHR ''/''" w]
  by (simp add: ParseCIDR_def str_index_single is_digit_def itoa_digits Let_def)

lemma ParseCIDR_len: "ParseCIDR s = Some (ip, n) \<Longrightarrow> net_len n \<le> 32 \<and> net_ip n = ip AND cidr_mask (net_len n)"
  by (auto simp: ParseCIDR_def Let_def split: option.splits if_splits)

lemma ParseCIDR_slash: "ParseCIDR s = Some r \<Longrightarrow> CHR ''/'' \<in> set s"
  using str_index_single_None[of "CHR ''/''" s] by (auto simp: ParseCIDR_def split: option.splits)

lemma ParseIP_no_slash: "ParseIP s = Some w \<Longrightarrow> CHR ''/'' \<notin> set s"
proof -
  assume p: "ParseIP s = Some w"
  have j: "str_join ''.'' (split_on (CHR ''.'') s) = s" by (rule str_join_split_on)
  obtain a b c d where s: "split_on (CHR ''.'') s = [a, b, c, d]"
    and ok: "octet_ok a" "octet_ok b" "octet_ok c" "octet_ok d"
    using p by (auto simp: ParseIP_def split: list.splits if_splits)
  have "\<And>x. octet_ok x \<Longrightarrow> CHR ''/'' \<notin> set x" by (auto simp: octet_ok_def list_all_iff is_digit_def)
  then show ?thesis using j s ok by auto
qed

lemma ParseCIDR_not_ParseIP: "ParseIP s = Some w \<Longrightarrow> ParseCIDR s = None"
  using ParseCIDR_slash ParseIP_no_slash by (metis not_Some_eq)

section \<open>Membership in a network\<close>

lemma bit_word_eq_iff': "(v :: ipv4) = w \<longleftrightarrow> (\<forall>i<32. bit v i = bit w i)"
  by (auto intro: bit_word_eqI)

lemma cidr_mask_bit: "bit (cidr_mask n) i \<longleftrightarrow> 32 - n \<le> i \<and> i < 32"
  by (auto simp: cidr_mask_def bit_simps simp del: push_bit_minus_one_eq_not_mask)

text \<open>An address is in a network when the two agree on the bits of the prefix.\<close>

lemma mask_eq_iff: "(v AND cidr_mask n = w AND cidr_mask n) \<longleftrightarrow> drop_bit (32 - n) v = drop_bit (32 - n) (w :: ipv4)"
proof -
  have high: "bit u j \<Longrightarrow> j < 32" for u :: ipv4 and j using bit_imp_le_length[of u j] by simp
  have "(v AND cidr_mask n = w AND cidr_mask n) \<longleftrightarrow> (\<forall>i. 32 - n \<le> i \<longrightarrow> i < 32 \<longrightarrow> bit v i = bit w i)"
    by (auto simp: bit_word_eq_iff' bit_and_iff cidr_mask_bit)
  also have "\<dots> \<longleftrightarrow> (\<forall>j. j + (32 - n) < 32 \<longrightarrow> bit v (j + (32 - n)) = bit w (j + (32 - n)))"
    by (metis add.commute le_add2 le_add_diff_inverse)
  also have "\<dots> \<longleftrightarrow> drop_bit (32 - n) v = drop_bit (32 - n) w"
    by (auto simp: bit_word_eq_iff' bit_drop_bit_eq add.commute) (meson high trans_le_add1 add_lessD1)+
  finally show ?thesis .
qed

lemma ParseCIDR_contains:
  assumes "ParseCIDR s = Some (ip, n)"
  shows "net_contains n a \<longleftrightarrow> drop_bit (32 - net_len n) a = drop_bit (32 - net_len n) ip"
  using ParseCIDR_len[OF assms] by (simp add: net_contains_def mask_eq_iff[symmetric] and.assoc)

end
