(* ===== verification/Nft.thy ===== *)
theory Nft
  imports Pm_Types Plugin_Manager Net_Ip "HOL-Library.AList"
begin

text \<open>
  The firewall plugin (\<^verbatim>\<open>apps/plugins/nft\<close>): the data of a rule set, its text for \<^verbatim>\<open>nft -f\<close>, the
  reader of the JSON that \<^verbatim>\<open>nft list\<close> prints, finding and dropping rules, and the port actions.
  A Go map that the code ranges over is an association list in the order of the iteration, so a
  theorem over all lists covers every order.  The program \<^verbatim>\<open>nft\<close> is outside: the record
  \<open>nft_tool\<close> holds what a run of it returns and does to a state of any type.
\<close>

section \<open>Data: \<^verbatim>\<open>nft/types.go\<close>\<close>

record nft_rule =
  Handle :: int
  Body :: string

record nft_chain =
  ch_Type :: string
  ch_Hook :: string
  ch_Priority :: int
  ch_Policy :: string
  ch_Rules :: "nft_rule list"

record nft_table =
  tb_Family :: string
  tb_Chains :: "(string \<times> nft_chain) list"
  tb_Sets :: "(string \<times> string list) list"

type_synonym nft = "(string \<times> nft_table) list"

definition tab :: string where "tab = [char_of (9 :: nat)]"
definition nl :: string where "nl = [char_of (10 :: nat)]"

subsection \<open>The text of a rule set\<close>

fun set_elements :: "nat \<Rightarrow> string list \<Rightarrow> string" where
  "set_elements i [] = []"
| "set_elements i [e] = '' '' @ e @ '' }'' @ nl"
| "set_elements i (e # f # es) = '' '' @ e @ '','' @
     (if i \<noteq> 0 \<and> i mod 2 \<noteq> 0 then nl @ tab @ tab @ ''            '' else []) @ set_elements (Suc i) (f # es)"

definition set_marshal :: "string \<Rightarrow> string list \<Rightarrow> string" where
  "set_marshal name es =
     tab @ ''set '' @ name @ '' {'' @ nl @ tab @ tab @ ''type ipv4_addr'' @ nl @
     (if es = [] then [] else tab @ tab @ ''elements = {'' @ set_elements 0 es) @ tab @ ''}'' @ nl"

definition chain_marshal :: "string \<Rightarrow> nft_chain \<Rightarrow> string" where
  "chain_marshal name c =
     tab @ ''chain '' @ name @ '' {'' @ nl @
     (if ch_Type c = [] then []
      else tab @ tab @ ''type '' @ ch_Type c @ '' hook '' @ ch_Hook c @ '' priority '' @ itoa_int (ch_Priority c) @
           ''; policy '' @ ch_Policy c @ '';'' @ nl) @
     concat (map (\<lambda>r. tab @ tab @ Body r @ nl) (ch_Rules c)) @ tab @ ''}'' @ nl"

definition table_marshal :: "string \<Rightarrow> nft_table \<Rightarrow> (go_error, string) result" where
  "table_marshal name t =
     (if tb_Family t = [] then Inl (PlainErr ''family is required'')
      else rbind (rmap (\<lambda>(n, c). if n = [] then Inl (PlainErr ''empty chain name'') else Inr (chain_marshal n c))
             (tb_Chains t))
        (\<lambda>cs. Inr (''table '' @ tb_Family t @ '' '' @ name @ '' {'' @ nl @
           concat (map (\<lambda>(n, es). set_marshal n es) (tb_Sets t)) @ concat cs @ ''}'' @ nl)))"

definition MarshalText :: "nft \<Rightarrow> (go_error, string) result" where
  "MarshalText n =
     rbind (rmap (\<lambda>(name, t). if name = [] then Inl (PlainErr ''table name is required'') else table_marshal name t) n)
       (\<lambda>ts. Inr (concat ts))"

section \<open>JSON values and their decoding\<close>

text \<open>
  A decoded JSON text.  Numbers are integers (\<^verbatim>\<open>nft\<close> prints ports, handles, priorities and prefix
  lengths; an integer below \<open>2 ^ 53\<close> passes through Go's \<^verbatim>\<open>float64\<close> unchanged).  Decoding into a
  struct follows \<^verbatim>\<open>encoding/json\<close>: keys match without regard to case, a later key wins, \<^verbatim>\<open>null\<close>
  changes nothing, a value of another type is an error.
\<close>

datatype json = JNull | JBool bool | JNum int | JStr string | JArr "json list" | JObj "(string \<times> json) list"

type_synonym fields = "(string \<times> json) list"

definition lower :: "char \<Rightarrow> char" where
  "lower c = (let n = of_char c :: nat in if 65 \<le> n \<and> n \<le> 90 then char_of (n + 32) else c)"

definition type_err :: go_error where "type_err = PlainErr ''json: cannot unmarshal''"

definition to_fields :: "json \<Rightarrow> (go_error, fields) result" where
  "to_fields j = (case j of JNull \<Rightarrow> Inr [] | JObj kvs \<Rightarrow> Inr kvs | _ \<Rightarrow> Inl type_err)"

definition field_vals :: "string \<Rightarrow> fields \<Rightarrow> json list" where
  "field_vals k kvs = map snd (filter (\<lambda>(k', v). map lower k' = map lower k) kvs)"

fun last_str :: "string \<Rightarrow> json list \<Rightarrow> (go_error, string) result" where
  "last_str cur [] = Inr cur"
| "last_str cur (JNull # vs) = last_str cur vs"
| "last_str cur (JStr s # vs) = last_str s vs"
| "last_str cur (_ # vs) = Inl type_err"

fun last_int :: "int \<Rightarrow> json list \<Rightarrow> (go_error, int) result" where
  "last_int cur [] = Inr cur"
| "last_int cur (JNull # vs) = last_int cur vs"
| "last_int cur (JNum i # vs) = last_int i vs"
| "last_int cur (_ # vs) = Inl type_err"

fun last_arr :: "json list \<Rightarrow> json list \<Rightarrow> (go_error, json list) result" where
  "last_arr cur [] = Inr cur"
| "last_arr cur (JNull # vs) = last_arr [] vs"
| "last_arr cur (JArr xs # vs) = last_arr xs vs"
| "last_arr cur (_ # vs) = Inl type_err"

definition str_field :: "string \<Rightarrow> fields \<Rightarrow> (go_error, string) result" where
  "str_field k kvs = last_str [] (field_vals k kvs)"

definition int_field :: "string \<Rightarrow> fields \<Rightarrow> (go_error, int) result" where
  "int_field k kvs = last_int 0 (field_vals k kvs)"

definition arr_field :: "string \<Rightarrow> fields \<Rightarrow> (go_error, json list) result" where
  "arr_field k kvs = last_arr [] (field_vals k kvs)"

text \<open>A nested struct collects the fields of every value of its key.\<close>

definition sub_fields :: "string \<Rightarrow> fields \<Rightarrow> (go_error, fields) result" where
  "sub_fields k kvs = rbind (rmap to_fields (field_vals k kvs)) (\<lambda>fs. Inr (concat fs))"

text \<open>A \<^verbatim>\<open>json.RawMessage\<close> field: \<open>None\<close> when the key is missing, which no decoder accepts later.\<close>

definition raw_field :: "string \<Rightarrow> fields \<Rightarrow> json option" where
  "raw_field k kvs = (case rev (field_vals k kvs) of [] \<Rightarrow> None | v # vs \<Rightarrow> Some v)"

text \<open>A map decoded from an object has one entry per key, the last one.\<close>

definition to_block :: "json \<Rightarrow> (go_error, fields) result" where
  "to_block j = rbind (to_fields j) (\<lambda>kvs. Inr (AList.clearjunk (rev kvs)))"

definition to_blocks :: "json list \<Rightarrow> (go_error, fields list) result" where
  "to_blocks = rmap to_block"

definition str_elem :: "json \<Rightarrow> (go_error, string) result" where
  "str_elem j = last_str [] [j]"

text \<open>\<^verbatim>\<open>fmt.Sprint\<close> of a decoded value; a decoded number is a \<^verbatim>\<open>float64\<close>, printed with an
  exponent from \<open>10 ^ 6\<close> on.\<close>

definition pad2 :: "nat \<Rightarrow> string" where
  "pad2 n = (if n < 10 then ''0'' @ itoa n else itoa n)"

definition float_Sprint :: "int \<Rightarrow> string" where
  "float_Sprint i =
     (if \<bar>i\<bar> < 1000000 then itoa_int i
      else let s = itoa (nat \<bar>i\<bar>); ds = rev (dropWhile (\<lambda>c. c = CHR ''0'') (rev s)) in
        (if i < 0 then ''-'' else []) @ [hd ds] @ (if tl ds = [] then [] else ''.'' @ tl ds) @
        ''e+'' @ pad2 (length s - 1))"

fun json_Sprint :: "json \<Rightarrow> string" where
  "json_Sprint JNull = ''<nil>''"
| "json_Sprint (JBool b) = (if b then ''true'' else ''false'')"
| "json_Sprint (JNum i) = float_Sprint i"
| "json_Sprint (JStr s) = s"
| "json_Sprint (JArr xs) = ''['' @ str_join '' '' (map json_Sprint xs) @ '']''"
| "json_Sprint (JObj kvs) = ''map['' @ str_join '' '' (map (\<lambda>(k, v). k @ '':'' @ json_Sprint v) kvs) @ '']''"

section \<open>Reading a rule set: \<^verbatim>\<open>parser.go\<close>\<close>

definition setTableBlock :: "json \<Rightarrow> nft \<Rightarrow> (go_error, nft) result" where
  "setTableBlock msg rs =
     rbind (to_fields msg) (\<lambda>f. rbind (str_field ''family'' f) (\<lambda>fam. rbind (str_field ''name'' f) (\<lambda>name.
     rbind (int_field ''handle'' f) (\<lambda>h.
     Inr (AList.update name \<lparr>tb_Family = fam, tb_Chains = [], tb_Sets = []\<rparr> rs)))))"

definition unknown_table :: "string \<Rightarrow> go_error" where
  "unknown_table t = PlainErr (''unknown table '' @ t)"

definition setSetBlock :: "json \<Rightarrow> nft \<Rightarrow> (go_error, nft) result" where
  "setSetBlock msg rs =
     rbind (to_fields msg) (\<lambda>f. rbind (str_field ''family'' f) (\<lambda>fam. rbind (str_field ''name'' f) (\<lambda>name.
     rbind (str_field ''table'' f) (\<lambda>tn. rbind (arr_field ''elem'' f) (\<lambda>es. rbind (rmap str_elem es) (\<lambda>es.
     rbind (str_field ''type'' f) (\<lambda>ty. rbind (int_field ''handle'' f) (\<lambda>h.
     case map_of rs tn of
       None \<Rightarrow> Inl (unknown_table tn)
     | Some t \<Rightarrow> Inr (AList.update tn (t\<lparr>tb_Sets := AList.update name es (tb_Sets t)\<rparr>) rs)))))))))"

definition setChainBlock :: "json \<Rightarrow> nft \<Rightarrow> (go_error, nft) result" where
  "setChainBlock msg rs =
     rbind (to_fields msg) (\<lambda>f. rbind (str_field ''hook'' f) (\<lambda>hook. rbind (str_field ''family'' f) (\<lambda>fam.
     rbind (int_field ''prio'' f) (\<lambda>prio. rbind (str_field ''table'' f) (\<lambda>tn. rbind (str_field ''name'' f) (\<lambda>name.
     rbind (int_field ''handle'' f) (\<lambda>h. rbind (str_field ''type'' f) (\<lambda>ty. rbind (str_field ''policy'' f) (\<lambda>policy.
     case map_of rs tn of
       None \<Rightarrow> Inl (unknown_table tn)
     | Some t \<Rightarrow> Inr (AList.update tn (t\<lparr>tb_Chains := AList.update name
          \<lparr>ch_Type = ty, ch_Hook = hook, ch_Priority = prio, ch_Policy = policy, ch_Rules = []\<rparr> (tb_Chains t)\<rparr>) rs)
     )))))))))"

definition renderDnat :: "json \<Rightarrow> (go_error, string) result" where
  "renderDnat msg =
     rbind (to_fields msg) (\<lambda>f. rbind (int_field ''port'' f) (\<lambda>port. rbind (str_field ''addr'' f) (\<lambda>addr.
     Inr (''dnat to '' @ addr @ '':'' @ itoa_int port))))"

text \<open>Decoding nothing (a missing \<^verbatim>\<open>left\<close> or \<^verbatim>\<open>right\<close>) is a syntax error of the decoder.\<close>

definition no_json :: go_error where "no_json = PlainErr ''unexpected end of JSON input''"

definition renderLeft :: "json option \<Rightarrow> (go_error, string) result" where
  "renderLeft msg = (case msg of None \<Rightarrow> Inl no_json | Some j \<Rightarrow>
     rbind (to_fields j) (\<lambda>f. rbind (str_field ''meta'' f) (\<lambda>meta.
     rbind (rbind (sub_fields ''ct'' f) (str_field ''key'')) (\<lambda>key.
     rbind (sub_fields ''payload'' f) (\<lambda>p. rbind (str_field ''name'' p) (\<lambda>name. rbind (str_field ''field'' p) (\<lambda>field.
     Inr (if meta \<noteq> [] then meta
          else if key \<noteq> [] then ''ct '' @ key
          else if name \<noteq> [] then name @ '' '' @ field
          else []))))))))"

text \<open>An empty string on the right makes \<^verbatim>\<open>r[0]\<close> panic; the panic ends every caller as an error does.\<close>

definition index_panic :: go_error where "index_panic = PlainErr ''panic: index out of range''"

definition renderRight :: "json option \<Rightarrow> (go_error, string) result" where
  "renderRight msg = (case msg of None \<Rightarrow> Inl no_json | Some j \<Rightarrow>
     (case j of
        JNum i \<Rightarrow> Inr (float_Sprint i)
      | JStr r \<Rightarrow>
          if r = [] then Inl index_panic
          else if hd r = CHR ''@'' \<or> is_digit (hd r) then Inr r
          else Inr (''\"'' @ r @ ''\"'')
      | _ \<Rightarrow>
          rbind (to_fields j) (\<lambda>f. rbind (arr_field ''set'' f) (\<lambda>rs. rbind (sub_fields ''prefix'' f) (\<lambda>p.
          rbind (str_field ''addr'' p) (\<lambda>addr. rbind (int_field ''len'' p) (\<lambda>len.
          Inr ((if rs \<noteq> [] then ''{ '' @ str_join '', '' (map json_Sprint rs) @ '' }'' else []) @
               (if addr \<noteq> [] then addr @ ''/'' @ itoa_int len else [])))))))))"

definition renderMatch :: "json \<Rightarrow> (go_error, string) result" where
  "renderMatch msg =
     rbind (to_fields msg) (\<lambda>f. rbind (renderLeft (raw_field ''left'' f)) (\<lambda>l.
     rbind (renderRight (raw_field ''right'' f)) (\<lambda>r. Inr (l @ '' '' @ r))))"

definition render_one :: "string \<Rightarrow> json \<Rightarrow> (go_error, string) result" where
  "render_one ty msg =
     (if ty = ''match'' then renderMatch msg
      else if ty = ''dnat'' then renderDnat msg
      else if ty = ''masquerade'' \<or> ty = ''accept'' \<or> ty = ''drop'' then Inr ty
      else Inl (PlainErr (''unknown expr type '' @ ty)))"

fun render_loop :: "string \<Rightarrow> fields list \<Rightarrow> (go_error, string) result" where
  "render_loop buf [] = Inr buf"
| "render_loop buf (e # es) = (case e of
     [(ty, msg)] \<Rightarrow>
       let buf = (if buf \<noteq> [] then buf @ '' '' else buf) in
       rbind (render_one ty msg) (\<lambda>s. render_loop (buf @ s) es)
   | _ \<Rightarrow> Inl (PlainErr ''invalid expression''))"

definition renderRule :: "fields list \<Rightarrow> (go_error, string) result" where
  "renderRule = render_loop []"

definition setRuleBlock :: "json \<Rightarrow> nft \<Rightarrow> (go_error, nft) result" where
  "setRuleBlock msg rs =
     rbind (to_fields msg) (\<lambda>f. rbind (str_field ''family'' f) (\<lambda>fam.
     rbind (rbind (arr_field ''expr'' f) to_blocks) (\<lambda>expr.
     rbind (str_field ''table'' f) (\<lambda>tn. rbind (int_field ''handle'' f) (\<lambda>h. rbind (str_field ''chain'' f) (\<lambda>cn.
     case map_of rs tn of
       None \<Rightarrow> Inl (unknown_table tn)
     | Some t \<Rightarrow> (case map_of (tb_Chains t) cn of
         None \<Rightarrow> Inl (PlainErr (''unknown chain '' @ cn))
       | Some c \<Rightarrow> rbind (renderRule expr) (\<lambda>body.
           Inr (AList.update tn (t\<lparr>tb_Chains := AList.update cn
             (c\<lparr>ch_Rules := ch_Rules c @ [\<lparr>Handle = h, Body = body\<rparr>]\<rparr>) (tb_Chains t)\<rparr>) rs)))))))))"

definition parse_block :: "fields \<Rightarrow> nft \<Rightarrow> (go_error, nft) result" where
  "parse_block b rs = (case b of
     [(ty, msg)] \<Rightarrow>
       (if ty = ''table'' then setTableBlock msg rs
        else if ty = ''set'' then setSetBlock msg rs
        else if ty = ''chain'' then setChainBlock msg rs
        else if ty = ''rule'' then setRuleBlock msg rs
        else Inr rs)
   | _ \<Rightarrow> Inl (PlainErr ''invalid nft block''))"

definition Parse :: "json \<Rightarrow> (go_error, nft) result" where
  "Parse config =
     rbind (to_fields config) (\<lambda>f. rbind (rbind (arr_field ''nftables'' f) to_blocks) (\<lambda>bs. rfold parse_block bs []))"

section \<open>The manager: \<^verbatim>\<open>manager.go\<close> and \<^verbatim>\<open>set.go\<close>\<close>

text \<open>
  \<open>run_nft\<close> is \<^verbatim>\<open>api.System("nft", args...)\<close>: an error, or the standard output.  \<open>run_file\<close> writes a
  temporary file and runs \<^verbatim>\<open>nft -f\<close> on it.  \<open>json_dec\<close> reads a JSON text.
\<close>

record 'k nft_tool =
  run_nft :: "string list \<Rightarrow> 'k \<Rightarrow> (go_error, string) result \<times> 'k"
  run_file :: "string \<Rightarrow> 'k \<Rightarrow> (go_error, unit) result \<times> 'k"
  json_dec :: "string \<Rightarrow> (go_error, json) result"

definition Apply :: "'k nft_tool \<Rightarrow> nft \<Rightarrow> 'k \<Rightarrow> (go_error, unit) result \<times> 'k" where
  "Apply E n k = (case MarshalText n of Inl e \<Rightarrow> (Inl e, k) | Inr data \<Rightarrow> run_file E data k)"

definition fill_rule :: "nft_rule list \<Rightarrow> nft_rule \<Rightarrow> (go_error, nft_rule) result" where
  "fill_rule cur r =
     (let r' = (case find (\<lambda>rr. Body rr = Body r) cur of Some rr \<Rightarrow> r\<lparr>Handle := Handle rr\<rparr> | None \<Rightarrow> r) in
      if Handle r' = 0 then Inl (PlainErr (''rule '' @ Body r @ '' not found'')) else Inr r')"

definition fill_chain :: "nft_table \<Rightarrow> string \<times> nft_chain \<Rightarrow> (go_error, string \<times> nft_chain) result" where
  "fill_chain ct = (\<lambda>(cn, c). case map_of (tb_Chains ct) cn of
     None \<Rightarrow> Inl (PlainErr (''chain '' @ cn @ '' not found''))
   | Some cc \<Rightarrow> rbind (rmap (fill_rule (ch_Rules cc)) (ch_Rules c)) (\<lambda>rs. Inr (cn, c\<lparr>ch_Rules := rs\<rparr>)))"

definition fill_table :: "nft \<Rightarrow> string \<times> nft_table \<Rightarrow> (go_error, string \<times> nft_table) result" where
  "fill_table ruleset = (\<lambda>(tn, t). case map_of ruleset tn of
     None \<Rightarrow> Inl (PlainErr (''table '' @ tn @ '' not found''))
   | Some ct \<Rightarrow> rbind (rmap (fill_chain ct) (tb_Chains t)) (\<lambda>cs. Inr (tn, t\<lparr>tb_Chains := cs\<rparr>)))"

definition findRules :: "nft \<Rightarrow> nft \<Rightarrow> (go_error, nft) result" where
  "findRules ruleset sub = rmap (fill_table ruleset) sub"

definition Drop :: "'k nft_tool \<Rightarrow> string \<times> string \<times> string \<times> int \<Rightarrow> 'k \<Rightarrow> (go_error, unit) result \<times> 'k" where
  "Drop E = (\<lambda>(family, table, chain, handle) k.
     case run_nft E [''delete'', ''rule'', family, table, chain, ''handle'', itoa_int handle] k of
       (Inl e, k') \<Rightarrow> (Inl e, k') | (Inr out, k') \<Rightarrow> (Inr (), k'))"

definition manager_GetRules :: "'k nft_tool \<Rightarrow> 'k \<Rightarrow> (go_error, nft) result \<times> 'k" where
  "manager_GetRules E k =
     (case run_nft E [''--json'', ''--handle'', ''--numeric'', ''--numeric'', ''list'', ''ruleset''] k of
        (Inl e, k') \<Rightarrow> (Inl e, k')
      | (Inr out, k') \<Rightarrow> (rbind (json_dec E out) Parse, k'))"

definition rule_refs :: "nft \<Rightarrow> (string \<times> string \<times> string \<times> int) list" where
  "rule_refs n = concat (map (\<lambda>(tn, t). concat (map (\<lambda>(cn, c).
     map (\<lambda>r. (tb_Family t, tn, cn, Handle r)) (ch_Rules c)) (tb_Chains t))) n)"

fun drop_loop :: "'k nft_tool \<Rightarrow> (string \<times> string \<times> string \<times> int) list \<Rightarrow> 'k \<Rightarrow> (go_error, unit) result \<times> 'k" where
  "drop_loop E [] k = (Inr (), k)"
| "drop_loop E (r # rs) k = (case Drop E r k of (Inl e, k') \<Rightarrow> (Inl e, k') | (Inr u, k') \<Rightarrow> drop_loop E rs k')"

definition DropRules :: "'k nft_tool \<Rightarrow> nft \<Rightarrow> 'k \<Rightarrow> (go_error, unit) result \<times> 'k" where
  "DropRules E sub k = (case manager_GetRules E k of
     (Inl e, k') \<Rightarrow> (Inl e, k')
   | (Inr ruleset, k') \<Rightarrow> (case findRules ruleset sub of
       Inl e \<Rightarrow> (Inl e, k')
     | Inr sub \<Rightarrow> drop_loop E (rule_refs sub) k'))"

definition IPv4Set :: "'k nft_tool \<Rightarrow> string \<Rightarrow> string \<Rightarrow> string \<Rightarrow> string list \<Rightarrow> 'k \<Rightarrow> (go_error, unit) result \<times> 'k" where
  "IPv4Set E family table name ips k =
     (case run_nft E [''add'', ''set'', family, table, name, ''{'', ''type'', ''ipv4_addr;'', ''}''] k of
        (Inl e, k') \<Rightarrow> (Inl e, k')
      | (Inr out, k') \<Rightarrow>
          if ips = [] then (Inr (), k')
          else (case run_nft E [''add'', ''element'', family, table, name, ''{'', str_join '', '' ips, ''}''] k' of
             (Inl e, k'') \<Rightarrow> (Inl e, k'') | (Inr out, k'') \<Rightarrow> (Inr (), k'')))"

definition IPv4SetDel :: "'k nft_tool \<Rightarrow> string \<Rightarrow> string \<Rightarrow> string \<Rightarrow> string list \<Rightarrow> 'k \<Rightarrow> (go_error, unit) result \<times> 'k" where
  "IPv4SetDel E family table name ips k =
     (if ips = [] then (Inr (), k)
      else (case run_nft E [''delete'', ''element'', family, table, name, ''{'', str_join '', '' ips, ''}''] k of
             (Inl e, k') \<Rightarrow> (Inl e, k') | (Inr out, k') \<Rightarrow> (Inr (), k')))"

section \<open>The port actions: \<^verbatim>\<open>actions.go\<close>\<close>

record port_args =
  pa_Port :: int
  pa_Interface :: string
  pa_Subnet :: string

definition parsePort :: "port_args \<Rightarrow> string" where
  "parsePort a =
     (if pa_Interface a \<noteq> [] then ''iifname \"'' @ pa_Interface a @ ''\" '' else []) @
     (if pa_Subnet a \<noteq> [] then ''ip saddr '' @
        (case ParseCIDR (pa_Subnet a) of None \<Rightarrow> pa_Subnet a | Some (ip, n) \<Rightarrow> ipnet_String n) @ '' '' else []) @
     ''tcp dport '' @ itoa_int (pa_Port a) @ '' accept''"

definition rule_exists :: "store \<Rightarrow> string \<Rightarrow> bool" where
  "rule_exists st rule \<longleftrightarrow> store_Get st rule \<noteq> None"

definition register :: "string \<Rightarrow> store \<Rightarrow> (go_error, store) result" where
  "register rule st = (if rule_exists st rule then Inl (PlainErr ''exists'') else Inr (store_Set rule [] st))"

definition input_rule :: "string \<Rightarrow> nft" where
  "input_rule rule = [(''filter'', \<lparr>tb_Family = ''inet'', tb_Chains = [(''input'',
     \<lparr>ch_Type = [], ch_Hook = [], ch_Priority = 0, ch_Policy = [], ch_Rules = [\<lparr>Handle = 0, Body = rule\<rparr>]\<rparr>)],
     tb_Sets = []\<rparr>)]"

definition openPort :: "'k nft_tool \<Rightarrow> port_args \<Rightarrow> store \<times> 'k \<Rightarrow> (go_error, unit) result \<times> store \<times> 'k" where
  "openPort E a = (\<lambda>(st, k). let rule = parsePort a in
     case register rule st of
       Inl e \<Rightarrow> (Inl (PlainErr ''rule exists''), st, k)
     | Inr st' \<Rightarrow> (case Apply E (input_rule rule) k of
         (Inl e, k') \<Rightarrow> (Inl e, store_Del rule st', k')
       | (Inr u, k') \<Rightarrow> (Inr (), st', k')))"

definition dropPort :: "'k nft_tool \<Rightarrow> port_args \<Rightarrow> store \<times> 'k \<Rightarrow> (go_error, unit) result \<times> store \<times> 'k" where
  "dropPort E a = (\<lambda>(st, k). let rule = parsePort a in
     if \<not> rule_exists st rule then (Inr (), st, k)
     else (case DropRules E (input_rule rule) k of
         (Inl e, k') \<Rightarrow> (Inl e, st, k')
       | (Inr u, k') \<Rightarrow> (Inr (), store_Del rule st, k')))"

definition ruleExists :: "port_args \<Rightarrow> store \<Rightarrow> bool" where
  "ruleExists a st = rule_exists st (parsePort a)"

section \<open>Finding rules\<close>

text \<open>The rules of a rule set with their bodies, in the order of \<open>rule_refs\<close>.\<close>

definition rule_bodies :: "nft \<Rightarrow> (string \<times> string \<times> string \<times> string) list" where
  "rule_bodies n = concat (map (\<lambda>(tn, t). concat (map (\<lambda>(cn, c).
     map (\<lambda>r. (tb_Family t, tn, cn, Body r)) (ch_Rules c)) (tb_Chains t))) n)"

definition rules_of :: "nft \<Rightarrow> string \<Rightarrow> string \<Rightarrow> nft_rule list" where
  "rules_of n tn cn = (case map_of n tn of None \<Rightarrow> []
     | Some t \<Rightarrow> (case map_of (tb_Chains t) cn of None \<Rightarrow> [] | Some c \<Rightarrow> ch_Rules c))"

definition listed :: "nft \<Rightarrow> string \<times> string \<times> string \<times> int \<Rightarrow> string \<times> string \<times> string \<times> string \<Rightarrow> bool" where
  "listed rs = (\<lambda>(fam, tn, cn, h) (fam', tn', cn', body).
     fam = fam' \<and> tn = tn' \<and> cn = cn' \<and> h \<noteq> 0 \<and>
     map_option Handle (find (\<lambda>r. Body r = body) (rules_of rs tn cn)) = Some h)"

definition no_handles :: "nft \<Rightarrow> bool" where
  "no_handles n \<longleftrightarrow> list_all (\<lambda>(fam, tn, cn, h). h = 0) (rule_refs n)"

lemma list_all2_concat: "list_all2 (list_all2 P) xss yss \<Longrightarrow> list_all2 P (concat xss) (concat yss)"
  by (induction rule: list_all2_induct) (auto intro: list_all2_appendI)

lemma fill_rule_listed:
  assumes "fill_rule rs r = Inr r'" "Handle r = 0"
  shows "Body r' = Body r \<and> Handle r' \<noteq> 0 \<and> map_option Handle (find (\<lambda>x. Body x = Body r) rs) = Some (Handle r')"
  using assms by (auto simp: fill_rule_def Let_def split: option.splits if_splits)

lemma fill_chain_listed:
  assumes "fill_chain ct (cn, c) = Inr p" "list_all (\<lambda>r. Handle r = 0) (ch_Rules c)"
  shows "\<exists>cc c'. p = (cn, c') \<and> map_of (tb_Chains ct) cn = Some cc \<and>
    list_all2 (\<lambda>r' r. Handle r' \<noteq> 0 \<and> map_option Handle (find (\<lambda>x. Body x = Body r) (ch_Rules cc)) = Some (Handle r'))
      (ch_Rules c') (ch_Rules c)"
proof -
  from assms(1) obtain cc rs where cc: "map_of (tb_Chains ct) cn = Some cc"
      "rmap (fill_rule (ch_Rules cc)) (ch_Rules c) = Inr rs" "p = (cn, c\<lparr>ch_Rules := rs\<rparr>)"
    by (auto simp: fill_chain_def rbind_eq_Inr split: option.splits)
  have "list_all2 (\<lambda>r r'. fill_rule (ch_Rules cc) r = Inr r') (ch_Rules c) rs"
    using cc(2) by (simp add: rmap_Inr)
  then have "list_all2 (\<lambda>r r'. Handle r' \<noteq> 0 \<and>
      map_option Handle (find (\<lambda>x. Body x = Body r) (ch_Rules cc)) = Some (Handle r')) (ch_Rules c) rs"
    using assms(2) fill_rule_listed by (fastforce simp: list_all2_conv_all_nth list_all_length)
  then show ?thesis using cc by (auto simp: list_all2_conv_all_nth)
qed

lemma fill_table_listed:
  assumes f: "fill_table rs (tn, t) = Inr p" and z: "\<forall>(cn, c)\<in>set (tb_Chains t). list_all (\<lambda>r. Handle r = 0) (ch_Rules c)"
  shows "list_all2 (listed rs) (rule_refs [p]) (rule_bodies [(tn, t)])"
proof -
  from f obtain ct cs where ct: "map_of rs tn = Some ct" "rmap (fill_chain ct) (tb_Chains t) = Inr cs"
      "p = (tn, t\<lparr>tb_Chains := cs\<rparr>)"
    by (auto simp: fill_table_def rbind_eq_Inr split: option.splits)
  have r: "list_all2 (\<lambda>x y. fill_chain ct x = Inr y) (tb_Chains t) cs" using ct(2) by (simp add: rmap_Inr)
  have "list_all2 (list_all2 (listed rs))
      (map (\<lambda>(cn, c). map (\<lambda>r. (tb_Family t, tn, cn, Handle r)) (ch_Rules c)) cs)
      (map (\<lambda>(cn, c). map (\<lambda>r. (tb_Family t, tn, cn, Body r)) (ch_Rules c)) (tb_Chains t))"
    unfolding list_all2_map1 list_all2_map2 list_all2_conv_all_nth[of _ cs]
  proof (intro conjI allI impI)
    show l: "length cs = length (tb_Chains t)" using r by (simp add: list_all2_conv_all_nth)
    fix i assume i: "i < length cs"
    obtain cn c where c: "tb_Chains t ! i = (cn, c)" by fastforce
    have "(cn, c) \<in> set (tb_Chains t)" using i l c by (metis nth_mem)
    moreover have "fill_chain ct (cn, c) = Inr (cs ! i)"
      using r i l c by (auto simp: list_all2_conv_all_nth)
    ultimately obtain cc c' where cc: "cs ! i = (cn, c')" "map_of (tb_Chains ct) cn = Some cc"
      "list_all2 (\<lambda>r' r. Handle r' \<noteq> 0 \<and> map_option Handle (find (\<lambda>x. Body x = Body r) (ch_Rules cc)) = Some (Handle r'))
        (ch_Rules c') (ch_Rules c)"
      using fill_chain_listed[of ct cn c "cs ! i"] z by blast
    then show "list_all2 (listed rs)
        (case cs ! i of (cn, c) \<Rightarrow> map (\<lambda>r. (tb_Family t, tn, cn, Handle r)) (ch_Rules c))
        (case tb_Chains t ! i of (cn, c) \<Rightarrow> map (\<lambda>r. (tb_Family t, tn, cn, Body r)) (ch_Rules c))"
      using ct(1) c by (simp add: list_all2_map1 list_all2_map2 listed_def rules_of_def)
  qed
  then show ?thesis using ct(3) by (simp add: rule_refs_def rule_bodies_def list_all2_concat)
qed

lemma no_handles_iff:
  "no_handles n \<longleftrightarrow> (\<forall>(tn, t)\<in>set n. \<forall>(cn, c)\<in>set (tb_Chains t). list_all (\<lambda>r. Handle r = 0) (ch_Rules c))"
  by (fastforce simp: no_handles_def rule_refs_def list_all_iff)

lemma rule_refs_split: "rule_refs n = concat (map (\<lambda>p. rule_refs [p]) n)"
  by (simp add: rule_refs_def)

lemma rule_bodies_split: "rule_bodies n = concat (map (\<lambda>p. rule_bodies [p]) n)"
  by (simp add: rule_bodies_def)

lemma findRules_listed_all:
  assumes "findRules rs sub = Inr sub'" and "no_handles sub"
  shows "list_all2 (listed rs) (rule_refs sub') (rule_bodies sub)"
proof -
  have r: "list_all2 (\<lambda>x y. fill_table rs x = Inr y) sub sub'"
    using assms(1) by (simp add: findRules_def rmap_Inr)
  have "list_all2 (\<lambda>p q. list_all2 (listed rs) (rule_refs [q]) (rule_bodies [p])) sub sub'"
  proof (rule list.rel_mono_strong[OF r])
    fix p q assume "p \<in> set sub" "fill_table rs p = Inr q"
    then show "list_all2 (listed rs) (rule_refs [q]) (rule_bodies [p])"
      using assms(2) fill_table_listed[of rs "fst p" "snd p" q] by (cases p) (auto simp: no_handles_iff)
  qed
  then have "list_all2 (list_all2 (listed rs)) (map (\<lambda>p. rule_refs [p]) sub') (map (\<lambda>p. rule_bodies [p]) sub)"
    by (simp add: list_all2_map1 list_all2_map2 list_all2_conv_all_nth)
  then show ?thesis
    by (subst rule_refs_split, subst rule_bodies_split) (rule list_all2_concat)
qed

text \<open>Finding rules: when \<^verbatim>\<open>findRules\<close> accepts a set of rules without handles, every rule keeps its
  family, table, chain and position and gets the handle, not zero, of the first rule with the same
  body in the same chain of the running rule set.\<close>

theorem findRules_listed:
  assumes "findRules rs sub = Inr sub'" and "no_handles sub"
  shows "list_all2 (listed rs) (rule_refs sub') (rule_bodies sub)"
  using assms by (rule findRules_listed_all)

lemma findRules_listed_witness:
  "let c = (\<lambda>rules. [(''filter'', \<lparr>tb_Family = ''inet'', tb_Chains = [(''input'',
        \<lparr>ch_Type = [], ch_Hook = [], ch_Priority = 0, ch_Policy = [], ch_Rules = rules\<rparr>)], tb_Sets = []\<rparr>)]);
       rs = c [\<lparr>Handle = 4, Body = ''iifname lo accept''\<rparr>, \<lparr>Handle = 9, Body = ''tcp dport 22 accept''\<rparr>]
   in list_all2 (listed rs) (rule_refs (c [\<lparr>Handle = 9, Body = ''tcp dport 22 accept''\<rparr>]))
        (rule_bodies (input_rule ''tcp dport 22 accept''))"
  unfolding Let_def
  by (rule findRules_listed)
     (simp_all add: findRules_def fill_table_def fill_chain_def fill_rule_def input_rule_def no_handles_def rule_refs_def)

section \<open>Dropping rules\<close>

text \<open>Dropping is all or nothing with respect to finding: when one of the rules to drop is not in its
  chain of the running rule set, \<^verbatim>\<open>DropRules\<close> fails before it drops any rule.\<close>

theorem DropRules_all_or_nothing:
  assumes "manager_GetRules E k = (Inr rs, k')" and "no_handles sub"
    and "r \<in> set (rule_bodies sub)" and "\<nexists>ref. listed rs ref r"
  shows "\<exists>e. DropRules E sub k = (Inl e, k')"
proof (cases "findRules rs sub")
  case (Inr sub')
  from assms(3) obtain i where "i < length (rule_bodies sub)" "r = rule_bodies sub ! i"
    by (auto simp: in_set_conv_nth)
  then have "listed rs (rule_refs sub' ! i) r"
    using findRules_listed_all[OF Inr assms(2)] by (simp add: list_all2_conv_all_nth)
  with assms(4) show ?thesis by blast
qed (simp add: DropRules_def assms(1))

text \<open>What \<^verbatim>\<open>nft delete rule\<close> promises: a rule is deleted when it is there, and only then.\<close>

definition nft_deletes :: "'k nft_tool \<Rightarrow> ('k \<Rightarrow> (string \<times> string \<times> string \<times> int) set) \<Rightarrow> bool" where
  "nft_deletes E live \<longleftrightarrow> (\<forall>r k. case Drop E r k of
     (Inr u, k') \<Rightarrow> r \<in> live k \<and> live k' = live k - {r}
   | (Inl e, k') \<Rightarrow> r \<notin> live k \<and> live k' = live k)"

lemma drop_loop_deletes:
  assumes "nft_deletes E live" "drop_loop E rs k = (Inr (), k')"
  shows "distinct rs \<and> set rs \<subseteq> live k \<and> live k' = live k - set rs"
  using assms(2)
proof (induction rs arbitrary: k)
  case (Cons r rs)
  obtain k1 where d: "Drop E r k = (Inr (), k1)" and l: "drop_loop E rs k1 = (Inr (), k')"
    using Cons.prems by (auto split: prod.splits sum.splits)
  have "case Drop E r k of (Inr u, k') \<Rightarrow> r \<in> live k \<and> live k' = live k - {r}
      | (Inl e, k') \<Rightarrow> r \<notin> live k \<and> live k' = live k"
    by (rule assms(1)[unfolded nft_deletes_def, THEN spec, THEN spec])
  then have "r \<in> live k" "live k1 = live k - {r}" by (simp_all add: d)
  with Cons.IH[OF l] show ?case by auto
qed simp

text \<open>C17: A successful \<^verbatim>\<open>DropRules\<close> removes from the running rule set exactly one rule for every rule asked
  for, a rule with the same body in the same chain, and no other.\<close>

theorem DropRules_removes_exactly:
  assumes "nft_deletes E live" and "no_handles sub"
    and "manager_GetRules E k = (Inr rs, k1)" and "DropRules E sub k = (Inr (), k2)"
  shows "\<exists>refs. list_all2 (listed rs) refs (rule_bodies sub) \<and> distinct refs \<and> set refs \<subseteq> live k1 \<and>
    live k2 = live k1 - set refs"
proof -
  from assms(3,4) obtain sub' where f: "findRules rs sub = Inr sub'" and l: "drop_loop E (rule_refs sub') k1 = (Inr (), k2)"
    by (auto simp: DropRules_def split: sum.splits)
  show ?thesis
    using findRules_listed_all[OF f assms(2)] drop_loop_deletes[OF assms(1) l] by blast
qed

lemma listed_functional: "listed rs x r \<Longrightarrow> listed rs y r \<Longrightarrow> x = y"
  by (auto simp: listed_def split: prod.splits)

lemma repeated_rule_not_distinct:
  assumes "list_all2 (listed rs) refs bodies" "\<not> distinct bodies"
  shows "\<not> distinct refs"
proof -
  from assms(2) obtain i j where ij: "i < length bodies" "j < length bodies" "i \<noteq> j" "bodies ! i = bodies ! j"
    by (auto simp: distinct_conv_nth)
  then have "listed rs (refs ! i) (bodies ! i)" "listed rs (refs ! j) (bodies ! i)"
    using assms(1) list_all2_nthD2 by (metis, metis)
  then have "refs ! i = refs ! j" by (rule listed_functional)
  then show ?thesis using ij list_all2_lengthD[OF assms(1)] by (auto simp: distinct_conv_nth)
qed

lemma DropRules_repeated:
  assumes "nft_deletes E live" "no_handles sub" "\<not> distinct (rule_bodies sub)"
  shows "\<exists>e. fst (DropRules E sub k) = Inl e"
proof (cases "fst (DropRules E sub k)")
  case (Inr u)
  then obtain k2 where d: "DropRules E sub k = (Inr (), k2)" by (cases "DropRules E sub k") auto
  then obtain rs k1 sub' where g: "findRules rs sub = Inr sub'" "drop_loop E (rule_refs sub') k1 = (Inr (), k2)"
    by (auto simp: DropRules_def split: sum.splits prod.splits)
  have "\<not> distinct (rule_refs sub')"
    using repeated_rule_not_distinct[OF findRules_listed_all[OF g(1) assms(2)] assms(3)] .
  with drop_loop_deletes[OF assms(1) g(2)] show ?thesis by blast
qed blast

section \<open>A small machine for the examples\<close>

text \<open>A tool whose state is the list of live handles of the chain \<^verbatim>\<open>input\<close>, with one rule set to list.\<close>

definition small_tool :: "json \<Rightarrow> int list nft_tool" where
  "small_tool j = \<lparr>
     run_nft = (\<lambda>args k.
       if args = [''--json'', ''--handle'', ''--numeric'', ''--numeric'', ''list'', ''ruleset''] then (Inr [], k)
       else case find (\<lambda>h. args = [''delete'', ''rule'', ''inet'', ''filter'', ''input'', ''handle'', itoa_int h]) k of
         None \<Rightarrow> (Inl (PlainErr ''no such rule''), k) | Some h \<Rightarrow> (Inr [], removeAll h k)),
     run_file = (\<lambda>t k. (Inr (), k)), json_dec = (\<lambda>t. Inr j)\<rparr>"

definition small_live :: "int list \<Rightarrow> (string \<times> string \<times> string \<times> int) set" where
  "small_live k = (\<lambda>h. (''inet'', ''filter'', ''input'', h)) ` set k"

lemma small_tool_deletes: "nft_deletes (small_tool j) small_live"
  unfolding nft_deletes_def
proof (intro allI)
  fix r :: "string \<times> string \<times> string \<times> int" and k
  obtain f t c h where r: "r = (f, t, c, h)" by (cases r)
  show "case Drop (small_tool j) r k of (Inr u, k') \<Rightarrow> r \<in> small_live k \<and> small_live k' = small_live k - {r}
      | (Inl e, k') \<Rightarrow> r \<notin> small_live k \<and> small_live k' = small_live k"
  proof (cases "find (\<lambda>x. f = ''inet'' \<and> t = ''filter'' \<and> c = ''input'' \<and> h = x) k")
    case None
    then have "r \<notin> small_live k" by (auto simp: r small_live_def find_None_iff)
    moreover have "Drop (small_tool j) r k = (Inl (PlainErr ''no such rule''), k)"
      using None by (simp add: r Drop_def small_tool_def)
    ultimately show ?thesis by simp
  next
    case (Some x)
    then have x: "f = ''inet''" "t = ''filter''" "c = ''input''" "h = x" "x \<in> set k"
      by (auto simp: find_Some_iff)
    have "find (\<lambda>y. x = y) k = Some x" using Some x by simp
    then show ?thesis using x by (auto simp: r Drop_def small_tool_def small_live_def)
  qed
qed

text \<open>The rule set as \<^verbatim>\<open>nft list\<close> prints it, with the expressions of the rules of \<^verbatim>\<open>input\<close>.\<close>

definition small_json :: "(int \<times> json list) list \<Rightarrow> json" where
  "small_json rules = JObj [(''nftables'', JArr (
     [JObj [(''table'', JObj [(''family'', JStr ''inet''), (''name'', JStr ''filter''), (''handle'', JNum 0)])],
      JObj [(''chain'', JObj [(''family'', JStr ''inet''), (''table'', JStr ''filter''), (''name'', JStr ''input''),
        (''handle'', JNum 1)])]] @
     map (\<lambda>(h, e). JObj [(''rule'', JObj [(''family'', JStr ''inet''), (''table'', JStr ''filter''),
        (''chain'', JStr ''input''), (''handle'', JNum h), (''expr'', JArr e)])]) rules))]"

lemmas parse_eval = Parse_def parse_block_def to_blocks_def to_block_def to_fields_def arr_field_def str_field_def
  int_field_def field_vals_def sub_fields_def raw_field_def lower_def setTableBlock_def setChainBlock_def setRuleBlock_def
  renderRule_def render_one_def renderMatch_def renderLeft_def renderRight_def float_Sprint_def itoa_int_def itoa_eval

definition drop_22_expr :: "json list" where
  "drop_22_expr = [JObj [(''match'', JObj [(''left'', JObj [(''payload'', JObj [(''name'', JStr ''tcp''),
      (''field'', JStr ''dport'')])]), (''right'', JNum 22)])], JObj [(''accept'', JNull)]]"

lemma small_GetRules:
  "manager_GetRules (small_tool (small_json [(9, drop_22_expr)])) [9, 4] =
     (Inr [(''filter'', \<lparr>tb_Family = ''inet'', tb_Chains = [(''input'',
        \<lparr>ch_Type = [], ch_Hook = [], ch_Priority = 0, ch_Policy = [],
          ch_Rules = [\<lparr>Handle = 9, Body = ''tcp dport 22 accept''\<rparr>]\<rparr>)], tb_Sets = []\<rparr>)], [9, 4])"
  by (simp add: manager_GetRules_def small_tool_def small_json_def drop_22_expr_def parse_eval)

lemmas drop_eval = findRules_def fill_table_def fill_chain_def fill_rule_def input_rule_def no_handles_def
  rule_refs_def rule_bodies_def

lemma DropRules_all_or_nothing_witness:
  "\<exists>e. DropRules (small_tool (small_json [(9, drop_22_expr)])) (input_rule ''tcp dport 23 accept'') [9, 4] =
     (Inl e, [9, 4])"
  by (rule DropRules_all_or_nothing[OF small_GetRules, of _ "(''inet'', ''filter'', ''input'', ''tcp dport 23 accept'')"])
     (simp_all add: drop_eval listed_def rules_of_def split_beta)

lemma DropRules_removes_exactly_witness:
  "\<exists>refs. set refs \<subseteq> small_live [9, 4] \<and> small_live [4] = small_live [9, 4] - set refs"
proof -
  let ?E = "small_tool (small_json [(9, drop_22_expr)])"
  have "DropRules ?E (input_rule ''tcp dport 22 accept'') [9, 4] = (Inr (), [4])"
    by (simp add: DropRules_def small_GetRules drop_eval) (simp add: Drop_def small_tool_def)
  from DropRules_removes_exactly[OF small_tool_deletes _ small_GetRules this] show ?thesis
    by (auto simp: drop_eval)
qed

section \<open>The port actions\<close>

text \<open>The expression \<^verbatim>\<open>nft list\<close> prints for the rule of an open port.\<close>

definition match_json :: "json \<Rightarrow> json \<Rightarrow> json" where
  "match_json l r = JObj [(''match'', JObj [(''left'', l), (''right'', r)])]"

definition payload_json :: "string \<Rightarrow> string \<Rightarrow> json" where
  "payload_json name field = JObj [(''payload'', JObj [(''name'', JStr name), (''field'', JStr field)])]"

definition port_expr :: "string \<Rightarrow> (ipv4 \<times> nat) option \<Rightarrow> nat \<Rightarrow> json list" where
  "port_expr iface subnet port =
     (if iface \<noteq> [] then [match_json (JObj [(''meta'', JStr ''iifname'')]) (JStr iface)] else []) @
     (case subnet of None \<Rightarrow> [] | Some (ip, n) \<Rightarrow>
        [match_json (payload_json ''ip'' ''saddr'')
           (JObj [(''prefix'', JObj [(''addr'', JStr (print_ipv4 (ip AND cidr_mask n))), (''len'', JNum (int n))])])]) @
     [match_json (payload_json ''tcp'' ''dport'') (JNum (int port)), JObj [(''accept'', JNull)]]"

definition port_args_of :: "string \<Rightarrow> (ipv4 \<times> nat) option \<Rightarrow> nat \<Rightarrow> port_args" where
  "port_args_of iface subnet port = \<lparr>pa_Port = int port, pa_Interface = iface,
     pa_Subnet = (case subnet of None \<Rightarrow> [] | Some (ip, n) \<Rightarrow> print_ipv4 ip @ ''/'' @ itoa n)\<rparr>"

lemmas decode_defs = to_block_def to_fields_def arr_field_def str_field_def int_field_def field_vals_def
  sub_fields_def raw_field_def lower_def

lemma block_match: "to_block (match_json l r) = Inr [(''match'', JObj [(''left'', l), (''right'', r)])]"
  by (simp add: match_json_def to_block_def to_fields_def)

lemma render_match_fields: "renderMatch (JObj [(''left'', l), (''right'', r)]) =
    rbind (renderLeft (Some l)) (\<lambda>l. rbind (renderRight (Some r)) (\<lambda>r. Inr (l @ '' '' @ r)))"
  by (simp add: renderMatch_def raw_field_def field_vals_def to_fields_def lower_def)

lemma render_payload: "name \<noteq> [] \<Longrightarrow> renderLeft (Some (payload_json name field)) = Inr (name @ '' '' @ field)"
  by (simp add: renderLeft_def payload_json_def decode_defs)

lemma render_prefix: "renderRight (Some (JObj [(''prefix'', JObj [(''addr'', JStr a), (''len'', JNum (int n))])])) =
    Inr (if a \<noteq> [] then a @ ''/'' @ itoa n else [])"
  by (simp add: renderRight_def decode_defs)

lemma render_port: "n < 1000000 \<Longrightarrow> renderRight (Some (JNum (int n))) = Inr (itoa n)"
  by (simp add: renderRight_def float_Sprint_def)

lemma render_iface: "renderLeft (Some (JObj [(''meta'', JStr ''iifname'')])) = Inr ''iifname''"
  by (simp add: renderLeft_def decode_defs)

text \<open>The rule that \<^verbatim>\<open>openPort\<close> writes is the rule that the reader of the JSON listing gives back, so
  that \<^verbatim>\<open>dropPort\<close> finds it: the rendered expression of the listing is the body \<^verbatim>\<open>parsePort\<close> builds, for
  every port, every network and every interface whose name starts with neither a digit nor \<open>@\<close>.\<close>

theorem renderRule_parsePort:
  assumes "port < 65536" and "\<forall>ip n. subnet = Some (ip, n) \<longrightarrow> n \<le> 32"
    and "iface = [] \<or> hd iface \<noteq> CHR ''@'' \<and> \<not> is_digit (hd iface)"
  shows "rbind (to_blocks (port_expr iface subnet port)) renderRule = Inr (parsePort (port_args_of iface subnet port))"
proof -
  have acc: "to_block (JObj [(''accept'', JNull)]) = Inr [(''accept'', JNull)]"
    by (simp add: to_block_def to_fields_def)
  have r: "renderRight (Some (JStr iface)) = Inr (''\"'' @ iface @ ''\"'')" if "iface \<noteq> []"
    using assms(3) that by (simp add: renderRight_def)
  have c: "ParseCIDR (print_ipv4 ip @ CHR ''/'' # itoa n) = Some (ip, \<lparr>net_ip = ip AND cidr_mask n, net_len = n\<rparr>)"
    if "n \<le> 32" for ip n
    using ParseCIDR_print[OF that] by simp
  show ?thesis
    using assms(1,2) r
    by (cases "iface = []"; cases subnet)
       (auto simp: port_expr_def to_blocks_def block_match acc renderRule_def render_one_def render_match_fields
         render_payload render_prefix render_port render_iface parsePort_def port_args_of_def c ipnet_String_def)
qed

lemma renderRule_parsePort_witness:
  "rbind (to_blocks (port_expr ''vxbackend'' (Some (3232235777, 24)) 6379)) renderRule =
     Inr (parsePort (port_args_of ''vxbackend'' (Some (3232235777, 24)) 6379))"
  by (rule renderRule_parsePort) (simp_all add: is_digit_def)

text \<open>The store of the port actions agrees with what was applied: \<^verbatim>\<open>openPort\<close> succeeds exactly when
  the rule is new and \<^verbatim>\<open>nft\<close> accepts it; then the rule is registered, so that a second \<^verbatim>\<open>openPort\<close> is
  refused without running \<^verbatim>\<open>nft\<close>; in every other case the registered rules are the same as before.\<close>

theorem openPort_registers:
  "case openPort E a (st, k) of (res, st', k') \<Rightarrow>
     (res = Inr () \<longleftrightarrow> \<not> ruleExists a st \<and> fst (Apply E (input_rule (parsePort a)) k) = Inr ()) \<and>
     st' = (if res = Inr () then store_Set (parsePort a) [] st else st) \<and>
     (if res = Inr () then openPort E a (st', k') = (Inl (PlainErr ''rule exists''), st', k') else True)"
proof -
  have del: "store_Del r (store_Set r [] st) = st" if "store_Get st r = None" for r
    using that by (auto simp: store_Del_def store_Set_def store_Get_def)
  have reg: "register r (store_Set r [] st) = Inl (PlainErr ''exists'')" for r
    by (simp add: register_def rule_exists_def plugin_store.get_put)
  show ?thesis
    by (cases "Apply E (input_rule (parsePort a)) k"; cases "fst (Apply E (input_rule (parsePort a)) k)")
       (auto simp: openPort_def ruleExists_def register_def rule_exists_def Let_def del plugin_store.get_put)
qed

end
