(* ===== verification/Socat.thy ===== *)
theory Socat
  imports Nft
begin

text \<open>
  The port forwarding plugin (\<^verbatim>\<open>apps/plugins/socat\<close>): parsing a source, the forwards and their rules,
  removing forwards, reserving ports, resolving a local address to the end point, and following the
  addresses of the host.  The rules go through the firewall plugin of theory \<open>Nft\<close>.  The reservations
  are a cache with expiry times; \<open>now\<close> is the clock in seconds.
\<close>

section \<open>Sources: \<^verbatim>\<open>rule.go\<close>\<close>

record source =
  src_ip :: string
  src_port :: int
  src_protocols :: "string list"

definition addressAll :: string where "addressAll = ''0.0.0.0''"

definition split_first :: "char \<Rightarrow> string \<Rightarrow> string \<times> string option" where
  "split_first c s = (case str_index [c] s of None \<Rightarrow> (s, None) | Some i \<Rightarrow> (take i s, Some (drop (Suc i) s)))"

text \<open>\<^verbatim>\<open>fmt.Sscanf(s, "%d", &n)\<close>: blanks, a sign, digits; the rest of the text is ignored.\<close>

definition is_blank :: "char \<Rightarrow> bool" where
  "is_blank c \<longleftrightarrow> (of_char c :: nat) \<in> {9, 11, 12, 13, 32}"

definition scan_d :: "string \<Rightarrow> int option" where
  "scan_d s =
     (let s = dropWhile is_blank s;
          neg = (s \<noteq> [] \<and> hd s = CHR ''-'');
          s = (if s \<noteq> [] \<and> (hd s = CHR ''-'' \<or> hd s = CHR ''+'') then tl s else s);
          ds = takeWhile is_digit s;
          v = (if neg then - int (dec_val ds) else int (dec_val ds))
      in if ds = [] then None else if v < - (2 ^ 63) \<or> 2 ^ 63 \<le> v then None else Some v)"

definition getSource :: "string \<Rightarrow> (go_error, source) result" where
  "getSource src =
     (case split_first (CHR ''|'') src of (src, protos) \<Rightarrow>
      let protocols = (case protos of None \<Rightarrow> [''tcp''] | Some p \<Rightarrow> split_on (CHR ''+'') p) in
      if \<not> list_all (\<lambda>p. p = ''tcp'' \<or> p = ''udp'') protocols then Inl (PlainErr ''invalid protocol'')
      else (case split_first (CHR '':'') src of (a, b) \<Rightarrow>
        (case scan_d (case b of None \<Rightarrow> a | Some b \<Rightarrow> b) of
           None \<Rightarrow> Inl (PlainErr ''expected integer'')
         | Some port \<Rightarrow>
             if port \<le> 0 \<or> 65536 \<le> port then Inl (PlainErr ''invalid port number'')
             else Inr \<lparr>src_ip = (case b of None \<Rightarrow> addressAll | Some b \<Rightarrow> a), src_port = port, src_protocols = protocols\<rparr>)))"

definition source_match :: "source \<Rightarrow> string \<Rightarrow> string" where
  "source_match s proto =
     (case ParseIP (src_ip s) of
        Some addr \<Rightarrow>
          if src_ip s = ''0.0.0.0'' then proto @ '' dport '' @ itoa_int (src_port s)
          else ''ip saddr '' @ src_ip s @ '' '' @ proto @ '' dport '' @ itoa_int (src_port s)
      | None \<Rightarrow> (case ParseCIDR (src_ip s) of
          Some p \<Rightarrow> ''ip saddr '' @ src_ip s @ '' '' @ proto @ '' dport '' @ itoa_int (src_port s)
        | None \<Rightarrow> ''iifname \"'' @ src_ip s @ ''\" '' @ proto @ '' dport '' @ itoa_int (src_port s)))"

definition Matches :: "source \<Rightarrow> string list" where
  "Matches s = map (source_match s) (src_protocols s)"

record fwd =
  fw_ns :: string
  fw_source :: source
  fw_port :: int
  fw_ip :: string

definition fwd_rule :: "fwd \<Rightarrow> string \<Rightarrow> string" where
  "fwd_rule r m = ''ip daddr @host '' @ m @ '' dnat to '' @ fw_ip r @ '':'' @ itoa_int (fw_port r)"

definition Rules :: "fwd \<Rightarrow> string list" where
  "Rules r = map (fwd_rule r) (Matches (fw_source r))"

section \<open>Forwards: \<^verbatim>\<open>socat.go\<close>\<close>

record socat =
  sc_rules :: "(int \<times> fwd) list"
  sc_reserved :: "string \<Rightarrow> int option"

definition newSocat :: socat where
  "newSocat = \<lparr>sc_rules = [], sc_reserved = (\<lambda>p. None)\<rparr>"

definition ValidHost :: "string \<Rightarrow> bool" where
  "ValidHost host = (case getSource host of Inr s \<Rightarrow> True | Inl e \<Rightarrow> False)"

definition forwardID :: "string \<Rightarrow> int \<Rightarrow> int \<Rightarrow> string" where
  "forwardID ns host dest = ''socat-'' @ ns @ ''-'' @ itoa_int host @ ''-'' @ itoa_int dest"

text \<open>The rules in the chain \<^verbatim>\<open>pre\<close> of the table \<^verbatim>\<open>nat\<close>; setting them declares the set \<^verbatim>\<open>host\<close> too.\<close>

definition nat_rules :: "(string \<times> string list) list \<Rightarrow> string list \<Rightarrow> nft" where
  "nat_rules sets rs = [(''nat'', \<lparr>tb_Family = ''ip'', tb_Chains = [(''pre'',
     \<lparr>ch_Type = [], ch_Hook = [], ch_Priority = 0, ch_Policy = [],
       ch_Rules = map (\<lambda>b. \<lparr>Handle = 0, Body = b\<rparr>) rs\<rparr>)], tb_Sets = sets\<rparr>)]"

definition SetPortForward ::
  "'k nft_tool \<Rightarrow> string \<Rightarrow> string \<Rightarrow> string \<Rightarrow> int \<Rightarrow> socat \<times> 'k \<Rightarrow> (go_error, unit) result \<times> socat \<times> 'k" where
  "SetPortForward E ns ip host dest = (\<lambda>(s, k).
     case getSource host of
       Inl e \<Rightarrow> (Inl e, s, k)
     | Inr src \<Rightarrow>
         if map_of (sc_rules s) (src_port src) \<noteq> None then (Inl (PlainErr ''port already in use''), s, k)
         else let r = \<lparr>fw_ns = forwardID ns (src_port src) dest, fw_source = src, fw_port = dest, fw_ip = ip\<rparr> in
           (case Apply E (nat_rules [(''host'', [])] (Rules r)) k of
              (Inl e, k') \<Rightarrow> (Inl e, s, k')
            | (Inr u, k') \<Rightarrow> (Inr (), s\<lparr>sc_rules := AList.update (src_port src) r (sc_rules s),
                sc_reserved := (sc_reserved s)(itoa_int (src_port src) := None)\<rparr>, k')))"

definition RemovePortForward ::
  "'k nft_tool \<Rightarrow> string \<Rightarrow> string \<Rightarrow> int \<Rightarrow> socat \<times> 'k \<Rightarrow> (go_error, unit) result \<times> socat \<times> 'k" where
  "RemovePortForward E ns host dest = (\<lambda>(s, k).
     case getSource host of
       Inl e \<Rightarrow> (Inl e, s, k)
     | Inr src \<Rightarrow> (case map_of (sc_rules s) (src_port src) of
         None \<Rightarrow> (Inl (PlainErr ''no port forward from host port''), s, k)
       | Some r \<Rightarrow>
           if fw_ns r \<noteq> forwardID ns (src_port src) dest then (Inl (PlainErr ''permission denied''), s, k)
           else (case DropRules E (nat_rules [] (Rules r)) k of
              (Inl e, k') \<Rightarrow> (Inl e, s, k')
            | (Inr u, k') \<Rightarrow> (Inr (), s\<lparr>sc_rules := AList.delete (src_port src) (sc_rules s)\<rparr>, k'))))"

definition in_namespace :: "string \<Rightarrow> int \<times> fwd \<Rightarrow> bool" where
  "in_namespace ns = (\<lambda>(host, r). has_prefix (''socat-'' @ ns) (fw_ns r))"

definition RemoveAll :: "'k nft_tool \<Rightarrow> string \<Rightarrow> socat \<times> 'k \<Rightarrow> (go_error, unit) result \<times> socat \<times> 'k" where
  "RemoveAll E ns = (\<lambda>(s, k).
     let mine = filter (in_namespace ns) (sc_rules s);
         toDelete = concat (map (\<lambda>(host, r). Rules r) mine)
     in if toDelete = [] then (Inr (), s, k)
        else (case DropRules E (nat_rules [] toDelete) k of
           (Inl e, k') \<Rightarrow> (Inl e, s, k')
         | (Inr u, k') \<Rightarrow> (Inr (), s\<lparr>sc_rules := fold AList.delete (map fst mine) (sc_rules s)\<rparr>, k')))"

section \<open>Reserving ports\<close>

definition is_reserved :: "int \<Rightarrow> (string \<Rightarrow> int option) \<Rightarrow> int \<Rightarrow> bool" where
  "is_reserved now res p = (case res (itoa_int p) of None \<Rightarrow> False | Some t \<Rightarrow> now \<le> t)"

function next_free :: "(int \<Rightarrow> bool) \<Rightarrow> int \<Rightarrow> int" where
  "next_free taken p = (if p \<le> 65536 \<and> taken p then next_free taken (p + 1) else p)"
  by pat_completeness auto
termination by (relation "measure (\<lambda>(t, p). nat (65537 - p))") auto

declare next_free.simps [simp del]

definition reserve_seconds :: int where "reserve_seconds = 120"

fun reserve_loop ::
  "int \<Rightarrow> (int \<Rightarrow> bool) \<Rightarrow> nat \<Rightarrow> int \<Rightarrow> (string \<Rightarrow> int option) \<Rightarrow> int list \<times> go_error option \<times> (string \<Rightarrow> int option)" where
  "reserve_loop now used 0 p res = ([], None, res)"
| "reserve_loop now used (Suc n) p res =
     (let p = next_free (\<lambda>q. used q \<or> is_reserved now res q) p in
      if p = 65536 then ([], Some (PlainErr ''pool is exhausted''), res)
      else (case reserve_loop now used n p (res(itoa_int p \<mapsto> now + reserve_seconds)) of
              (ps, err, res') \<Rightarrow> (p # ps, err, res')))"

text \<open>\<open>ports\<close> is the answer of the command \<^verbatim>\<open>info.port\<close>: the network and number of each open port.\<close>

definition Reserve ::
  "(go_error, (string \<times> int) list) result \<Rightarrow> int \<Rightarrow> int \<Rightarrow> socat \<Rightarrow> (int list \<times> go_error option) \<times> socat" where
  "Reserve info now n s = (case info of
     Inl e \<Rightarrow> (([], Some e), s)
   | Inr ports \<Rightarrow>
       let used = (\<lambda>p. (''tcp'', p) \<in> set ports \<or> map_of (sc_rules s) p \<noteq> None) in
       (case reserve_loop now used (nat n) 1024 (sc_reserved s) of
          (ps, err, res) \<Rightarrow> ((ps, err), s\<lparr>sc_reserved := res\<rparr>)))"

definition reserve_action ::
  "(go_error, (string \<times> int) list) result \<Rightarrow> int \<Rightarrow> int \<Rightarrow> socat \<Rightarrow> (int list \<times> go_error option) \<times> socat" where
  "reserve_action info now n s =
     (if n = 0 then (([], Some (BadRequestError ''reseve number cannot be zero'')), s) else Reserve info now n s)"

definition list_action :: "socat \<Rightarrow> (int \<times> string \<times> string) list" where
  "list_action s = map (\<lambda>(p, r). (p, src_ip (fw_source r) @ '':'' @ itoa_int (src_port (fw_source r)),
     fw_ip r @ '':'' @ itoa_int (fw_port r))) (sc_rules s)"

section \<open>Resolving: \<^verbatim>\<open>resolve.go\<close>\<close>

text \<open>The interfaces of the machine with their IPv4 addresses.\<close>

type_synonym nics = "(string \<times> ipv4 list) list"

definition getInterfaceMatch :: "nics \<Rightarrow> string \<Rightarrow> (string \<times> ipv4) option" where
  "getInterfaceMatch nics ip =
     find (\<lambda>(name, a). print_ipv4 a = ip) (concat (map (\<lambda>(name, as). map (\<lambda>a. (name, a)) as) nics))"

definition getRoutingInterface :: "(string \<times> ipnet list) list \<Rightarrow> string \<Rightarrow> (string \<times> ipnet) option" where
  "getRoutingInterface nics ip = (case ParseIP ip of None \<Rightarrow> None
     | Some a \<Rightarrow> find (\<lambda>(name, n). net_contains n a) (concat (map (\<lambda>(name, ns). map (\<lambda>n. (name, n)) ns) nics)))"

definition Resolve :: "nics \<Rightarrow> socat \<Rightarrow> string \<Rightarrow> string" where
  "Resolve nics s address = (case getSource address of
     Inl e \<Rightarrow> address
   | Inr src \<Rightarrow>
       if src_ip src = [] then address
       else (case getInterfaceMatch nics (src_ip src) of
         None \<Rightarrow> address
       | Some (nic, ip) \<Rightarrow> (case map_of (sc_rules s) (src_port src) of
           None \<Rightarrow> address
         | Some dst \<Rightarrow>
             let rewritten = fw_ip dst @ '':'' @ itoa_int (fw_port dst); sip = src_ip (fw_source dst) in
             if sip = [] \<or> sip = ''0.0.0.0'' \<or> sip = nic \<or> sip = print_ipv4 ip then rewritten
             else (case ParseCIDR sip of
               Some (a, network) \<Rightarrow> if net_contains network ip then rewritten else address
             | None \<Rightarrow> (case str_index ''*'' sip of
                 Some i \<Rightarrow> if 0 < i \<and> has_prefix (take i sip) nic then rewritten else address
               | None \<Rightarrow> address)))))"

section \<open>Following the addresses of the host: \<^verbatim>\<open>watch.go\<close>\<close>

record link =
  lk_name :: string
  lk_type :: string
  lk_addrs :: "ipv4 list"

definition getCurrentIPs :: "link list \<Rightarrow> string list" where
  "getCurrentIPs links = concat (map (\<lambda>l. map print_ipv4 (lk_addrs l)) (filter (\<lambda>l.
     lk_name l \<noteq> ''lo'' \<and> lk_type l \<in> set [''device'', ''tun'', ''tap'', ''openvswitch'', ''bridge'', ''bond''] \<and>
     \<not> has_prefix ''tun'' (lk_name l) \<and> \<not> has_prefix ''tap'' (lk_name l)) links))"

text \<open>One run of \<^verbatim>\<open>notify\<close>: \<open>current\<close> are the addresses of the run before.  Failures are only logged.\<close>

definition notify ::
  "'k nft_tool \<Rightarrow> (go_error, link list) result \<Rightarrow> string list \<times> 'k \<Rightarrow> string list \<times> 'k" where
  "notify E links = (\<lambda>(current, k). case links of
     Inl e \<Rightarrow> (current, k)
   | Inr links \<Rightarrow>
       let ips = getCurrentIPs links;
           stale = filter (\<lambda>ip. ip \<notin> set ips) current;
           k = fold (\<lambda>ip k. snd (IPv4SetDel E ''ip'' ''nat'' ''host'' [ip] k)) stale k;
           k = snd (IPv4Set E ''ip'' ''nat'' ''host'' ips k)
       in (remdups ips, k))"

section \<open>The invariant of the forwards\<close>

text \<open>One forward per host port; a forward is filed under the port of its source.\<close>

definition socat_ok :: "socat \<Rightarrow> bool" where
  "socat_ok s \<longleftrightarrow> distinct (map fst (sc_rules s)) \<and>
     list_all (\<lambda>(p, r). p = src_port (fw_source r) \<and> 0 < p \<and> p < 65536 \<and> has_prefix ''socat-'' (fw_ns r)) (sc_rules s)"

lemma getSource_port: "getSource h = Inr s \<Longrightarrow> 0 < src_port s \<and> src_port s < 65536"
  by (auto simp: getSource_def Let_def split: prod.splits option.splits if_splits)

lemma socat_ok_update:
  assumes "socat_ok s" "p = src_port (fw_source r)" "0 < p" "p < 65536" "has_prefix ''socat-'' (fw_ns r)"
  shows "socat_ok (s\<lparr>sc_rules := AList.update p r (sc_rules s), sc_reserved := res\<rparr>)"
proof -
  have "set (AList.update p r xs) \<subseteq> insert (p, r) (set xs)" for xs :: "(int \<times> fwd) list"
    by (induction xs) auto
  then show ?thesis
    using assms by (fastforce simp: socat_ok_def list_all_iff distinct_update)
qed

lemma socat_ok_delete:
  assumes "socat_ok s" shows "socat_ok (s\<lparr>sc_rules := AList.delete p (sc_rules s)\<rparr>)"
  using assms by (auto simp: socat_ok_def list_all_iff AList.delete_eq distinct_map_filter)

lemma socat_ok_deletes:
  "socat_ok s \<Longrightarrow> socat_ok (s\<lparr>sc_rules := fold AList.delete ps (sc_rules s)\<rparr>)"
proof (induction ps arbitrary: s)
  case (Cons p ps)
  show ?case using Cons.IH[OF socat_ok_delete[OF Cons.prems, of p]] by simp
qed simp

lemma forwardID_prefix: "has_prefix ''socat-'' (forwardID ns h d)"
  by (simp add: forwardID_def has_prefix_def)

lemma SetPortForward_ok [inv_intros]:
  assumes "socat_ok s" shows "socat_ok (fst (snd (SetPortForward E ns ip host dest (s, k))))"
proof (cases "getSource host")
  case (Inr src)
  show ?thesis
    using assms socat_ok_update[OF assms, of "src_port src"
        "\<lparr>fw_ns = forwardID ns (src_port src) dest, fw_source = src, fw_port = dest, fw_ip = ip\<rparr>"]
      getSource_port[OF Inr]
    by (auto simp: SetPortForward_def Inr Let_def forwardID_prefix split: prod.splits sum.splits)
qed (simp add: SetPortForward_def assms)

lemma RemovePortForward_ok [inv_intros]:
  assumes "socat_ok s" shows "socat_ok (fst (snd (RemovePortForward E ns host dest (s, k))))"
  using assms socat_ok_delete[OF assms]
  by (auto simp: RemovePortForward_def split: prod.splits sum.splits option.splits)

lemma RemoveAll_ok [inv_intros]:
  assumes "socat_ok s" shows "socat_ok (fst (snd (RemoveAll E ns (s, k))))"
  using assms socat_ok_deletes[OF assms]
  by (auto simp: RemoveAll_def Let_def split: prod.splits sum.splits)

section \<open>Namespaces\<close>

lemma itoa_int_no_dash: "0 \<le> i \<Longrightarrow> CHR ''-'' \<notin> set (itoa_int i)"
  using itoa_no_char[of "CHR ''-''"] by (simp add: itoa_int_def is_digit_def)

lemma dash_suffix:
  assumes "a @ CHR ''-'' # x = b @ CHR ''-'' # y" "CHR ''-'' \<notin> set x" "CHR ''-'' \<notin> set y"
  shows "a = b \<and> x = y"
proof -
  have "takeWhile (\<lambda>c. c \<noteq> CHR ''-'') (rev (u @ CHR ''-'' # v)) = rev v" if "CHR ''-'' \<notin> set v" for u v :: string
    using that by (simp, subst takeWhile_append2) auto
  with assms show ?thesis by (metis append_same_eq list.inject rev_rev_ident append_eq_append_conv)
qed

lemma forwardID_inject:
  assumes "0 \<le> d" "0 \<le> d'" shows "forwardID ns h d = forwardID ns' h d' \<longleftrightarrow> ns = ns' \<and> d = d'"
proof
  assume "forwardID ns h d = forwardID ns' h d'"
  then have "(ns @ ''-'' @ itoa_int h) @ CHR ''-'' # itoa_int d = (ns' @ ''-'' @ itoa_int h) @ CHR ''-'' # itoa_int d'"
    by (simp add: forwardID_def)
  from dash_suffix[OF this itoa_int_no_dash[OF assms(1)] itoa_int_no_dash[OF assms(2)]]
  show "ns = ns' \<and> d = d'" by simp
qed simp

text \<open>A forward is removed by its owner only: when a forward set in one namespace is there and
  \<^verbatim>\<open>RemovePortForward\<close> takes a forward of that host port away, it was called with the same namespace and
  the same destination port.\<close>

theorem RemovePortForward_owner_only:
  assumes "SetPortForward E ns ip host dest (s, k) = (Inr (), s1, k1)" and "0 \<le> dest"
    and "RemovePortForward E ns' host dest' (s1, k2) = (Inr (), s2, k3)" and "0 \<le> dest'"
  shows "ns' = ns \<and> dest' = dest"
proof -
  from assms(1) obtain src where g: "getSource host = Inr src"
    by (auto simp: SetPortForward_def split: sum.splits)
  have m: "map_option fw_ns (map_of (sc_rules s1) (src_port src)) = Some (forwardID ns (src_port src) dest)"
    using assms(1) g by (auto simp: SetPortForward_def Let_def update_conv split: sum.splits prod.splits if_splits)
  have "forwardID ns (src_port src) dest = forwardID ns' (src_port src) dest'"
    using assms(3) g m by (auto simp: RemovePortForward_def split: option.splits if_splits)
  then show ?thesis using forwardID_inject assms(2,4) by metis
qed

lemma RemoveAll_rules:
  assumes "RemoveAll E ns (s, k) = (Inr (), s', k')"
    and "concat (map (\<lambda>(host, r). Rules r) (filter (in_namespace ns) (sc_rules s))) \<noteq> []"
  shows "sc_rules s' = fold AList.delete (map fst (filter (in_namespace ns) (sc_rules s))) (sc_rules s)"
  using assms by (auto simp: RemoveAll_def Let_def simp del: concat_eq_Nil_conv split: prod.splits sum.splits)

text \<open>Removing all forwards of one container removes those of others: the namespace is compared as a
  prefix, so \<^verbatim>\<open>RemoveAll\<close> for container \<open>i\<close> takes away every forward of every container whose number
  starts with the digits of \<open>i\<close>.\<close>

theorem RemoveAll_removes_other_containers:
  assumes "RemoveAll E (''container-'' @ itoa i) (s, k) = (Inr (), s', k')"
    and "(p, r) \<in> set (sc_rules s)" and "fw_ns r = forwardID (''container-'' @ itoa j) p d"
    and "has_prefix (itoa i) (itoa j)" and "src_protocols (fw_source r) \<noteq> []"
  shows "map_of (sc_rules s') p = None"
proof -
  obtain x where "itoa j = itoa i @ x" using assms(4) by (auto simp: has_prefix_iff)
  then have m: "in_namespace (''container-'' @ itoa i) (p, r)"
    using assms(3) by (simp add: in_namespace_def forwardID_def has_prefix_def)
  define mine where "mine = filter (in_namespace (''container-'' @ itoa i)) (sc_rules s)"
  have in_mine: "(p, r) \<in> set mine" using m assms(2) by (simp add: mine_def)
  have "Rules r \<noteq> []" using assms(5) by (simp add: Rules_def Matches_def)
  then have "concat (map (\<lambda>(host, r). Rules r) mine) \<noteq> []" using in_mine by fastforce
  then have s': "sc_rules s' = fold AList.delete (map fst mine) (sc_rules s)"
    using RemoveAll_rules[OF assms(1)] by (simp add: mine_def)
  have "p \<in> set ps \<Longrightarrow> map_of (fold AList.delete ps al) p = None" for ps and al :: "(int \<times> fwd) list"
  proof (induction ps arbitrary: al)
    case (Cons q ps)
    have gone: "map_of al p = None \<Longrightarrow> map_of (fold AList.delete qs al) p = None" for qs and al :: "(int \<times> fwd) list"
      by (induction qs arbitrary: al) (auto simp: delete_conv)
    show ?case using Cons gone[of "AList.delete q al" ps] by (cases "p = q") (auto simp: delete_conv)
  qed simp
  then show ?thesis using in_mine by (force simp: s')
qed

text \<open>A forward whose source names a protocol twice can never be removed: the firewall then holds two
  rules with one body, finding rules gives both the handle of the first, and the second deletion fails,
  so \<^verbatim>\<open>RemovePortForward\<close> fails, whatever the state of the firewall, and keeps the forward.\<close>

theorem repeated_protocol_never_removed:
  assumes "nft_deletes E live"
    and "getSource host = Inr src" and "\<not> distinct (src_protocols src)"
    and "SetPortForward E ns ip host dest (s, k) = (Inr (), s', k')"
  shows "\<exists>e k2. RemovePortForward E ns host dest (s', k1) = (Inl e, s', k2)"
proof -
  define r where "r = \<lparr>fw_ns = forwardID ns (src_port src) dest, fw_source = src, fw_port = dest, fw_ip = ip\<rparr>"
  have m: "map_of (sc_rules s') (src_port src) = Some r"
    using assms(2,4) by (auto simp: SetPortForward_def Let_def update_conv r_def split: sum.splits prod.splits if_splits)
  have "\<not> distinct (Rules r)"
    using assms(3) by (auto simp: Rules_def Matches_def r_def distinct_map)
  then have d: "\<not> distinct (rule_bodies (nat_rules [] (Rules r)))"
    by (simp add: rule_bodies_def nat_rules_def distinct_map o_def)
  have "no_handles (nat_rules [] (Rules r))"
    by (simp add: no_handles_def rule_refs_def nat_rules_def list_all_iff)
  then obtain e where "fst (DropRules E (nat_rules [] (Rules r)) k1) = Inl e"
    using DropRules_repeated[OF assms(1) _ d] by blast
  then show ?thesis
    using assms(2) m
    by (cases "DropRules E (nat_rules [] (Rules r)) k1") (auto simp: RemovePortForward_def r_def)
qed

section \<open>Reservations\<close>





section \<open>Resolving\<close>

lemma split_first_at: "c \<notin> set a \<Longrightarrow> split_first c (a @ c # b) = (a, Some b)"
  by (simp add: split_first_def str_index_single)

lemma split_first_none: "c \<notin> set a \<Longrightarrow> split_first c a = (a, None)"
  by (simp add: split_first_def str_index_single_None)

lemma blank_not_digit: "is_digit c \<Longrightarrow> \<not> is_blank c"
  by (auto simp: is_digit_def is_blank_def)

lemma scan_d_itoa: "n < 2 ^ 63 \<Longrightarrow> scan_d (itoa n) = Some (int n)"
proof -
  assume n: "n < 2 ^ 63"
  obtain c cs where c: "itoa n = c # cs" by (cases "itoa n") auto
  have d: "is_digit c" using itoa_digits[of n] c by simp
  have t: "takeWhile is_digit (itoa n) = itoa n"
    using itoa_digits[of n] by (simp add: takeWhile_eq_all_conv list_all_iff)
  have dr: "dropWhile is_blank (itoa n) = itoa n" using blank_not_digit[OF d] c by simp
  have "hd (itoa n) \<noteq> CHR ''-''" "hd (itoa n) \<noteq> CHR ''+''"
    using d c by (auto simp: is_digit_def)
  then show ?thesis using n by (simp add: scan_d_def Let_def t dr del: takeWhile_eq_all_conv)
qed

lemma getSource_at:
  assumes "CHR ''|'' \<notin> set a" "CHR '':'' \<notin> set a" "0 < n" "n < 65536"
  shows "getSource (a @ CHR '':'' # itoa n) = Inr \<lparr>src_ip = a, src_port = int n, src_protocols = [''tcp'']\<rparr>"
proof -
  have "CHR ''|'' \<notin> set (a @ CHR '':'' # itoa n)"
    using assms(1) itoa_no_char[of "CHR ''|''"] by (simp add: is_digit_def)
  then show ?thesis
    using assms(3,4) by (simp add: getSource_def split_first_none split_first_at[OF assms(2)] scan_d_itoa)
qed

lemma getInterfaceMatch_print:
  "getInterfaceMatch nics (print_ipv4 a) =
     map_option (\<lambda>(name, as). (name, a)) (find (\<lambda>(name, as). a \<in> set as) nics)"
proof (induction nics)
  case (Cons p nics)
  obtain name as where p: "p = (name, as)" by fastforce
  have app: "find P (xs @ ys) = (case find P xs of None \<Rightarrow> find P ys | Some x \<Rightarrow> Some x)" for P and xs ys :: "(string \<times> ipv4) list"
    by (induction xs) auto
  have "find (\<lambda>(name, b). print_ipv4 b = print_ipv4 a) (map (\<lambda>b. (name, b)) as) = (if a \<in> set as then Some (name, a) else None)"
    by (induction as) (auto simp: print_ipv4_inject)
  then show ?case
    using Cons by (simp add: getInterfaceMatch_def p app)
qed (simp add: getInterfaceMatch_def)

lemma itoa_int_nat: "0 \<le> i \<Longrightarrow> itoa_int i = itoa (nat i)"
  by (simp add: itoa_int_def)

text \<open>Resolving an address follows the forwards: after a forward of a port from the network
  \<open>net/n\<close> is set, the address \<open>a:port\<close> resolves to the end point of the forward exactly when \<open>a\<close> is an
  address of this machine inside the network, and to itself otherwise.\<close>

theorem Resolve_network_forward:
  assumes "SetPortForward E ns ip (print_ipv4 net @ ''/'' @ itoa n @ '':'' @ itoa p) dest (s, k) = (Inr (), s', k')"
    and "n \<le> 32" and "0 < p" and "p < 65536" and "\<forall>nic\<in>fst ` set nics. CHR ''/'' \<notin> set nic"
  shows "Resolve nics s' (print_ipv4 a @ '':'' @ itoa p) =
    (if (\<exists>as\<in>snd ` set nics. a \<in> set as) \<and> drop_bit (32 - n) a = drop_bit (32 - n) net
     then ip @ '':'' @ itoa_int dest else print_ipv4 a @ '':'' @ itoa p)"
proof -
  have dn: "\<not> is_digit (CHR ''|'')" "\<not> is_digit (CHR '':'')" by (simp_all add: is_digit_def)
  note nochar = itoa_no_char[OF dn(1)] itoa_no_char[OF dn(2)]
  have pc: "CHR ''|'' \<notin> set (print_ipv4 x)" "CHR '':'' \<notin> set (print_ipv4 x)" for x
    using print_ipv4_chars[of "CHR ''|''" x] print_ipv4_chars[of "CHR '':''" x] dn by simp_all
  define sip where "sip = print_ipv4 net @ ''/'' @ itoa n"
  have g1: "getSource (sip @ CHR '':'' # itoa p) = Inr \<lparr>src_ip = sip, src_port = int p, src_protocols = [''tcp'']\<rparr>"
    unfolding sip_def by (rule getSource_at) (use pc nochar assms(3,4) in auto)
  have g2: "getSource (print_ipv4 a @ CHR '':'' # itoa p) = Inr \<lparr>src_ip = print_ipv4 a, src_port = int p, src_protocols = [''tcp'']\<rparr>"
    by (rule getSource_at) (use pc assms(3,4) in auto)
  obtain r where r: "map_of (sc_rules s') (int p) = Some r" "fw_ip r = ip" "fw_port r = dest" "src_ip (fw_source r) = sip"
    using assms(1) g1 unfolding sip_def by (auto simp: SetPortForward_def Let_def update_conv split: sum.splits prod.splits if_splits)
  have sl: "CHR ''/'' \<in> set sip" by (simp add: sip_def)
  have c: "ParseCIDR sip = Some (net, \<lparr>net_ip = net AND cidr_mask n, net_len = n\<rparr>)"
    unfolding sip_def by (rule ParseCIDR_print[OF assms(2)])
  have other: "CHR ''/'' \<notin> set x \<Longrightarrow> sip \<noteq> x" for x using sl by metis
  have ne: "sip \<noteq> []" "sip \<noteq> ''0.0.0.0''" "sip \<noteq> print_ipv4 a"
    by (rule other, use print_ipv4_chars[of "CHR ''/''" a] in \<open>simp add: is_digit_def\<close>)+
  show ?thesis
  proof (cases "find (\<lambda>(name, as). a \<in> set as) nics")
    case None
    then have "\<not> (\<exists>as\<in>snd ` set nics. a \<in> set as)" by (force simp: find_None_iff)
    then show ?thesis by (simp add: Resolve_def g2 getInterfaceMatch_print None)
  next
    case (Some q)
    then have "q \<in> set nics \<and> (case q of (nic, as) \<Rightarrow> a \<in> set as)"
      unfolding find_Some_iff by (metis nth_mem)
    then obtain nic as where q: "q = (nic, as)" "(nic, as) \<in> set nics" "a \<in> set as"
      by (cases q) auto
    have "nic \<noteq> sip" using assms(5) q(2) sl by force
    moreover have "\<exists>as\<in>snd ` set nics. a \<in> set as" using q by force
    ultimately show ?thesis
      using Some q(1) r ne ParseCIDR_contains[OF c, of a]
      by (simp add: Resolve_def g2 getInterfaceMatch_print c Let_def)
  qed
qed

section \<open>Examples\<close>

text \<open>A tool that accepts everything and lists one forward, from port 8080 to 172.18.0.11:80.\<close>

definition nat_json :: json where
  "nat_json = JObj [(''nftables'', JArr
     [JObj [(''table'', JObj [(''family'', JStr ''ip''), (''name'', JStr ''nat'')])],
      JObj [(''chain'', JObj [(''table'', JStr ''nat''), (''name'', JStr ''pre'')])],
      JObj [(''rule'', JObj [(''table'', JStr ''nat''), (''chain'', JStr ''pre''), (''handle'', JNum 7),
        (''expr'', JArr [match_json (payload_json ''ip'' ''daddr'') (JStr ''@host''),
           match_json (payload_json ''tcp'' ''dport'') (JNum (int 8080)),
           JObj [(''dnat'', JObj [(''addr'', JStr ''172.18.0.11''), (''port'', JNum 80)])]])])]])]"

definition nat_tool :: "unit nft_tool" where
  "nat_tool = \<lparr>run_nft = (\<lambda>args k. (Inr [], k)), run_file = (\<lambda>t k. (Inr (), k)), json_dec = (\<lambda>t. Inr nat_json)\<rparr>"

lemma nat_rules_listed:
  "manager_GetRules nat_tool () = (Inr [(''nat'', \<lparr>tb_Family = ''ip'', tb_Chains = [(''pre'',
     \<lparr>ch_Type = [], ch_Hook = [], ch_Priority = 0, ch_Policy = [],
       ch_Rules = [\<lparr>Handle = 7, Body = ''ip daddr @host tcp dport 8080 dnat to 172.18.0.11:80''\<rparr>]\<rparr>)], tb_Sets = []\<rparr>)], ())"
  by (simp add: manager_GetRules_def nat_tool_def nat_json_def match_json_def payload_json_def parse_eval renderDnat_def)

definition fwd_8080 :: fwd where
  "fwd_8080 = \<lparr>fw_ns = forwardID ''container-10'' 8080 80,
     fw_source = \<lparr>src_ip = ''0.0.0.0'', src_port = 8080, src_protocols = [''tcp'']\<rparr>, fw_port = 80, fw_ip = ''172.18.0.11''\<rparr>"

lemma ParseIP_any: "ParseIP ''0.0.0.0'' = Some 0"
  by (simp add: ParseIP_def octet_ok_def is_digit_def dec_val_def digit_val_def of_octets_def)

lemma fwd_8080_rules: "Rules fwd_8080 = [''ip daddr @host tcp dport 8080 dnat to 172.18.0.11:80'']"
  by (simp add: Rules_def Matches_def source_match_def ParseIP_any fwd_rule_def fwd_8080_def itoa_int_def itoa_eval)

lemma drop_8080: "DropRules nat_tool (nat_rules [] (Rules fwd_8080)) () = (Inr (), ())"
  by (simp add: DropRules_def nat_rules_listed fwd_8080_rules drop_eval nat_rules_def) (simp add: Drop_def nat_tool_def)

lemma getSource_8080: "getSource ''8080'' = Inr \<lparr>src_ip = ''0.0.0.0'', src_port = 8080, src_protocols = [''tcp'']\<rparr>"
  by (simp add: getSource_def split_first_def has_prefix_def scan_d_def is_blank_def is_digit_def dec_val_def
      digit_val_def addressAll_def)

lemma set_8080: "SetPortForward nat_tool ''container-10'' ''172.18.0.11'' ''8080'' 80 (newSocat, ()) =
    (Inr (), newSocat\<lparr>sc_rules := [(8080, fwd_8080)]\<rparr>, ())"
  by (simp add: SetPortForward_def getSource_8080 newSocat_def Apply_def MarshalText_def table_marshal_def nat_rules_def
      nat_tool_def fwd_8080_def Let_def fun_eq_iff)

lemma RemovePortForward_owner_only_witness:
  "RemovePortForward nat_tool ''container-10'' ''8080'' 80 (newSocat\<lparr>sc_rules := [(8080, fwd_8080)]\<rparr>, ()) =
     (Inr (), newSocat, ()) \<and> ''container-10'' = ''container-10'' \<and> (80 :: int) = 80"
proof -
  have r: "RemovePortForward nat_tool ''container-10'' ''8080'' 80 (newSocat\<lparr>sc_rules := [(8080, fwd_8080)]\<rparr>, ()) =
     (Inr (), newSocat, ())"
    by (simp add: RemovePortForward_def getSource_8080 drop_8080) (simp add: fwd_8080_def newSocat_def)
  show ?thesis
    using r RemovePortForward_owner_only[OF set_8080 _ r] by simp
qed

lemma RemoveAll_removes_other_containers_witness:
  "let s = newSocat\<lparr>sc_rules := [(8080, fwd_8080)]\<rparr>; r = RemoveAll nat_tool (''container-'' @ itoa 1) (s, ())
   in map_of (sc_rules s) 8080 = Some fwd_8080 \<and> map_of (sc_rules (fst (snd r))) 8080 = None"
proof -
  let ?s = "newSocat\<lparr>sc_rules := [(8080, fwd_8080)]\<rparr>"
  have m: "in_namespace (''container-'' @ itoa 1) (8080, fwd_8080)"
    by (simp add: in_namespace_def fwd_8080_def forwardID_def has_prefix_def itoa_eval)
  have "RemoveAll nat_tool (''container-'' @ itoa 1) (?s, ()) = (Inr (), newSocat, ())"
    using m by (simp add: RemoveAll_def Let_def drop_8080 fwd_8080_rules[symmetric] del: fwd_8080_rules)
       (simp add: fwd_8080_rules newSocat_def drop_8080[unfolded fwd_8080_rules])
  note r = this
  have "map_of (sc_rules newSocat) 8080 = None"
    by (rule RemoveAll_removes_other_containers[OF r, of 8080 fwd_8080 10 80])
       (simp_all add: fwd_8080_def has_prefix_def itoa_eval)
  then show ?thesis using r by simp
qed

lemma repeated_protocol_never_removed_witness:
  "let r = SetPortForward (small_tool JNull) ''a'' ''10.0.0.2'' ''80|tcp+tcp'' 8080 (newSocat, [])
   in fst r = Inr () \<and> (\<exists>e k2. RemovePortForward (small_tool JNull) ''a'' ''80|tcp+tcp'' 8080 (fst (snd r), [3]) =
        (Inl e, fst (snd r), k2))"
proof -
  have g: "getSource ''80|tcp+tcp'' = Inr \<lparr>src_ip = ''0.0.0.0'', src_port = 80, src_protocols = [''tcp'', ''tcp'']\<rparr>"
    by (simp add: getSource_def split_first_def has_prefix_def scan_d_def is_blank_def is_digit_def dec_val_def
      digit_val_def addressAll_def)
  obtain s' k' where r: "SetPortForward (small_tool JNull) ''a'' ''10.0.0.2'' ''80|tcp+tcp'' 8080 (newSocat, []) = (Inr (), s', k')"
    by (simp add: SetPortForward_def g newSocat_def Apply_def MarshalText_def table_marshal_def nat_rules_def
      small_tool_def Let_def)
  show ?thesis
    using repeated_protocol_never_removed[OF small_tool_deletes g _ r, of "[3]"] by (simp add: r)
qed


lemma Resolve_network_forward_witness:
  "let r = SetPortForward nat_tool ''c'' ''172.18.0.2'' (print_ipv4 167772160 @ ''/'' @ itoa 8 @ '':'' @ itoa 80) 8080 (newSocat, ())
   in Resolve [(''eth0'', [167772165])] (fst (snd r)) (print_ipv4 167772165 @ '':'' @ itoa 80) = ''172.18.0.2:'' @ itoa_int 8080"
proof -
  have g: "getSource ((print_ipv4 167772160 @ CHR ''/'' # itoa 8) @ CHR '':'' # itoa 80) =
      Inr \<lparr>src_ip = print_ipv4 167772160 @ CHR ''/'' # itoa 8, src_port = int 80, src_protocols = [''tcp'']\<rparr>"
    by (rule getSource_at) (use print_ipv4_chars[of "CHR ''|''" 167772160] print_ipv4_chars[of "CHR '':''" 167772160] in
      \<open>simp_all add: is_digit_def itoa_eval\<close>)
  obtain s' where r: "SetPortForward nat_tool ''c'' ''172.18.0.2''
      (print_ipv4 167772160 @ ''/'' @ itoa 8 @ '':'' @ itoa 80) 8080 (newSocat, ()) = (Inr (), s', ())"
    using g by (simp add: SetPortForward_def newSocat_def Apply_def MarshalText_def table_marshal_def nat_rules_def
      nat_tool_def Let_def)
  have d: "drop_bit (32 - 8) (167772165 :: ipv4) = drop_bit (32 - 8) 167772160"
    by (simp add: drop_bit_eq_div)
  have "Resolve [(''eth0'', [167772165])] s' (print_ipv4 167772165 @ '':'' @ itoa 80) = ''172.18.0.2'' @ '':'' @ itoa_int 8080"
    by (subst Resolve_network_forward[OF r]) (simp_all add: d)
  then show ?thesis unfolding Let_def r by simp
qed

end
