(* ===== verification/Sequence.thy ===== *)
theory Sequence
  imports Prelude
begin

text \<open>
  Numbers handed out in a cycle: the container manager and the virtual machine manager number their
  guests with a 16-bit counter that is raised until the number is acceptable.  The search is shared;
  what "acceptable" means is a parameter.  The locale states what a client may rely on.
\<close>

definition seq_mod :: nat where "seq_mod = 65536"

text \<open>All numbers, in the order in which the counter reaches them from \<open>s\<close>.\<close>

definition around :: "16 word \<Rightarrow> 16 word list" where
  "around s = map (\<lambda>k. s + of_nat k) [Suc 0..<Suc seq_mod]"

text \<open>The loop: raise the counter until the number is acceptable.  \<open>None\<close> is a loop that does not end;
  \<open>seq_mod\<close> rounds visit every number, so more rounds add nothing.\<close>

fun seq_search :: "nat \<Rightarrow> (16 word \<Rightarrow> bool) \<Rightarrow> 16 word \<Rightarrow> 16 word option" where
  "seq_search 0 ok s = None"
| "seq_search (Suc n) ok s = (let s = s + 1 in if ok s then Some s else seq_search n ok s)"

definition next_seq :: "(16 word \<Rightarrow> bool) \<Rightarrow> 16 word \<Rightarrow> 16 word option" where
  "next_seq = seq_search seq_mod"

lemma of_nat_seq_mod [simp]: "(of_nat seq_mod :: 16 word) = 0"
  by (simp add: seq_mod_def)

lemma seq_search_find: "seq_search n ok s = find ok (map (\<lambda>k. s + of_nat k) [Suc 0..<Suc n])"
proof (induction n arbitrary: s)
  case (Suc n)
  have u: "[Suc 0..<Suc (Suc n)] = Suc 0 # map Suc [Suc 0..<Suc n]"
    by (subst upt_conv_Cons) (simp_all add: map_Suc_upt del: upt_Suc)
  show ?case by (simp add: Let_def Suc.IH u o_def add.assoc add.commute add.left_commute del: upt_Suc)
qed simp

lemma next_seq_find: "next_seq ok s = find ok (around s)"
  by (simp add: next_seq_def around_def seq_search_find)

lemma next_seq_step: "next_seq ok s = (if ok (s + 1) then Some (s + 1) else seq_search 65535 ok (s + 1))"
proof -
  have m: "seq_mod = Suc 65535" by (simp add: seq_mod_def)
  show ?thesis unfolding next_seq_def m seq_search.simps(2) Let_def ..
qed

lemma of_nat_inj: "i < seq_mod \<Longrightarrow> j < seq_mod \<Longrightarrow> (of_nat i :: 16 word) = of_nat j \<longleftrightarrow> i = j"
  by (simp add: seq_mod_def word_of_nat_eq_iff take_bit_nat_eq_self)

lemma find_filter: "find P xs = (case filter P xs of [] \<Rightarrow> None | x # r \<Rightarrow> Some x)"
  by (induction xs) auto

lemma around_distinct: "distinct (around s)"
proof -
  have "inj_on (\<lambda>k. s + of_nat k :: 16 word) {Suc 0..<Suc seq_mod}"
  proof (rule inj_onI)
    fix i j assume i: "i \<in> {Suc 0..<Suc seq_mod}" and j: "j \<in> {Suc 0..<Suc seq_mod}"
      and eq: "s + of_nat i = s + (of_nat j :: 16 word)"
    have r: "(of_nat k :: 16 word) = of_nat (if k = seq_mod then 0 else k)" for k by simp
    have "(if i = seq_mod then 0 else i) = (if j = seq_mod then 0 else j)"
      using eq i j r[of i] r[of j] of_nat_inj[of "if i = seq_mod then 0 else i" "if j = seq_mod then 0 else j"]
      by (auto simp: seq_mod_def split: if_splits)
    then show "i = j" using i j by (auto split: if_splits)
  qed
  then show ?thesis by (simp add: around_def distinct_map del: upt_Suc)
qed

lemma length_around [simp]: "length (around s) = seq_mod"
  by (simp add: around_def del: upt_Suc)

lemma around_all: "x \<in> set (around s)"
proof -
  have "card (set (around s)) = seq_mod" using around_distinct[of s]
    by (simp add: distinct_card)
  moreover have "card (UNIV :: 16 word set) = seq_mod" by (simp add: card_word seq_mod_def)
  ultimately have "set (around s) = UNIV" by (intro card_subset_eq) auto
  then show ?thesis by simp
qed

text \<open>The order from a number further on is the same cycle.\<close>

lemma around_rotate:
  assumes "around s = xs @ t # ys" shows "around t = ys @ xs @ [t]"
proof -
  let ?i = "length xs"
  have l: "length (around s) = seq_mod" by simp
  have i: "Suc ?i \<le> seq_mod" using arg_cong[OF assms, of length] l by simp
  have nth: "around s ! k = s + of_nat (Suc k)" if "k < seq_mod" for k
    using that by (simp add: around_def del: upt_Suc)
  have t: "t = s + of_nat (Suc ?i)" using nth[of ?i] i assms by (metis Suc_le_lessD nth_append_length)
  show ?thesis
  proof (rule nth_equalityI)
    show "length (around t) = length (ys @ xs @ [t])"
      using arg_cong[OF assms, of length] l by simp
    fix k assume "k < length (around t)"
    then have k: "k < seq_mod" by simp
    have at: "around t ! k = s + of_nat (Suc ?i + Suc k)"
      using k t by (simp add: around_def add.assoc del: upt_Suc)
    have ly: "length ys = seq_mod - Suc ?i" using arg_cong[OF assms, of length] l by simp
    show "around t ! k = (ys @ xs @ [t]) ! k"
    proof (cases "k < length ys")
      case True
      have "ys ! k = around s ! (Suc ?i + k)" by (simp add: assms nth_append)
      also have "\<dots> = s + of_nat (Suc (Suc ?i + k))" using True ly by (intro nth) simp
      finally show ?thesis using True at by (simp add: nth_append)
    next
      case False
      define j where "j = k - length ys"
      have kj: "Suc ?i + Suc k = seq_mod + Suc j" using False ly i by (simp add: j_def)
      have j: "j \<le> ?i" using k ly i by (simp add: j_def)
      have "(xs @ [t]) ! j = around s ! j" using j by (auto simp: assms nth_append)
      also have "\<dots> = s + of_nat (Suc j)" using j i by (intro nth) simp
      also have "(of_nat (Suc j) :: 16 word) = of_nat (Suc ?i + Suc k)"
        unfolding kj by (simp only: of_nat_add of_nat_seq_mod add_0)
      finally show ?thesis using False at by (simp add: nth_append j_def)
    qed
  qed
qed

section \<open>The interface\<close>

text \<open>A client takes numbers with \<open>nxt\<close>, each search going on from the number before.\<close>

fun take_ids :: "(16 word \<Rightarrow> 16 word option) \<Rightarrow> nat \<Rightarrow> 16 word \<Rightarrow> 16 word list option" where
  "take_ids nxt 0 s = Some []"
| "take_ids nxt (Suc n) s = (case nxt s of None \<Rightarrow> None | Some t \<Rightarrow> map_option (Cons t) (take_ids nxt n t))"

locale cyclic_ids =
  fixes nxt :: "16 word \<Rightarrow> 16 word option" and ok :: "16 word \<Rightarrow> bool"
  assumes nxt_first: "nxt s = find ok (around s)"
begin

lemma nxt_ok: "nxt s = Some t \<Longrightarrow> ok t"
  by (auto simp: nxt_first find_Some_iff)

lemma nxt_ends: "nxt s \<noteq> None \<longleftrightarrow> (\<exists>x. ok x)"
  using around_all[of _ s] by (auto simp: nxt_first find_None_iff)

lemma nxt_split:
  assumes "nxt s = Some t"
  obtains xs ys where "around s = xs @ t # ys" "filter ok xs = []"
proof -
  from assms obtain i where i: "i < length (around s)" "around s ! i = t" "\<forall>j<i. \<not> ok (around s ! j)"
    by (auto simp: nxt_first find_Some_iff)
  have "around s = take i (around s) @ t # drop (Suc i) (around s)"
    using id_take_nth_drop[OF i(1)] i(2) by simp
  moreover have "filter ok (take i (around s)) = []"
    using i by (auto simp: filter_empty_conv in_set_conv_nth)
  ultimately show ?thesis using that by blast
qed

text \<open>Taking up to as many numbers as there are gives all of them in cyclic order, none twice.\<close>

lemma take_ids_cycle:
  "n \<le> length (filter ok (around s)) \<Longrightarrow> take_ids nxt n s = Some (take n (filter ok (around s)))"
proof (induction n arbitrary: s)
  case (Suc n)
  then have "filter ok (around s) \<noteq> []" by auto
  then have "\<exists>x. ok x" by (auto simp: filter_empty_conv)
  then obtain t where t: "nxt s = Some t" using nxt_ends by blast
  then obtain xs ys where a: "around s = xs @ t # ys" and xs: "filter ok xs = []" by (rule nxt_split)
  have okt: "ok t" by (rule nxt_ok[OF t])
  have rot: "filter ok (around t) = filter ok ys @ [t]"
    using around_rotate[OF a] xs okt by simp
  have n: "n \<le> length (filter ok ys)" using Suc.prems a xs okt by simp
  have "take_ids nxt n t = Some (take n (filter ok ys))"
    using Suc.IH[of t] rot n by simp
  then show ?case using t a xs okt by simp
qed simp

lemma take_ids_distinct:
  assumes "n \<le> length (filter ok (around s))" "take_ids nxt n s = Some ids"
  shows "distinct ids \<and> list_all ok ids \<and> length ids = n"
proof -
  have i: "ids = take n (filter ok (around s))" using take_ids_cycle[OF assms(1)] assms(2) by simp
  have "set ids \<subseteq> {x. ok x}" unfolding i using set_take_subset[of n "filter ok (around s)"] by auto
  then show ?thesis using assms(1) around_distinct[of s] by (auto simp: i list_all_iff)
qed

text \<open>After all of them the first comes again.\<close>

lemma take_ids_wrap:
  assumes "take_ids nxt (length (filter ok (around s))) s = Some ids" and "ids \<noteq> []"
  shows "nxt (last ids) = Some (hd ids)"
proof -
  have ids: "ids = filter ok (around s)" using take_ids_cycle[of "length (filter ok (around s))" s] assms(1) by simp
  then have "ok (last ids)" "last ids \<in> set ids" using assms(2) last_in_set[of ids] by auto
  then obtain xs ys where a: "around s = xs @ last ids # ys"
    unfolding ids by (metis filter_is_subset split_list subsetD)
  have f: "ids = filter ok xs @ last ids # filter ok ys"
    using arg_cong[OF a, of "filter ok"] \<open>ok (last ids)\<close> by (simp flip: ids)
  have ys: "filter ok ys = []"
  proof (rule ccontr)
    assume ne: "filter ok ys \<noteq> []"
    then have "last ids = last (filter ok ys)" using arg_cong[OF f, of last] by simp
    then have "last ids \<in> set ys" using last_in_set[OF ne] by simp
    then show False using around_distinct[of s] a by simp
  qed
  have "filter ok (around (last ids)) = ids"
    unfolding around_rotate[OF a] using f ys \<open>ok (last ids)\<close> by simp
  then show ?thesis using assms(2) by (simp add: nxt_first find_filter split: list.split)
qed

end

end
