(* ===== verification/Containers.thy ===== *)
theory Containers
  imports Socat Sequence
begin

text \<open>
  The container manager (\<^verbatim>\<open>apps/plugins/containers/plugin\<close>): validating the arguments of a container,
  numbering containers, their addresses and device names, adding and removing network cards, looking
  containers up by tags, and their port forwards.  What asks the kernel or the file system (links,
  files, control groups, starting the process) is a parameter of the operation.
\<close>

section \<open>Data\<close>

datatype nic_state = NicStateNone | NicStateUnknown | NicStateConfigured | NicStateDestroyed | NicStateError

record network_config =
  nc_Dhcp :: bool
  nc_CIDR :: string
  nc_Gateway :: string
  nc_DNS :: "string list"

record nic =
  nic_Type :: string
  nic_ID :: string
  nic_HWAddress :: string
  nic_Name :: string
  nic_Config :: network_config
  nic_Monitor :: bool
  nic_State :: nic_state
  nic_Index :: int
  nic_OriginalHWAddress :: string

record cont_args =
  ca_Root :: string
  ca_Mount :: "(string \<times> string) list"
  ca_HostNetwork :: bool
  ca_Nics :: "nic list"
  ca_Port :: "(string \<times> int) list"
  ca_Tags :: "string list"
  ca_CGroups :: "(string \<times> string) list"

record container =
  ct_id :: "16 word"
  ct_Args :: cont_args
  ct_started :: bool

record cmanager =
  cm_sequence :: "16 word"
  cm_containers :: "(16 word \<times> container) list"

text \<open>What the checks ask of the system: the scheme and path of a URL, whether a file exists, the type
  of a link, whether a control group exists.\<close>

record sys_env =
  se_url :: "string \<Rightarrow> (go_error, string \<times> string) result"
  se_exists :: "string \<Rightarrow> bool"
  se_link :: "string \<Rightarrow> (go_error, string) result"
  se_cgroup :: "string \<times> string \<Rightarrow> bool"

definition DefaultBridgeName :: string where "DefaultBridgeName = ''core0''"
definition ContainersHardLimit :: nat where "ContainersHardLimit = 1000"

section \<open>Validation\<close>

definition mount_ok :: "sys_env \<Rightarrow> string \<times> string \<Rightarrow> (go_error, unit) result" where
  "mount_ok E = (\<lambda>(host, guest). case se_url E host of
     Inl e \<Rightarrow> Inl e
   | Inr (scheme, p) \<Rightarrow>
       if scheme \<noteq> [] then Inr ()
       else if \<not> has_prefix ''/'' p then Inl (PlainErr ''host path must be absolute'')
       else if \<not> has_prefix ''/'' guest then Inl (PlainErr ''guest path must be absolute'')
       else if \<not> se_exists E p then Inl (PlainErr ''host path does not exist'')
       else Inr ())"

definition port_ok :: "string \<times> int \<Rightarrow> (go_error, unit) result" where
  "port_ok = (\<lambda>(host, guest).
     if \<not> ValidHost host then Inl (PlainErr ''invalid host port'')
     else if guest < 0 \<or> 65535 < guest then Inl (PlainErr ''invalid guest port'')
     else Inr ())"

definition live :: "nic list \<Rightarrow> nic list" where
  "live = filter (\<lambda>n. nic_State n \<noteq> NicStateDestroyed)"

text \<open>The counter of bridges and links is a list of the names seen: a name may be seen once.\<close>

definition count_once :: "string \<Rightarrow> string list \<Rightarrow> (go_error, string list) result" where
  "count_once b seen = (if b \<in> set seen then Inl (PlainErr ''connecting more than one time is not allowed'')
     else Inr (b # seen))"

definition nic_check :: "sys_env \<Rightarrow> nic \<Rightarrow> string list \<Rightarrow> (go_error, string list) result" where
  "nic_check E n seen =
     (if nic_Type n = ''default'' then count_once DefaultBridgeName seen
      else if nic_Type n = ''bridge'' then
        (if nic_ID n = DefaultBridgeName then Inl (PlainErr ''please use type default instead'')
         else count_once (nic_ID n) seen)
      else if nic_Type n = ''passthrough'' \<or> nic_Type n = ''macvlan'' then
        rbind (se_link E (nic_ID n)) (\<lambda>ltype.
          if ltype \<noteq> ''device'' \<and> ltype \<noteq> ''dummy'' then Inl (PlainErr ''please use link with type device instead'')
          else count_once (nic_ID n) seen)
      else if nic_Type n = ''vlan'' \<or> nic_Type n = ''vxlan'' \<or> nic_Type n = ''zerotier'' then Inr seen
      else Inl (PlainErr ''unsupported network type''))"

definition name_check :: "nic \<Rightarrow> string list \<Rightarrow> (go_error, string list) result" where
  "name_check n names =
     (if nic_Name n = [] then Inr names
      else if nic_Name n \<in> set names then Inl (PlainErr ''name is passed twice in the container'')
      else if 15 < length (nic_Name n) then Inl (PlainErr ''invalid name too long'')
      else if nic_Name n = ''default'' then Inl (PlainErr ''invalid name'')
      else if has_prefix ''eth'' (nic_Name n) \<or> has_prefix ''zt'' (nic_Name n)
        then Inl (PlainErr ''name cannot be used as it is started with eth or zt'')
      else Inr (nic_Name n # names))"

definition Validate :: "sys_env \<Rightarrow> cont_args \<Rightarrow> (go_error, unit) result" where
  "Validate E c =
     (if ca_Root c = [] then Inl (PlainErr ''root plist is required'')
      else rbind (rmap (mount_ok E) (ca_Mount c)) (\<lambda>_.
           rbind (rmap port_ok (ca_Port c)) (\<lambda>_.
           rbind (rfold (nic_check E) (live (ca_Nics c)) []) (\<lambda>_.
           rbind (rfold name_check (live (ca_Nics c)) []) (\<lambda>_.
           if list_all (se_cgroup E) (ca_CGroups c) then Inr () else Inl (PlainErr ''invalid cgroup''))))))"

section \<open>Names and addresses\<close>

definition forwardId :: "16 word \<Rightarrow> string" where
  "forwardId i = ''container-'' @ itoa (unat i)"

definition zerotierID :: "16 word \<Rightarrow> string" where
  "zerotierID i = ''container-'' @ itoa (unat i) @ ''-zerotier''"

text \<open>The device of card \<open>idx\<close> on the host; the other end of its pair; its name inside the container.\<close>

definition link_name :: "16 word \<Rightarrow> nat \<Rightarrow> bool \<Rightarrow> string" where
  "link_name i idx mon = (if mon then ''contm'' else ''cont'') @ itoa (unat i) @ ''-'' @ itoa idx"

definition peer_name :: "string \<Rightarrow> string" where "peer_name n = n @ ''p''"

definition device_name :: "nat \<Rightarrow> nic \<Rightarrow> string" where
  "device_name idx n = (if nic_Name n \<noteq> [] then nic_Name n else ''eth'' @ itoa idx)"

text \<open>\<^verbatim>\<open>getDefaultIP\<close>: the two low bytes of the address are the number of the container plus one.\<close>

definition getDefaultIP :: "16 word \<Rightarrow> ipv4" where
  "getDefaultIP i = (let base = i + 1 in
     of_octets 172 18 (unat (drop_bit 8 (base AND 0xff00))) (unat (base AND 0x00ff)))"

definition BridgeIP :: ipv4 where "BridgeIP = of_octets 172 18 0 1"

section \<open>The manager\<close>

definition id_free :: "cmanager \<Rightarrow> 16 word \<Rightarrow> bool" where
  "id_free m s \<longleftrightarrow> s \<noteq> 0 \<and> s < 0xffff \<and> map_of (cm_containers m) s = None"

definition getNextSequence :: "cmanager \<Rightarrow> ((16 word) \<times> cmanager) option" where
  "getNextSequence m = (case next_seq (id_free m) (cm_sequence m) of
     None \<Rightarrow> None | Some s \<Rightarrow> Some (s, m\<lparr>cm_sequence := s\<rparr>))"

definition setContainer :: "16 word \<Rightarrow> container \<Rightarrow> cmanager \<Rightarrow> cmanager" where
  "setContainer i c m = m\<lparr>cm_containers := AList.update i c (cm_containers m)\<rparr>"

definition unsetContainer :: "16 word \<Rightarrow> cmanager \<Rightarrow> cmanager" where
  "unsetContainer i m = m\<lparr>cm_containers := AList.delete i (cm_containers m)\<rparr>"

text \<open>\<open>start\<close> is \<^verbatim>\<open>Start\<close>, which cleans up when it fails: the container is unset again.  \<open>None\<close>: the
  search for a number does not end.\<close>

definition createContainer ::
  "sys_env \<Rightarrow> nat \<Rightarrow> (container \<Rightarrow> go_error option) \<Rightarrow> cont_args \<Rightarrow> cmanager \<Rightarrow> ((go_error, 16 word) result \<times> cmanager) option" where
  "createContainer E mx start args m =
     (case Validate E args of
        Inl e \<Rightarrow> Some (Inl e, m)
      | Inr u \<Rightarrow>
          let limit = (if mx = 0 then ContainersHardLimit else mx) in
          if limit \<le> length (cm_containers m)
          then Some (Inl (ServiceUnavailableError ''reached the hard limit of containers''), m)
          else (case getNextSequence m of
            None \<Rightarrow> None
          | Some (i, m) \<Rightarrow>
              let c = \<lparr>ct_id = i, ct_Args = args, ct_started = False\<rparr>; m = setContainer i c m in
              (case start c of
                 Some e \<Rightarrow> Some (Inl e, unsetContainer i m)
               | None \<Rightarrow> Some (Inr i, setContainer i (c\<lparr>ct_started := True\<rparr>) m))))"

definition GetWithTags :: "string list \<Rightarrow> cmanager \<Rightarrow> container list" where
  "GetWithTags tags m = filter (\<lambda>c. list_all (\<lambda>t. t \<in> set (ca_Tags (ct_Args c))) tags) (map snd (cm_containers m))"

definition GetOneWithTags :: "string list \<Rightarrow> cmanager \<Rightarrow> container option" where
  "GetOneWithTags tags m = (case GetWithTags tags m of [] \<Rightarrow> None | c # cs \<Rightarrow> Some c)"

definition Of_container :: "16 word \<Rightarrow> cmanager \<Rightarrow> container option" where
  "Of_container i m = map_of (cm_containers m) i"

definition terminate_check :: "16 word \<Rightarrow> cmanager \<Rightarrow> (go_error, container) result" where
  "terminate_check i m = (case map_of (cm_containers m) i of
     None \<Rightarrow> Inl (PlainErr ''no container with id'')
   | Some c \<Rightarrow> if ct_started c then Inr c else Inl (PlainErr ''container was not started''))"

section \<open>Network cards\<close>

text \<open>\<^verbatim>\<open>preStartNetwork\<close> and \<^verbatim>\<open>postStartNetwork\<close>: \<open>setup\<close> does the work for a card of a known type.\<close>

definition preStartNetwork :: "(nic \<Rightarrow> go_error option) \<Rightarrow> nic \<Rightarrow> go_error option \<times> nic" where
  "preStartNetwork setup n =
     (let n = n\<lparr>nic_State := NicStateUnknown\<rparr>;
          err = (if nic_Type n \<in> set [''vxlan'', ''vlan'', ''default'', ''bridge'', ''macvlan'', ''passthrough'']
                 then setup n
                 else if nic_Type n = ''zerotier'' then None
                 else Some (BadRequestError (''unkown network type '' @ in_quotes (nic_Type n))))
      in (err, if err \<noteq> None then n\<lparr>nic_State := NicStateError\<rparr> else n))"

definition postStartNetwork :: "(string \<Rightarrow> nic \<Rightarrow> go_error option) \<Rightarrow> nat \<Rightarrow> nic \<Rightarrow> go_error option \<times> nic" where
  "postStartNetwork setup idx n =
     (let name = device_name idx n;
          err = (if nic_Type n \<in> set [''vxlan'', ''vlan'', ''zerotier'', ''default'', ''bridge'', ''macvlan'', ''passthrough'']
                 then setup name n else None)
      in (err, n\<lparr>nic_State := (if err \<noteq> None then NicStateError else NicStateConfigured)\<rparr>))"

definition set_nics :: "16 word \<Rightarrow> container \<Rightarrow> nic list \<Rightarrow> cmanager \<Rightarrow> cmanager" where
  "set_nics i c ns m = setContainer i (c\<lparr>ct_Args := (ct_Args c)\<lparr>ca_Nics := ns\<rparr>\<rparr>) m"

definition nicAdd ::
  "sys_env \<Rightarrow> (nic \<Rightarrow> go_error option) \<Rightarrow> (string \<Rightarrow> nic \<Rightarrow> go_error option) \<Rightarrow> 16 word \<Rightarrow> nic \<Rightarrow> cmanager \<Rightarrow>
   (go_error, unit) result \<times> cmanager" where
  "nicAdd E pre post i n m =
     (case map_of (cm_containers m) i of
        None \<Rightarrow> (Inl (NotFoundError ''container does not exist''), m)
      | Some c \<Rightarrow>
          if ca_HostNetwork (ct_Args c) then (Inl (BadRequestError ''cannot add a nic in host network mode''), m)
          else let n = n\<lparr>nic_State := NicStateUnknown\<rparr>;
                   old = ca_Nics (ct_Args c);
                   idx = length old;
                   args = (ct_Args c)\<lparr>ca_Nics := old @ [n]\<rparr> in
            (case Validate E args of
               Inl e \<Rightarrow> (Inl (BadRequestError (error_text e)), m)
             | Inr u \<Rightarrow> (case preStartNetwork pre n of
                 (Some e, n) \<Rightarrow> (Inl e, set_nics i c (old @ [n]) m)
               | (None, n) \<Rightarrow> (case postStartNetwork post idx n of
                   (Some e, n) \<Rightarrow> (Inl e, set_nics i c (old @ [n]) m)
                 | (None, n) \<Rightarrow> (Inr (), set_nics i c (old @ [n]) m)))))"

text \<open>\<open>leave\<close> leaves a zerotier network; \<open>dellink\<close> deletes a device inside the container by name;
  \<open>delbridge\<close> detaches and deletes the device on the host.\<close>

definition nicRemove ::
  "(string \<Rightarrow> go_error option) \<Rightarrow> (string \<Rightarrow> go_error option) \<Rightarrow> (string \<Rightarrow> go_error option) \<Rightarrow> 16 word \<Rightarrow> int \<Rightarrow> cmanager \<Rightarrow>
   (go_error, unit) result \<times> cmanager" where
  "nicRemove leave dellink delbridge i index m =
     (case map_of (cm_containers m) i of
        None \<Rightarrow> (Inl (NotFoundError ''container does not exist''), m)
      | Some c \<Rightarrow>
          let nics = ca_Nics (ct_Args c) in
          if index < 0 \<or> int (length nics) \<le> index then (Inl (BadRequestError ''nic index out of range''), m)
          else let k = nat index; n = nics ! k;
                   put = (\<lambda>st. set_nics i c (nics[k := n\<lparr>nic_State := st\<rparr>]) m) in
            if nic_State n \<noteq> NicStateConfigured then (Inl (PreconditionFailedError ''nic is in a wrong state''), m)
            else if nic_Type n = ''zerotier'' then
              (case leave (nic_ID n) of Some e \<Rightarrow> (Inl e, put NicStateError) | None \<Rightarrow> (Inr (), put NicStateDestroyed))
            else if nic_Type n = ''macvlan'' then
              (case dellink (''eth'' @ itoa k) of Some e \<Rightarrow> (Inl e, m) | None \<Rightarrow> (Inr (), put NicStateDestroyed))
            else (case delbridge (link_name i k (nic_Monitor n)) of
                Some e \<Rightarrow> (Inl e, put NicStateDestroyed) | None \<Rightarrow> (Inr (), put NicStateDestroyed)))"

section \<open>Port forwards\<close>

definition setPortForward ::
  "'k nft_tool \<Rightarrow> 16 word \<Rightarrow> string \<Rightarrow> int \<Rightarrow> socat \<times> 'k \<Rightarrow> (go_error, unit) result \<times> socat \<times> 'k" where
  "setPortForward T i host dest = SetPortForward T (forwardId i) (print_ipv4 (getDefaultIP i)) host dest"

fun setPortForwards ::
  "'k nft_tool \<Rightarrow> 16 word \<Rightarrow> (string \<times> int) list \<Rightarrow> socat \<times> 'k \<Rightarrow> (go_error, unit) result \<times> socat \<times> 'k" where
  "setPortForwards T i [] sk = (Inr (), sk)"
| "setPortForwards T i ((host, dest) # ps) sk = (case setPortForward T i host dest sk of
     (Inl e, sk') \<Rightarrow> (Inl e, sk') | (Inr u, sk') \<Rightarrow> setPortForwards T i ps sk')"

definition portforwardAdd ::
  "'k nft_tool \<Rightarrow> 16 word \<Rightarrow> string \<Rightarrow> int \<Rightarrow> cmanager \<times> socat \<times> 'k \<Rightarrow> (go_error, unit) result \<times> cmanager \<times> socat \<times> 'k" where
  "portforwardAdd T i host dest = (\<lambda>(m, sk).
     case map_of (cm_containers m) i of
       None \<Rightarrow> (Inl (NotFoundError ''container does not exist''), m, sk)
     | Some c \<Rightarrow>
         if \<not> list_ex (\<lambda>n. nic_Type n = ''default'') (ca_Nics (ct_Args c))
         then (Inl (PlainErr ''Container does not have a default nic''), m, sk)
         else (case setPortForward T i host dest sk of
           (Inl e, sk') \<Rightarrow> (Inl e, m, sk')
         | (Inr u, sk') \<Rightarrow> (Inr (), setContainer i (c\<lparr>ct_Args := (ct_Args c)
             \<lparr>ca_Port := AList.update host dest (ca_Port (ct_Args c))\<rparr>\<rparr>) m, sk')))"

definition portforwardRemove ::
  "'k nft_tool \<Rightarrow> 16 word \<Rightarrow> string \<Rightarrow> int \<Rightarrow> cmanager \<times> socat \<times> 'k \<Rightarrow> (go_error, unit) result \<times> cmanager \<times> socat \<times> 'k" where
  "portforwardRemove T i host dest = (\<lambda>(m, sk).
     case map_of (cm_containers m) i of
       None \<Rightarrow> (Inl (NotFoundError ''container does not exist''), m, sk)
     | Some c \<Rightarrow> (case RemovePortForward T (forwardId i) host dest sk of
           (Inl e, sk') \<Rightarrow> (Inl e, m, sk')
         | (Inr u, sk') \<Rightarrow> (Inr (), setContainer i (c\<lparr>ct_Args := (ct_Args c)
             \<lparr>ca_Port := AList.delete host (ca_Port (ct_Args c))\<rparr>\<rparr>) m, sk')))"

text \<open>What the end of a container does to the cards and forwards: the default card takes all forwards of
  the container along.\<close>

definition destroy_forwards :: "'k nft_tool \<Rightarrow> container \<Rightarrow> socat \<times> 'k \<Rightarrow> socat \<times> 'k" where
  "destroy_forwards T c sk =
     (if ca_HostNetwork (ct_Args c) then sk
      else fold (\<lambda>n sk. if nic_Type n = ''default'' then snd (RemoveAll T (forwardId (ct_id c)) sk) else sk)
             (ca_Nics (ct_Args c)) sk)"

section \<open>Addresses\<close>

lemma unat_low_byte: "unat ((b :: 16 word) AND 0x00ff) = unat b mod 256"
proof -
  have "b AND 0x00ff = take_bit 8 b" by (simp add: take_bit_eq_mask mask_eq_exp_minus_1)
  then have "unat (b AND 0x00ff) = take_bit 8 (unat b)" by (simp only: unsigned_take_bit_eq)
  also have "\<dots> = unat b mod 256" by (simp add: take_bit_nat_def)
  finally show ?thesis .
qed

lemma unat_high_byte: "unat (drop_bit 8 ((b :: 16 word) AND 0xff00)) = unat b div 256"
proof -
  have bl: "bit b i \<Longrightarrow> i < 16" for i using bit_imp_le_length[of b i] by simp
  have f: "(0xff00 :: 16 word) = push_bit 8 (mask 8)" by (simp add: mask_eq_exp_minus_1 push_bit_eq_mult)
  have "drop_bit 8 (b AND 0xff00) = drop_bit 8 b"
    unfolding f by (rule bit_word_eqI) (auto simp: bit_simps dest: bl)
  moreover have "unat b < 2 ^ 16" using unsigned_less[of b] by simp
  then have "unat (drop_bit 8 b) = drop_bit 8 (unat b)"
    by (simp only: unsigned_drop_bit_eq) (simp add: take_bit_nat_eq_self)
  ultimately show ?thesis by (simp add: drop_bit_nat_def)
qed

lemma getDefaultIP_eq: "getDefaultIP i = 2886860800 + of_nat (unat (i + 1))"
proof -
  let ?b = "unat (i + 1)"
  have "(172 * 256 + 18) * 256 * 256 + ((?b div 256) * 256 + ?b mod 256) = 2886860800 + ?b" by simp
  then have "((172 * 256 + 18) * 256 + ?b div 256) * 256 + ?b mod 256 = 2886860800 + ?b"
    by (simp add: algebra_simps)
  then show ?thesis
    unfolding getDefaultIP_def Let_def of_octets_def unat_low_byte unat_high_byte
    by (metis of_nat_add of_nat_numeral)
qed

lemma getDefaultIP_inject: "getDefaultIP i = getDefaultIP j \<longleftrightarrow> i = j"
proof -
  have b: "unat x < 65536" for x :: "16 word" using unsigned_less[of x] by simp
  have "(of_nat (unat (i + 1)) :: 32 word) = of_nat (unat (j + 1)) \<longleftrightarrow> unat (i + 1) = unat (j + 1)"
    using b[of "i + 1"] b[of "j + 1"] by (subst word_of_nat_eq_iff) (simp add: take_bit_nat_eq_self)
  moreover have "unat (i + 1) = unat (j + 1) \<longleftrightarrow> i = j" by (metis word_unat_eq_iff add_right_cancel)
  ultimately show ?thesis by (simp only: getDefaultIP_eq add_left_cancel)
qed

lemma BridgeIP_is_0: "BridgeIP = getDefaultIP 0"
  by (simp add: getDefaultIP_eq BridgeIP_def of_octets_def)

section \<open>The invariant of the manager\<close>

definition cm_ok :: "cmanager \<Rightarrow> bool" where
  "cm_ok m \<longleftrightarrow> distinct (map fst (cm_containers m)) \<and>
     list_all (\<lambda>(i, c). ct_id c = i \<and> i \<noteq> 0 \<and> i < 0xffff) (cm_containers m)"

lemma AList_update_set: "set (AList.update k v xs) \<subseteq> insert (k, v) (set xs)"
  by (induction xs) auto

lemma setContainer_ok [inv_intros]:
  assumes "cm_ok m" "ct_id c = i" "i \<noteq> 0" "i < 0xffff" shows "cm_ok (setContainer i c m)"
  using assms AList_update_set[of i c "cm_containers m"]
  by (fastforce simp: cm_ok_def setContainer_def list_all_iff distinct_update)

lemma unsetContainer_ok [inv_intros]: "cm_ok m \<Longrightarrow> cm_ok (unsetContainer i m)"
  by (auto simp: cm_ok_def unsetContainer_def list_all_iff AList.delete_eq distinct_map_filter)

interpretation container_ids: cyclic_ids "next_seq (id_free m)" "id_free m" for m
  by unfold_locales (rule next_seq_find)

lemma getNextSequence_free:
  assumes "getNextSequence m = Some (i, m')"
  shows "id_free m i \<and> cm_containers m' = cm_containers m"
  using assms container_ids.nxt_ok by (auto simp: getNextSequence_def split: option.splits)

lemma word16_lt_ffff: "(x :: 16 word) < 0xffff \<longleftrightarrow> x \<noteq> 0xffff"
proof -
  have "unat x < 65536" using unsigned_less[of x] by simp
  then show ?thesis by (auto simp: word_less_nat_alt word_unat_eq_iff)
qed

lemma card_ids: "card {i :: 16 word. i \<noteq> 0 \<and> i < 0xffff} = 65534"
proof -
  have "{i :: 16 word. i \<noteq> 0 \<and> i < 0xffff} = UNIV - {0, 0xffff}" by (auto simp: word16_lt_ffff)
  then show ?thesis by (simp add: card_Diff_subset card_word)
qed

lemma some_id_free:
  assumes "length (cm_containers m) < 65534" shows "\<exists>i. id_free m i"
proof (rule ccontr)
  assume "\<nexists>i. id_free m i"
  then have "{i :: 16 word. i \<noteq> 0 \<and> i < 0xffff} \<subseteq> fst ` set (cm_containers m)"
    by (auto simp: id_free_def map_of_eq_None_iff)
  then have "card {i :: 16 word. i \<noteq> 0 \<and> i < 0xffff} \<le> card (fst ` set (cm_containers m))"
    by (intro card_mono) auto
  also have "\<dots> \<le> length (cm_containers m)"
    by (metis card_length length_map list.set_map)
  finally show False using assms by (simp only: card_ids)
qed

section \<open>Creating containers\<close>

text \<open>Creating a container always returns, so long as the configured limit is at most 65534 (the default
  is 1000): below the limit there is a number that is not in use, so the search for one ends.\<close>

theorem createContainer_returns:
  assumes "mx \<le> 65534" shows "createContainer E mx start args m \<noteq> None"
proof (cases "length (cm_containers m) < (if mx = 0 then ContainersHardLimit else mx)")
  case True
  then have "length (cm_containers m) < 65534"
    using assms by (auto simp: ContainersHardLimit_def split: if_splits)
  then have "next_seq (id_free m) (cm_sequence m) \<noteq> None"
    using some_id_free container_ids.nxt_ends by metis
  then show ?thesis
    by (auto simp: createContainer_def getNextSequence_def Let_def split: sum.splits option.splits)
qed (auto simp: createContainer_def Let_def split: sum.splits)

text \<open>C19: A created container has a number that no other container has, between 1 and 65534, and with it
  an address that neither the bridge nor any other container has; a refused creation leaves the set of
  containers as it was; the invariant of the manager is kept.\<close>

theorem createContainer_fresh:
  assumes "cm_ok m" and "createContainer E mx start args m = Some (res, m')"
  shows "cm_ok m' \<and> (case res of
    Inr i \<Rightarrow> i \<noteq> 0 \<and> i < 0xffff \<and> i \<notin> fst ` set (cm_containers m) \<and> map_of (cm_containers m') i \<noteq> None \<and>
        getDefaultIP i \<noteq> BridgeIP \<and> getDefaultIP i \<notin> getDefaultIP ` fst ` set (cm_containers m) \<and>
        length (cm_containers m) < (if mx = 0 then 1000 else mx)
  | Inl e \<Rightarrow> map_of (cm_containers m') = map_of (cm_containers m))"
proof (cases "\<exists>u. Validate E args = Inr u \<and> length (cm_containers m) < (if mx = 0 then ContainersHardLimit else mx)")
  case True
  obtain i m1 where g: "getNextSequence m = Some (i, m1)"
    using assms(2) True by (auto simp: createContainer_def Let_def split: sum.splits option.splits)
  have free: "i \<noteq> 0" "i < 0xffff" "map_of (cm_containers m) i = None" and c1: "cm_containers m1 = cm_containers m"
    using getNextSequence_free[OF g] by (auto simp: id_free_def)
  define c where "c = \<lparr>ct_id = i, ct_Args = args, ct_started = False\<rparr>"
  have m1: "cm_ok m1" using assms(1) c1 by (simp add: cm_ok_def)
  have ok: "cm_ok (setContainer i c m1)" "cm_ok (setContainer i (c\<lparr>ct_started := True\<rparr>) (setContainer i c m1))"
    using free m1 by (auto simp: c_def intro!: setContainer_ok)
  have fresh: "i \<notin> fst ` set (cm_containers m)" using free(3) by (simp add: map_of_eq_None_iff)
  show ?thesis
  proof (cases "start c")
    case None
    then have "res = Inr i" "m' = setContainer i (c\<lparr>ct_started := True\<rparr>) (setContainer i c m1)"
      using assms(2) True g by (auto simp: createContainer_def Let_def c_def)
    then show ?thesis
      using ok free fresh True getDefaultIP_inject[of i] BridgeIP_is_0
      by (auto simp: setContainer_def update_conv ContainersHardLimit_def)
  next
    case (Some e)
    then have r: "res = Inl e" "m' = unsetContainer i (setContainer i c m1)"
      using assms(2) True g by (auto simp: createContainer_def Let_def c_def)
    have "map_of (cm_containers m') = map_of (cm_containers m)"
      using r free(3) c1 by (auto simp: unsetContainer_def setContainer_def delete_conv update_conv fun_eq_iff)
    then show ?thesis using r ok unsetContainer_ok by simp
  qed
next
  case False
  then have "m' = m \<and> (\<exists>e. res = Inl e)"
    using assms(2) by (auto simp: createContainer_def Let_def split: sum.splits if_splits)
  then show ?thesis using assms(1) by auto
qed

definition plain_env :: sys_env where
  "plain_env = \<lparr>se_url = (\<lambda>u. Inr ([], u)), se_exists = (\<lambda>p. True), se_link = (\<lambda>l. Inr ''device''), se_cgroup = (\<lambda>g. True)\<rparr>"

definition plain_nic :: "string \<Rightarrow> string \<Rightarrow> string \<Rightarrow> nic" where
  "plain_nic ty i name = \<lparr>nic_Type = ty, nic_ID = i, nic_HWAddress = [], nic_Name = name,
     nic_Config = \<lparr>nc_Dhcp = False, nc_CIDR = [], nc_Gateway = [], nc_DNS = []\<rparr>, nic_Monitor = False,
     nic_State = NicStateConfigured, nic_Index = 0, nic_OriginalHWAddress = []\<rparr>"

definition plain_args :: "nic list \<Rightarrow> cont_args" where
  "plain_args ns = \<lparr>ca_Root = ''zdb://hub/ubuntu.flist'', ca_Mount = [], ca_HostNetwork = False, ca_Nics = ns,
     ca_Port = [], ca_Tags = [''web''], ca_CGroups = []\<rparr>"

lemma plain_valid: "Validate plain_env (plain_args [plain_nic ''default'' [] []]) = Inr ()"
  by (simp add: Validate_def plain_env_def plain_args_def plain_nic_def live_def nic_check_def name_check_def count_once_def)

lemma createContainer_returns_witness:
  "createContainer plain_env 0 (\<lambda>c. None) (plain_args [plain_nic ''default'' [] []])
     \<lparr>cm_sequence = 0, cm_containers = []\<rparr> \<noteq> None"
  by (rule createContainer_returns) simp

lemma createContainer_fresh_witness:
  "\<exists>m'. createContainer plain_env 0 (\<lambda>c. None) (plain_args [plain_nic ''default'' [] []])
     \<lparr>cm_sequence = 0, cm_containers = []\<rparr> = Some (Inr 1, m') \<and> cm_ok m' \<and> getDefaultIP 1 \<noteq> BridgeIP"
proof -
  let ?m = "\<lparr>cm_sequence = 0, cm_containers = []\<rparr>"
  obtain m' where r: "createContainer plain_env 0 (\<lambda>c. None) (plain_args [plain_nic ''default'' [] []]) ?m = Some (Inr 1, m')"
    by (simp add: createContainer_def plain_valid getNextSequence_def next_seq_step id_free_def ContainersHardLimit_def Let_def)
  have "cm_ok ?m" by (simp add: cm_ok_def)
  from createContainer_fresh[OF this r] r show ?thesis by simp
qed

section \<open>Device names\<close>

lemma name_check_spec:
  "rfold name_check ns names = Inr names' \<Longrightarrow> distinct names \<Longrightarrow>
     distinct names' \<and> names' = rev (map nic_Name (filter (\<lambda>n. nic_Name n \<noteq> []) ns)) @ names \<and>
     list_all (\<lambda>n. nic_Name n \<noteq> [] \<longrightarrow> \<not> has_prefix ''eth'' (nic_Name n) \<and> length (nic_Name n) \<le> 15) ns"
proof (induction ns arbitrary: names)
  case (Cons n ns)
  then obtain l where l: "name_check n names = Inr l" "rfold name_check ns l = Inr names'"
    by (auto simp: rbind_eq_Inr)
  have "distinct l" using l(1) Cons.prems(2) by (auto simp: name_check_def split: if_splits)
  with Cons.IH[OF l(2)] l(1) show ?case by (auto simp: name_check_def split: if_splits)
qed simp

lemma distinct_filter_nth:
  "distinct (map f (filter Q xs)) \<Longrightarrow> i < j \<Longrightarrow> j < length xs \<Longrightarrow> Q (xs ! i) \<Longrightarrow> Q (xs ! j) \<Longrightarrow> f (xs ! i) \<noteq> f (xs ! j)"
proof (induction xs arbitrary: i j)
  case (Cons x xs)
  then obtain j' where j: "j = Suc j'" by (cases j) auto
  show ?case
  proof (cases i)
    case 0
    have "xs ! j' \<in> set (filter Q xs)" using Cons.prems j by auto
    then show ?thesis using Cons.prems 0 j by (auto simp: image_iff)
  next
    case (Suc i')
    then show ?thesis using Cons j by (auto split: if_splits)
  qed
qed simp

text \<open>Validation keeps the devices of a container apart: in accepted arguments two cards that are not
  destroyed never get the same device name inside the container, whether the names are given or made up
  from the position.\<close>

theorem Validate_device_names:
  assumes "Validate E c = Inr ()" and "i < j" and "j < length (ca_Nics c)"
    and "nic_State (ca_Nics c ! i) \<noteq> NicStateDestroyed" and "nic_State (ca_Nics c ! j) \<noteq> NicStateDestroyed"
  shows "device_name i (ca_Nics c ! i) \<noteq> device_name j (ca_Nics c ! j)"
proof -
  let ?Q = "\<lambda>n. nic_State n \<noteq> NicStateDestroyed \<and> nic_Name n \<noteq> []"
  obtain names where r: "rfold name_check (live (ca_Nics c)) [] = Inr names"
    using assms(1) by (auto simp: Validate_def rbind_eq_Inr split: if_splits)
  from name_check_spec[OF r] have d: "distinct (map nic_Name (filter ?Q (ca_Nics c)))"
    and e: "\<And>n. n \<in> set (live (ca_Nics c)) \<Longrightarrow> nic_Name n \<noteq> [] \<Longrightarrow> \<not> has_prefix ''eth'' (nic_Name n)"
    by (auto simp: live_def list_all_iff conj_commute)
  have mem: "ca_Nics c ! i \<in> set (live (ca_Nics c))" "ca_Nics c ! j \<in> set (live (ca_Nics c))"
    using assms(2-5) by (auto simp: live_def)
  have "nic_Name (ca_Nics c ! i) \<noteq> nic_Name (ca_Nics c ! j)"
    if "nic_Name (ca_Nics c ! i) \<noteq> []" "nic_Name (ca_Nics c ! j) \<noteq> []"
    using distinct_filter_nth[OF d assms(2,3)] assms(4,5) that by blast
  moreover have "nic_Name n \<noteq> ''eth'' @ itoa k" if "n \<in> set (live (ca_Nics c))" "nic_Name n \<noteq> []" for n k
    using e[OF that] by (auto simp: has_prefix_def)
  ultimately show ?thesis
    using mem assms(2) unfolding device_name_def by (auto dest: sym)
qed

lemma Validate_device_names_witness:
  "device_name 0 (plain_nic ''default'' [] []) \<noteq> device_name 1 (plain_nic ''macvlan'' ''eno1'' ''lan'')"
proof -
  let ?ns = "[plain_nic ''default'' [] [], plain_nic ''macvlan'' ''eno1'' ''lan'']"
  have "Validate plain_env (plain_args ?ns) = Inr ()"
    by (simp add: Validate_def plain_env_def plain_args_def plain_nic_def live_def nic_check_def name_check_def
        count_once_def has_prefix_def DefaultBridgeName_def)
  from Validate_device_names[OF this, of 0 1] show ?thesis by (simp add: plain_args_def plain_nic_def)
qed

text \<open>A card of type \<^verbatim>\<open>macvlan\<close> with a name of its own cannot be removed: \<^verbatim>\<open>postStartNetwork\<close> puts the
  device into the container under that name, while \<^verbatim>\<open>nicRemove\<close> deletes the device \<^verbatim>\<open>eth<index>\<close>; where that
  does not exist the removal fails and the card stays as it is.\<close>

theorem named_macvlan_not_removed:
  assumes "map_of (cm_containers m) i = Some c" and "k < length (ca_Nics (ct_Args c))"
    and "n = ca_Nics (ct_Args c) ! k" and "nic_Type n = ''macvlan''" and "nic_State n = NicStateConfigured"
    and "nic_Name n \<noteq> []" and "\<not> has_prefix ''eth'' (nic_Name n)"
    and "\<forall>name. dellink name = None \<longrightarrow> name = device_name k n"
  shows "\<exists>e. nicRemove leave dellink delbridge i (int k) m = (Inl e, m)"
proof -
  have "device_name k n \<noteq> ''eth'' @ itoa k" using assms(6,7) by (auto simp: device_name_def has_prefix_def)
  then obtain e where "dellink (''eth'' @ itoa k) = Some e" using assms(8) by (cases "dellink (''eth'' @ itoa k)") auto
  then show ?thesis using assms(1-5) by (simp add: nicRemove_def Let_def)
qed

lemma named_macvlan_not_removed_witness:
  "let c = \<lparr>ct_id = 1, ct_Args = plain_args [plain_nic ''macvlan'' ''eno1'' ''lan''], ct_started = True\<rparr>;
       m = \<lparr>cm_sequence = 1, cm_containers = [(1, c)]\<rparr>
   in \<exists>e. nicRemove (\<lambda>x. None) (\<lambda>d. if d = ''lan'' then None else Some (PlainErr ''no such device'')) (\<lambda>x. None) 1 (int 0) m =
        (Inl e, m)"
  unfolding Let_def
  by (rule named_macvlan_not_removed[where n = "plain_nic ''macvlan'' ''eno1'' ''lan''"])
     (auto simp: plain_args_def plain_nic_def has_prefix_def device_name_def split: if_splits)

end
