(* ===== verification/Kvm_Domain.thy ===== *)
theory Kvm_Domain
  imports Containers Steps
begin

text \<open>
  Virtual machines, the data (\<^verbatim>\<open>apps/plugins/kvm/plugin/{manager,domain}.go\<close>): the parameters of a machine
  and their checks, the description of a machine that is handed to libvirt (disks, file systems, cards,
  arguments of the emulator), addresses, and the way back from a description to the media of a machine.
  The package \<^verbatim>\<open>net/url\<close> is used through a record of the parts of a parsed address.
\<close>

section \<open>Parameters\<close>

text \<open>The limits of a disk: a value counts when its flag is set.\<close>

record io_params =
  TotalBytesSecSet :: bool
  TotalBytesSec :: "64 word"
  ReadBytesSecSet :: bool
  ReadBytesSec :: "64 word"
  WriteBytesSecSet :: bool
  WriteBytesSec :: "64 word"
  TotalIopsSecSet :: bool
  TotalIopsSec :: "64 word"
  ReadIopsSecSet :: bool
  ReadIopsSec :: "64 word"
  WriteIopsSecSet :: bool
  WriteIopsSec :: "64 word"
  TotalBytesSecMaxSet :: bool
  TotalBytesSecMax :: "64 word"
  ReadBytesSecMaxSet :: bool
  ReadBytesSecMax :: "64 word"
  WriteBytesSecMaxSet :: bool
  WriteBytesSecMax :: "64 word"
  TotalIopsSecMaxSet :: bool
  TotalIopsSecMax :: "64 word"
  ReadIopsSecMaxSet :: bool
  ReadIopsSecMax :: "64 word"
  WriteIopsSecMaxSet :: bool
  WriteIopsSecMax :: "64 word"
  TotalBytesSecMaxLengthSet :: bool
  TotalBytesSecMaxLength :: "64 word"
  ReadBytesSecMaxLengthSet :: bool
  ReadBytesSecMaxLength :: "64 word"
  WriteBytesSecMaxLengthSet :: bool
  WriteBytesSecMaxLength :: "64 word"
  TotalIopsSecMaxLengthSet :: bool
  TotalIopsSecMaxLength :: "64 word"
  ReadIopsSecMaxLengthSet :: bool
  ReadIopsSecMaxLength :: "64 word"
  WriteIopsSecMaxLengthSet :: bool
  WriteIopsSecMaxLength :: "64 word"
  SizeIopsSecSet :: bool
  SizeIopsSec :: "64 word"
  GroupNameSet :: bool
  GroupName :: string

record io_tune =
  t_TotalBytesSec :: "64 word option"
  t_ReadBytesSec :: "64 word option"
  t_WriteBytesSec :: "64 word option"
  t_TotalIopsSec :: "64 word option"
  t_ReadIopsSec :: "64 word option"
  t_WriteIopsSec :: "64 word option"
  t_TotalBytesSecMax :: "64 word option"
  t_ReadBytesSecMax :: "64 word option"
  t_WriteBytesSecMax :: "64 word option"
  t_TotalIopsSecMax :: "64 word option"
  t_ReadIopsSecMax :: "64 word option"
  t_WriteIopsSecMax :: "64 word option"
  t_TotalBytesSecMaxLength :: "64 word option"
  t_ReadBytesSecMaxLength :: "64 word option"
  t_WriteBytesSecMaxLength :: "64 word option"
  t_TotalIopsSecMaxLength :: "64 word option"
  t_ReadIopsSecMaxLength :: "64 word option"
  t_WriteIopsSecMaxLength :: "64 word option"
  t_SizeIopsSec :: "64 word option"
  t_GroupName :: "string option"

definition when_set :: "bool \<Rightarrow> 'a \<Rightarrow> 'a option" where
  "when_set b v = (if b then Some v else None)"

definition IOTuneParamsToIOTune :: "io_params \<Rightarrow> io_tune" where
  "IOTuneParamsToIOTune p = \<lparr>
     t_TotalBytesSec = when_set (TotalBytesSecSet p) (TotalBytesSec p),
     t_ReadBytesSec = when_set (ReadBytesSecSet p) (ReadBytesSec p),
     t_WriteBytesSec = when_set (WriteBytesSecSet p) (WriteBytesSec p),
     t_TotalIopsSec = when_set (TotalIopsSecSet p) (TotalIopsSec p),
     t_ReadIopsSec = when_set (ReadIopsSecSet p) (ReadIopsSec p),
     t_WriteIopsSec = when_set (WriteIopsSecSet p) (WriteIopsSec p),
     t_TotalBytesSecMax = when_set (TotalBytesSecMaxSet p) (TotalBytesSecMax p),
     t_ReadBytesSecMax = when_set (ReadBytesSecMaxSet p) (ReadBytesSecMax p),
     t_WriteBytesSecMax = when_set (WriteBytesSecMaxSet p) (WriteBytesSecMax p),
     t_TotalIopsSecMax = when_set (TotalIopsSecMaxSet p) (TotalIopsSecMax p),
     t_ReadIopsSecMax = when_set (ReadIopsSecMaxSet p) (ReadIopsSecMax p),
     t_WriteIopsSecMax = when_set (WriteIopsSecMaxSet p) (WriteIopsSecMax p),
     t_TotalBytesSecMaxLength = when_set (TotalBytesSecMaxLengthSet p) (TotalBytesSecMaxLength p),
     t_ReadBytesSecMaxLength = when_set (ReadBytesSecMaxLengthSet p) (ReadBytesSecMaxLength p),
     t_WriteBytesSecMaxLength = when_set (WriteBytesSecMaxLengthSet p) (WriteBytesSecMaxLength p),
     t_TotalIopsSecMaxLength = when_set (TotalIopsSecMaxLengthSet p) (TotalIopsSecMaxLength p),
     t_ReadIopsSecMaxLength = when_set (ReadIopsSecMaxLengthSet p) (ReadIopsSecMaxLength p),
     t_WriteIopsSecMaxLength = when_set (WriteIopsSecMaxLengthSet p) (WriteIopsSecMaxLength p),
     t_SizeIopsSec = when_set (SizeIopsSecSet p) (SizeIopsSec p),
     t_GroupName = when_set (GroupNameSet p) (GroupName p)\<rparr>"

record go_url =
  u_Scheme :: string
  u_Hostname :: string
  u_Port :: string
  u_Host :: string
  u_Path :: string
  u_Query :: "(string \<times> string) list"
  u_String :: string

text \<open>\<^verbatim>\<open>Values.Get\<close>: the first value of a key, or the empty string.\<close>

definition query_get :: "(string \<times> string) list \<Rightarrow> string \<Rightarrow> string" where
  "query_get q k = (case map_of q k of None \<Rightarrow> [] | Some v \<Rightarrow> v)"

record media =
  md_URL :: string
  md_Type :: string
  md_Bus :: string
  md_IOTune :: "io_params option"

record kvm_nic =
  kn_Type :: string
  kn_ID :: string
  kn_HWAddress :: string

record kvm_mount =
  km_Source :: string
  km_Target :: string
  km_Readonly :: bool

text \<open>A Go map that was not in the arguments is nil: reading it is fine, writing to it panics.\<close>

type_synonym port_map = "(string \<times> int) list option"

record nic_params =
  np_Nics :: "kvm_nic list"
  np_Port :: port_map

record create_params = nic_params +
  cp_Name :: string
  cp_CPU :: int
  cp_Memory :: int
  cp_FList :: string
  cp_ShareCache :: bool
  cp_Cmdline :: string
  cp_Mount :: "kvm_mount list"
  cp_Media :: "media list"
  cp_Tags :: "string list"
  cp_KVM :: bool

definition KvmBridgeName :: string where "KvmBridgeName = ''kvm0''"

definition kvm_nic_check :: "kvm_nic \<Rightarrow> string list \<Rightarrow> (fault, string list) result" where
  "kvm_nic_check n seen =
     (if kn_Type n = ''default'' then
        (if KvmBridgeName \<in> set seen then fail ''only one default network is allowed'' else Inr (KvmBridgeName # seen))
      else if kn_Type n = ''bridge'' then
        (if kn_ID n = KvmBridgeName then fail ''cannot use the default bridge with nic type bridge''
         else if kn_ID n \<in> set seen then fail ''connecting to bridge more than one time is not allowed''
         else Inr (kn_ID n # seen))
      else if kn_Type n = ''vlan'' \<or> kn_Type n = ''vxlan'' then Inr seen
      else fail ''invalid nic type'')"

definition NicParams_Valid :: "'a nic_params_scheme \<Rightarrow> (fault, unit) result" where
  "NicParams_Valid c = rbind (rfold kvm_nic_check (np_Nics c) []) (\<lambda>_. Inr ())"

definition CreateParams_Valid :: "create_params \<Rightarrow> (fault, unit) result" where
  "CreateParams_Valid c = rbind (NicParams_Valid c) (\<lambda>_.
     if cp_Media c = [] \<and> cp_FList c = [] then fail ''At least one boot media has to be provided (via media or an flist)''
     else if cp_CPU c = 0 then fail ''CPU is a required parameter''
     else if cp_Memory c = 0 then fail ''Memory is a required parameter''
     else if list_ex (\<lambda>m. km_Target m = ''root'' \<or> km_Target m = ''zoscache'') (cp_Mount c) then fail ''mount target is reserved''
     else Inr ())"

datatype domain_state = DOMAIN_NOSTATE | DOMAIN_RUNNING | DOMAIN_BLOCKED | DOMAIN_PAUSED | DOMAIN_SHUTDOWN |
  DOMAIN_CRASHED | DOMAIN_PMSUSPENDED | DOMAIN_SHUTOFF | DOMAIN_OTHER int

fun StateToString :: "domain_state \<Rightarrow> string" where
  "StateToString DOMAIN_NOSTATE = ''nostate''"
| "StateToString DOMAIN_RUNNING = ''running''"
| "StateToString DOMAIN_BLOCKED = ''blocked''"
| "StateToString DOMAIN_PAUSED = ''paused''"
| "StateToString DOMAIN_SHUTDOWN = ''shutdown''"
| "StateToString DOMAIN_CRASHED = ''crashed''"
| "StateToString DOMAIN_PMSUSPENDED = ''pmsuspended''"
| "StateToString DOMAIN_SHUTOFF = ''shutoff''"
| "StateToString (DOMAIN_OTHER n) = []"

section \<open>The description of a machine\<close>

record disk_host =
  dh_Transport :: string
  dh_Socket :: string
  dh_Port :: string
  dh_Name :: string

record disk_source =
  ds_File :: string
  ds_Dev :: string
  ds_Protocol :: string
  ds_Host :: disk_host
  ds_Name :: string

record disk_target =
  dt_Dev :: string
  dt_Bus :: string

record disk_driver =
  dd_Type :: string
  dd_Cache :: string
  dd_IO :: string

record disk_device =
  dk_Type :: string
  dk_Device :: string
  dk_Source :: disk_source
  dk_Target :: disk_target
  dk_Driver :: disk_driver
  dk_IOTune :: io_tune
  dk_Alias :: string

record filesystem =
  fs_Source :: string
  fs_Target :: string
  fs_Readonly :: bool

record iface_source =
  is_Bridge :: string
  is_Network :: string

record iface =
  if_Type :: string
  if_Source :: iface_source
  if_Target :: string
  if_Model :: string
  if_Alias :: string
  if_Mac :: "string option"

datatype device =
    SerialDevice string string int string
  | ConsoleDevice string string string int string string
  | InterfaceDev iface

record graphics =
  gr_Type :: string
  gr_Port :: int
  gr_KeyMap :: string
  gr_Listen :: "string \<times> string"

record domain_os =
  os_Type :: string
  os_Arch :: string
  os_Kernel :: string
  os_InitRD :: string
  os_Cmdline :: string

record domain_desc =
  dm_Type :: string
  dm_Name :: string
  dm_UUID :: string
  dm_Memory :: "int \<times> string"
  dm_VCPU :: int
  dm_OS :: domain_os
  dm_Emulator :: string
  dm_Graphics :: "graphics list"
  dm_Disks :: "disk_device list"
  dm_Interfaces :: "iface list"
  dm_Devices :: "device list"
  dm_Filesystems :: "filesystem list"
  dm_Args :: "string list"

section \<open>Building the description\<close>

definition no_tune :: io_tune where
  "no_tune = \<lparr>t_TotalBytesSec = None, t_ReadBytesSec = None, t_WriteBytesSec = None,
     t_TotalIopsSec = None, t_ReadIopsSec = None, t_WriteIopsSec = None, t_TotalBytesSecMax = None,
     t_ReadBytesSecMax = None, t_WriteBytesSecMax = None,
     t_TotalIopsSecMax = None, t_ReadIopsSecMax = None, t_WriteIopsSecMax = None, t_TotalBytesSecMaxLength = None,
     t_ReadBytesSecMaxLength = None, t_WriteBytesSecMaxLength = None, t_TotalIopsSecMaxLength = None, t_ReadIopsSecMaxLength = None, t_WriteIopsSecMaxLength = None, t_SizeIopsSec = None, t_GroupName = None\<rparr>"

definition no_host :: disk_host where
  "no_host = \<lparr>dh_Transport = [], dh_Socket = [], dh_Port = [], dh_Name = []\<rparr>"

text \<open>What the plugin asks its surroundings: \<^verbatim>\<open>url.Parse\<close> and \<^verbatim>\<open>URL.String\<close> (scheme, host, path, query), and
  the format that \<^verbatim>\<open>qemu-img\<close> reports of a file, if it does.\<close>

record url_env =
  ue_parse :: "string \<Rightarrow> go_url option"
  ue_string :: "string \<Rightarrow> string \<Rightarrow> string \<Rightarrow> (string \<times> string) list \<Rightarrow> string"
  ue_img :: "string \<Rightarrow> string option"

text \<open>\<^verbatim>\<open>string(n)\<close> of an integer is the UTF-8 encoding of the code point.\<close>

definition go_rune :: "nat \<Rightarrow> string" where
  "go_rune n = map char_of
     (if n < 128 then [n]
      else if n < 2048 then [192 + n div 64, 128 + n mod 64]
      else if 0x10FFFF < n \<or> (0xD800 \<le> n \<and> n < 0xE000) then [239, 191, 189]
      else if n < 65536 then [224 + n div 4096, 128 + n div 64 mod 64, 128 + n mod 64]
      else [240 + n div 262144, 128 + n div 4096 mod 64, 128 + n div 64 mod 64, 128 + n mod 64])"

definition mkNBDDisk :: "nat \<Rightarrow> go_url \<Rightarrow> (fault, disk_device) result" where
  "mkNBDDisk idx u =
     (let name = trim_right (\<lambda>c. c = CHR ''/'') (trim_left (\<lambda>c. c = CHR ''/'') (u_Path u));
          disk = (\<lambda>host. \<lparr>dk_Type = ''network'', dk_Device = [],
            dk_Source = \<lparr>ds_File = [], ds_Dev = [], ds_Protocol = ''nbd'', ds_Host = host, ds_Name = name\<rparr>,
            dk_Target = \<lparr>dt_Dev = ''vd'' @ go_rune (97 + idx), dt_Bus = []\<rparr>,
            dk_Driver = \<lparr>dd_Type = [], dd_Cache = ''none'', dd_IO = []\<rparr>, dk_IOTune = no_tune, dk_Alias = []\<rparr>)
      in if u_Scheme u = ''nbd'' \<or> u_Scheme u = ''nbd+tcp'' then
           Inr (disk (no_host\<lparr>dh_Port := (if u_Port u = [] then ''10809'' else u_Port u), dh_Name := u_Hostname u\<rparr>))
         else if u_Scheme u = ''nbd+unix'' then
           Inr (disk (no_host\<lparr>dh_Transport := ''unix'', dh_Socket := query_get (u_Query u) ''socket''\<rparr>))
         else Inl (Panic ''invalid nbd url''))"

definition getDiskType :: "url_env \<Rightarrow> string \<Rightarrow> string" where
  "getDiskType E p = (case ue_img E p of None \<Rightarrow> ''raw'' | Some f \<Rightarrow> f)"

definition mkFileDisk :: "url_env \<Rightarrow> nat \<Rightarrow> go_url \<Rightarrow> disk_device" where
  "mkFileDisk E idx u =
     \<lparr>dk_Type = ''file'', dk_Device = [],
      dk_Source = \<lparr>ds_File = u_String u, ds_Dev = [], ds_Protocol = [], ds_Host = no_host, ds_Name = []\<rparr>,
      dk_Target = \<lparr>dt_Dev = ''vd'' @ go_rune (97 + idx), dt_Bus = []\<rparr>,
      dk_Driver = \<lparr>dd_Type = getDiskType E (u_Path u), dd_Cache = ''writethrough'', dd_IO = ''threads''\<rparr>,
      dk_IOTune = no_tune, dk_Alias = []\<rparr>"

definition nil_deref :: string where "nil_deref = ''invalid memory address or nil pointer dereference''"

text \<open>An address that does not parse leaves a nil pointer, which \<^verbatim>\<open>mkFileDisk\<close> dereferences.\<close>

definition mkDisk :: "url_env \<Rightarrow> nat \<Rightarrow> media \<Rightarrow> (fault, disk_device) result" where
  "mkDisk E idx m =
     rbind (case ue_parse E (md_URL m) of
              None \<Rightarrow> Inl (Panic nil_deref)
            | Some u \<Rightarrow> if has_prefix ''nbd'' (u_Scheme u) then mkNBDDisk idx u else Inr (mkFileDisk E idx u))
       (\<lambda>d. let d = d\<lparr>dk_Device := (if md_Type m \<noteq> [] then md_Type m else ''disk''),
                      dk_Target := (dk_Target d)\<lparr>dt_Bus := (if md_Bus m \<noteq> [] then md_Bus m else ''virtio'')\<rparr>\<rparr>;
                d = (if md_Type m = ''cdrom'' then d\<lparr>dk_Target := \<lparr>dt_Dev = ''hd'' @ go_rune (97 + idx), dt_Bus = ''ide''\<rparr>\<rparr> else d);
                d = (case md_IOTune m of None \<Rightarrow> d | Some p \<Rightarrow> d\<lparr>dk_IOTune := IOTuneParamsToIOTune p\<rparr>)
            in Inr d)"

definition key_eq :: "string \<Rightarrow> string \<Rightarrow> string" where "key_eq k v = k @ ''='' @ v"

definition zdb_args :: "go_url \<Rightarrow> string list" where
  "zdb_args u =
     map (\<lambda>k. key_eq k (query_get (u_Query u) k))
       (filter (\<lambda>k. query_get (u_Query u) k \<noteq> []) [''password'', ''namespace'', ''blocksize'', ''size'']) @
     (if u_Scheme u = ''zdb+tcp'' \<or> u_Scheme u = ''zdb'' then
        key_eq ''host'' (u_Hostname u) # (if u_Port u \<noteq> [] then [key_eq ''port'' (u_Port u)] else [])
      else if u_Scheme u = ''zdb+unix'' then [key_eq ''socket'' (u_Path u)] else [])"

definition mkZDBDisk :: "url_env \<Rightarrow> media \<Rightarrow> (fault, string) result" where
  "mkZDBDisk E m = (case ue_parse E (md_URL m) of
     None \<Rightarrow> fail ''invalid url''
   | Some u \<Rightarrow> Inr (''driver=zdb,'' @ str_join '','' (zdb_args u) @ '',if=virtio''))"

definition is_zdb :: "media \<Rightarrow> bool" where "is_zdb m \<longleftrightarrow> has_prefix ''zdb'' (md_URL m)"

definition add_media :: "url_env \<Rightarrow> nat \<times> media \<Rightarrow> domain_desc \<Rightarrow> (fault, domain_desc) result" where
  "add_media E = (\<lambda>(idx, m) d.
     if is_zdb m then rbind (mkZDBDisk E m) (\<lambda>a. Inr (d\<lparr>dm_Args := dm_Args d @ [''-drive'', a]\<rparr>))
     else rbind (mkDisk E idx m) (\<lambda>k. Inr (d\<lparr>dm_Disks := dm_Disks d @ [k]\<rparr>)))"

definition base_domain :: "string \<Rightarrow> create_params \<Rightarrow> domain_desc" where
  "base_domain uuid p =
     \<lparr>dm_Type = ''kvm'', dm_Name = cp_Name p, dm_UUID = uuid, dm_Memory = (cp_Memory p, ''MiB''), dm_VCPU = cp_CPU p,
      dm_OS = \<lparr>os_Type = ''hvm'', os_Arch = ''x86_64'', os_Kernel = [], os_InitRD = [], os_Cmdline = []\<rparr>,
      dm_Emulator = ''/usr/bin/qemu-system-x86_64'',
      dm_Graphics = [\<lparr>gr_Type = ''vnc'', gr_Port = -1, gr_KeyMap = ''en-us'', gr_Listen = (''address'', ''0.0.0.0'')\<rparr>],
      dm_Disks = [], dm_Interfaces = [],
      dm_Devices = [SerialDevice ''pty'' ''/dev/pts/1'' 0 ''serial0'',
                    ConsoleDevice ''pty'' ''/dev/pts/1'' ''/dev/pts/1'' 0 ''serial'' ''serial0''],
      dm_Filesystems = [], dm_Args = []\<rparr>"

definition mkDomain :: "url_env \<Rightarrow> string \<Rightarrow> create_params \<Rightarrow> (fault, domain_desc) result" where
  "mkDomain E uuid p = rbind (rfold (add_media E) (enumerate 0 (cp_Media p)) (base_domain uuid p))
     (\<lambda>d. let d = d\<lparr>dm_Filesystems := dm_Filesystems d @
                 map (\<lambda>m. \<lparr>fs_Source = km_Source m, fs_Target = km_Target m, fs_Readonly = km_Readonly m\<rparr>) (cp_Mount p)\<rparr>
          in Inr (if cp_KVM p then d\<lparr>dm_Args := dm_Args d @ [''-cpu'', ''host'']\<rparr> else d))"

section \<open>Back from the description\<close>

definition media_of_disk :: "url_env \<Rightarrow> disk_device \<Rightarrow> media" where
  "media_of_disk E d =
     \<lparr>md_URL = (if dk_Type d = ''network'' then
                  ue_string E ''nbd+tcp'' (dh_Name (ds_Host (dk_Source d)) @ '':'' @ dh_Port (ds_Host (dk_Source d))) [] []
                else if dk_Type d = ''file'' then ds_File (dk_Source d) else []),
      md_Type = dk_Device d, md_Bus = dt_Bus (dk_Target d), md_IOTune = None\<rparr>"

definition mediaFromDisks :: "url_env \<Rightarrow> disk_device list \<Rightarrow> media list" where
  "mediaFromDisks E = map (media_of_disk E)"

record zdb_state =
  z_proto :: string
  z_socket :: string
  z_host :: string
  z_port :: string
  z_password :: string
  z_namespace :: string
  z_blocksize :: string
  z_size :: string
  z_urlPath :: string
  z_urlHost :: string
  z_params :: "(string \<times> string) list"

definition zdb_start :: zdb_state where
  "zdb_start = \<lparr>z_proto = [], z_socket = [], z_host = [], z_port = [], z_password = [], z_namespace = [],
     z_blocksize = [], z_size = [], z_urlPath = [], z_urlHost = [], z_params = []\<rparr>"

text \<open>The last case compares the key with the variable \<open>size\<close>, not with its name.\<close>

definition zdb_assign :: "string \<Rightarrow> string \<Rightarrow> zdb_state \<Rightarrow> zdb_state" where
  "zdb_assign k v z =
     (if k = ''socket'' then z\<lparr>z_socket := v, z_proto := ''zdb+unix://''\<rparr>
      else if k = ''host'' then z\<lparr>z_host := v, z_proto := ''zdb+tcp://''\<rparr>
      else if k = ''port'' then z\<lparr>z_port := v\<rparr>
      else if k = ''password'' then z\<lparr>z_password := v\<rparr>
      else if k = ''namespace'' then z\<lparr>z_namespace := v\<rparr>
      else if k = ''blocksize'' then z\<lparr>z_blocksize := v\<rparr>
      else if k = z_size z then z\<lparr>z_size := v\<rparr> else z)"

definition add_param :: "string \<Rightarrow> string \<Rightarrow> zdb_state \<Rightarrow> zdb_state" where
  "add_param k v z = (if v \<noteq> [] then z\<lparr>z_params := z_params z @ [(k, v)]\<rparr> else z)"

definition zdb_collect :: "zdb_state \<Rightarrow> zdb_state" where
  "zdb_collect z =
     (let z = (if z_socket z \<noteq> [] then z\<lparr>z_urlPath := z_proto z @ z_socket z\<rparr> else z);
          z = (if z_host z \<noteq> [] then z\<lparr>z_urlHost := z_proto z @ z_host z\<rparr> else z);
          z = (if z_port z \<noteq> [] then z\<lparr>z_urlHost := z_urlHost z @ '':'' @ z_port z\<rparr> else z)
      in add_param ''size'' (z_size z) (add_param ''blocksize'' (z_blocksize z)
           (add_param ''namespace'' (z_namespace z) (add_param ''password'' (z_password z) z))))"

definition zdb_part :: "string \<Rightarrow> zdb_state \<Rightarrow> (fault, zdb_state) result" where
  "zdb_part part z = (case split_on (CHR ''='') part of
     k # v # r \<Rightarrow> Inr (zdb_collect (zdb_assign k v z)) | _ \<Rightarrow> Inl (Panic ''runtime error: index out of range''))"

definition zdb_parse :: "string \<Rightarrow> (fault, zdb_state) result" where
  "zdb_parse s = (if \<not> has_prefix ''driver=zdb'' s then fail ''could not find driver=zdb string''
     else rfold zdb_part (split_on (CHR '','') s) zdb_start)"

definition mediaFromZDBString :: "url_env \<Rightarrow> string \<Rightarrow> (fault, media) result" where
  "mediaFromZDBString E s = rbind (zdb_parse s) (\<lambda>z.
     Inr \<lparr>md_URL = ue_string E [] (z_urlHost z) (z_urlPath z) (z_params z), md_Type = [], md_Bus = [], md_IOTune = None\<rparr>)"

text \<open>\<^verbatim>\<open>updateMediaInfo\<close>: the media of a running machine, from its description.\<close>

definition media_of_domain :: "url_env \<Rightarrow> domain_desc \<Rightarrow> (fault, media list) result" where
  "media_of_domain E d = rbind (rmap (mediaFromZDBString E) (dm_Args d)) (\<lambda>ms. Inr (mediaFromDisks E (dm_Disks d) @ ms))"

section \<open>Disks and media\<close>

lemma rfold_media_spec:
  assumes "rfold (add_media E) ims d = Inr d'"
  shows "\<exists>ks as. d' = d\<lparr>dm_Disks := dm_Disks d @ ks, dm_Args := dm_Args d @ as\<rparr> \<and>
    list_all2 (\<lambda>(i, m) k. mkDisk E i m = Inr k) (filter (\<lambda>(i, m). \<not> is_zdb m) ims) ks \<and>
    (as = [] \<longleftrightarrow> list_all (\<lambda>(i, m). \<not> is_zdb m) ims) \<and> (as \<noteq> [] \<longrightarrow> hd as = ''-drive'')"
  using assms
proof (induction ims arbitrary: d)
  case Nil
  then show ?case by (intro exI[of _ "[]"]) simp
next
  case (Cons im ims)
  obtain i m where im: "im = (i, m)" by force
  from Cons.prems obtain d1 where d1: "add_media E (i, m) d = Inr d1" "rfold (add_media E) ims d1 = Inr d'"
    by (auto simp: rbind_eq_Inr im)
  from Cons.IH[OF d1(2)] obtain ks as where r: "d' = d1\<lparr>dm_Disks := dm_Disks d1 @ ks, dm_Args := dm_Args d1 @ as\<rparr>"
    "list_all2 (\<lambda>(i, m) k. mkDisk E i m = Inr k) (filter (\<lambda>(i, m). \<not> is_zdb m) ims) ks"
    "as = [] \<longleftrightarrow> list_all (\<lambda>(i, m). \<not> is_zdb m) ims" "as \<noteq> [] \<longrightarrow> hd as = ''-drive''" by blast
  show ?case
  proof (cases "is_zdb m")
    case True
    then obtain a where "mkZDBDisk E m = Inr a" "d1 = d\<lparr>dm_Args := dm_Args d @ [''-drive'', a]\<rparr>"
      using d1(1) by (auto simp: add_media_def rbind_eq_Inr)
    then show ?thesis using r True im by (intro exI[of _ ks] exI[of _ "[''-drive'', a] @ as"]) simp
  next
    case False
    then obtain k where "mkDisk E i m = Inr k" "d1 = d\<lparr>dm_Disks := dm_Disks d @ [k]\<rparr>"
      using d1(1) by (auto simp: add_media_def rbind_eq_Inr)
    then show ?thesis using r False im by (intro exI[of _ "k # ks"] exI[of _ as]) simp
  qed
qed

definition drive_prefix :: "media \<Rightarrow> string" where
  "drive_prefix m = (if md_Type m = ''cdrom'' then ''hd'' else ''vd'')"

lemma mkDisk_target:
  "mkDisk E i m = Inr k \<Longrightarrow> dt_Dev (dk_Target k) = drive_prefix m @ go_rune (97 + i)"
  by (auto simp: mkDisk_def rbind_eq_Inr Let_def drive_prefix_def mkNBDDisk_def mkFileDisk_def split: option.splits if_splits)

lemma go_rune_small: "n < 128 \<Longrightarrow> go_rune n = [char_of n]"
  by (simp add: go_rune_def)

lemma mkDomain_spec:
  assumes "mkDomain E uuid p = Inr d"
  shows "list_all2 (\<lambda>(i, m) k. mkDisk E i m = Inr k) (filter (\<lambda>(i, m). \<not> is_zdb m) (enumerate 0 (cp_Media p))) (dm_Disks d)"
    and "dm_Args d = [] \<longleftrightarrow> \<not> cp_KVM p \<and> list_all (\<lambda>m. \<not> is_zdb m) (cp_Media p)"
    and "dm_Args d \<noteq> [] \<Longrightarrow> hd (dm_Args d) = ''-drive'' \<or> hd (dm_Args d) = ''-cpu''"
proof -
  from assms obtain d0 where d0: "rfold (add_media E) (enumerate 0 (cp_Media p)) (base_domain uuid p) = Inr d0"
    by (auto simp: mkDomain_def rbind_eq_Inr)
  have d: "dm_Disks d = dm_Disks d0" "dm_Args d = dm_Args d0 @ (if cp_KVM p then [''-cpu'', ''host''] else [])"
    using assms d0 by (auto simp: mkDomain_def Let_def)
  have all: "list_all (\<lambda>(i, m). \<not> is_zdb m) (enumerate k ms) \<longleftrightarrow> list_all (\<lambda>m. \<not> is_zdb m) ms" for k ms
    by (induction ms arbitrary: k) auto
  from rfold_media_spec[OF d0] obtain ks as where
    r: "d0 = (base_domain uuid p)\<lparr>dm_Disks := dm_Disks (base_domain uuid p) @ ks, dm_Args := dm_Args (base_domain uuid p) @ as\<rparr>"
    "list_all2 (\<lambda>(i, m) k. mkDisk E i m = Inr k) (filter (\<lambda>(i, m). \<not> is_zdb m) (enumerate 0 (cp_Media p))) ks"
    "as = [] \<longleftrightarrow> list_all (\<lambda>(i, m). \<not> is_zdb m) (enumerate 0 (cp_Media p))" "as \<noteq> [] \<longrightarrow> hd as = ''-drive''" by blast
  have b: "dm_Disks (base_domain uuid p) = []" "dm_Args (base_domain uuid p) = []" by (simp_all add: base_domain_def)
  show "list_all2 (\<lambda>(i, m) k. mkDisk E i m = Inr k) (filter (\<lambda>(i, m). \<not> is_zdb m) (enumerate 0 (cp_Media p))) (dm_Disks d)"
    using r b d by simp
  show "dm_Args d = [] \<longleftrightarrow> \<not> cp_KVM p \<and> list_all (\<lambda>m. \<not> is_zdb m) (cp_Media p)"
    using r b d all by simp
  show "dm_Args d \<noteq> [] \<Longrightarrow> hd (dm_Args d) = ''-drive'' \<or> hd (dm_Args d) = ''-cpu''"
    using r b d by (cases as) auto
qed

text \<open>In the description of a machine with at most 26 media every disk has a device name of its own, \<^verbatim>\<open>vd\<close>
  or \<^verbatim>\<open>hd\<close> (for a cdrom) and one lower-case letter.\<close>

theorem mkDomain_targets:
  assumes "mkDomain E uuid p = Inr d" and "length (cp_Media p) \<le> 26"
  shows "distinct (map (dt_Dev \<circ> dk_Target) (dm_Disks d)) \<and>
    list_all (\<lambda>k. \<exists>i<26::nat. dt_Dev (dk_Target k) = ''vd'' @ [char_of (97 + i)] \<or> dt_Dev (dk_Target k) = ''hd'' @ [char_of (97 + i)]) (dm_Disks d)"
proof -
  let ?ims = "filter (\<lambda>(i, m). \<not> is_zdb m) (enumerate 0 (cp_Media p))"
  have l2: "list_all2 (\<lambda>(i, m) k. mkDisk E i m = Inr k) ?ims (dm_Disks d)" by (rule mkDomain_spec(1)[OF assms(1)])
  have idx: "i < 26" if "(i, m) \<in> set ?ims" for i m
    using that assms(2) by (auto simp: in_set_enumerate_eq)
  have t: "map (dt_Dev \<circ> dk_Target) (dm_Disks d) = map (\<lambda>(i, m). drive_prefix m @ [char_of (97 + i)]) ?ims"
  proof (rule nth_equalityI)
    show len: "length (map (dt_Dev \<circ> dk_Target) (dm_Disks d)) = length (map (\<lambda>(i, m). drive_prefix m @ [char_of (97 + i)]) ?ims)"
      using list_all2_lengthD[OF l2] by simp
    fix j assume "j < length (map (dt_Dev \<circ> dk_Target) (dm_Disks d))"
    then have j: "j < length ?ims" "j < length (dm_Disks d)" using len by simp_all
    obtain i m where im: "?ims ! j = (i, m)" by force
    then have "i < 26" using idx nth_mem[OF j(1)] by metis
    moreover have "mkDisk E i m = Inr (dm_Disks d ! j)" using list_all2_nthD[OF l2 j(1)] im by simp
    ultimately show "map (dt_Dev \<circ> dk_Target) (dm_Disks d) ! j = map (\<lambda>(i, m). drive_prefix m @ [char_of (97 + i)]) ?ims ! j"
      using j im mkDisk_target by (simp add: go_rune_small)
  qed
  have d: "distinct (map fst ?ims)"
    by (rule distinct_map_filter) simp
  have c: "i = i'" if "i < 26" "i' < 26" "char_of (97 + i) = (char_of (97 + i') :: char)" for i i' :: nat
    using that by (simp add: char_of_eq_iff of_char_of take_bit_nat_def)
  have "inj_on (\<lambda>(i, m). drive_prefix m @ [char_of (97 + i)]) (set ?ims)"
  proof (rule inj_onI)
    fix x y assume x: "x \<in> set ?ims" and y: "y \<in> set ?ims"
      and eq: "(case x of (i, m) \<Rightarrow> drive_prefix m @ [char_of (97 + i)]) = (case y of (i, m) \<Rightarrow> drive_prefix m @ [char_of (97 + i)])"
    obtain i m i' m' where xy: "x = (i, m)" "y = (i', m')" by force
    have "char_of (97 + i) = (char_of (97 + i') :: char)" using eq xy by simp
    then have "i = i'" using c idx x y xy by blast
    then show "x = y" using eq_key_imp_eq_value[OF d] x y xy by blast
  qed
  then have "distinct (map (\<lambda>(i, m). drive_prefix m @ [char_of (97 + i)]) ?ims)"
    using d by (simp add: distinct_map)
  moreover have "\<exists>i<26::nat. n = ''vd'' @ [char_of (97 + i)] \<or> n = ''hd'' @ [char_of (97 + i)]"
    if "n \<in> set (map (dt_Dev \<circ> dk_Target) (dm_Disks d))" for n
  proof -
    from that[unfolded t] obtain i m where im: "(i, m) \<in> set ?ims" "n = drive_prefix m @ [char_of (97 + i)]"
      by (auto simp del: set_filter)
    then show ?thesis using idx[OF im(1)] by (intro exI[of _ i]) (simp add: drive_prefix_def)
  qed
  ultimately show ?thesis unfolding t[symmetric] by (simp only: list_all_iff set_map image_iff o_apply) blast
qed

section \<open>The way back\<close>

definition clean :: "string \<Rightarrow> bool" where
  "clean s \<longleftrightarrow> CHR '','' \<notin> set s \<and> CHR ''='' \<notin> set s"

lemma str_join_ends: "xs \<noteq> [] \<Longrightarrow> str_join s (x # xs @ [y]) = x @ s @ str_join s xs @ s @ y"
proof (induction xs arbitrary: x)
  case (Cons z zs)
  then show ?case by (cases zs) auto
qed simp

lemma zdb_part_key_eq:
  "clean k \<Longrightarrow> clean v \<Longrightarrow> zdb_part (key_eq k v) z = Inr (zdb_collect (zdb_assign k v z))"
  by (simp add: zdb_part_def key_eq_def split_on_append split_on_no_sep clean_def)

definition query_clean :: "go_url \<Rightarrow> bool" where
  "query_clean u \<longleftrightarrow> clean (query_get (u_Query u) ''password'') \<and> clean (query_get (u_Query u) ''namespace'') \<and>
     clean (query_get (u_Query u) ''blocksize'') \<and> clean (query_get (u_Query u) ''size'') \<and>
     clean (u_Hostname u) \<and> clean (u_Port u) \<and> clean (u_Path u)"

lemma clean_keys [simp]: "clean ''password''" "clean ''namespace''" "clean ''blocksize''" "clean ''size''"
  "clean ''host''" "clean ''port''" "clean ''socket''" "clean ''driver''" "clean ''zdb''" "clean ''if''" "clean ''virtio''"
  by (simp_all add: clean_def)

lemma zdb_args_parts:
  assumes "query_clean u" and "zdb_args u \<noteq> []"
  shows "split_on (CHR '','') (''driver=zdb,'' @ str_join '','' (zdb_args u) @ '',if=virtio'') =
    key_eq ''driver'' ''zdb'' # zdb_args u @ [key_eq ''if'' ''virtio'']"
proof -
  have "''driver=zdb,'' @ str_join '','' (zdb_args u) @ '',if=virtio'' =
      str_join [CHR '',''] (key_eq ''driver'' ''zdb'' # zdb_args u @ [key_eq ''if'' ''virtio''])"
    unfolding str_join_ends[OF assms(2)] by (simp add: key_eq_def)
  moreover have "\<forall>w\<in>set (key_eq ''driver'' ''zdb'' # zdb_args u @ [key_eq ''if'' ''virtio'']). CHR '','' \<notin> set w"
    using assms(1) by (auto simp: zdb_args_def key_eq_def query_clean_def clean_def split: if_splits)
  ultimately show ?thesis by (simp only: split_on_str_join list.distinct not_False_eq_True)
qed

lemma zdb_parse_args:
  assumes "query_clean u" and "zdb_args u \<noteq> []"
  shows "zdb_parse (''driver=zdb,'' @ str_join '','' (zdb_args u) @ '',if=virtio'') =
    rfold zdb_part (key_eq ''driver'' ''zdb'' # zdb_args u @ [key_eq ''if'' ''virtio'']) zdb_start"
proof -
  have "has_prefix ''driver=zdb'' (''driver=zdb,'' @ str_join '','' (zdb_args u) @ '',if=virtio'')"
    by (simp add: has_prefix_def)
  then show ?thesis unfolding zdb_parse_def zdb_args_parts[OF assms] by simp
qed

text \<open>A zdb medium over TCP goes through the argument of the emulator and back: host, port, password,
  namespace and block size are recovered, but its size never is.\<close>

theorem zdb_media_roundtrip:
  assumes "ue_parse E (md_URL m) = Some u" and "u_Scheme u = ''zdb'' \<or> u_Scheme u = ''zdb+tcp''"
    and "query_clean u" and "u_Hostname u \<noteq> []"
  shows "\<exists>a z. mkZDBDisk E m = Inr a \<and> zdb_parse a = Inr z \<and>
    z_urlHost z = ''zdb+tcp://'' @ u_Hostname u @ (if u_Port u = [] then [] else '':'' @ u_Port u) \<and> z_urlPath z = [] \<and>
    query_get (z_params z) ''password'' = query_get (u_Query u) ''password'' \<and>
    query_get (z_params z) ''namespace'' = query_get (u_Query u) ''namespace'' \<and>
    query_get (z_params z) ''blocksize'' = query_get (u_Query u) ''blocksize'' \<and>
    query_get (z_params z) ''size'' = []"
proof -
  have ne: "zdb_args u \<noteq> []" using assms(2) by (auto simp: zdb_args_def)
  let ?q = "query_get (u_Query u)"
  obtain pw ns bs sz where q: "?q ''password'' = pw" "?q ''namespace'' = ns" "?q ''blocksize'' = bs" "?q ''size'' = sz" by blast
  have c: "clean pw" "clean ns" "clean bs" "clean sz" "clean (u_Hostname u)" "clean (u_Port u)"
    using assms(3) q by (simp_all add: query_clean_def)
  have args: "zdb_args u = (if pw \<noteq> [] then [key_eq ''password'' pw] else []) @ (if ns \<noteq> [] then [key_eq ''namespace'' ns] else []) @
      (if bs \<noteq> [] then [key_eq ''blocksize'' bs] else []) @ (if sz \<noteq> [] then [key_eq ''size'' sz] else []) @
      key_eq ''host'' (u_Hostname u) # (if u_Port u \<noteq> [] then [key_eq ''port'' (u_Port u)] else [])"
    using assms(2) q by (auto simp: zdb_args_def)
  let ?P = "\<lambda>z. z_urlHost z = ''zdb+tcp://'' @ u_Hostname u @ (if u_Port u = [] then [] else '':'' @ u_Port u) \<and> z_urlPath z = [] \<and>
    query_get (z_params z) ''password'' = pw \<and> query_get (z_params z) ''namespace'' = ns \<and>
    query_get (z_params z) ''blocksize'' = bs \<and> query_get (z_params z) ''size'' = []"
  have "\<exists>z. rfold zdb_part (key_eq ''driver'' ''zdb'' # zdb_args u @ [key_eq ''if'' ''virtio'']) zdb_start = Inr z \<and> ?P z"
    using assms(4) c unfolding args
    by (cases "pw = []"; cases "ns = []"; cases "bs = []"; cases "sz = []"; cases "u_Port u = []")
      (simp_all add: zdb_part_key_eq zdb_start_def zdb_assign_def zdb_collect_def add_param_def query_get_def)
  then show ?thesis
    using assms(1) zdb_parse_args[OF assms(3) ne] q by (auto simp: mkZDBDisk_def)
qed

text \<open>Once a machine has an argument for the emulator (a zdb medium, or the \<^verbatim>\<open>kvm\<close> flag) reading back its
  media fails, because every argument is read as a zdb drive; without any it yields the media of the disks.\<close>

theorem media_of_domain_fails:
  assumes "mkDomain E uuid p = Inr d"
  shows "media_of_domain E d =
    (if cp_KVM p \<or> list_ex is_zdb (cp_Media p) then fail ''could not find driver=zdb string'' else Inr (mediaFromDisks E (dm_Disks d)))"
proof (cases "dm_Args d")
  case Nil
  then show ?thesis using mkDomain_spec(2)[OF assms]
    by (auto simp: media_of_domain_def list_all_iff list_ex_iff)
next
  case (Cons a as)
  then have "a = ''-drive'' \<or> a = ''-cpu''" using mkDomain_spec(3)[OF assms] by simp
  then have "mediaFromZDBString E a = fail ''could not find driver=zdb string''"
    by (auto simp: mediaFromZDBString_def zdb_parse_def has_prefix_def)
  then show ?thesis using Cons mkDomain_spec(2)[OF assms]
    by (auto simp: media_of_domain_def list_all_iff list_ex_iff)
qed

section \<open>Witnesses\<close>

definition demo_url :: "string \<Rightarrow> string \<Rightarrow> string \<Rightarrow> (string \<times> string) list \<Rightarrow> string \<Rightarrow> go_url" where
  "demo_url scheme host port q s = \<lparr>u_Scheme = scheme, u_Hostname = host, u_Port = port, u_Host = host, u_Path = [],
     u_Query = q, u_String = s\<rparr>"

definition demo_env :: url_env where
  "demo_env = \<lparr>ue_parse = (\<lambda>s. if s = ''zdb://hub'' then Some (demo_url ''zdb'' ''hub'' ''9900'' [(''size'', ''10''), (''namespace'', ''vm'')] s)
       else if s = ''nbd://hub'' then Some (demo_url ''nbd'' ''hub'' [] [] s) else Some (demo_url [] [] [] [] s)),
     ue_string = (\<lambda>sc h p q. sc @ ''://'' @ h @ p), ue_img = (\<lambda>p. None)\<rparr>"

definition demo_media :: "string \<Rightarrow> media" where
  "demo_media s = \<lparr>md_URL = s, md_Type = [], md_Bus = [], md_IOTune = None\<rparr>"

definition demo_params :: "string list \<Rightarrow> create_params" where
  "demo_params urls = \<lparr>np_Nics = [\<lparr>kn_Type = ''default'', kn_ID = [], kn_HWAddress = []\<rparr>], np_Port = None, cp_Name = ''vm'',
     cp_CPU = 1, cp_Memory = 512, cp_FList = [], cp_ShareCache = False, cp_Cmdline = [], cp_Mount = [],
     cp_Media = map demo_media urls, cp_Tags = [], cp_KVM = False\<rparr>"

lemmas demo_simps = demo_params_def demo_media_def demo_env_def demo_url_def mkDomain_def add_media_def is_zdb_def has_prefix_def
  mkZDBDisk_def mkDisk_def mkNBDDisk_def mkFileDisk_def base_domain_def go_rune_small

lemma mkDomain_targets_witness:
  "\<exists>d. mkDomain demo_env ''u1'' (demo_params [''zdb://hub'', ''nbd://hub'', ''/a.img'']) = Inr d \<and>
     distinct (map (dt_Dev \<circ> dk_Target) (dm_Disks d))"
proof -
  obtain d where d: "mkDomain demo_env ''u1'' (demo_params [''zdb://hub'', ''nbd://hub'', ''/a.img'']) = Inr d"
    by (simp add: demo_simps)
  then show ?thesis using mkDomain_targets[OF d] by (simp add: demo_params_def)
qed

lemma media_of_domain_fails_witness:
  "\<exists>d. mkDomain demo_env ''u1'' (demo_params [''zdb://hub'']) = Inr d \<and>
     media_of_domain demo_env d = fail ''could not find driver=zdb string''"
proof -
  obtain d where d: "mkDomain demo_env ''u1'' (demo_params [''zdb://hub'']) = Inr d"
    by (simp add: demo_simps)
  then show ?thesis using media_of_domain_fails[OF d] by (simp add: demo_params_def demo_media_def is_zdb_def has_prefix_def)
qed

lemma zdb_media_roundtrip_witness:
  "\<exists>a z. mkZDBDisk demo_env (demo_media ''zdb://hub'') = Inr a \<and> zdb_parse a = Inr z \<and>
     z_urlHost z = ''zdb+tcp://hub:9900'' \<and> query_get (z_params z) ''namespace'' = ''vm'' \<and> query_get (z_params z) ''size'' = []"
proof -
  let ?u = "demo_url ''zdb'' ''hub'' ''9900'' [(''size'', ''10''), (''namespace'', ''vm'')] ''zdb://hub''"
  have p: "ue_parse demo_env (md_URL (demo_media ''zdb://hub'')) = Some ?u"
    by (simp add: demo_env_def demo_media_def)
  have "query_clean ?u" by (simp add: query_clean_def demo_url_def query_get_def clean_def)
  from zdb_media_roundtrip[OF p _ this] show ?thesis by (auto simp: demo_url_def query_get_def)
qed

end
