(* ===== verification/Kvm_Sync.thy ===== *)
theory Kvm_Sync
  imports Kvm_Domain
begin

text \<open>
  Waiting for the removal of a device (\<^verbatim>\<open>apps/plugins/kvm/plugin/sync.go\<close>, \<^verbatim>\<open>detachDevice\<close>, and the
  handlers of the two removal events in \<^verbatim>\<open>events.go\<close>): a table of channels by machine and device, guarded by one
  mutex, and the steps of the routines that use it.  A routine that cannot take the mutex does not move.
\<close>

section \<open>The table\<close>

datatype sync_key = SyncKey string string

text \<open>A channel of capacity one.\<close>

datatype chan = Empty | Full | Closed

record sync =
  sy_m :: "sync_key \<Rightarrow> nat option"
  sy_chans :: "chan list"
  sy_locked :: bool

definition NewSync :: sync where
  "NewSync = \<lparr>sy_m = (\<lambda>k. None), sy_chans = [], sy_locked = False\<rparr>"

text \<open>\<open>None\<close>: the mutex is held, the call waits.  Sending on a closed channel panics; the table never
  holds one (\<open>sync_ok\<close> below), so that case keeps the state.\<close>

definition sync_Release :: "sync_key \<Rightarrow> sync \<Rightarrow> sync option" where
  "sync_Release k s = (if sy_locked s then None else Some (case sy_m s k of
     None \<Rightarrow> s
   | Some c \<Rightarrow> if sy_chans s ! c = Empty then s\<lparr>sy_chans := (sy_chans s)[c := Full]\<rparr> else s))"

definition sync_Expect :: "sync_key \<Rightarrow> sync \<Rightarrow> sync option" where
  "sync_Expect k s = (if sy_locked s then None else
     Some (s\<lparr>sy_m := (sy_m s)(k \<mapsto> length (sy_chans s)), sy_chans := sy_chans s @ [Empty]\<rparr>))"

definition sync_Unexpect :: "sync_key \<Rightarrow> sync \<Rightarrow> sync option" where
  "sync_Unexpect k s = (if sy_locked s then None else Some (case sy_m s k of
     None \<Rightarrow> s
   | Some c \<Rightarrow> s\<lparr>sy_m := (sy_m s)(k := None), sy_chans := (sy_chans s)[c := Closed]\<rparr>))"

text \<open>The first half of \<^verbatim>\<open>Wait\<close>, up to the \<^verbatim>\<open>select\<close>: a key that is not expected makes it return an error
  without giving the mutex back.\<close>

definition sync_Wait :: "sync_key \<Rightarrow> sync \<Rightarrow> (nat option \<times> sync) option" where
  "sync_Wait k s = (if sy_locked s then None else Some (case sy_m s k of
     None \<Rightarrow> (None, s\<lparr>sy_locked := True\<rparr>)
   | Some c \<Rightarrow> (Some c, s)))"

text \<open>The \<^verbatim>\<open>select\<close>: receiving from a closed channel succeeds at once.\<close>

definition sync_recv :: "nat \<Rightarrow> sync \<Rightarrow> sync option" where
  "sync_recv c s = (case sy_chans s ! c of
     Empty \<Rightarrow> None
   | Full \<Rightarrow> Some (s\<lparr>sy_chans := (sy_chans s)[c := Empty]\<rparr>)
   | Closed \<Rightarrow> Some s)"

section \<open>Routines\<close>

text \<open>A call of \<^verbatim>\<open>detachDevice\<close> is at one of these points; the last two carry its outcome, with the deferred
  \<^verbatim>\<open>Unexpect\<close> still to run or done.\<close>

datatype detach_outcome = Detached | DetachFailed | NotExpected | TimedOut
datatype detach_pc = Begin | Expecting | Waiting | Selecting nat | Leaving detach_outcome | Returned detach_outcome

text \<open>The calls with their keys, and the removal events that libvirt has delivered.\<close>

record detach_world =
  dw_sync :: sync
  dw_calls :: "(sync_key \<times> detach_pc) list"
  dw_events :: "sync_key list"

inductive detach_move :: "sync_key \<Rightarrow> detach_pc \<Rightarrow> sync \<Rightarrow> detach_pc \<Rightarrow> sync \<Rightarrow> bool" where
  expect: "sync_Expect k s = Some s' \<Longrightarrow> detach_move k Begin s Expecting s'"
| flags_ok: "detach_move k Expecting s Waiting s"
| flags_fail: "detach_move k Expecting s (Leaving DetachFailed) s"
| wait_ok: "sync_Wait k s = Some (Some c, s') \<Longrightarrow> detach_move k Waiting s (Selecting c) s'"
| wait_fail: "sync_Wait k s = Some (None, s') \<Longrightarrow> detach_move k Waiting s (Leaving NotExpected) s'"
| recv: "sync_recv c s = Some s' \<Longrightarrow> detach_move k (Selecting c) s (Leaving Detached) s'"
| time_out: "detach_move k (Selecting c) s (Leaving TimedOut) s"
| unexpect: "sync_Unexpect k s = Some s' \<Longrightarrow> detach_move k (Leaving r) s (Returned r) s'"

inductive detach_step :: "detach_world \<Rightarrow> detach_world \<Rightarrow> bool" where
  call: "i < length (dw_calls w) \<Longrightarrow> dw_calls w ! i = (k, pc) \<Longrightarrow> detach_move k pc (dw_sync w) pc' s' \<Longrightarrow>
    detach_step w (w\<lparr>dw_sync := s', dw_calls := (dw_calls w)[i := (k, pc')]\<rparr>)"
| event: "sync_Release k (dw_sync w) = Some s' \<Longrightarrow>
    detach_step w (w\<lparr>dw_sync := s', dw_events := k # dw_events w\<rparr>)"

inductive detach_reach :: "sync_key list \<Rightarrow> detach_world \<Rightarrow> bool" for ks where
  init: "detach_reach ks \<lparr>dw_sync = NewSync, dw_calls = map (\<lambda>k. (k, Begin)) ks, dw_events = []\<rparr>"
| step: "detach_reach ks w \<Longrightarrow> detach_step w w' \<Longrightarrow> detach_reach ks w'"

inductive_cases detach_moveE: "detach_move k pc s pc' s'"
inductive_cases detach_stepE: "detach_step w w'"

section \<open>Calls for different devices\<close>














section \<open>Two calls for the same device\<close>

lemma locked_forever:
  assumes "detach_step\<^sup>*\<^sup>* w w'" and "sy_locked (dw_sync w)"
  shows "sy_locked (dw_sync w') \<and> dw_events w' = dw_events w \<and> length (dw_calls w') = length (dw_calls w) \<and>
    (\<forall>i<length (dw_calls w). \<forall>k r. dw_calls w' ! i = (k, Returned r) \<longleftrightarrow> dw_calls w ! i = (k, Returned r))"
  using assms(1)
proof induction
  case base
  show ?case using assms(2) by simp
next
  case (step w1 w2)
  from step.hyps(2) show ?case
  proof (cases rule: detach_step.cases)
    case (call i k pc pc' s')
    from call(4) have "sy_locked s'" "\<forall>r. pc' \<noteq> Returned r" "\<forall>r. pc \<noteq> Returned r"
      using step.IH by (auto elim!: detach_moveE simp: sync_Expect_def sync_Unexpect_def sync_Wait_def sync_recv_def split: chan.splits)
    then show ?thesis using step.IH call by (auto simp: nth_list_update)
  next
    case (event k s')
    then show ?thesis using step.IH by (simp add: sync_Release_def)
  qed
qed

lemma call_step:
  assumes "i < length cs" "cs ! i = (k, pc)" "detach_move k pc s pc' s'" "cs' = cs[i := (k, pc')]"
  shows "detach_step \<lparr>dw_sync = s, dw_calls = cs, dw_events = es\<rparr> \<lparr>dw_sync = s', dw_calls = cs', dw_events = es\<rparr>"
  using call[of i "\<lparr>dw_sync = s, dw_calls = cs, dw_events = es\<rparr>"] assms by simp

lemma detach_reach_call:
  assumes "detach_reach ks \<lparr>dw_sync = s, dw_calls = cs, dw_events = es\<rparr>"
    and "i < length cs" "cs ! i = (k, pc)" "detach_move k pc s pc' s'" "cs' = cs[i := (k, pc')]"
  shows "detach_reach ks \<lparr>dw_sync = s', dw_calls = cs', dw_events = es\<rparr>"
  using assms(1) call_step[OF assms(2-5)] by (rule detach_reach.step)


definition two_chans :: "sync_key \<Rightarrow> sync" where
  "two_chans k = \<lparr>sy_m = (\<lambda>x. None)(k \<mapsto> 1), sy_chans = [Empty, Empty], sy_locked = False\<rparr>"

lemma both_expect: "detach_reach [k, k] \<lparr>dw_sync = two_chans k, dw_calls = [(k, Expecting), (k, Expecting)], dw_events = []\<rparr>"
proof -
  let ?s1 = "\<lparr>sy_m = (\<lambda>x. None)(k \<mapsto> 0), sy_chans = [Empty], sy_locked = False\<rparr>"
  have "detach_reach [k, k] \<lparr>dw_sync = NewSync, dw_calls = [(k, Begin), (k, Begin)], dw_events = []\<rparr>"
    using detach_reach.init[of "[k, k]"] by simp
  then have "detach_reach [k, k] \<lparr>dw_sync = ?s1, dw_calls = [(k, Expecting), (k, Begin)], dw_events = []\<rparr>"
    by (rule detach_reach_call[where i = 0]) (auto intro!: detach_move.expect simp: sync_Expect_def NewSync_def)
  then show ?thesis
    by (rule detach_reach_call[where i = 1]) (auto intro!: detach_move.expect simp: sync_Expect_def two_chans_def)
qed

lemma first_waits: "detach_reach [k, k] \<lparr>dw_sync = two_chans k, dw_calls = [(k, Selecting 1), (k, Expecting)], dw_events = []\<rparr>"
proof -
  have "detach_reach [k, k] \<lparr>dw_sync = two_chans k, dw_calls = [(k, Waiting), (k, Expecting)], dw_events = []\<rparr>"
    by (rule detach_reach_call[OF both_expect, where i = 0]) (auto intro!: detach_move.flags_ok)
  then show ?thesis
    by (rule detach_reach_call[where i = 0]) (auto intro!: detach_move.wait_ok simp: sync_Wait_def two_chans_def)
qed

text \<open>Two calls for the same device can lock up the table for good: the first times out and forgets the key,
  the second then returns from \<^verbatim>\<open>Wait\<close> with the mutex held; from there on its deferred clean-up, every other
  call and every removal event wait for ever.\<close>

theorem concurrent_detach_locks_up:
  "\<exists>w. detach_reach [k, k] w \<and>
    (\<forall>w'. detach_step\<^sup>*\<^sup>* w w' \<longrightarrow> dw_events w' = dw_events w \<and> (\<forall>r. dw_calls w' ! 1 \<noteq> (k, Returned r)) \<and>
       (\<forall>x. sync_Release x (dw_sync w') = None \<and> sync_Expect x (dw_sync w') = None))"
proof -
  let ?s0 = "\<lparr>sy_m = (\<lambda>x. None), sy_chans = [Empty, Closed], sy_locked = False\<rparr>"
  let ?s1 = "\<lparr>sy_m = (\<lambda>x. None), sy_chans = [Empty, Closed], sy_locked = True\<rparr>"
  let ?w = "\<lparr>dw_sync = ?s1, dw_calls = [(k, Returned TimedOut), (k, Leaving NotExpected)], dw_events = []\<rparr>"
  have "detach_reach [k, k] \<lparr>dw_sync = two_chans k, dw_calls = [(k, Leaving TimedOut), (k, Expecting)], dw_events = []\<rparr>"
    by (rule detach_reach_call[OF first_waits, where i = 0]) (auto intro!: detach_move.time_out)
  then have "detach_reach [k, k] \<lparr>dw_sync = ?s0, dw_calls = [(k, Returned TimedOut), (k, Expecting)], dw_events = []\<rparr>"
    by (rule detach_reach_call[where i = 0]) (auto intro!: detach_move.unexpect simp: sync_Unexpect_def two_chans_def)
  then have "detach_reach [k, k] \<lparr>dw_sync = ?s0, dw_calls = [(k, Returned TimedOut), (k, Waiting)], dw_events = []\<rparr>"
    by (rule detach_reach_call[where i = 1]) (auto intro!: detach_move.flags_ok)
  then have r: "detach_reach [k, k] ?w"
    by (rule detach_reach_call[where i = 1]) (auto intro!: detach_move.wait_fail simp: sync_Wait_def)
  have "dw_events w' = [] \<and> (\<forall>r. dw_calls w' ! 1 \<noteq> (k, Returned r)) \<and> sy_locked (dw_sync w')" if "detach_step\<^sup>*\<^sup>* ?w w'" for w'
    using locked_forever[OF that] by (auto simp: less_Suc_eq)
  then show ?thesis using r by (intro exI[of _ ?w]) (simp add: sync_Release_def sync_Expect_def)
qed

text \<open>Two calls for the same device can report success without any removal event: when the second fails, its
  clean-up closes the channel on which the first waits.\<close>

theorem concurrent_detach_false_success:
  "\<exists>w. detach_reach [k, k] w \<and> dw_events w = [] \<and> dw_calls w ! 0 = (k, Returned Detached)"
proof -
  let ?s0 = "\<lparr>sy_m = (\<lambda>x. None), sy_chans = [Empty, Closed], sy_locked = False\<rparr>"
  have "detach_reach [k, k] \<lparr>dw_sync = two_chans k, dw_calls = [(k, Selecting 1), (k, Leaving DetachFailed)], dw_events = []\<rparr>"
    by (rule detach_reach_call[OF first_waits, where i = 1]) (auto intro!: detach_move.flags_fail)
  then have "detach_reach [k, k] \<lparr>dw_sync = ?s0, dw_calls = [(k, Selecting 1), (k, Returned DetachFailed)], dw_events = []\<rparr>"
    by (rule detach_reach_call[where i = 1]) (auto intro!: detach_move.unexpect simp: sync_Unexpect_def two_chans_def)
  then have "detach_reach [k, k] \<lparr>dw_sync = ?s0, dw_calls = [(k, Leaving Detached), (k, Returned DetachFailed)], dw_events = []\<rparr>"
    by (rule detach_reach_call[where i = 0]) (auto intro!: detach_move.recv simp: sync_recv_def)
  then have "detach_reach [k, k] \<lparr>dw_sync = ?s0, dw_calls = [(k, Returned Detached), (k, Returned DetachFailed)], dw_events = []\<rparr>"
    by (rule detach_reach_call[where i = 0]) (auto intro!: detach_move.unexpect simp: sync_Unexpect_def)
  then show ?thesis by fastforce
qed

lemma concurrent_detach_locks_up_witness:
  "\<exists>w. detach_reach [SyncKey ''u1'' ''net0'', SyncKey ''u1'' ''net0''] w \<and>
     sync_Release (SyncKey ''u1'' ''net1'') (dw_sync w) = None \<and> sync_Expect (SyncKey ''u2'' ''net0'') (dw_sync w) = None"
  using concurrent_detach_locks_up[of "SyncKey ''u1'' ''net0''"] by blast

end
