(* ===== verification/Kvm_Manager.thy ===== *)
theory Kvm_Manager
  imports Kvm_Domain Sequence
begin

text \<open>
  The manager of virtual machines (\<^verbatim>\<open>apps/plugins/kvm/plugin/{manager,network,events}.go\<close>): numbering and
  addresses, networking, creating a machine and cleaning up after it, disks and cards at run time, port
  forwards, listing.  libvirt, the kernel and the containers are parameters: \<open>virt\<close> over a state of any type,
  \<open>net_env\<close> for what the network functions ask.  Operations are steps on one state that either return, fail
  or panic, and keep what they did before.
\<close>

section \<open>Numbers and addresses\<close>

definition kvm_reserved :: "16 word \<Rightarrow> bool" where
  "kvm_reserved s \<longleftrightarrow> s \<in> set [0x0, 0x1, 0xffff]"

definition hex_digit :: "nat \<Rightarrow> char" where
  "hex_digit d = (if d < 10 then char_of (48 + d) else char_of (87 + d))"

definition hex2 :: "nat \<Rightarrow> string" where "hex2 n = [hex_digit (n div 16), hex_digit (n mod 16)]"

definition kvm_macAddr :: "16 word \<Rightarrow> string" where
  "kvm_macAddr s = ''00:28:06:82:'' @ hex2 (unat (drop_bit 8 (s AND 0xff00))) @ '':'' @ hex2 (unat (s AND 0x00ff))"

definition kvm_ip :: "16 word \<Rightarrow> ipv4" where
  "kvm_ip s = of_octets 172 19 (unat (drop_bit 8 (s AND 0xff00))) (unat (s AND 0x00ff))"

definition kvm_ipAddr :: "16 word \<Rightarrow> string" where "kvm_ipAddr s = print_ipv4 (kvm_ip s)"

definition kvm_forwardId :: "string \<Rightarrow> string" where "kvm_forwardId uuid = ''kvm-'' @ uuid"

section \<open>State\<close>

record dom_info =
  di_Params :: create_params
  di_Sequence :: "16 word"

record ('v, 'k) kvm =
  kv_sequence :: "16 word"
  kv_infos :: "string \<Rightarrow> dom_info option"
  kv_virt :: 'v
  kv_socat :: "socat \<times> 'k"

record 'v virt =
  vt_struct :: "string \<Rightarrow> 'v \<Rightarrow> (go_error, domain_desc) result"
  vt_create :: "domain_desc \<Rightarrow> 'v \<Rightarrow> (go_error, unit) result \<times> 'v"
  vt_attach_disk :: "string \<Rightarrow> disk_device \<Rightarrow> 'v \<Rightarrow> (go_error, unit) result \<times> 'v"
  vt_detach_disk :: "string \<Rightarrow> disk_device \<Rightarrow> 'v \<Rightarrow> (go_error, unit) result \<times> 'v"
  vt_attach_nic :: "string \<Rightarrow> iface \<Rightarrow> 'v \<Rightarrow> (go_error, unit) result \<times> 'v"
  vt_detach_nic :: "string \<Rightarrow> iface \<Rightarrow> 'v \<Rightarrow> (go_error, unit) result \<times> 'v"
  vt_tune :: "string \<Rightarrow> string \<Rightarrow> io_params \<Rightarrow> 'v \<Rightarrow> (go_error, unit) result \<times> 'v"
  vt_info :: "string \<Rightarrow> 'v \<Rightarrow> (go_error, int \<times> string \<times> domain_state) result"
  vt_exists :: "string \<Rightarrow> 'v \<Rightarrow> bool"
  vt_domains :: "'v \<Rightarrow> (go_error, string list) result"

definition on_virt :: "('v \<Rightarrow> (go_error, 'a) result \<times> 'v) \<Rightarrow> (('v, 'k) kvm, 'a) act" where
  "on_virt f = (\<lambda>m. case f (kv_virt m) of (r, v) \<Rightarrow> (lift_err r, m\<lparr>kv_virt := v\<rparr>))"

definition on_socat :: "(socat \<times> 'k \<Rightarrow> (go_error, 'a) result \<times> socat \<times> 'k) \<Rightarrow> (('v, 'k) kvm, 'a) act" where
  "on_socat f = (\<lambda>m. case f (kv_socat m) of (r, sk) \<Rightarrow> (lift_err r, m\<lparr>kv_socat := sk\<rparr>))"

definition getDomainStruct :: "'v virt \<Rightarrow> string \<Rightarrow> (('v, 'k) kvm, domain_desc) act" where
  "getDomainStruct V uuid = sget (\<lambda>m. lift_err (vt_struct V uuid (kv_virt m)))"

definition getDomainInfo :: "string \<Rightarrow> (('v, 'k) kvm, dom_info) act" where
  "getDomainInfo uuid = sget (\<lambda>m. case kv_infos m uuid of None \<Rightarrow> fail ''could not find domaininfo'' | Some di \<Rightarrow> Inr di)"

definition putInfo :: "string \<Rightarrow> dom_info \<Rightarrow> (('v, 'k) kvm, unit) act" where
  "putInfo uuid di = (\<lambda>m. (Inr (), m\<lparr>kv_infos := (kv_infos m)(uuid \<mapsto> di)\<rparr>))"

text \<open>The loop over the reserved numbers; it ends, since three numbers only are reserved
  (\<open>kvm_next_total\<close> below).\<close>

definition kvm_getNextSequence :: "(('v, 'k) kvm, 16 word) act" where
  "kvm_getNextSequence = (\<lambda>m. case next_seq (\<lambda>s. \<not> kvm_reserved s) (kv_sequence m) of
     None \<Rightarrow> (fail ''does not return'', m) | Some s \<Rightarrow> (Inr s, m\<lparr>kv_sequence := s\<rparr>))"

section \<open>Networking\<close>

datatype net_lookup = NetFound | NoNetwork | LookupError go_error

record net_env =
  ne_link :: "string \<Rightarrow> bool"
  ne_mac :: "string \<Rightarrow> (go_error, string) result"
  ne_lookup :: "string \<Rightarrow> net_lookup"
  ne_netcreate :: "string \<Rightarrow> (go_error, unit) result"
  ne_hostadd :: "string \<Rightarrow> string \<Rightarrow> (go_error, unit) result"
  ne_containers :: cmanager
  ne_dispatch :: "16 word \<Rightarrow> string \<Rightarrow> string \<Rightarrow> int \<Rightarrow> (go_error, string) result"

definition setVirtNetwork :: "net_env \<Rightarrow> string \<Rightarrow> (fault, unit) result" where
  "setVirtNetwork E name = (case ne_lookup E name of
     NetFound \<Rightarrow> Inr () | NoNetwork \<Rightarrow> lift_err (ne_netcreate E name) | LookupError e \<Rightarrow> Inl (Fault e))"

definition mk_card :: "string \<Rightarrow> iface_source \<Rightarrow> string option \<Rightarrow> iface" where
  "mk_card ty src mac = \<lparr>if_Type = ty, if_Source = src, if_Target = [], if_Model = ''virtio'', if_Alias = [], if_Mac = mac\<rparr>"

definition nic_mac :: "net_env \<Rightarrow> kvm_nic \<Rightarrow> (fault, string option) result" where
  "nic_mac E n = (if kn_HWAddress n = [] then Inr None
     else rbind (lift_err (ne_mac E (kn_HWAddress n))) (\<lambda>a. Inr (Some a)))"

definition ovs_network :: "net_env \<Rightarrow> string \<Rightarrow> string \<Rightarrow> kvm_nic \<Rightarrow> int \<Rightarrow> (fault, iface) result" where
  "ovs_network E command master n tag = rbind (nic_mac E n) (\<lambda>mac.
     case GetOneWithTags [''ovs''] (ne_containers E) of
       None \<Rightarrow> fail ''ovs is needed for this network type''
     | Some c \<Rightarrow> rbind (lift_err (ne_dispatch E (ct_id c) command master tag)) (\<lambda>bridge.
         rbind (setVirtNetwork E bridge) (\<lambda>_.
           Inr (mk_card ''network'' \<lparr>is_Bridge = bridge, is_Network = bridge\<rparr> mac))))"

definition prepareVLanNetwork :: "net_env \<Rightarrow> kvm_nic \<Rightarrow> (fault, iface) result" where
  "prepareVLanNetwork E n = (case parse_int 16 (kn_ID n) of
     Inl e \<Rightarrow> fail ''invalid vlan''
   | Inr v \<Rightarrow> if v < 0 \<or> 4095 \<le> v then fail ''invalid vlan id (0-4094)''
             else ovs_network E ''ovs.vlan-ensure'' ''backplane'' n v)"

definition prepareVXLanNetwork :: "net_env \<Rightarrow> kvm_nic \<Rightarrow> (fault, iface) result" where
  "prepareVXLanNetwork E n = (case parse_int 64 (kn_ID n) of
     Inl e \<Rightarrow> fail ''invalid vxlan'' | Inr v \<Rightarrow> ovs_network E ''ovs.vxlan-ensure'' ''vxbackend'' n v)"

definition prepareBridgeNetwork :: "net_env \<Rightarrow> kvm_nic \<Rightarrow> (fault, iface) result" where
  "prepareBridgeNetwork E n =
     (if \<not> ne_link E (kn_ID n) then Inl (Fault (BadRequestError ''bridge not found''))
      else rbind (nic_mac E n) (\<lambda>mac. Inr (mk_card ''bridge'' \<lparr>is_Bridge = kn_ID n, is_Network = []\<rparr> mac)))"

definition setDHCPHost :: "net_env \<Rightarrow> 16 word \<Rightarrow> (fault, unit) result" where
  "setDHCPHost E seq = lift_err (ne_hostadd E (kvm_macAddr seq) (kvm_ipAddr seq))"

text \<open>The forward is set first; then it is noted in the parameters of the machine, whose map may be nil.\<close>

definition nil_map :: string where "nil_map = ''assignment to entry in nil map''"

definition kvm_setPortForward :: "'k nft_tool \<Rightarrow> string \<Rightarrow> 16 word \<Rightarrow> string \<Rightarrow> int \<Rightarrow> (('v, 'k) kvm, unit) act" where
  "kvm_setPortForward T uuid seq host dest =
     sbind (on_socat (SetPortForward T (kvm_forwardId uuid) (kvm_ipAddr seq) host dest)) (\<lambda>_.
     sbind (getDomainInfo uuid) (\<lambda>di. case np_Port (di_Params di) of
         None \<Rightarrow> slift (Inl (Panic nil_map))
       | Some ps \<Rightarrow> putInfo uuid (di\<lparr>di_Params := (di_Params di)\<lparr>np_Port := Some (AList.update host dest ps)\<rparr>\<rparr>)))"

definition kvm_setPortForwards :: "'k nft_tool \<Rightarrow> string \<Rightarrow> 16 word \<Rightarrow> port_map \<Rightarrow> (('v, 'k) kvm, unit) act" where
  "kvm_setPortForwards T uuid seq ports =
     sfor (\<lambda>(host, dest). kvm_setPortForward T uuid seq host dest) (case ports of None \<Rightarrow> [] | Some ps \<Rightarrow> ps)"

definition prepareDefaultNetwork ::
  "net_env \<Rightarrow> 'k nft_tool \<Rightarrow> string \<Rightarrow> 16 word \<Rightarrow> port_map \<Rightarrow> (('v, 'k) kvm, iface) act" where
  "prepareDefaultNetwork E T uuid seq ports =
     (if \<not> ne_link E KvmBridgeName then slift (fail ''bridge not found'')
      else sbind (slift (setDHCPHost E seq)) (\<lambda>_.
           sbind (kvm_setPortForwards T uuid seq ports) (\<lambda>_.
           sret (mk_card ''bridge'' \<lparr>is_Bridge = KvmBridgeName, is_Network = []\<rparr> (Some (kvm_macAddr seq))))))"

definition nic_network :: "net_env \<Rightarrow> 'k nft_tool \<Rightarrow> string \<Rightarrow> 16 word \<Rightarrow> port_map \<Rightarrow> kvm_nic \<Rightarrow> (('v, 'k) kvm, iface) act" where
  "nic_network E T uuid seq ports n =
     (if kn_Type n = ''default'' then prepareDefaultNetwork E T uuid seq ports
      else if kn_Type n = ''bridge'' then slift (prepareBridgeNetwork E n)
      else if kn_Type n = ''vlan'' then slift (prepareVLanNetwork E n)
      else if kn_Type n = ''vxlan'' then slift (prepareVXLanNetwork E n)
      else slift (fail ''unsupported network mode''))"

fun setNetworking ::
  "net_env \<Rightarrow> 'k nft_tool \<Rightarrow> port_map \<Rightarrow> 16 word \<Rightarrow> kvm_nic list \<Rightarrow> domain_desc \<Rightarrow> (('v, 'k) kvm, domain_desc) act" where
  "setNetworking E T ports seq [] d = sret d"
| "setNetworking E T ports seq (n # ns) d = sbind (nic_network E T (dm_UUID d) seq ports n) (\<lambda>inf.
     setNetworking E T ports seq ns (d\<lparr>dm_Devices := dm_Devices d @ [InterfaceDev inf]\<rparr>))"

section \<open>Creating a machine\<close>

record boot_config =
  bc_Root :: string
  bc_Kernel :: string
  bc_InitRD :: string
  bc_Cmdline :: string
  bc_NoDefault :: bool

text \<open>\<open>fe_mount\<close> is \<^verbatim>\<open>flistMount\<close> for the machine, \<open>fe_join\<close> joins a normalised path to the root,
  \<open>fe_unmount\<close> is \<^verbatim>\<open>flistUnmount\<close>.\<close>

record flist_env =
  fe_mount :: "string \<Rightarrow> string \<Rightarrow> (go_error, boot_config) result"
  fe_join :: "string \<Rightarrow> string \<Rightarrow> string"
  fe_cache :: string
  fe_unmount :: "string \<Rightarrow> (go_error, unit) result"

definition prepareFlist :: "flist_env \<Rightarrow> create_params \<Rightarrow> domain_desc \<Rightarrow> (fault, domain_desc) result" where
  "prepareFlist F p d = rbind (lift_err (fe_mount F (dm_UUID d) (cp_FList p))) (\<lambda>c.
     let cmdline = (if bc_NoDefault c then [] else ''rootfstype=9p rootflags=rw,trans=virtio,cache=loose root=root'');
         share = (\<lambda>src tgt. \<lparr>fs_Source = src, fs_Target = tgt, fs_Readonly = False\<rparr>)
     in Inr (d\<lparr>dm_OS := (dm_OS d)\<lparr>os_Kernel := fe_join F (bc_Root c) (bc_Kernel c),
                 os_InitRD := (if bc_InitRD c \<noteq> [] then fe_join F (bc_Root c) (bc_InitRD c) else os_InitRD (dm_OS d)),
                 os_Cmdline := TrimSpace (str_join '' '' [cmdline, bc_Cmdline c, cp_Cmdline p])\<rparr>,
               dm_Filesystems := dm_Filesystems d @ share (bc_Root c) ''root'' #
                 (if cp_ShareCache p then [share (fe_cache F) ''zoscache''] else [])\<rparr>))"

text \<open>The end of a machine: its entry goes, then its forwards; a failure to remove those is not looked at.\<close>

definition handleStopped :: "flist_env \<Rightarrow> 'k nft_tool \<Rightarrow> string \<Rightarrow> (('v, 'k) kvm, unit) act" where
  "handleStopped F T uuid = (\<lambda>m.
     (lift_err (fe_unmount F uuid),
      m\<lparr>kv_infos := (kv_infos m)(uuid := None),
        kv_socat := snd (RemoveAll T (kvm_forwardId uuid) (kv_socat m))\<rparr>))"

text \<open>The addresses of the cards are copied from the description that libvirt gives back, by position.\<close>

fun assign_macs :: "iface list \<Rightarrow> nat \<Rightarrow> kvm_nic list \<Rightarrow> fault option \<times> kvm_nic list" where
  "assign_macs [] i ns = (None, ns)"
| "assign_macs (f # fs) i ns = (case if_Mac f of
     None \<Rightarrow> (Some (Panic nil_deref), ns)
   | Some a \<Rightarrow> if i < length ns then assign_macs fs (Suc i) (ns[i := (ns ! i)\<lparr>kn_HWAddress := a\<rparr>])
               else (Some (Panic ''index out of range''), ns))"

definition create_body ::
  "net_env \<Rightarrow> 'k nft_tool \<Rightarrow> 'v virt \<Rightarrow> 16 word \<Rightarrow> create_params \<Rightarrow> domain_desc \<Rightarrow> (('v, 'k) kvm, string) act" where
  "create_body E T V seq p d =
     sbind (setNetworking E T (np_Port p) seq (np_Nics p) d) (\<lambda>d.
     sbind (on_virt (vt_create V d)) (\<lambda>_.
     sbind (getDomainStruct V (dm_UUID d)) (\<lambda>ds.
     sbind (getDomainInfo (dm_UUID d)) (\<lambda>di.
       case assign_macs (dm_Interfaces ds) 0 (np_Nics (di_Params di)) of (f, ns) \<Rightarrow>
       sbind (putInfo (dm_UUID d) (di\<lparr>di_Params := (di_Params di)\<lparr>np_Nics := ns\<rparr>\<rparr>)) (\<lambda>_.
       case f of None \<Rightarrow> sret (dm_UUID d) | Some f \<Rightarrow> slift (Inl f))))))"

text \<open>The deferred clean-up runs when an error is returned, not when the body panics.\<close>

definition kvm_create ::
  "url_env \<Rightarrow> net_env \<Rightarrow> flist_env \<Rightarrow> 'k nft_tool \<Rightarrow> 'v virt \<Rightarrow> string \<Rightarrow> create_params \<Rightarrow> (('v, 'k) kvm, string) act" where
  "kvm_create U E F T V uuid p =
     sbind (slift (CreateParams_Valid p)) (\<lambda>_.
     sbind kvm_getNextSequence (\<lambda>seq.
     sbind (slift (mkDomain U uuid p)) (\<lambda>d.
     sbind (slift (if cp_FList p \<noteq> [] then prepareFlist F p d else Inr d)) (\<lambda>d.
     sbind (putInfo uuid \<lparr>di_Params = p, di_Sequence = seq\<rparr>) (\<lambda>_ m.
       case create_body E T V seq p d m of
         (Inl (Fault e), m') \<Rightarrow> (Inl (Fault e), snd (handleStopped F T uuid m'))
       | r \<Rightarrow> r)))))"

definition zero_domain :: "string \<Rightarrow> domain_desc" where
  "zero_domain uuid = \<lparr>dm_Type = [], dm_Name = [], dm_UUID = uuid, dm_Memory = (0, []), dm_VCPU = 0,
     dm_OS = \<lparr>os_Type = [], os_Arch = [], os_Kernel = [], os_InitRD = [], os_Cmdline = []\<rparr>, dm_Emulator = [],
     dm_Graphics = [], dm_Disks = [], dm_Interfaces = [], dm_Devices = [], dm_Filesystems = [], dm_Args = []\<rparr>"

definition prepareMigrationTarget :: "net_env \<Rightarrow> 'k nft_tool \<Rightarrow> string \<Rightarrow> nic_params \<Rightarrow> (('v, 'k) kvm, unit) act" where
  "prepareMigrationTarget E T uuid p =
     sbind (slift (NicParams_Valid p)) (\<lambda>_.
     sbind kvm_getNextSequence (\<lambda>seq.
     sbind (setNetworking E T (np_Port p) seq (np_Nics p) (zero_domain uuid)) (\<lambda>_.
     sret ())))"

section \<open>Disks of a running machine\<close>

definition updateMediaInfo :: "url_env \<Rightarrow> 'v virt \<Rightarrow> string \<Rightarrow> (('v, 'k) kvm, unit) act" where
  "updateMediaInfo U V uuid =
     sbind (getDomainInfo uuid) (\<lambda>di. sbind (getDomainStruct V uuid) (\<lambda>d.
     sbind (slift (media_of_domain U d)) (\<lambda>ms.
       putInfo uuid (di\<lparr>di_Params := (di_Params di)\<lparr>cp_Media := ms\<rparr>\<rparr>))))"

definition attachDisk :: "url_env \<Rightarrow> 'v virt \<Rightarrow> string \<Rightarrow> media \<Rightarrow> (('v, 'k) kvm, unit) act" where
  "attachDisk U V uuid md =
     sbind (getDomainStruct V uuid) (\<lambda>d.
     sbind (slift (mkDisk U (length (dm_Disks d)) md)) (\<lambda>k.
     if list_ex (\<lambda>x. dk_Source x = dk_Source k) (dm_Disks d)
     then slift (fail ''The disk you tried is already attached to the vm'')
     else sbind (on_virt (vt_attach_disk V uuid k)) (\<lambda>_. updateMediaInfo U V uuid)))"

definition detachDisk :: "url_env \<Rightarrow> 'v virt \<Rightarrow> string \<Rightarrow> media \<Rightarrow> (('v, 'k) kvm, unit) act" where
  "detachDisk U V uuid md =
     sbind (getDomainStruct V uuid) (\<lambda>d.
     sbind (slift (mkDisk U 0 md)) (\<lambda>k.
     case find (\<lambda>x. dk_Source x = dk_Source k) (dm_Disks d) of
       None \<Rightarrow> slift (fail ''The disk you tried is not attached to the vm'')
     | Some x \<Rightarrow> sbind (on_virt (vt_detach_disk V uuid x)) (\<lambda>_. updateMediaInfo U V uuid)))"

definition limitDiskIO :: "url_env \<Rightarrow> 'v virt \<Rightarrow> string \<Rightarrow> media \<Rightarrow> io_params \<Rightarrow> (('v, 'k) kvm, unit) act" where
  "limitDiskIO U V uuid md io =
     sbind (getDomainStruct V uuid) (\<lambda>d.
     sbind (slift (mkDisk U 0 md)) (\<lambda>k.
     let target = (case find (\<lambda>x. dk_Source x = dk_Source k) (dm_Disks d) of None \<Rightarrow> [] | Some x \<Rightarrow> dt_Dev (dk_Target x)) in
     if target = [] then slift (fail ''The disk you tried is not attached to the vm'')
     else on_virt (vt_tune V uuid target io)))"

section \<open>Cards of a running machine\<close>

definition addNic :: "net_env \<Rightarrow> 'k nft_tool \<Rightarrow> 'v virt \<Rightarrow> string \<Rightarrow> kvm_nic \<Rightarrow> (('v, 'k) kvm, unit) act" where
  "addNic E T V uuid n =
     sbind (getDomainStruct V uuid) (\<lambda>d.
     sbind (getDomainInfo uuid) (\<lambda>di.
     sbind (if kn_Type n = ''default'' then
              (if list_ex (\<lambda>f. is_Bridge (if_Source f) = KvmBridgeName) (dm_Interfaces d)
               then slift (fail ''The default nic is already attached to the vm'')
               else prepareDefaultNetwork E T uuid (di_Sequence di) (Some []))
            else if kn_Type n = ''bridge'' \<and> kn_ID n = KvmBridgeName
              then slift (fail ''the default bridge for the vm should not be added manually'')
            else nic_network E T uuid (di_Sequence di) None n) (\<lambda>inf.
     if kn_Type n \<noteq> ''default'' \<and> list_ex (\<lambda>f. if_Source f = if_Source inf) (dm_Interfaces d)
     then slift (fail ''This nic is already attached to the vm'')
     else sbind (on_virt (vt_attach_nic V uuid inf)) (\<lambda>_.
          sbind (getDomainStruct V uuid) (\<lambda>d.
          if dm_Interfaces d = [] then slift (Inl (Panic ''index out of range''))
          else (case if_Mac (last (dm_Interfaces d)) of
              None \<Rightarrow> slift (Inl (Panic nil_deref))
            | Some a \<Rightarrow> putInfo uuid (di\<lparr>di_Params := (di_Params di)
                \<lparr>np_Nics := np_Nics (di_Params di) @ [n\<lparr>kn_HWAddress := a\<rparr>]\<rparr>\<rparr>)))))))"

definition updateNics :: "'v virt \<Rightarrow> string \<Rightarrow> (('v, 'k) kvm, unit) act" where
  "updateNics V uuid =
     sbind (getDomainInfo uuid) (\<lambda>di. sbind (getDomainStruct V uuid) (\<lambda>d.
     if list_ex (\<lambda>f. if_Mac f = None) (dm_Interfaces d) then slift (Inl (Panic nil_deref))
     else putInfo uuid (di\<lparr>di_Params := (di_Params di)\<lparr>np_Nics :=
       filter (\<lambda>n. Some (kn_HWAddress n) \<in> if_Mac ` set (dm_Interfaces d)) (np_Nics (di_Params di))\<rparr>\<rparr>)))"

text \<open>For the vlan types the result is dereferenced before the error is looked at.\<close>

definition nic_source :: "net_env \<Rightarrow> kvm_nic \<Rightarrow> (fault, iface_source) result" where
  "nic_source E n =
     (let deref = (\<lambda>r. case r of Inl (Fault e) \<Rightarrow> Inl (Panic nil_deref) | Inl (Panic e) \<Rightarrow> Inl (Panic e) | Inr f \<Rightarrow> Inr (if_Source f))
      in if kn_Type n = ''default'' then Inr \<lparr>is_Bridge = KvmBridgeName, is_Network = []\<rparr>
      else if kn_Type n = ''bridge'' then Inr \<lparr>is_Bridge = kn_ID n, is_Network = []\<rparr>
      else if kn_Type n = ''vlan'' then deref (prepareVLanNetwork E n)
      else if kn_Type n = ''vxlan'' then deref (prepareVXLanNetwork E n)
      else fail ''unsupported network mode'')"

definition removeNic :: "net_env \<Rightarrow> 'v virt \<Rightarrow> string \<Rightarrow> kvm_nic \<Rightarrow> (('v, 'k) kvm, unit) act" where
  "removeNic E V uuid n =
     sbind (slift (nic_source E n)) (\<lambda>src.
     sbind (getDomainStruct V uuid) (\<lambda>d.
     case find (\<lambda>f. if_Source f = src) (dm_Interfaces d) of
       None \<Rightarrow> slift (fail ''The nic you tried is not attached to the vm'')
     | Some f \<Rightarrow> sbind (on_virt (vt_detach_nic V uuid f)) (\<lambda>_. updateNics V uuid)))"

section \<open>Port forwards and listing\<close>

definition kvm_portforwardAdd :: "'k nft_tool \<Rightarrow> 'v virt \<Rightarrow> string \<Rightarrow> string \<Rightarrow> int \<Rightarrow> (('v, 'k) kvm, unit) act" where
  "kvm_portforwardAdd T V uuid host dest =
     sbind (getDomainStruct V uuid) (\<lambda>d.
     if \<not> list_ex (\<lambda>f. if_Source f = \<lparr>is_Bridge = KvmBridgeName, is_Network = []\<rparr>) (dm_Interfaces d)
     then slift (fail ''KVM does not have a default nic'')
     else sbind (getDomainInfo uuid) (\<lambda>di. kvm_setPortForward T uuid (di_Sequence di) host dest))"

definition kvm_portforwardRemove :: "'k nft_tool \<Rightarrow> 'v virt \<Rightarrow> string \<Rightarrow> string \<Rightarrow> int \<Rightarrow> (('v, 'k) kvm, unit) act" where
  "kvm_portforwardRemove T V uuid host dest =
     sbind (sget (\<lambda>m. if vt_exists V uuid (kv_virt m) then Inr () else fail ''could not find domain'')) (\<lambda>_.
     sbind (on_socat (RemovePortForward T (kvm_forwardId uuid) host dest)) (\<lambda>_.
     sbind (getDomainInfo uuid) (\<lambda>di.
       putInfo uuid (di\<lparr>di_Params := (di_Params di)\<lparr>np_Port := map_option (AList.delete host) (np_Port (di_Params di))\<rparr>\<rparr>))))"

record machine =
  mc_ID :: int
  mc_UUID :: string
  mc_Name :: string
  mc_State :: string
  mc_Vnc :: int
  mc_Tags :: "string list"
  mc_IfcTargets :: "string list"
  mc_DefaultIP :: string
  mc_Params :: create_params

definition getMachine :: "'v virt \<Rightarrow> string \<Rightarrow> (('v, 'k) kvm, machine) act" where
  "getMachine V uuid =
     sbind (getDomainStruct V uuid) (\<lambda>d.
     sbind (sget (\<lambda>m. lift_err (vt_info V uuid (kv_virt m)))) (\<lambda>(i, name, st).
     sbind (getDomainInfo uuid) (\<lambda>di.
     sret \<lparr>mc_ID = i, mc_UUID = uuid, mc_Name = name, mc_State = StateToString st,
       mc_Vnc = (case find (\<lambda>g. gr_Type g = ''vnc'') (dm_Graphics d) of None \<Rightarrow> -1 | Some g \<Rightarrow> gr_Port g),
       mc_Tags = cp_Tags (di_Params di), mc_IfcTargets = map if_Target (dm_Interfaces d),
       mc_DefaultIP = kvm_ipAddr (di_Sequence di), mc_Params = di_Params di\<rparr>)))"

fun machines :: "'v virt \<Rightarrow> string list \<Rightarrow> (('v, 'k) kvm, machine list) act" where
  "machines V [] = sret []"
| "machines V (u # us) = sbind (getMachine V u) (\<lambda>mc. sbind (machines V us) (\<lambda>mcs. sret (mc # mcs)))"

definition kvm_list :: "'v virt \<Rightarrow> (('v, 'k) kvm, machine list) act" where
  "kvm_list V = sbind (sget (\<lambda>m. lift_err (vt_domains V (kv_virt m)))) (machines V)"

text \<open>\<^verbatim>\<open>get\<close>: exactly one of name and uuid; \<open>by_name\<close> is the lookup by name.\<close>

definition kvm_get :: "'v virt \<Rightarrow> (string \<Rightarrow> (fault, string) result) \<Rightarrow> string \<Rightarrow> string \<Rightarrow> (('v, 'k) kvm, machine) act" where
  "kvm_get V by_name name uuid =
     (if (name = []) = (uuid = []) then slift (fail ''Must supply either Name or UUID'')
      else sbind (slift (if name \<noteq> [] then by_name name else Inr uuid)) (getMachine V))"

section \<open>Events\<close>

text \<open>A life-cycle event as key-value parts: the data that is sent on, and whether the machine has stopped.\<close>

definition event_data :: "string \<Rightarrow> string \<Rightarrow> string list \<Rightarrow> (string \<times> string) list" where
  "event_data uuid name parts =
     fold (\<lambda>part data. case split2 (CHR ''='') part of [k, v] \<Rightarrow> AList.update k v data | _ \<Rightarrow> data) parts
       [(''uuid'', uuid), (''name'', name)]"

definition domaineLifeCycleHandler ::
  "flist_env \<Rightarrow> 'k nft_tool \<Rightarrow> string \<Rightarrow> string \<Rightarrow> string list \<Rightarrow> (('v, 'k) kvm, (string \<times> string) list) act" where
  "domaineLifeCycleHandler F T uuid name parts = (\<lambda>m.
     let data = event_data uuid name parts in
     (Inr data, if map_of data ''event'' = Some ''stopped'' then snd (handleStopped F T uuid m) else m))"

text \<open>\<^verbatim>\<open>events\<close> numbers what it logs from one on.\<close>

definition kvm_events :: "(string \<times> string) list list \<Rightarrow> (64 word \<times> (string \<times> string) list) list" where
  "kvm_events evs = map (\<lambda>(i, data). (1 + of_nat i, data)) (enumerate 0 evs)"

section \<open>Numbers\<close>

interpretation kvm_ids: cyclic_ids "next_seq (\<lambda>s. \<not> kvm_reserved s)" "\<lambda>s. \<not> kvm_reserved s"
  by unfold_locales (rule next_seq_find)

lemma kvm_next_total: "next_seq (\<lambda>s. \<not> kvm_reserved s) s \<noteq> None"
proof -
  have "\<not> kvm_reserved 2" by (simp add: kvm_reserved_def)
  then show ?thesis using kvm_ids.nxt_ends by blast
qed

definition kvm_count :: nat where "kvm_count = 65533"

lemma kvm_free_count: "length (filter (\<lambda>s. \<not> kvm_reserved s) (around s)) = kvm_count"
proof -
  have d: "distinct (filter (\<lambda>s. \<not> kvm_reserved s) (around s))" using around_distinct by simp
  have "set (filter (\<lambda>s. \<not> kvm_reserved s) (around s)) = UNIV - {0, 1, 0xffff}"
    using around_all[of _ s] by (auto simp: kvm_reserved_def)
  moreover have "card (UNIV - {0, 1, 0xffff :: 16 word}) = kvm_count"
    by (simp add: card_Diff_subset card_word kvm_count_def)
  ultimately show ?thesis using distinct_card[OF d] by simp
qed

lemma unat_16: "unat (s :: 16 word) < 65536"
  using unsigned_less[of s] by simp

lemma hex_digit_inject: "a < 16 \<Longrightarrow> b < 16 \<Longrightarrow> hex_digit a = hex_digit b \<longleftrightarrow> a = b"
  by (auto simp: hex_digit_def char_of_eq_iff of_char_of take_bit_nat_def)

lemma hex2_inject: "a < 256 \<Longrightarrow> b < 256 \<Longrightarrow> hex2 a = hex2 b \<longleftrightarrow> a = b"
  by (auto simp: hex2_def hex_digit_inject) (metis div_mult_mod_eq)

lemma bytes_inject: "unat (s :: 16 word) div 256 = unat t div 256 \<and> unat s mod 256 = unat t mod 256 \<longleftrightarrow> s = t"
  by (metis div_mult_mod_eq word_unat_eq_iff)

lemma kvm_macAddr_inject: "kvm_macAddr s = kvm_macAddr t \<longleftrightarrow> s = t"
proof -
  have b: "unat x div 256 < 256" "unat x mod 256 < 256" for x :: "16 word" using unat_16[of x] by auto
  have l: "length (hex2 n) = 2" for n by (simp add: hex2_def)
  show ?thesis
    unfolding kvm_macAddr_def unat_high_byte unat_low_byte
    using bytes_inject[of s t] hex2_inject[OF b(1)[of s] b(1)[of t]] hex2_inject[OF b(2)[of s] b(2)[of t]] l
    by (simp add: append_eq_append_conv)
qed

lemma kvm_ip_eq: "kvm_ip s = 2886926336 + of_nat (unat s)"
proof -
  let ?b = "unat s"
  have "(172 * 256 + 19) * 256 * 256 + ((?b div 256) * 256 + ?b mod 256) = 2886926336 + ?b" by simp
  then have "((172 * 256 + 19) * 256 + ?b div 256) * 256 + ?b mod 256 = 2886926336 + ?b"
    by (simp add: algebra_simps)
  then show ?thesis
    unfolding kvm_ip_def of_octets_def unat_low_byte unat_high_byte by (metis of_nat_add of_nat_numeral)
qed

lemma of_nat_unat_inject: "(of_nat (unat (s :: 16 word)) :: 32 word) = of_nat (unat t) \<longleftrightarrow> s = t"
  using unat_16[of s] unat_16[of t]
  by (subst word_of_nat_eq_iff) (simp add: take_bit_nat_eq_self word_unat_eq_iff)

lemma kvm_ip_inject: "kvm_ip s = kvm_ip t \<longleftrightarrow> s = t"
  by (simp only: kvm_ip_eq add_left_cancel of_nat_unat_inject)

lemma kvm_ipAddr_inject: "kvm_ipAddr s = kvm_ipAddr t \<longleftrightarrow> s = t"
  by (simp add: kvm_ipAddr_def print_ipv4_inject kvm_ip_inject)

text \<open>C33: Machines get their numbers in a cycle of 65533: that many consecutive numbers are all different and none is
  reserved, so the machines differ in hardware and IP address; the next number is the first one again, whether or
  not the machine that has it still runs.\<close>

theorem kvm_numbers_cycle:
  assumes "take_ids (next_seq (\<lambda>s. \<not> kvm_reserved s)) 65533 s = Some ids"
  shows "length ids = 65533 \<and> distinct (map kvm_macAddr ids) \<and> distinct (map kvm_ipAddr ids) \<and>
    list_all (\<lambda>i. \<not> kvm_reserved i) ids \<and> next_seq (\<lambda>s. \<not> kvm_reserved s) (last ids) = Some (hd ids)"
proof -
  have c: "(65533 :: nat) = length (filter (\<lambda>s. \<not> kvm_reserved s) (around s))"
    by (simp only: kvm_free_count kvm_count_def)
  note a = assms[unfolded c]
  from kvm_ids.take_ids_distinct[OF _ a] have d: "distinct ids" "list_all (\<lambda>s. \<not> kvm_reserved s) ids" "length ids = 65533"
    unfolding c[symmetric] by simp_all
  then have "ids \<noteq> []" by auto
  from kvm_ids.take_ids_wrap[OF a this] d show ?thesis
    by (simp add: distinct_map inj_on_def kvm_macAddr_inject kvm_ipAddr_inject)
qed

lemma kvm_numbers_cycle_witness:
  "\<exists>ids. take_ids (next_seq (\<lambda>s. \<not> kvm_reserved s)) 65533 0 = Some ids \<and>
     next_seq (\<lambda>s. \<not> kvm_reserved s) (last ids) = Some (hd ids)"
proof -
  have "(65533 :: nat) \<le> length (filter (\<lambda>s. \<not> kvm_reserved s) (around 0))"
    by (simp only: kvm_free_count kvm_count_def)
  from kvm_ids.take_ids_cycle[OF this] obtain ids where
    i: "take_ids (next_seq (\<lambda>s. \<not> kvm_reserved s)) 65533 0 = Some ids" by blast
  from kvm_numbers_cycle[OF i] i show ?thesis by blast
qed


section \<open>What the operations keep\<close>

text \<open>The invariant of the manager: the forwards are well formed and no machine has a reserved number.  An
  operation on machine \<open>u\<close> keeps it, and the entries of the other machines stay as they were.\<close>

definition kvm_inv :: "(string \<Rightarrow> 16 word \<Rightarrow> bool) \<Rightarrow> ('v, 'k) kvm \<Rightarrow> bool" where
  "kvm_inv P m \<longleftrightarrow> socat_ok (fst (kv_socat m)) \<and> (\<forall>u di. kv_infos m u = Some di \<longrightarrow> P u (di_Sequence di))"

definition kvm_ok :: "('v, 'k) kvm \<Rightarrow> bool" where
  "kvm_ok = kvm_inv (\<lambda>u s. \<not> kvm_reserved s)"

definition only :: "(string \<Rightarrow> 16 word \<Rightarrow> bool) \<Rightarrow> string \<Rightarrow> ('v, 'k) kvm \<Rightarrow> ('v, 'k) kvm \<Rightarrow> bool" where
  "only P u m m' \<longleftrightarrow> (kvm_inv P m \<longrightarrow> kvm_inv P m' \<and> (\<forall>x. x \<noteq> u \<longrightarrow> kv_infos m' x = kv_infos m x))"

lemma only_refl: "only P u m m"
  by (simp add: only_def)

lemma only_trans: "only P u m m' \<Longrightarrow> only P u m' m'' \<Longrightarrow> only P u m m''"
  by (auto simp: only_def)

definition keeps :: "(string \<Rightarrow> 16 word \<Rightarrow> bool) \<Rightarrow> string \<Rightarrow> (('v, 'k) kvm, 'a) act \<Rightarrow> bool" where
  "keeps P u f \<longleftrightarrow> (\<forall>m. only P u m (snd (f m)))"

named_theorems keeps_intros \<open>steps that keep the entries of other machines\<close>

lemma keeps_pure [keeps_intros]: "keeps P u (sret a)" "keeps P u (slift r)" "keeps P u (sget f)"
  by (simp_all add: keeps_def act_defs only_refl)

lemma keeps_sbind [keeps_intros]: "keeps P u f \<Longrightarrow> (\<And>a. keeps P u (g a)) \<Longrightarrow> keeps P u (sbind f g)"
  unfolding keeps_def sbind_def
  by (auto split: prod.splits sum.splits) (metis only_trans snd_conv)+

lemma keeps_sfor [keeps_intros]: "(\<And>x. keeps P u (f x)) \<Longrightarrow> keeps P u (sfor f xs)"
  by (induction xs) (auto intro: keeps_intros)

lemma keeps_if [keeps_intros]: "(b \<Longrightarrow> keeps P u f) \<Longrightarrow> (\<not> b \<Longrightarrow> keeps P u g) \<Longrightarrow> keeps P u (if b then f else g)"
  by simp

lemma keeps_Let [keeps_intros]: "keeps P u (f a) \<Longrightarrow> keeps P u (Let a f)"
  by (simp add: Let_def)

lemma keeps_option [keeps_intros]: "keeps P u f \<Longrightarrow> (\<And>a. keeps P u (g a)) \<Longrightarrow> keeps P u (case x of None \<Rightarrow> f | Some a \<Rightarrow> g a)"
  by (cases x) auto

lemma keeps_prod [keeps_intros]: "(\<And>a b. keeps P u (g a b)) \<Longrightarrow> keeps P u (case x of (a, b) \<Rightarrow> g a b)"
  by (cases x) auto

lemma keeps_virt [keeps_intros]: "keeps P u (on_virt f)"
  by (auto simp: keeps_def on_virt_def only_def kvm_inv_def split: prod.splits)

lemma keeps_getStruct [keeps_intros]: "keeps P u (getDomainStruct V x)"
  by (simp add: getDomainStruct_def keeps_intros)

lemma keeps_socat:
  fixes f :: "socat \<times> 'k \<Rightarrow> (go_error, 'a) result \<times> socat \<times> 'k"
  assumes "\<And>s k. socat_ok s \<Longrightarrow> socat_ok (fst (snd (f (s, k))))"
  shows "keeps P u (on_socat f :: (('v, 'k) kvm, 'a) act)"
  unfolding keeps_def
proof
  fix m :: "('v, 'k) kvm"
  obtain s k r sk where e: "kv_socat m = (s, k)" "f (s, k) = (r, sk)" by (metis surj_pair)
  then show "only P u m (snd (on_socat f m))"
    using assms[of s k] by (simp add: on_socat_def only_def kvm_inv_def)
qed

lemma keeps_SetPortForward [keeps_intros]: "keeps P u (on_socat (SetPortForward T ns ip host dest))"
  by (rule keeps_socat) (rule SetPortForward_ok)

lemma keeps_RemovePortForward [keeps_intros]: "keeps P u (on_socat (RemovePortForward T ns host dest))"
  by (rule keeps_socat) (rule RemovePortForward_ok)

lemma keeps_getInfo [keeps_intros]:
  assumes "\<And>di. P u (di_Sequence di) \<Longrightarrow> keeps P u (g di)"
  shows "keeps P u (sbind (getDomainInfo u) g)"
  unfolding keeps_def
proof
  fix m show "only P u m (snd (sbind (getDomainInfo u) g m))"
  proof (cases "kv_infos m u")
    case None
    then show ?thesis by (simp add: sbind_def getDomainInfo_def sget_def fail_def only_refl)
  next
    case (Some di)
    then have "kvm_inv P m \<Longrightarrow> only P u m (snd (g di m))" using assms[of di] by (auto simp: keeps_def kvm_inv_def)
    then show ?thesis using Some by (auto simp: sbind_def getDomainInfo_def sget_def only_def)
  qed
qed

lemma keeps_putInfo [keeps_intros]: "P u (di_Sequence di) \<Longrightarrow> keeps P u (putInfo u di)"
  by (auto simp: keeps_def putInfo_def only_def kvm_inv_def)

lemma keeps_setPortForward [keeps_intros]: "keeps P u (kvm_setPortForward T u seq host dest)"
  unfolding kvm_setPortForward_def by (intro keeps_intros) simp

lemma keeps_handleStopped [keeps_intros]: "keeps P u (handleStopped F T u)"
proof -
  have "socat_ok (fst sk) \<Longrightarrow> socat_ok (fst (snd (RemoveAll T ns sk)))" for ns sk
    by (cases sk) (simp add: RemoveAll_ok)
  then show ?thesis by (auto simp: keeps_def handleStopped_def only_def kvm_inv_def)
qed

lemma keeps_prepareDefault [keeps_intros]: "keeps P u (prepareDefaultNetwork E T u seq ports)"
  unfolding prepareDefaultNetwork_def kvm_setPortForwards_def by (intro keeps_intros)

lemma keeps_nic_network [keeps_intros]: "keeps P u (nic_network E T u seq ports n)"
  unfolding nic_network_def by (intro keeps_intros)

lemma keeps_setNetworking [keeps_intros]: "dm_UUID d = u \<Longrightarrow> keeps P u (setNetworking E T ports seq ns d)"
proof (induction ns arbitrary: d)
  case (Cons n ns)
  show ?case unfolding setNetworking.simps Cons.prems
    by (intro keeps_sbind keeps_nic_network Cons.IH) (simp add: Cons.prems)
qed (simp add: keeps_intros)

lemma keeps_updateMedia [keeps_intros]: "keeps P u (updateMediaInfo U V u)"
  unfolding updateMediaInfo_def by (intro keeps_intros) simp

lemma keeps_updateNics [keeps_intros]: "keeps P u (updateNics V u)"
  unfolding updateNics_def by (intro keeps_intros) simp

lemma mkDomain_uuid: "mkDomain U uuid p = Inr d \<Longrightarrow> dm_UUID d = uuid"
proof -
  assume a: "mkDomain U uuid p = Inr d"
  then obtain d0 where d0: "rfold (add_media U) (enumerate 0 (cp_Media p)) (base_domain uuid p) = Inr d0"
    and d: "dm_UUID d = dm_UUID d0" by (auto simp: mkDomain_def rbind_eq_Inr Let_def split: if_splits)
  have "dm_UUID d0 = uuid"
    by (rule rfold_invariant[where P = "\<lambda>d. dm_UUID d = uuid", OF _ _ d0])
      (auto simp: add_media_def rbind_eq_Inr base_domain_def split: if_splits)
  then show ?thesis using d by simp
qed

lemma prepareFlist_uuid: "prepareFlist F p d = Inr d' \<Longrightarrow> dm_UUID d' = dm_UUID d"
  by (auto simp: prepareFlist_def rbind_eq_Inr Let_def)

lemma setNetworking_uuid: "setNetworking E T ports seq ns d m = (Inr d', m') \<Longrightarrow> dm_UUID d' = dm_UUID d"
proof (induction ns arbitrary: d m)
  case (Cons n ns)
  then show ?case by (fastforce simp: sbind_def split: prod.splits sum.splits)
qed (simp add: sret_def)

lemma keeps_slift: "(\<And>a. r = Inr a \<Longrightarrow> keeps P u (g a)) \<Longrightarrow> keeps P u (sbind (slift r) g)"
  by (cases r) (auto simp: keeps_def sbind_def slift_def only_refl)

lemma keeps_sbind_Inr:
  assumes "keeps P u f" and "\<And>a m m'. f m = (Inr a, m') \<Longrightarrow> keeps P u (g a)" shows "keeps P u (sbind f g)"
  unfolding keeps_def
proof
  fix m obtain r m' where r: "f m = (r, m')" by force
  then have "only P u m m'" using assms(1) by (auto simp: keeps_def dest: spec[of _ m])
  then show "only P u m (snd (sbind f g m))"
  proof (cases r)
    case (Inr a)
    then have "only P u m' (snd (g a m'))" using assms(2)[of m a m'] r by (auto simp: keeps_def)
    then show ?thesis using r Inr \<open>only P u m m'\<close> only_trans by (fastforce simp: sbind_def)
  qed (simp add: sbind_def r)
qed

lemma keeps_create_body: 
  assumes "dm_UUID d = u" shows "keeps P u (create_body E T V seq p d)"
  unfolding create_body_def
proof (rule keeps_sbind_Inr[OF keeps_setNetworking[OF assms]])
  fix d' m m' assume "setNetworking E T (np_Port p) seq (np_Nics p) d m = (Inr d', m')"
  then have "dm_UUID d' = u" using setNetworking_uuid assms by metis
  then show "keeps P u (sbind (on_virt (vt_create V d')) (\<lambda>_. sbind (getDomainStruct V (dm_UUID d')) (\<lambda>ds.
     sbind (getDomainInfo (dm_UUID d')) (\<lambda>di. case assign_macs (dm_Interfaces ds) 0 (np_Nics (di_Params di)) of (f, ns) \<Rightarrow>
       sbind (putInfo (dm_UUID d') (di\<lparr>di_Params := (di_Params di)\<lparr>np_Nics := ns\<rparr>\<rparr>)) (\<lambda>_.
       case f of None \<Rightarrow> sret (dm_UUID d') | Some f \<Rightarrow> slift (Inl f))))))"
    by simp (intro keeps_intros, simp)
qed


lemma keeps_create:
  assumes "\<And>seq m m'. kvm_getNextSequence (m :: ('v, 'k) kvm) = (Inr seq, m') \<Longrightarrow> P u seq"
  shows "keeps P u (kvm_create U E F T V u p :: (('v, 'k) kvm, string) act)"
proof -
  have body: "keeps P u (\<lambda>m. case create_body E T V seq p d m of
         (Inl (Fault e), m') \<Rightarrow> (Inl (Fault e), snd (handleStopped F T u m')) | r \<Rightarrow> r)" if "dm_UUID d = u" for seq d
    unfolding keeps_def
  proof
    fix m obtain r m' where r: "create_body E T V seq p d m = (r, m')" by force
    then have o: "only P u m m'" using keeps_create_body[OF that, of P E T V seq p] by (auto simp: keeps_def dest: spec[of _ m])
    have "only P u m' (snd (handleStopped F T u m'))"
      using keeps_handleStopped unfolding keeps_def by blast
    then have "only P u m (snd (handleStopped F T u m'))" by (rule only_trans[OF o])
    then show "only P u m (snd (case create_body E T V seq p d m of
         (Inl (Fault e), m') \<Rightarrow> (Inl (Fault e), snd (handleStopped F T u m')) | r \<Rightarrow> r))"
      using r o by (auto split: sum.splits fault.splits)
  qed
  show ?thesis
    unfolding kvm_create_def
  proof (rule keeps_slift)
    fix x assume "CreateParams_Valid p = Inr x"
    show "keeps P u (sbind kvm_getNextSequence (\<lambda>seq. sbind (slift (mkDomain U u p)) (\<lambda>d.
     sbind (slift (if cp_FList p \<noteq> [] then prepareFlist F p d else Inr d)) (\<lambda>d.
     sbind (putInfo u \<lparr>di_Params = p, di_Sequence = seq\<rparr>) (\<lambda>_ m.
       case create_body E T V seq p d m of
         (Inl (Fault e), m') \<Rightarrow> (Inl (Fault e), snd (handleStopped F T u m'))
       | r \<Rightarrow> r)))))"
    proof (rule keeps_sbind_Inr)
      show "keeps P u kvm_getNextSequence"
        by (auto simp: keeps_def kvm_getNextSequence_def only_def kvm_inv_def split: option.splits)
    next
      fix seq and m m' :: "('v, 'k) kvm" assume "kvm_getNextSequence m = (Inr seq, m')"
      then have nr: "P u seq" by (rule assms)
      show "keeps P u (sbind (slift (mkDomain U u p)) (\<lambda>d.
     sbind (slift (if cp_FList p \<noteq> [] then prepareFlist F p d else Inr d)) (\<lambda>d.
     sbind (putInfo u \<lparr>di_Params = p, di_Sequence = seq\<rparr>) (\<lambda>_ m.
       case create_body E T V seq p d m of
         (Inl (Fault e), m') \<Rightarrow> (Inl (Fault e), snd (handleStopped F T u m'))
       | r \<Rightarrow> r))))"
        by (intro keeps_slift keeps_sbind keeps_putInfo body)
          (auto simp: nr dest!: mkDomain_uuid prepareFlist_uuid split: if_splits)
    qed
  qed
qed

end
