(* ===== verification/Kvm_Props.thy ===== *)
theory Kvm_Props
  imports Kvm_Manager
begin

text \<open>
  Properties of the virtual machine manager: the invariant over any sequence of calls, the outcome of a
  creation, and the behaviours that a caller would not expect, each with a concrete run.
\<close>

section \<open>Properties of the operations\<close>

text \<open>The calls that change the manager, and their effect.\<close>

datatype kvm_call =
    CallCreate string create_params
  | CallStopped string
  | CallMigrationTarget string nic_params
  | CallAttachDisk string media
  | CallDetachDisk string media
  | CallLimitIO string media io_params
  | CallAddNic string kvm_nic
  | CallRemoveNic string kvm_nic
  | CallForwardAdd string string int
  | CallForwardRemove string string int

fun call_target :: "kvm_call \<Rightarrow> string" where
  "call_target (CallCreate u p) = u"
| "call_target (CallStopped u) = u"
| "call_target (CallMigrationTarget u p) = u"
| "call_target (CallAttachDisk u md) = u"
| "call_target (CallDetachDisk u md) = u"
| "call_target (CallLimitIO u md io) = u"
| "call_target (CallAddNic u n) = u"
| "call_target (CallRemoveNic u n) = u"
| "call_target (CallForwardAdd u h d) = u"
| "call_target (CallForwardRemove u h d) = u"

fun kvm_exec :: "url_env \<Rightarrow> net_env \<Rightarrow> flist_env \<Rightarrow> 'k nft_tool \<Rightarrow> 'v virt \<Rightarrow> kvm_call \<Rightarrow> ('v, 'k) kvm \<Rightarrow> ('v, 'k) kvm" where
  "kvm_exec U E F T V (CallCreate u p) m = snd (kvm_create U E F T V u p m)"
| "kvm_exec U E F T V (CallStopped u) m = snd (handleStopped F T u m)"
| "kvm_exec U E F T V (CallMigrationTarget u p) m = snd (prepareMigrationTarget E T u p m)"
| "kvm_exec U E F T V (CallAttachDisk u md) m = snd (attachDisk U V u md m)"
| "kvm_exec U E F T V (CallDetachDisk u md) m = snd (detachDisk U V u md m)"
| "kvm_exec U E F T V (CallLimitIO u md io) m = snd (limitDiskIO U V u md io m)"
| "kvm_exec U E F T V (CallAddNic u n) m = snd (addNic E T V u n m)"
| "kvm_exec U E F T V (CallRemoveNic u n) m = snd (removeNic E V u n m)"
| "kvm_exec U E F T V (CallForwardAdd u h d) m = snd (kvm_portforwardAdd T V u h d m)"
| "kvm_exec U E F T V (CallForwardRemove u h d) m = snd (kvm_portforwardRemove T V u h d m)"

lemma next_not_reserved: "kvm_getNextSequence m = (Inr seq, m') \<Longrightarrow> \<not> kvm_reserved seq"
  using kvm_ids.nxt_ok by (auto simp: kvm_getNextSequence_def fail_def split: option.splits)

lemma keeps_getNext [keeps_intros]: "keeps P u kvm_getNextSequence"
  by (auto simp: keeps_def kvm_getNextSequence_def only_def kvm_inv_def split: option.splits)

lemma keeps_migration: "keeps P u (prepareMigrationTarget E T u p)"
  unfolding prepareMigrationTarget_def by (intro keeps_intros) (simp add: zero_domain_def)

lemma keeps_attachDisk: "keeps P u (attachDisk U V u md)"
  unfolding attachDisk_def by (intro keeps_intros)

lemma keeps_detachDisk: "keeps P u (detachDisk U V u md)"
  unfolding detachDisk_def by (intro keeps_intros)

lemma keeps_limit: "keeps P u (limitDiskIO U V u md io)"
  unfolding limitDiskIO_def by (intro keeps_intros)

lemma keeps_addNic: "keeps P u (addNic E T V u n)"
  unfolding addNic_def by (intro keeps_intros) simp

lemma keeps_removeNic: "keeps P u (removeNic E V u n)"
  unfolding removeNic_def by (intro keeps_intros)

lemma keeps_forwardAdd: "keeps P u (kvm_portforwardAdd T V u h d)"
  unfolding kvm_portforwardAdd_def by (intro keeps_intros)

lemma keeps_forwardRemove: "keeps P u (kvm_portforwardRemove T V u h d)"
  unfolding kvm_portforwardRemove_def by (intro keeps_intros) simp

lemmas keeps_calls = keeps_handleStopped keeps_migration keeps_attachDisk keeps_detachDisk keeps_limit keeps_addNic
  keeps_removeNic keeps_forwardAdd keeps_forwardRemove

lemma keepsD: "keeps P u f \<Longrightarrow> kvm_inv P m \<Longrightarrow> kvm_inv P (snd (f m)) \<and> (x \<noteq> u \<longrightarrow> kv_infos (snd (f m)) x = kv_infos m x)"
  by (auto simp: keeps_def only_def)

lemma keeps_create_ok: "keeps (\<lambda>u s. \<not> kvm_reserved s) uuid (kvm_create U E F T V uuid p)"
  by (rule keeps_create) (erule next_not_reserved)

lemma kvm_exec_keeps:
  assumes "kvm_ok m"
  shows "kvm_ok (kvm_exec U E F T V c m) \<and> (x \<noteq> call_target c \<longrightarrow> kv_infos (kvm_exec U E F T V c m) x = kv_infos m x)"
  using assms unfolding kvm_ok_def
  by (cases c; simp only: kvm_exec.simps call_target.simps)
    (rule keepsD, rule keeps_create_ok keeps_calls, assumption)+

text \<open>C14: Whatever calls arrive, and whether they succeed, fail or panic: the forwards of the host stay well formed,
  no machine ever has a reserved number, and a call leaves the entries of all other machines as they are.\<close>

theorem kvm_calls_invariant:
  assumes "kvm_ok m"
  shows "kvm_ok (fold (kvm_exec U E F T V) cs m) \<and>
    (\<forall>x. x \<notin> call_target ` set cs \<longrightarrow> kv_infos (fold (kvm_exec U E F T V) cs m) x = kv_infos m x)"
  using assms
proof (induction cs arbitrary: m)
  case (Cons c cs)
  have k: "kvm_ok (kvm_exec U E F T V c m)" using kvm_exec_keeps[OF Cons.prems] by blast
  have f: "kv_infos (kvm_exec U E F T V c m) x = kv_infos m x" if "x \<noteq> call_target c" for x
    using kvm_exec_keeps[OF Cons.prems] that by blast
  show ?case using Cons.IH[OF k] f by simp
qed simp


section \<open>Creation\<close>

lemma sbind_Inr: "sbind f g m = (Inr b, m') \<longleftrightarrow> (\<exists>a m1. f m = (Inr a, m1) \<and> g a m1 = (Inr b, m'))"
  by (auto simp: sbind_def split: prod.splits sum.splits)

lemma slift_Inr [simp]: "slift r m = (Inr a, m') \<longleftrightarrow> r = Inr a \<and> m' = m"
  by (auto simp: slift_def)

lemma create_body_Inr:
  assumes "create_body E T V seq p d m = (Inr u, m')" and "dm_UUID d = uuid" and "kvm_inv (\<lambda>x s. x = uuid \<longrightarrow> s = seq) m"
  shows "u = uuid \<and> (\<exists>di. kv_infos m' uuid = Some di \<and> di_Sequence di = seq)"
proof -
  from assms(1) obtain d' m1 where d': "setNetworking E T (np_Port p) seq (np_Nics p) d m = (Inr d', m1)"
    by (auto simp: create_body_def sbind_Inr)
  then have u': "dm_UUID d' = uuid" using setNetworking_uuid assms(2) by metis
  have "u = uuid \<and> kv_infos m' uuid \<noteq> None"
    using assms(1) d' u'
    by (auto simp: create_body_def sbind_Inr putInfo_def sret_def slift_def case_prod_unfold split: option.splits)
  moreover have "kvm_inv (\<lambda>x s. x = uuid \<longrightarrow> s = seq) m'"
    using keepsD[OF keeps_create_body[OF assms(2)] assms(3), of E T V seq p] assms(1) by simp
  ultimately show ?thesis by (auto simp: kvm_inv_def)
qed

text \<open>C15: Creating a machine under a new UUID, with everything that can go wrong on the way: when it succeeds the
  parameters were valid, the machine is registered under that UUID with the next number in the cycle; when an
  error is returned the table of machines is as it was before.\<close>

theorem kvm_create_outcome:
  assumes "kvm_create U E F T V uuid p m = (r, m')" and "kv_infos m uuid = None" and "kvm_ok m"
  shows "case r of
      Inr u \<Rightarrow> u = uuid \<and> CreateParams_Valid p = Inr () \<and>
        (\<exists>di. kv_infos m' uuid = Some di \<and> next_seq (\<lambda>s. \<not> kvm_reserved s) (kv_sequence m) = Some (di_Sequence di))
    | Inl (Fault e) \<Rightarrow> kv_infos m' = kv_infos m
    | Inl (Panic e) \<Rightarrow> True"
proof -
  obtain seq where n: "next_seq (\<lambda>s. \<not> kvm_reserved s) (kv_sequence m) = Some seq" using kvm_next_total by blast
  have g: "kvm_getNextSequence m = (Inr seq, m\<lparr>kv_sequence := seq\<rparr>)" by (simp add: kvm_getNextSequence_def n)
  have keep: "kv_infos m' x = kv_infos m x" if "x \<noteq> uuid" for x
  proof -
    have "kvm_inv (\<lambda>u s. \<not> kvm_reserved s) m" using assms(3) by (simp add: kvm_ok_def)
    then have "kv_infos (snd (kvm_create U E F T V uuid p m)) x = kv_infos m x"
      using keepsD[OF keeps_create_ok] that by blast
    then show ?thesis using assms(1) by simp
  qed
  show ?thesis
  proof (cases "CreateParams_Valid p = Inr () \<and> (\<exists>d0 d. mkDomain U uuid p = Inr d0 \<and>
      (if cp_FList p \<noteq> [] then prepareFlist F p d0 else Inr d0) = Inr d)")
    case False
    then have "kv_infos m' = kv_infos m \<and> (\<exists>e. r = Inl e)"
      using assms(1) g
      by (cases "CreateParams_Valid p"; cases "mkDomain U uuid p")
        (auto simp: kvm_create_def sbind_def slift_def split: sum.splits if_splits)
    then show ?thesis by (auto split: fault.split)
  next
    case True
    then obtain d0 d where d: "CreateParams_Valid p = Inr ()" "mkDomain U uuid p = Inr d0"
      "(if cp_FList p \<noteq> [] then prepareFlist F p d0 else Inr d0) = Inr d" by blast
    have u: "dm_UUID d = uuid" using d mkDomain_uuid prepareFlist_uuid by (metis sum.inject(2))
    define m1 where "m1 = m\<lparr>kv_sequence := seq, kv_infos := (kv_infos m)(uuid \<mapsto> \<lparr>di_Params = p, di_Sequence = seq\<rparr>)\<rparr>"
    obtain rb mb where b: "create_body E T V seq p d m1 = (rb, mb)" by force
    have r: "(r, m') = (case (rb, mb) of (Inl (Fault e), m') \<Rightarrow> (Inl (Fault e), snd (handleStopped F T uuid m')) | r \<Rightarrow> r)"
      using assms(1) d g b by (simp add: kvm_create_def sbind_def slift_def putInfo_def m1_def)
    have inv: "kvm_inv (\<lambda>x s. x = uuid \<longrightarrow> s = seq) m1" using assms(2,3) by (auto simp: kvm_inv_def kvm_ok_def m1_def)
    show ?thesis
    proof (cases rb)
      case (Inr u')
      then have "r = Inr u'" "m' = mb" using r by simp_all
      moreover have "u' = uuid \<and> (\<exists>di. kv_infos mb uuid = Some di \<and> di_Sequence di = seq)"
        using create_body_Inr[OF b[unfolded Inr] u inv] .
      ultimately show ?thesis using d(1) n by auto
    next
      case (Inl f)
      show ?thesis
      proof (cases f)
        case (Fault e)
        then have "r = Inl (Fault e)" "kv_infos m' uuid = None" using r Inl by (simp_all add: handleStopped_def)
        then show ?thesis using keep assms(2) by (auto simp: fun_eq_iff) metis
      next
        case (Panic e)
        then show ?thesis using r Inl by simp
      qed
    qed
  qed
qed

section \<open>What goes wrong\<close>

text \<open>A machine created without port forwards has no map for them.  Adding one later sets the forward on the
  host and then panics; the forward stays and the machine does not know of it.\<close>

theorem forward_on_nil_map:
  assumes "vt_struct V uuid (kv_virt m) = Inr d"
    and "list_ex (\<lambda>f. if_Source f = \<lparr>is_Bridge = KvmBridgeName, is_Network = []\<rparr>) (dm_Interfaces d)"
    and "kv_infos m uuid = Some di" and "np_Port (di_Params di) = None"
    and "SetPortForward T (kvm_forwardId uuid) (kvm_ipAddr (di_Sequence di)) host dest (kv_socat m) = (Inr (), sk)"
  shows "kvm_portforwardAdd T V uuid host dest m = (Inl (Panic nil_map), m\<lparr>kv_socat := sk\<rparr>)"
  using assms by (simp add: kvm_portforwardAdd_def kvm_setPortForward_def act_defs getDomainStruct_def getDomainInfo_def on_socat_def)

lemma setPortForward_unknown:
  assumes "kv_infos m uuid = None" shows "\<exists>e m'. kvm_setPortForward T uuid seq host dest m = (Inl e, m')"
proof -
  obtain r sk where "SetPortForward T (kvm_forwardId uuid) (kvm_ipAddr seq) host dest (kv_socat m) = (r, sk)" by (rule prod.exhaust)
  then show ?thesis using assms
    by (cases r) (simp_all add: kvm_setPortForward_def act_defs on_socat_def getDomainInfo_def fail_def)
qed

text \<open>A machine that is to be migrated here has no entry yet, so preparing for it with a default card and at least
  one port forward never succeeds.\<close>

theorem migration_with_forwards_fails:
  assumes "kv_infos m uuid = None" and "np_Nics p = n # ns" and "kn_Type n = ''default''" and "np_Port p = Some (f # fs)"
  shows "fst (prepareMigrationTarget E T uuid p m) \<noteq> Inr ()"
proof
  assume "fst (prepareMigrationTarget E T uuid p m) = Inr ()"
  then obtain seq m1 d m2 where g: "kvm_getNextSequence m = (Inr seq, m1)"
    "setNetworking E T (np_Port p) seq (np_Nics p) (zero_domain uuid) m1 = (Inr d, m2)"
    by (auto simp: prepareMigrationTarget_def sbind_def slift_def split: prod.splits sum.splits)
  have "kv_infos m1 uuid = None" using g(1) assms(1) by (auto simp: kvm_getNextSequence_def split: option.splits)
  moreover obtain host dest where f: "f = (host, dest)" by force
  ultimately obtain e m' where e: "kvm_setPortForward T uuid seq host dest m1 = (Inl e, m')"
    using setPortForward_unknown by blast
  then have "\<exists>e m'. nic_network E T uuid seq (Some (f # fs)) n m1 = (Inl e, m')"
    using assms(3) f
    by (cases "setDHCPHost E seq") (auto simp: nic_network_def prepareDefaultNetwork_def kvm_setPortForwards_def act_defs fail_def)
  then show False using g(2) assms by (auto simp: zero_domain_def sbind_def)
qed

text \<open>Listing the machines needs an entry for each one: as long as libvirt knows a machine without, such as one that
  was migrated here, no machine is listed.\<close>

theorem list_needs_all_entries:
  assumes "kvm_list V m = (Inr ms, m')" and "vt_domains V (kv_virt m) = Inr us"
  shows "list_all (\<lambda>u. kv_infos m u \<noteq> None) us \<and> map mc_UUID ms = us \<and> m' = m"
proof -
  have one: "getMachine V u m = (Inr mc, m1) \<Longrightarrow> kv_infos m u \<noteq> None \<and> mc_UUID mc = u \<and> m1 = m" for u mc m1
    by (auto simp: getMachine_def sbind_Inr getDomainStruct_def getDomainInfo_def sget_def sret_def split: option.splits prod.splits)
  have "machines V us m = (Inr ms, m1) \<Longrightarrow> list_all (\<lambda>u. kv_infos m u \<noteq> None) us \<and> map mc_UUID ms = us \<and> m1 = m" for m1
  proof (induction us arbitrary: ms)
    case (Cons u us)
    from Cons.prems obtain mc m2 mcs where r: "getMachine V u m = (Inr mc, m2)" "machines V us m2 = (Inr mcs, m1)" "ms = mc # mcs"
      by (auto simp: sbind_Inr sret_def)
    from one[OF r(1)] Cons.IH r show ?case by auto
  qed (auto simp: sret_def)
  then show ?thesis using assms by (auto simp: kvm_list_def sbind_Inr sget_def)
qed

text \<open>Removing a card whose vlan cannot be set up panics, since the missing result is dereferenced before the error
  is looked at.\<close>

theorem removeNic_vlan_panics:
  assumes "kn_Type n = ''vlan''" and "prepareVLanNetwork E n = Inl f"
  shows "\<exists>e. removeNic E V uuid n m = (Inl (Panic e), m)"
  using assms by (cases f) (auto simp: removeNic_def nic_source_def act_defs)

text \<open>With an argument for the emulator that is not a zdb drive, which every machine with a zdb medium or the \<^verbatim>\<open>kvm\<close>
  flag has, attaching a disk reports an error although the disk was attached.\<close>

theorem attachDisk_reports_error:
  assumes "vt_struct V uuid (kv_virt m) = Inr d" and "mkDisk U (length (dm_Disks d)) md = Inr k"
    and "\<not> list_ex (\<lambda>x. dk_Source x = dk_Source k) (dm_Disks d)"
    and "vt_attach_disk V uuid k (kv_virt m) = (Inr (), v)" and "vt_struct V uuid v = Inr d'"
    and "dm_Args d' = a # as" and "\<not> has_prefix ''driver=zdb'' a" and "kv_infos m uuid \<noteq> None"
  shows "attachDisk U V uuid md m = (fail ''could not find driver=zdb string'', m\<lparr>kv_virt := v\<rparr>)"
proof -
  have "media_of_domain U d' = fail ''could not find driver=zdb string''"
    using assms(6,7) by (simp add: media_of_domain_def mediaFromZDBString_def zdb_parse_def)
  then show ?thesis using assms
    by (auto simp: attachDisk_def updateMediaInfo_def act_defs getDomainStruct_def getDomainInfo_def on_virt_def fail_def)
qed

text \<open>Zdb media count when the devices of a new machine are named but not when a disk is attached: if the medium at
  the position given by the number of disks is a disk of the same kind, the new disk gets its device name.\<close>

theorem attached_disk_name_clash:
  assumes "mkDomain U uuid p = Inr d" and "mkDisk U (length (dm_Disks d)) md = Inr k"
    and "length (dm_Disks d) < length (cp_Media p)" and "\<not> is_zdb (cp_Media p ! length (dm_Disks d))"
    and "drive_prefix (cp_Media p ! length (dm_Disks d)) = drive_prefix md"
  shows "dt_Dev (dk_Target k) \<in> set (map (dt_Dev \<circ> dk_Target) (dm_Disks d))"
proof -
  let ?n = "length (dm_Disks d)"
  let ?ims = "filter (\<lambda>(i, m). \<not> is_zdb m) (enumerate 0 (cp_Media p))"
  have "(?n, cp_Media p ! ?n) \<in> set ?ims" using assms(3,4) by (simp add: in_set_enumerate_eq)
  then obtain j where j: "j < length ?ims" "?ims ! j = (?n, cp_Media p ! ?n)" by (metis in_set_conv_nth)
  have l2: "list_all2 (\<lambda>(i, m) k. mkDisk U i m = Inr k) ?ims (dm_Disks d)" by (rule mkDomain_spec(1)[OF assms(1)])
  have "mkDisk U ?n (cp_Media p ! ?n) = Inr (dm_Disks d ! j)" using list_all2_nthD[OF l2 j(1)] j(2) by simp
  then have "dt_Dev (dk_Target (dm_Disks d ! j)) = dt_Dev (dk_Target k)"
    using mkDisk_target[OF assms(2)] mkDisk_target assms(5) by metis
  moreover have "j < ?n" using j(1) list_all2_lengthD[OF l2] by simp
  ultimately show ?thesis using nth_mem[of j "map (dt_Dev \<circ> dk_Target) (dm_Disks d)"] by simp
qed

section \<open>Witnesses\<close>

text \<open>One machine at most, kept as its description; attaching and tuning succeed.\<close>

definition cards_of :: "device list \<Rightarrow> iface list" where
  "cards_of ds = concat (map (\<lambda>d. case d of InterfaceDev f \<Rightarrow> [f] | _ \<Rightarrow> []) ds)"

definition demo_virt :: "domain_desc option virt" where
  "demo_virt = \<lparr>vt_struct = (\<lambda>u v. case v of None \<Rightarrow> Inl (PlainErr ''no domain'') | Some d \<Rightarrow> Inr d),
     vt_create = (\<lambda>d v. (Inr (), Some (d\<lparr>dm_Interfaces := cards_of (dm_Devices d)\<rparr>))),
     vt_attach_disk = (\<lambda>u k v. (Inr (), map_option (\<lambda>d. d\<lparr>dm_Disks := dm_Disks d @ [k]\<rparr>) v)),
     vt_detach_disk = (\<lambda>u k v. (Inr (), map_option (\<lambda>d. d\<lparr>dm_Disks := remove1 k (dm_Disks d)\<rparr>) v)),
     vt_attach_nic = (\<lambda>u f v. (Inr (), map_option (\<lambda>d. d\<lparr>dm_Interfaces := dm_Interfaces d @ [f]\<rparr>) v)),
     vt_detach_nic = (\<lambda>u f v. (Inr (), map_option (\<lambda>d. d\<lparr>dm_Interfaces := remove1 f (dm_Interfaces d)\<rparr>) v)),
     vt_tune = (\<lambda>u t io v. (Inr (), v)), vt_info = (\<lambda>u v. Inr (1, ''vm'', DOMAIN_RUNNING)),
     vt_exists = (\<lambda>u v. v \<noteq> None), vt_domains = (\<lambda>v. Inr (case v of None \<Rightarrow> [] | Some d \<Rightarrow> [dm_UUID d]))\<rparr>"

definition demo_net :: net_env where
  "demo_net = \<lparr>ne_link = (\<lambda>l. True), ne_mac = Inr, ne_lookup = (\<lambda>n. NetFound), ne_netcreate = (\<lambda>n. Inr ()),
     ne_hostadd = (\<lambda>mac ip. Inr ()), ne_containers = \<lparr>cm_sequence = 0, cm_containers = []\<rparr>, ne_dispatch = (\<lambda>i c ma t. Inr ''br'')\<rparr>"

definition demo_flist :: flist_env where
  "demo_flist = \<lparr>fe_mount = (\<lambda>u f. Inl (PlainErr ''no flist'')), fe_join = (\<lambda>a b. a @ b), fe_cache = [], fe_unmount = (\<lambda>u. Inr ())\<rparr>"

definition demo_kvm :: "(domain_desc option, unit) kvm" where
  "demo_kvm = \<lparr>kv_sequence = 1, kv_infos = (\<lambda>u. None), kv_virt = None, kv_socat = (newSocat, ())\<rparr>"

lemma demo_kvm_ok: "kvm_ok demo_kvm"
  by (simp add: kvm_ok_def kvm_inv_def demo_kvm_def socat_ok_def newSocat_def)

lemma kvm_calls_invariant_witness:
  "kvm_ok (fold (kvm_exec demo_env demo_net demo_flist nat_tool demo_virt)
     [CallCreate ''u1'' (demo_params [''nbd://hub'']), CallForwardAdd ''u1'' ''8080'' 80, CallStopped ''u1''] demo_kvm)"
  using kvm_calls_invariant[OF demo_kvm_ok] by blast

lemma kvm_create_outcome_witness:
  "\<exists>m'. kvm_create demo_env demo_net demo_flist nat_tool demo_virt ''u1'' (demo_params [''nbd://hub'']) demo_kvm = (Inr ''u1'', m') \<and>
     (\<exists>di. kv_infos m' ''u1'' = Some di \<and> di_Sequence di = 2)"
proof -
  let ?p = "demo_params [''nbd://hub'']"
  have n: "next_seq (\<lambda>s. \<not> kvm_reserved s) 1 = Some 2" by (simp add: next_seq_step kvm_reserved_def)
  have g: "kvm_getNextSequence demo_kvm = (Inr 2, demo_kvm\<lparr>kv_sequence := 2\<rparr>)"
    by (simp add: kvm_getNextSequence_def demo_kvm_def n)
  have v: "CreateParams_Valid ?p = Inr ()"
    by (simp add: CreateParams_Valid_def NicParams_Valid_def demo_params_def kvm_nic_check_def)
  obtain m' where m': "kvm_create demo_env demo_net demo_flist nat_tool demo_virt ''u1'' ?p demo_kvm = (Inr ''u1'', m')"
    by (simp add: kvm_create_def sbind_def slift_def g v)
      (simp add: demo_simps create_body_def putInfo_def sbind_def slift_def sret_def nic_network_def prepareDefaultNetwork_def
        setDHCPHost_def demo_net_def kvm_setPortForwards_def on_virt_def demo_virt_def getDomainStruct_def sget_def
        getDomainInfo_def cards_of_def mk_card_def demo_kvm_def split: prod.splits)
  from kvm_create_outcome[OF m' _ demo_kvm_ok] m' n show ?thesis by (auto simp: demo_kvm_def)
qed

lemma attached_disk_name_clash_witness:
  "\<exists>d k. mkDomain demo_env ''u1'' (demo_params [''zdb://hub'', ''/a.img'']) = Inr d \<and>
     mkDisk demo_env (length (dm_Disks d)) (demo_media ''/b.img'') = Inr k \<and>
     dt_Dev (dk_Target k) \<in> set (map (dt_Dev \<circ> dk_Target) (dm_Disks d))"
proof -
  let ?p = "demo_params [''zdb://hub'', ''/a.img'']"
  obtain d where d: "mkDomain demo_env ''u1'' ?p = Inr d" "length (dm_Disks d) = 1"
    by (simp add: demo_simps)
  obtain k where k: "mkDisk demo_env (length (dm_Disks d)) (demo_media ''/b.img'') = Inr k"
    by (simp add: mkDisk_def demo_env_def demo_media_def demo_url_def has_prefix_def)
  from attached_disk_name_clash[OF d(1) k] d k show ?thesis
    by (simp add: demo_params_def demo_media_def drive_prefix_def is_zdb_def has_prefix_def)
qed

lemma migration_with_forwards_fails_witness:
  "fst (prepareMigrationTarget demo_net nat_tool ''u1''
     \<lparr>np_Nics = [\<lparr>kn_Type = ''default'', kn_ID = [], kn_HWAddress = []\<rparr>], np_Port = Some [(''8080'', 80)]\<rparr> demo_kvm) \<noteq> Inr ()"
  by (rule migration_with_forwards_fails[where n = "\<lparr>kn_Type = ''default'', kn_ID = [], kn_HWAddress = []\<rparr>" and ns = "[]"
      and f = "(''8080'', 80)" and fs = "[]"]) (simp_all add: demo_kvm_def)

lemma list_needs_all_entries_witness:
  "\<exists>ms m'. kvm_list demo_virt demo_kvm = (Inr ms, m') \<and> map mc_UUID ms = []"
proof -
  have "kvm_list demo_virt demo_kvm = (Inr [], demo_kvm)" "vt_domains demo_virt (kv_virt demo_kvm) = Inr []"
    by (simp_all add: kvm_list_def demo_virt_def demo_kvm_def act_defs)
  from list_needs_all_entries[OF this] this(1) show ?thesis by auto
qed

lemma removeNic_vlan_panics_witness:
  "\<exists>e. removeNic demo_net demo_virt ''u1'' \<lparr>kn_Type = ''vlan'', kn_ID = ''x'', kn_HWAddress = []\<rparr> demo_kvm = (Inl (Panic e), demo_kvm)"
  by (rule removeNic_vlan_panics[where f = "Fault (PlainErr ''invalid vlan'')"])
    (simp_all add: prepareVLanNetwork_def parse_int_def is_digit_def fail_def)

definition demo_running :: "(domain_desc option, unit) kvm" where
  "demo_running = demo_kvm\<lparr>kv_sequence := 2, kv_virt := Some ((zero_domain ''u1'')\<lparr>dm_Interfaces :=
       [mk_card ''bridge'' \<lparr>is_Bridge = KvmBridgeName, is_Network = []\<rparr> None], dm_Args := [''-cpu'', ''host'']\<rparr>),
     kv_infos := (\<lambda>u. None)(''u1'' \<mapsto> \<lparr>di_Params = demo_params [], di_Sequence = 2\<rparr>)\<rparr>"

lemma forward_on_nil_map_witness:
  "\<exists>sk. kvm_portforwardAdd nat_tool demo_virt ''u1'' ''8080'' 80 demo_running =
     (Inl (Panic nil_map), demo_running\<lparr>kv_socat := sk\<rparr>)"
proof -
  let ?di = "\<lparr>di_Params = demo_params [], di_Sequence = 2\<rparr>"
  obtain d where d: "vt_struct demo_virt ''u1'' (kv_virt demo_running) = Inr d"
    "list_ex (\<lambda>f. if_Source f = \<lparr>is_Bridge = KvmBridgeName, is_Network = []\<rparr>) (dm_Interfaces d)"
    by (simp add: demo_virt_def demo_running_def mk_card_def)
  have i: "kv_infos demo_running ''u1'' = Some ?di" "np_Port (di_Params ?di) = None"
    by (simp_all add: demo_running_def demo_params_def)
  obtain sk where "SetPortForward nat_tool (kvm_forwardId ''u1'') (kvm_ipAddr (di_Sequence ?di)) ''8080'' 80 (kv_socat demo_running) = (Inr (), sk)"
    by (simp add: demo_running_def demo_kvm_def SetPortForward_def getSource_8080 newSocat_def Apply_def MarshalText_def table_marshal_def
        nat_rules_def nat_tool_def Let_def)
  from forward_on_nil_map[OF d i this] show ?thesis by blast
qed

lemma attachDisk_reports_error_witness:
  "\<exists>v. attachDisk demo_env demo_virt ''u1'' (demo_media ''/b.img'') demo_running =
     (fail ''could not find driver=zdb string'', demo_running\<lparr>kv_virt := v\<rparr>) \<and> v \<noteq> kv_virt demo_running"
proof -
  obtain d where d: "vt_struct demo_virt ''u1'' (kv_virt demo_running) = Inr d" "dm_Disks d = []" "dm_Args d = [''-cpu'', ''host'']"
    by (simp add: demo_virt_def demo_running_def zero_domain_def)
  have v0: "kv_virt demo_running = Some d" using d(1) by (simp add: demo_virt_def demo_running_def)
  obtain k where k: "mkDisk demo_env (length (dm_Disks d)) (demo_media ''/b.img'') = Inr k"
    by (simp add: mkDisk_def demo_env_def demo_media_def demo_url_def has_prefix_def)
  let ?d = "d\<lparr>dm_Disks := dm_Disks d @ [k]\<rparr>"
  have "vt_attach_disk demo_virt ''u1'' k (kv_virt demo_running) = (Inr (), Some ?d)" "vt_struct demo_virt ''u1'' (Some ?d) = Inr ?d"
    by (simp_all add: v0) (simp_all add: demo_virt_def)
  from attachDisk_reports_error[OF d(1) k _ this, of "''-cpu''" "[''host'']"] d v0 show ?thesis
    by (auto simp: has_prefix_def demo_running_def intro!: exI[of _ "Some ?d"] dest: arg_cong[where f = dm_Disks])
qed

end
