(* ===== verification/Scan.thy ===== *)
theory Scan
  imports Utils_Model Socat
begin

text \<open>
  \<^verbatim>\<open>fmt.Sscanf\<close> for the formats of the repository, and \<^verbatim>\<open>strings.Split\<close> with a separator of several
  bytes.  A text to be scanned is one line; the values are read into variables of 64 bits.
\<close>

section \<open>Character classes of regular expressions\<close>

definition is_word :: "char \<Rightarrow> bool" where
  "is_word c \<longleftrightarrow> is_digit c \<or> c = CHR ''_'' \<or> (of_char c :: nat) \<in> {65..90} \<or> (of_char c :: nat) \<in> {97..122}"

definition is_re_space :: "char \<Rightarrow> bool" where
  "is_re_space c \<longleftrightarrow> (of_char c :: nat) \<in> {9, 10, 12, 13, 32}"

section \<open>Formats\<close>

text \<open>An item of a format: a character to match, a run of blanks, \<^verbatim>\<open>%d\<close> or \<^verbatim>\<open>%s\<close>.\<close>

datatype fitem = Lit char | Blanks | VerbD | VerbS

datatype sval = SInt int | SStr string

fun add_blanks :: "fitem list \<Rightarrow> fitem list" where
  "add_blanks (Blanks # f) = Blanks # f"
| "add_blanks f = Blanks # f"

fun scan_format :: "string \<Rightarrow> fitem list" where
  "scan_format [] = []"
| "scan_format [c] = (if is_blank c then [Blanks] else [Lit c])"
| "scan_format (c # d # s) =
     (if c = CHR ''%'' \<and> d = CHR ''d'' then VerbD # scan_format s
      else if c = CHR ''%'' \<and> d = CHR ''s'' then VerbS # scan_format s
      else if is_blank c then add_blanks (scan_format (d # s)) else Lit c # scan_format (d # s))"

text \<open>A number: blanks, a sign, digits; \<open>None\<close> without digits or out of the range of 64 bits.\<close>

definition scan_int :: "string \<Rightarrow> (int \<times> string) option" where
  "scan_int s =
     (let s = dropWhile is_blank s;
          neg = (s \<noteq> [] \<and> hd s = CHR ''-'');
          s = (if s \<noteq> [] \<and> (hd s = CHR ''-'' \<or> hd s = CHR ''+'') then tl s else s);
          ds = takeWhile is_digit s;
          v = (if neg then - int (dec_val ds) else int (dec_val ds))
      in if ds = [] \<or> v < - (2 ^ 63) \<or> 2 ^ 63 \<le> v then None else Some (v, dropWhile is_digit s))"

text \<open>A word: blanks, then everything up to the next blank; \<open>None\<close> at the end of the text.\<close>

definition scan_word :: "string \<Rightarrow> (string \<times> string) option" where
  "scan_word s = (let s = dropWhile is_blank s in
     if s = [] then None else Some (takeWhile (\<lambda>c. \<not> is_blank c) s, dropWhile (\<lambda>c. \<not> is_blank c) s))"

text \<open>The values read; a run of blanks of the format matches at least one blank or the end of the text.\<close>

fun sscanf :: "fitem list \<Rightarrow> string \<Rightarrow> sval list option" where
  "sscanf [] s = Some []"
| "sscanf (Lit c # f) s = (case s of [] \<Rightarrow> None | d # r \<Rightarrow> if c = d then sscanf f r else None)"
| "sscanf (Blanks # f) s = (if s \<noteq> [] \<and> \<not> is_blank (hd s) then None else sscanf f (dropWhile is_blank s))"
| "sscanf (VerbD # f) s = (case scan_int s of None \<Rightarrow> None | Some (i, r) \<Rightarrow> map_option (Cons (SInt i)) (sscanf f r))"
| "sscanf (VerbS # f) s = (case scan_word s of None \<Rightarrow> None | Some (w, r) \<Rightarrow> map_option (Cons (SStr w)) (sscanf f r))"

lemma scan_int_itoa:
  assumes "n < 2 ^ 63" and "r = [] \<or> \<not> is_digit (hd r)"
  shows "scan_int (itoa n @ r) = Some (int n, r)"
proof -
  obtain c cs where c: "itoa n = c # cs" by (cases "itoa n") auto
  have d: "is_digit c" using itoa_digits[of n] c by simp
  have all: "\<forall>x\<in>set (itoa n). is_digit x" using itoa_digits[of n] by (simp add: list_all_iff)
  have t: "takeWhile is_digit (itoa n @ r) = itoa n" "dropWhile is_digit (itoa n @ r) = r"
    using all assms(2) by (cases r; simp add: takeWhile_append dropWhile_append)+
  have "dropWhile is_blank (itoa n @ r) = itoa n @ r" using blank_not_digit[OF d] c by simp
  moreover have "hd (itoa n @ r) \<noteq> CHR ''-''" "hd (itoa n @ r) \<noteq> CHR ''+''"
    using d c by (auto simp: is_digit_def)
  ultimately show ?thesis using assms(1) by (simp add: scan_int_def Let_def t)
qed

text \<open>A word of a text that was written with blanks between the words.\<close>

definition word_ok :: "string \<Rightarrow> bool" where
  "word_ok w \<longleftrightarrow> w \<noteq> [] \<and> list_all (\<lambda>c. \<not> is_space c) w"

lemma blank_is_space: "is_blank c \<Longrightarrow> is_space c"
  by (auto simp: is_blank_def is_space_def)

lemma word_ok_blank: "word_ok w \<Longrightarrow> \<forall>c\<in>set w. \<not> is_blank c"
  using blank_is_space by (auto simp: word_ok_def list_all_iff)

lemma scan_word_print:
  assumes "word_ok w" and "r = [] \<or> is_blank (hd r)"
  shows "scan_word (w @ r) = Some (w, r)"
proof -
  note b = word_ok_blank[OF assms(1)]
  obtain c cs where c: "w = c # cs" using assms(1) by (cases w) (auto simp: word_ok_def)
  have "dropWhile is_blank (w @ r) = w @ r" using b c by simp
  moreover have "takeWhile (\<lambda>c. \<not> is_blank c) (w @ r) = w" "dropWhile (\<lambda>c. \<not> is_blank c) (w @ r) = r"
    using b assms(2) by (cases r; simp add: takeWhile_append dropWhile_append)+
  ultimately show ?thesis using c by (simp add: scan_word_def)
qed

lemma sscanf_lits: "sscanf (map Lit p @ f) (p @ s) = sscanf f s"
  by (induction p) simp_all

lemma sscanf_blanks:
  assumes "b \<noteq> []" and "list_all is_blank b" and "s = [] \<or> \<not> is_blank (hd s)"
  shows "sscanf (Blanks # f) (b @ s) = sscanf f s"
proof -
  have "is_blank (hd (b @ s))" "b @ s \<noteq> []" using assms(1,2) by (cases b; simp)+
  moreover have "dropWhile is_blank (b @ s) = s"
    using assms(2,3) by (cases s) (simp_all add: dropWhile_append2 list_all_iff)
  ultimately show ?thesis by simp
qed

section \<open>Printing with a format\<close>

text \<open>The text that a format stands for: its values in the places of the verbs, and the given blanks for its runs of blanks.\<close>

fun fill :: "fitem list \<Rightarrow> sval list \<Rightarrow> string list \<Rightarrow> string" where
  "fill (Lit c # f) vs bs = c # fill f vs bs"
| "fill (Blanks # f) vs (b # bs) = b @ fill f vs bs"
| "fill (VerbD # f) (SInt i # vs) bs = itoa_int i @ fill f vs bs"
| "fill (VerbS # f) (SStr w # vs) bs = w @ fill f vs bs"
| "fill f vs bs = []"

definition num_ok :: "int \<Rightarrow> bool" where "num_ok i \<longleftrightarrow> 0 \<le> i \<and> i < 2 ^ 63"

text \<open>Verbs stand between blanks; the values and blanks fit.\<close>

fun fills :: "fitem list \<Rightarrow> sval list \<Rightarrow> string list \<Rightarrow> bool" where
  "fills [] vs bs \<longleftrightarrow> vs = []"
| "fills (Lit c # f) vs bs \<longleftrightarrow> \<not> is_blank c \<and> fills f vs bs"
| "fills (Blanks # f) vs bs \<longleftrightarrow> (case bs of [] \<Rightarrow> False | b # bs \<Rightarrow> b \<noteq> [] \<and> list_all is_blank b \<and>
     f \<noteq> [] \<and> hd f \<noteq> Blanks \<and> fills f vs bs)"
| "fills (VerbD # f) vs bs \<longleftrightarrow> (f = [] \<or> hd f = Blanks) \<and> (case vs of SInt i # vs \<Rightarrow> num_ok i \<and> fills f vs bs | _ \<Rightarrow> False)"
| "fills (VerbS # f) vs bs \<longleftrightarrow> (f = [] \<or> hd f = Blanks) \<and> (case vs of SStr w # vs \<Rightarrow> word_ok w \<and> fills f vs bs | _ \<Rightarrow> False)"

lemma scan_num: "num_ok i \<Longrightarrow> r = [] \<or> \<not> is_digit (hd r) \<Longrightarrow> scan_int (itoa_int i @ r) = Some (i, r)"
  using scan_int_itoa[of "nat i" r] by (simp add: num_ok_def itoa_int_def nat_less_iff)

lemma num_hd: "num_ok i \<Longrightarrow> \<exists>c s. itoa_int i = c # s \<and> \<not> is_blank c"
  using itoa_hd_last(1)[of "nat i"] blank_not_digit by (cases "itoa (nat i)") (auto simp: num_ok_def itoa_int_def)

lemma word_hd: "word_ok w \<Longrightarrow> \<exists>c s. w = c # s \<and> \<not> is_blank c"
  using word_ok_blank[of w] by (cases w) (auto simp: word_ok_def)

lemma fill_hd_blank: "fills f vs bs \<Longrightarrow> f = [] \<or> hd f = Blanks \<Longrightarrow> fill f vs bs = [] \<or> is_blank (hd (fill f vs bs))"
  by (cases f; cases bs) (auto simp: neq_Nil_conv)

lemma fill_hd_not_blank: "fills f vs bs \<Longrightarrow> f \<noteq> [] \<Longrightarrow> hd f \<noteq> Blanks \<Longrightarrow> \<not> is_blank (hd (fill f vs bs))"
  by (cases "(f, vs, bs)" rule: fill.cases) (auto dest: num_hd word_hd split: list.splits sval.splits)

text \<open>Scanning a text that was printed with the format gives back the values.\<close>

lemma sscanf_fill: "fills f vs bs \<Longrightarrow> sscanf f (fill f vs bs) = Some vs"
proof (induction f vs bs rule: fill.induct)
  case (2 f vs b bs)
  then show ?case using sscanf_blanks[of b "fill f vs bs" f] fill_hd_not_blank[of f vs bs] by auto
next
  case (3 f i vs bs)
  then have "fill f vs bs = [] \<or> \<not> is_digit (hd (fill f vs bs))"
    using fill_hd_blank[of f vs bs] blank_not_digit by auto
  then show ?case using 3 scan_num[of i "fill f vs bs"] by auto
next
  case (4 f w vs bs)
  then show ?case using scan_word_print[of w "fill f vs bs"] fill_hd_blank[of f vs bs] by auto
qed (auto split: list.splits sval.splits)

section \<open>Splitting\<close>

definition cut_at :: "string \<Rightarrow> string \<Rightarrow> string \<times> string option" where
  "cut_at sep s = (case str_index sep s of None \<Rightarrow> (s, None) | Some i \<Rightarrow> (take i s, Some (drop (i + length sep) s)))"

function split_str :: "string \<Rightarrow> string \<Rightarrow> string list" where
  "split_str sep s = (if sep = [] then [s] else (case str_index sep s of
     None \<Rightarrow> [s] | Some i \<Rightarrow> take i s # split_str sep (drop (i + length sep) s)))"
  by pat_completeness auto
termination
proof (relation "measure (\<lambda>(sep, s). length s)")
  fix sep s i assume "sep \<noteq> []" and "str_index sep s = Some i"
  then have "0 < length sep" "i + length sep \<le> length s" using str_index_Some by auto
  then have "length s - (i + length sep) < length s" by linarith
  then show "((sep, drop (i + length sep) s), sep, s) \<in> measure (\<lambda>(sep, s). length s)" by simp
qed simp

declare split_str.simps [simp del]

lemma split_str_none: "sep \<noteq> [] \<Longrightarrow> str_index sep s = None \<Longrightarrow> split_str sep s = [s]"
  by (subst split_str.simps) simp

lemma split_str_first:
  assumes "sep \<noteq> []" and "str_index sep (a @ sep @ b) = Some (length a)"
  shows "split_str sep (a @ sep @ b) = a # split_str sep b"
  using assms by (subst split_str.simps) simp

text \<open>\<^verbatim>\<open>strings.Fields\<close>: the runs of characters that are not white space.\<close>

fun split_by :: "(char \<Rightarrow> bool) \<Rightarrow> string \<Rightarrow> string list" where
  "split_by p [] = [[]]"
| "split_by p (c # cs) = (if p c then [] # split_by p cs else case split_by p cs of [] \<Rightarrow> [[c]] | w # ws \<Rightarrow> (c # w) # ws)"

definition Fields :: "string \<Rightarrow> string list" where
  "Fields s = filter (\<lambda>w. w \<noteq> []) (split_by is_space s)"

lemma split_by_word: "list_all (\<lambda>c. \<not> p c) w \<Longrightarrow> split_by p w = [w]"
  by (induction w) auto

end
