(* ===== verification/Disk.thy ===== *)
theory Disk
  imports Scan Steps
begin

text \<open>
  The disk actions (\<^verbatim>\<open>apps/plugins/base/disk/disk.go\<close>): reading the kernel's description of a block device, what
  \<^verbatim>\<open>parted\<close>, \<^verbatim>\<open>smartctl\<close> and \<^verbatim>\<open>hdparm\<close> print, the mounts of the system, and the answers built from
  them.  Files, the type of a device file and the programs are the arguments of the operations.
\<close>

section \<open>Surroundings\<close>

text \<open>\<open>de_stat\<close>: is it a block device, and its numbers; \<open>de_file\<close>: the content of a file; \<open>de_run\<close>: the output of a
  program; \<open>de_lsblk\<close>: the decoded JSON of \<^verbatim>\<open>lsblk\<close>.\<close>

datatype lsblk = Lsblk (lb_Name: string) (lb_Type: string) (lb_Partuuid: string)
  (lb_Rest: "(string \<times> string) list") (lb_Children: "lsblk list")

record disk_env =
  de_exists :: "string \<Rightarrow> bool"
  de_stat :: "string \<Rightarrow> (go_error, bool \<times> nat \<times> nat) result"
  de_file :: "string \<Rightarrow> (go_error, string) result"
  de_run :: "string list \<Rightarrow> (go_error, string) result"
  de_lsblk :: "string \<Rightarrow> (go_error, lsblk list) result"

record block_device =
  bd_Path :: string
  bd_Name :: string
  bd_Type :: string
  bd_Major :: nat
  bd_Minor :: nat

record free_block =
  fb_Start :: "64 word"
  fb_End :: "64 word"
  fb_Size :: "64 word"

record disk_info =
  dki_lsblk :: lsblk
  dki_Start :: "64 word"
  dki_End :: "64 word"
  dki_Size :: "64 word"
  dki_BlockSize :: "64 word"
  dki_Table :: string
  dki_Free :: "free_block list"

section \<open>Block devices\<close>

text \<open>A line of a uevent file; a value ends at a second equals sign.\<close>

definition uevent_line :: "string \<Rightarrow> (string \<times> string) list \<Rightarrow> (fault, (string \<times> string) list) result" where
  "uevent_line l m = (case split_on (CHR ''='') l of
     k # v # r \<Rightarrow> Inr (AList.update k v m) | _ \<Rightarrow> fail ''malformed uevent file'')"

definition blockUEvent :: "disk_env \<Rightarrow> string \<Rightarrow> (fault, (string \<times> string) list) result" where
  "blockUEvent E p = rbind (lift_err (de_file E p)) (\<lambda>str.
     rfold uevent_line (butlast (split_on (CHR 0x0A) str)) [])"

definition map_get :: "(string \<times> string) list \<Rightarrow> string \<Rightarrow> string" where
  "map_get m k = (case map_of m k of None \<Rightarrow> [] | Some v \<Rightarrow> v)"

text \<open>An empty name panics on its first byte.\<close>

definition deviceToBlockDevice :: "disk_env \<Rightarrow> string \<Rightarrow> (fault, block_device) result" where
  "deviceToBlockDevice E dev =
     (if dev = [] then Inl (Panic ''index out of range'')
      else let dev = (if hd dev \<noteq> CHR ''/'' then ''/dev/'' @ dev else dev) in
        rbind (lift_err (de_stat E dev)) (\<lambda>(is_block, major, minor).
        if \<not> is_block then fail ''not a block device''
        else rbind (blockUEvent E (''/sys/dev/block/'' @ itoa major @ '':'' @ itoa minor @ ''/uevent'')) (\<lambda>pairs.
          Inr \<lparr>bd_Path = ''/dev/'' @ map_get pairs ''DEVNAME'', bd_Name = map_get pairs ''DEVNAME'',
               bd_Type = map_get pairs ''DEVTYPE'', bd_Major = major, bd_Minor = minor\<rparr>)))"

definition diskBlockDevice :: "disk_env \<Rightarrow> string \<Rightarrow> (fault, block_device) result" where
  "diskBlockDevice E dev = rbind (deviceToBlockDevice E dev) (\<lambda>bd.
     if bd_Type bd \<noteq> ''disk'' then fail ''not a disk'' else Inr bd)"

text \<open>\<^verbatim>\<open>Sscanf("%d")\<close> into an unsigned number: blanks, digits, within 64 bits; what follows is not read.\<close>

definition scan_u64 :: "string \<Rightarrow> (fault, 64 word) result" where
  "scan_u64 s = (case parse_uint 64 (takeWhile is_digit (dropWhile is_blank s)) of Inl e \<Rightarrow> fail ''expected integer'' | Inr n \<Rightarrow> Inr (of_nat n))"

definition readUInt64 :: "disk_env \<Rightarrow> string \<Rightarrow> (fault, 64 word) result" where
  "readUInt64 E p = rbind (lift_err (de_file E p)) scan_u64"

definition lsblk_of :: "disk_env \<Rightarrow> block_device \<Rightarrow> (fault, lsblk) result" where
  "lsblk_of E bd = rbind (lift_err (de_lsblk E (bd_Path bd))) (\<lambda>bs.
     case bs of [] \<Rightarrow> fail ''no device with the name'' | b # r \<Rightarrow> Inr b)"

definition blockSize :: "disk_env \<Rightarrow> block_device \<Rightarrow> (fault, 64 word) result" where
  "blockSize E bd = readUInt64 E (''/sys/block/'' @ bd_Name bd @ ''/queue/logical_block_size'')"

section \<open>What parted prints\<close>

text \<open>\<^verbatim>\<open>partTableRegex\<close>: the first place with the words and a name.\<close>

fun find_table :: "string \<Rightarrow> string" where
  "find_table [] = []"
| "find_table (c # s) = (let name = takeWhile is_word (drop 17 (c # s)) in
     if has_prefix ''Partition Table: '' (c # s) \<and> name \<noteq> [] then name else find_table s)"

text \<open>\<^verbatim>\<open>freeSpaceRegex\<close> at one place: digits and \<^verbatim>\<open>B\<close>, three times, with blanks before and between; then the words
  up to the end of a line.  No two parts of the expression can take the same character, so the match is unique.\<close>

definition re_bytes :: "bool \<Rightarrow> string \<Rightarrow> (string \<times> string) option" where
  "re_bytes need s =
     (let t = dropWhile is_re_space s; d = takeWhile is_digit t; r = dropWhile is_digit t in
      if (need \<and> t = s) \<or> d = [] \<or> r = [] \<or> hd r \<noteq> CHR ''B'' then None else Some (d, tl r))"

definition re_words :: "string \<Rightarrow> string option" where
  "re_words s =
     (let t = dropWhile is_re_space s; r = drop 10 t in
      if t = s \<or> \<not> has_prefix ''Free Space'' t \<or> (r \<noteq> [] \<and> hd r \<noteq> CHR 0x0A) then None else Some r)"

definition re_free :: "string \<Rightarrow> ((string \<times> string \<times> string) \<times> string) option" where
  "re_free s = (case re_bytes False s of None \<Rightarrow> None | Some (a, s) \<Rightarrow>
     (case re_bytes True s of None \<Rightarrow> None | Some (b, s) \<Rightarrow>
     (case re_bytes True s of None \<Rightarrow> None | Some (c, s) \<Rightarrow>
     (case re_words s of None \<Rightarrow> None | Some r \<Rightarrow> Some ((a, b, c), r)))))"

lemma length_dropWhile_le: "length (dropWhile P xs) \<le> length xs"
  by (induction xs) auto

lemma re_bytes_shorter: "re_bytes n s = Some (d, r) \<Longrightarrow> length r < length s"
  using length_dropWhile_le[of is_re_space s] length_dropWhile_le[of is_digit "dropWhile is_re_space s"]
  by (cases "dropWhile is_digit (dropWhile is_re_space s)") (auto simp: re_bytes_def Let_def split: if_splits)

lemma re_words_shorter: "re_words s = Some r \<Longrightarrow> length r \<le> length s"
  using length_dropWhile_le[of is_re_space s] by (auto simp: re_words_def Let_def split: if_splits)

lemma re_free_shorter: "re_free s = Some (m, r) \<Longrightarrow> length r < length s"
  by (auto simp: re_free_def split: option.splits dest!: re_bytes_shorter re_words_shorter)

text \<open>All matches from left to right; \<open>bol\<close>: this is the start of a line.\<close>

function find_free :: "bool \<Rightarrow> string \<Rightarrow> (string \<times> string \<times> string) list" where
  "find_free bol s = (case (if bol then re_free s else None) of
     Some (m, r) \<Rightarrow> m # find_free False r
   | None \<Rightarrow> (case s of [] \<Rightarrow> [] | c # t \<Rightarrow> find_free (c = CHR 0x0A) t))"
  by pat_completeness auto
termination
  by (relation "measure (\<lambda>(b, s). length s)") (auto split: if_splits dest!: re_free_shorter)

declare find_free.simps [simp del]

text \<open>\<^verbatim>\<open>ParseUint\<close> with the error dropped: out of range gives the largest number.\<close>

definition parse_u64 :: "string \<Rightarrow> 64 word" where
  "parse_u64 s = (case parse_uint 64 s of Inr n \<Rightarrow> of_nat n | Inl ErrRange \<Rightarrow> -1 | Inl ErrSyntax \<Rightarrow> 0)"

definition table_info :: "string \<Rightarrow> string \<times> free_block list" where
  "table_info out = (find_table out, map (\<lambda>(a, b, c). \<lparr>fb_Start = parse_u64 a, fb_End = parse_u64 b, fb_Size = parse_u64 c\<rparr>)
     (find_free True out))"

definition getTableInfo :: "disk_env \<Rightarrow> block_device \<Rightarrow> (fault, string \<times> free_block list) result" where
  "getTableInfo E bd = rbind (lift_err (de_run E [''parted'', bd_Path bd, ''unit'', ''B'', ''print'', ''free''])) (\<lambda>out.
     Inr (table_info out))"

section \<open>Answers\<close>

definition disk_size :: "lsblk \<Rightarrow> 64 word \<Rightarrow> 64 word \<Rightarrow> string \<times> free_block list \<Rightarrow> disk_info" where
  "disk_size lb sz bs tf = \<lparr>dki_lsblk = lb, dki_Start = 0, dki_End = sz * bs - 1, dki_Size = sz * bs, dki_BlockSize = bs,
     dki_Table = fst tf, dki_Free = snd tf\<rparr>"

definition part_size :: "lsblk \<Rightarrow> 64 word \<Rightarrow> 64 word \<Rightarrow> 64 word \<Rightarrow> disk_info" where
  "part_size lb start sz bs = \<lparr>dki_lsblk = lb, dki_Start = start * bs, dki_End = start * bs + sz * bs - 1,
     dki_Size = sz * bs, dki_BlockSize = bs, dki_Table = [], dki_Free = []\<rparr>"

definition diskInfo :: "disk_env \<Rightarrow> string \<Rightarrow> (fault, disk_info) result" where
  "diskInfo E disk = rbind (deviceToBlockDevice E disk) (\<lambda>bd. rbind (lsblk_of E bd) (\<lambda>lb. rbind (blockSize E bd) (\<lambda>bs.
     rbind (readUInt64 E (''/sys/block/'' @ bd_Name bd @ ''/size'')) (\<lambda>size. rbind (getTableInfo E bd) (\<lambda>tf.
       Inr (disk_size lb size bs tf))))))"

definition partInfo :: "disk_env \<Rightarrow> string \<Rightarrow> string \<Rightarrow> (fault, disk_info) result" where
  "partInfo E disk part = rbind (deviceToBlockDevice E disk) (\<lambda>dbd. rbind (deviceToBlockDevice E part) (\<lambda>pbd.
     rbind (lsblk_of E pbd) (\<lambda>lb. rbind (blockSize E dbd) (\<lambda>bs.
     let dir = ''/sys/block/'' @ bd_Name dbd @ ''/'' @ bd_Name pbd in
     rbind (readUInt64 E (dir @ ''/start'')) (\<lambda>start. rbind (readUInt64 E (dir @ ''/size'')) (\<lambda>size.
       Inr (part_size lb start size bs)))))))"

definition disk_info_action :: "disk_env \<Rightarrow> string \<Rightarrow> string \<Rightarrow> (fault, disk_info) result" where
  "disk_info_action E disk part = (if part = [] then diskInfo E disk else partInfo E disk part)"

text \<open>\<^verbatim>\<open>list\<close> goes over the devices of \<^verbatim>\<open>lsblk\<close>; a partition belongs to the disk seen last.\<close>

definition list_device :: "disk_env \<Rightarrow> lsblk \<Rightarrow> string \<times> disk_info list \<Rightarrow> (fault, string \<times> disk_info list) result" where
  "list_device E lb = (\<lambda>(parent, ret).
     rbind (deviceToBlockDevice E (lb_Name lb)) (\<lambda>bd. rbind (blockSize E bd) (\<lambda>bs.
     if lb_Type lb = ''disk'' then
       rbind (readUInt64 E (''/sys/block/'' @ bd_Name bd @ ''/size'')) (\<lambda>size. rbind (getTableInfo E bd) (\<lambda>tf.
         Inr (lb_Name lb, ret @ [disk_size lb size bs tf])))
     else if lb_Type lb = ''part'' then
       (let dir = ''/sys/block/'' @ parent @ ''/'' @ bd_Name bd in
        rbind (readUInt64 E (dir @ ''/start'')) (\<lambda>start. rbind (readUInt64 E (dir @ ''/size'')) (\<lambda>size.
          Inr (parent, ret @ [part_size lb start size bs]))))
     else Inr (parent, ret @ [\<lparr>dki_lsblk = lb, dki_Start = 0, dki_End = 0, dki_Size = 0, dki_BlockSize = bs,
            dki_Table = [], dki_Free = []\<rparr>]))))"

definition disk_list :: "disk_env \<Rightarrow> (fault, disk_info list) result" where
  "disk_list E = rbind (lift_err (de_lsblk E [])) (\<lambda>disks.
     rbind (rfold (list_device E) disks ([], [])) (\<lambda>(parent, ret). Inr ret))"

text \<open>\<^verbatim>\<open>protect\<close> asserts that \<^verbatim>\<open>list\<close> answers with the type that \<^verbatim>\<open>lsblk\<close> decodes to; it never does, so nothing
  behind the assertion runs.\<close>

datatype list_answer = AsInfos "disk_info list" | AsLsblk "lsblk list"

definition protect_parts :: "disk_env \<Rightarrow> string \<Rightarrow> lsblk list \<Rightarrow> (fault, unit) result" where
  "protect_parts E uuid devs = rfold (\<lambda>dev _. rfold (\<lambda>part _.
       if lb_Partuuid part \<noteq> uuid then Inr ()
       else rbind (lift_err (de_run E [''blockdev'', ''--setro'', ''/dev/'' @ lb_Name part])) (\<lambda>_.
            rbind (lift_err (de_run E [''blockdev'', ''--setro'', ''/dev/'' @ lb_Name dev])) (\<lambda>_. Inr ())))
     (lb_Children dev) ()) devs ()"

definition protect :: "disk_env \<Rightarrow> string \<Rightarrow> (fault, unit) result" where
  "protect E uuid =
     (if uuid = [] then fail ''partuuid is required''
      else rbind (disk_list E) (\<lambda>infos. case AsInfos infos of
          AsLsblk devs \<Rightarrow> protect_parts E uuid devs
        | AsInfos is \<Rightarrow> fail ''unexpected return from list!''))"

definition spindown :: "disk_env \<Rightarrow> string \<Rightarrow> nat \<Rightarrow> (fault, unit) result" where
  "spindown E disk n =
     (if \<not> de_exists E disk then Inl (Fault (BadRequestError ''disk does not exist''))
      else if \<not> n < 241 then Inl (Fault (BadRequestError ''spindown out of range 1 - 240''))
      else rbind (lift_err (de_run E [''hdparm'', ''-S'', itoa n, disk])) (\<lambda>_. Inr ()))"

definition has_sub :: "string \<Rightarrow> string \<Rightarrow> bool" where "has_sub sub s \<longleftrightarrow> str_index sub s \<noteq> None"

fun parseHdparm :: "string list \<Rightarrow> (fault, bool) result" where
  "parseHdparm [] = fail ''hdparm returned unparsable result for isStandby''"
| "parseHdparm (l # ls) = (if has_sub ''drive state'' l then
     (case split_on (CHR '':'') l of a # b # r \<Rightarrow> Inr (TrimSpace b = ''standby'') | _ \<Rightarrow> Inl (Panic ''index out of range''))
     else parseHdparm ls)"

definition isStandby :: "disk_env \<Rightarrow> string \<Rightarrow> (fault, bool) result" where
  "isStandby E disk =
     (if \<not> de_exists E disk then Inl (Fault (BadRequestError ''disk does not exist''))
      else rbind (lift_err (de_run E [''hdparm'', ''-C'', disk])) (\<lambda>out.
        case parseHdparm (split_on (CHR 0x0A) out) of
          Inl (Fault e) \<Rightarrow> Inl (Fault (BadRequestError (error_text e))) | r \<Rightarrow> r))"

section \<open>Health\<close>

record smartctl =
  sc_Model :: string
  sc_SerialNumber :: string
  sc_DeviceID :: string
  sc_FirmwareVersion :: string
  sc_UserCapacity :: int
  sc_SectorSize :: int
  sc_RotationRate :: string
  sc_Device :: string
  sc_ATAVersion :: string
  sc_SATAVersion :: string
  sc_Available :: bool
  sc_Enabled :: bool

definition no_smartctl :: smartctl where
  "no_smartctl = \<lparr>sc_Model = [], sc_SerialNumber = [], sc_DeviceID = [], sc_FirmwareVersion = [], sc_UserCapacity = 0,
     sc_SectorSize = 0, sc_RotationRate = [], sc_Device = [], sc_ATAVersion = [], sc_SATAVersion = [], sc_Available = False,
     sc_Enabled = False\<rparr>"

text \<open>A number with thousands separators, before the word \<^verbatim>\<open>bytes\<close>.\<close>

definition before_sub :: "string \<Rightarrow> string \<Rightarrow> string" where
  "before_sub sub s = (case str_index sub s of None \<Rightarrow> s | Some i \<Rightarrow> take i s)"

definition bytes_value :: "string \<Rightarrow> (fault, int) result" where
  "bytes_value v = (case parse_int 64 (filter (\<lambda>c. c \<noteq> CHR '','') (TrimSpace (before_sub ''bytes'' v))) of
     Inl e \<Rightarrow> fail ''invalid number'' | Inr n \<Rightarrow> Inr n)"

definition smartctl_line :: "string \<Rightarrow> smartctl \<Rightarrow> (fault, smartctl) result" where
  "smartctl_line l i = (case split_on (CHR '':'') l of
     k # v # r \<Rightarrow>
       (let v = TrimSpace v in
        if k = ''Device Model'' then Inr (i\<lparr>sc_Model := v\<rparr>)
        else if k = ''Serial Number'' then Inr (i\<lparr>sc_SerialNumber := v\<rparr>)
        else if k = ''LU WWN Device Id'' then Inr (i\<lparr>sc_DeviceID := v\<rparr>)
        else if k = ''Firmware Version'' then Inr (i\<lparr>sc_FirmwareVersion := v\<rparr>)
        else if k = ''User Capacity'' then rbind (bytes_value v) (\<lambda>n. Inr (i\<lparr>sc_UserCapacity := n\<rparr>))
        else if k = ''Sector Size'' then rbind (bytes_value v) (\<lambda>n. Inr (i\<lparr>sc_SectorSize := n\<rparr>))
        else if k = ''Rotation Rate'' then Inr (i\<lparr>sc_RotationRate := v\<rparr>)
        else if k = ''Device is'' then Inr (i\<lparr>sc_Device := v\<rparr>)
        else if k = ''ATA Version is'' then Inr (i\<lparr>sc_ATAVersion := v\<rparr>)
        else if k = ''SATA Version is'' then Inr (i\<lparr>sc_SATAVersion := v\<rparr>)
        else if k = ''SMART support is'' then
          Inr (i\<lparr>sc_Available := (sc_Available i \<or> has_sub ''Available'' v), sc_Enabled := (sc_Enabled i \<or> has_sub ''Enabled'' v)\<rparr>)
        else Inr i)
   | _ \<Rightarrow> Inr i)"

definition parseSmartctlInfo :: "string \<Rightarrow> (fault, smartctl) result" where
  "parseSmartctlInfo input = rfold smartctl_line (split_on (CHR 0x0A) input) no_smartctl"

definition smartctlInfo :: "disk_env \<Rightarrow> string \<Rightarrow> (fault, smartctl) result" where
  "smartctlInfo E device = rbind (lift_err (de_run E [''smartctl'', ''-i'', device])) parseSmartctlInfo"

definition smartctlHealth :: "disk_env \<Rightarrow> string \<Rightarrow> (fault, bool) result" where
  "smartctlHealth E device = rbind (lift_err (de_run E [''smartctl'', ''-H'', device])) (\<lambda>out. Inr (has_sub ''PASSED'' out))"

definition seektime :: "disk_env \<Rightarrow> string \<Rightarrow> (fault, string) result" where
  "seektime E disk = (case deviceToBlockDevice E disk of Inl e \<Rightarrow> Inl e
     | Inr bd \<Rightarrow> lift_err (de_run E [''seektime'', ''-j'', bd_Path bd]))"

section \<open>Mounts\<close>

record disk_mount =
  mt_Mountpoint :: string
  mt_Filesystem :: string
  mt_Options :: "(string \<times> string) list"

definition mount_option :: "string \<Rightarrow> (string \<times> string) list \<Rightarrow> (string \<times> string) list" where
  "mount_option opt m = (case split_on (CHR ''='') opt of
     k # v # r \<Rightarrow> AList.update k v m | [k] \<Rightarrow> AList.update k ''1'' m | [] \<Rightarrow> m)"

definition mount_line :: "string \<Rightarrow> (string \<times> disk_mount list) list \<Rightarrow> (fault, (string \<times> disk_mount list) list) result" where
  "mount_line line m = (let line = TrimSpace line in
     if line = [] then Inr m
     else (case split_on (CHR '' '') line of
        device # mp # fs # opts # r \<Rightarrow>
          Inr (AList.update device ((case map_of m device of None \<Rightarrow> [] | Some ms \<Rightarrow> ms) @
            [\<lparr>mt_Mountpoint = mp, mt_Filesystem = fs, mt_Options = fold mount_option (split_on (CHR '','') opts) []\<rparr>]) m)
      | _ \<Rightarrow> Inl (Panic ''index out of range'')))"

definition parseMountCmd :: "string \<Rightarrow> (fault, (string \<times> disk_mount list) list) result" where
  "parseMountCmd s = rfold mount_line (split_on (CHR 0x0A) s) []"

definition mounts :: "disk_env \<Rightarrow> (fault, (string \<times> disk_mount list) list) result" where
  "mounts E = rbind (lift_err (de_file E ''/proc/mounts'')) parseMountCmd"

section \<open>Properties\<close>

text \<open>The mounts of the system, as the kernel prints them.\<close>

type_synonym mount_entry = "string \<times> string \<times> string \<times> (string \<times> string option) list"

definition print_option :: "string \<times> string option \<Rightarrow> string" where
  "print_option = (\<lambda>(k, v). k @ (case v of None \<Rightarrow> [] | Some x \<Rightarrow> ''='' @ x))"

definition print_mount :: "mount_entry \<Rightarrow> string" where
  "print_mount = (\<lambda>(dev, mp, fs, opts).
     dev @ '' '' @ mp @ '' '' @ fs @ '' '' @ str_join '','' (map print_option opts) @ '' 0 0'')"

definition print_mounts :: "mount_entry list \<Rightarrow> string" where
  "print_mounts ms = concat (map (\<lambda>m. print_mount m @ [CHR 0x0A]) ms)"

definition field_ok :: "string \<Rightarrow> bool" where
  "field_ok s \<longleftrightarrow> s \<noteq> [] \<and> list_all (\<lambda>c. \<not> is_space c) s"

definition option_ok :: "string \<times> string option \<Rightarrow> bool" where
  "option_ok = (\<lambda>(k, v). field_ok k \<and> CHR '','' \<notin> set k \<and> CHR ''='' \<notin> set k \<and>
     (case v of None \<Rightarrow> True | Some x \<Rightarrow> field_ok x \<and> CHR '','' \<notin> set x \<and> CHR ''='' \<notin> set x))"

definition entry_ok :: "mount_entry \<Rightarrow> bool" where
  "entry_ok = (\<lambda>(dev, mp, fs, opts). field_ok dev \<and> field_ok mp \<and> field_ok fs \<and> opts \<noteq> [] \<and> list_all option_ok opts)"

definition mount_of :: "mount_entry \<Rightarrow> disk_mount" where
  "mount_of = (\<lambda>(dev, mp, fs, opts). \<lparr>mt_Mountpoint = mp, mt_Filesystem = fs,
     mt_Options = fold (\<lambda>(k, v). AList.update k (case v of None \<Rightarrow> ''1'' | Some x \<Rightarrow> x)) opts []\<rparr>)"

definition mounts_at :: "(string \<times> disk_mount list) list \<Rightarrow> string \<Rightarrow> disk_mount list" where
  "mounts_at m dev = (case map_of m dev of None \<Rightarrow> [] | Some ms \<Rightarrow> ms)"

lemma split_lines: "list_all (\<lambda>l. c \<notin> set l) ls \<Longrightarrow> split_on c (concat (map (\<lambda>l. l @ [c]) ls)) = ls @ [[]]"
  by (induction ls) (simp_all add: split_on_append)

lemma space_chars: "is_space CHR '' ''" "is_space CHR 0x0A"
  by (simp_all add: is_space_def)

lemma field_ok_chars: "field_ok s \<Longrightarrow> CHR '' '' \<notin> set s \<and> CHR 0x0A \<notin> set s"
  using space_chars by (auto simp: field_ok_def list_all_iff)

lemma mount_option_print: "option_ok kv \<Longrightarrow> mount_option (print_option kv) m =
    (case kv of (k, v) \<Rightarrow> AList.update k (case v of None \<Rightarrow> ''1'' | Some x \<Rightarrow> x) m)"
  by (auto simp: mount_option_def print_option_def option_ok_def split_on_append split_on_no_sep split: option.splits)

lemma print_option_chars: "option_ok kv \<Longrightarrow> list_all (\<lambda>c. \<not> is_space c) (print_option kv) \<and> CHR '','' \<notin> set (print_option kv)"
  by (auto simp: print_option_def option_ok_def field_ok_def is_space_def split: option.splits)

lemma fold_mount_options:
  "list_all option_ok opts \<Longrightarrow> fold mount_option (map print_option opts) m =
    fold (\<lambda>(k, v). AList.update k (case v of None \<Rightarrow> ''1'' | Some x \<Rightarrow> x)) opts m"
  by (induction opts arbitrary: m) (simp_all add: mount_option_print split: prod.splits)

lemma set_str_join: "set (str_join sep ws) \<subseteq> set sep \<union> \<Union> (set ` set ws)"
  by (induction sep ws rule: str_join.induct) auto

lemma mount_line_print:
  assumes "entry_ok e"
  shows "mount_line (print_mount e) m = Inr (AList.update (fst e) (mounts_at m (fst e) @ [mount_of e]) m)"
proof -
  obtain dev mp fs opts where e: "e = (dev, mp, fs, opts)" by (metis prod_cases4)
  have ok: "field_ok dev" "field_ok mp" "field_ok fs" "opts \<noteq> []" "list_all option_ok opts"
    using assms by (simp_all add: entry_ok_def e)
  let ?o = "str_join '','' (map print_option opts)"
  have "\<forall>c\<in>set ?o. c = CHR '','' \<or> (\<exists>kv\<in>set opts. c \<in> set (print_option kv))"
    using set_str_join[of "'',''" "map print_option opts"] by auto
  then have o: "CHR '' '' \<notin> set ?o"
    using ok(5) print_option_chars space_chars(1) by (force simp: list_all_iff)
  have "TrimSpace (print_mount e) = print_mount e"
  proof -
    obtain c s where c: "dev = c # s" "\<not> is_space c" using ok(1) by (cases dev) (auto simp: field_ok_def)
    have "last (print_mount e) = CHR ''0''" "print_mount e \<noteq> []" "hd (print_mount e) = c" by (simp_all add: print_mount_def e c)
    then show ?thesis using c(2) by (simp add: TrimSpace_def trim_left_id trim_right_id is_space_def)
  qed
  moreover have "split_on (CHR '' '') (print_mount e) = [dev, mp, fs, ?o, ''0'', ''0'']"
    using ok(1-3)[THEN field_ok_chars] o by (simp add: print_mount_def e split_on_append)
  moreover have "split_on (CHR '','') ?o = map print_option opts"
    using ok(4,5) print_option_chars by (intro split_on_str_join) (auto simp: list_all_iff)
  moreover have "print_mount e \<noteq> []" by (simp add: print_mount_def e)
  ultimately show ?thesis
    using fold_mount_options[OF ok(5)] by (simp add: mount_line_def Let_def e mounts_at_def mount_of_def)
qed

lemma mounts_at_update: "mounts_at (AList.update k v m) d = (if d = k then v else mounts_at m d)"
  by (simp add: mounts_at_def update_conv')

lemma rfold_mounts:
  "list_all entry_ok es \<Longrightarrow> \<exists>m'. rfold mount_line (map print_mount es @ [[]]) m = Inr m' \<and>
    (\<forall>d. mounts_at m' d = mounts_at m d @ map mount_of (filter (\<lambda>e. fst e = d) es))"
proof (induction es arbitrary: m)
  case Nil
  show ?case by (simp add: mount_line_def TrimSpace_def trim_left_id trim_right_id)
next
  case (Cons e es)
  let ?m = "AList.update (fst e) (mounts_at m (fst e) @ [mount_of e]) m"
  from Cons obtain m' where "rfold mount_line (map print_mount es @ [[]]) ?m = Inr m'"
    "\<forall>d. mounts_at m' d = mounts_at ?m d @ map mount_of (filter (\<lambda>e. fst e = d) es)" by fastforce
  then show ?case using Cons.prems by (auto simp: mount_line_print mounts_at_update)
qed

lemma print_mount_no_nl: "entry_ok e \<Longrightarrow> CHR 0x0A \<notin> set (print_mount e)"
  using set_str_join[of "'',''" "map print_option (snd (snd (snd e)))"] print_option_chars space_chars(2)
  by (cases e) (fastforce simp: entry_ok_def print_mount_def list_all_iff dest!: field_ok_chars)

text \<open>Reading the mounts of the system: from the text the kernel prints, every device gets its mounts in the order of
  the lines, with mount point, file system and options, a flag without a value being set to 1.\<close>

theorem parseMountCmd_print:
  assumes "list_all entry_ok es"
  shows "\<exists>m. parseMountCmd (print_mounts es) = Inr m \<and>
    (\<forall>dev. mounts_at m dev = map mount_of (filter (\<lambda>e. fst e = dev) es))"
proof -
  have "list_all (\<lambda>l. CHR 0x0A \<notin> set l) (map print_mount es)"
    using assms print_mount_no_nl by (auto simp: list_all_iff)
  from split_lines[OF this] have "split_on (CHR 0x0A) (print_mounts es) = map print_mount es @ [[]]"
    by (simp add: print_mounts_def comp_def)
  then show ?thesis using rfold_mounts[OF assms, of "[]"] by (simp add: parseMountCmd_def mounts_at_def)
qed

text \<open>The free blocks of a disk, as \<^verbatim>\<open>parted\<close> prints them below its header.\<close>

definition print_free :: "nat \<times> nat \<times> nat \<Rightarrow> string" where
  "print_free = (\<lambda>(a, b, c). ''        '' @ itoa a @ ''B  '' @ itoa b @ ''B  '' @ itoa c @ ''B           Free Space'' @ [CHR 0x0A])"

lemma digit_not_re_space: "is_digit c \<Longrightarrow> \<not> is_re_space c"
  by (auto simp: is_digit_def is_re_space_def)

lemma dropWhile_itoa: "dropWhile is_re_space (itoa n @ r) = itoa n @ r"
  using hd_itoa_digit[of n] digit_not_re_space itoa_not_Nil[of n] by (cases "itoa n") auto

lemma digits_itoa: "\<not> is_digit c \<Longrightarrow> takeWhile is_digit (itoa n @ c # r) = itoa n \<and> dropWhile is_digit (itoa n @ c # r) = c # r"
  using itoa_digits[of n] by (auto simp: takeWhile_append dropWhile_append list_all_iff)

lemma B_not_digit: "\<not> is_digit (CHR ''B'')" by (simp add: is_digit_def)

lemma blanks: "is_re_space (CHR '' '')" by (simp add: is_re_space_def)

lemma re_bytes_itoa:
  assumes "list_all is_re_space sp" and "need \<longrightarrow> sp \<noteq> []"
  shows "re_bytes need (sp @ itoa n @ CHR ''B'' # r) = Some (itoa n, r)"
proof -
  have d: "dropWhile is_re_space (sp @ itoa n @ CHR ''B'' # r) = itoa n @ CHR ''B'' # r"
    using assms(1) dropWhile_itoa by (simp add: dropWhile_append2 list_all_iff)
  have "itoa n @ CHR ''B'' # r \<noteq> sp @ itoa n @ CHR ''B'' # r" if need using assms(2) that by simp
  then show ?thesis using digits_itoa[OF B_not_digit, of n r] B_not_digit by (auto simp: re_bytes_def Let_def d)
qed

lemma re_free_print: "re_free (print_free (a, b, c) @ r) = Some ((itoa a, itoa b, itoa c), CHR 0x0A # r)"
proof -
  let ?w = "''           Free Space'' @ CHR 0x0A # r"
  have w: "re_words ?w = Some (CHR 0x0A # r)"
    by (simp add: re_words_def blanks has_prefix_def is_re_space_def)
  have 3: "re_bytes True (''  '' @ itoa c @ CHR ''B'' # ?w) = Some (itoa c, ?w)"
    by (rule re_bytes_itoa) (simp_all add: blanks)
  have 2: "re_bytes True (''  '' @ itoa b @ CHR ''B'' # ''  '' @ itoa c @ CHR ''B'' # ?w) = Some (itoa b, ''  '' @ itoa c @ CHR ''B'' # ?w)"
    by (rule re_bytes_itoa) (simp_all add: blanks)
  have 1: "re_bytes False (''        '' @ itoa a @ CHR ''B'' # ''  '' @ itoa b @ CHR ''B'' # ''  '' @ itoa c @ CHR ''B'' # ?w) =
      Some (itoa a, ''  '' @ itoa b @ CHR ''B'' # ''  '' @ itoa c @ CHR ''B'' # ?w)"
    by (rule re_bytes_itoa) (simp_all add: blanks)
  have p: "print_free (a, b, c) @ r = ''        '' @ itoa a @ CHR ''B'' # ''  '' @ itoa b @ CHR ''B'' # ''  '' @ itoa c @ CHR ''B'' # ?w"
    by (simp add: print_free_def)
  show ?thesis unfolding p re_free_def 1 option.case prod.case 2 3 w ..
qed

lemma find_free_print: "find_free True (concat (map print_free bs)) = map (\<lambda>(a, b, c). (itoa a, itoa b, itoa c)) bs"
proof (induction bs)
  case Nil
  show ?case by (subst find_free.simps) (simp add: re_free_def re_bytes_def)
next
  case (Cons x bs)
  obtain a b c where x: "x = (a, b, c)" by (metis prod_cases3)
  let ?r = "concat (map print_free bs)"
  have "find_free True (print_free (a, b, c) @ ?r) = (itoa a, itoa b, itoa c) # find_free False (CHR 0x0A # ?r)"
    by (subst find_free.simps) (simp add: re_free_print)
  also have "find_free False (CHR 0x0A # ?r) = find_free True ?r" by (subst find_free.simps) simp
  finally show ?case using Cons.IH x by simp
qed

lemma parse_u64_itoa: "n < 2 ^ 64 \<Longrightarrow> parse_u64 (itoa n) = of_nat n"
  by (simp add: parse_u64_def parse_uint_itoa)

text \<open>The free blocks of a disk are read back exactly as \<^verbatim>\<open>parted\<close> prints them, in order, as long as the numbers fit into 64
  bits.\<close>

theorem table_info_free:
  assumes "list_all (\<lambda>(a, b, c). a < 2 ^ 64 \<and> b < 2 ^ 64 \<and> c < 2 ^ 64) bs"
  shows "snd (table_info (concat (map print_free bs))) =
    map (\<lambda>(a, b, c). \<lparr>fb_Start = of_nat a, fb_End = of_nat b, fb_Size = of_nat c\<rparr>) bs"
  using assms unfolding table_info_def find_free_print
  by (induction bs) (auto simp: parse_u64_itoa)

text \<open>The last byte of a partition: when the partition lies within 2^64 bytes and is not empty, start, size and end fit
  together as numbers, without wrap-around.\<close>

theorem part_size_exact:
  assumes "(unat start + unat sz) * unat bs < 2 ^ 64" and "0 < unat sz * unat bs"
  shows "unat (dki_End (part_size lb start sz bs)) + 1 =
      unat (dki_Start (part_size lb start sz bs)) + unat (dki_Size (part_size lb start sz bs)) \<and>
    unat (dki_Size (part_size lb start sz bs)) = unat sz * unat bs"
proof -
  have l: "unat start * unat bs + unat sz * unat bs < 2 ^ 64" using assms(1) by (simp add: distrib_right)
  have a: "unat (start * bs) = unat start * unat bs" "unat (sz * bs) = unat sz * unat bs"
    using l by (simp_all add: unat_word_ariths)
  have s: "unat (start * bs + sz * bs) = unat start * unat bs + unat sz * unat bs"
    using l a by (simp add: unat_word_ariths(1))
  have "unat (start * bs + sz * bs - 1) = unat (start * bs + sz * bs) - 1"
    using s assms(2) by (intro unat_minus_one) auto
  then show ?thesis using s a assms(2) by (simp add: part_size_def)
qed

text \<open>Protecting a partition never succeeds, whatever the disks and programs do: the list of disks has another type than
  the one the action expects.\<close>

theorem protect_never_succeeds:
  shows "protect E uuid \<noteq> Inr ()"
  by (cases "disk_list E") (simp_all add: protect_def)

lemma parseMountCmd_print_witness:
  "\<exists>m. parseMountCmd (print_mounts [(''/dev/sda1'', ''/mnt'', ''btrfs'', [(''rw'', None), (''subvol'', Some ''/x'')])]) = Inr m \<and>
     map mt_Mountpoint (mounts_at m ''/dev/sda1'') = [''/mnt''] \<and> mounts_at m ''/dev/sdb'' = []"
proof -
  have "list_all entry_ok [(''/dev/sda1'', ''/mnt'', ''btrfs'', [(''rw'', None), (''subvol'', Some ''/x'')])]"
    by (simp add: entry_ok_def field_ok_def option_ok_def is_space_def)
  from parseMountCmd_print[OF this] show ?thesis by (auto simp: mount_of_def)
qed

lemma table_info_free_witness:
  "snd (table_info (concat (map print_free [(17408, 1048575, 1031168)]))) =
     [\<lparr>fb_Start = 17408, fb_End = 1048575, fb_Size = 1031168\<rparr>]"
proof -
  have "list_all (\<lambda>(a, b, c). a < 2 ^ 64 \<and> b < 2 ^ 64 \<and> c < 2 ^ 64) [(17408 :: nat, 1048575 :: nat, 1031168 :: nat)]" by simp
  from table_info_free[OF this] show ?thesis by simp
qed

lemma part_size_exact_witness:
  "unat (dki_End (part_size (Lsblk [] [] [] [] []) 2048 4096 512)) + 1 = 2048 * 512 + 4096 * (512 :: nat)"
  using part_size_exact[of 2048 4096 512 "Lsblk [] [] [] [] []"] by (simp add: part_size_def)

end
