(* ===== verification/Cgroup.thy ===== *)
theory Cgroup
  imports Utils_Model Pm_Types Socat
begin

text \<open>
  Control groups (\<^verbatim>\<open>apps/plugins/cgroup/plugin\<close>): the groups of the three subsystems, their tasks, processor sets,
  devices and memory limits, and the actions on them.  The kernel's file system is a parameter, with a state of any
  type; a file is given by subsystem, group and name, the root group having the empty name.
\<close>

section \<open>Surroundings\<close>

datatype subsystem = DevicesSubsystem | CPUSetSubsystem | MemorySubsystem

definition subsystem_of :: "string \<Rightarrow> subsystem option" where
  "subsystem_of s = (if s = ''devices'' then Some DevicesSubsystem else if s = ''cpuset'' then Some CPUSetSubsystem
     else if s = ''memory'' then Some MemorySubsystem else None)"

record cgroup =
  cg_name :: string
  cg_subsys :: subsystem

record 's cg_fs =
  fs_isdir :: "cgroup \<Rightarrow> 's \<Rightarrow> bool option"
  fs_mkdir :: "cgroup \<Rightarrow> 's \<Rightarrow> (go_error, unit) result \<times> 's"
  fs_rmdir :: "cgroup \<Rightarrow> 's \<Rightarrow> (go_error, unit) result \<times> 's"
  fs_entries :: "subsystem \<Rightarrow> 's \<Rightarrow> (go_error, (string \<times> bool) list) result"
  fs_read :: "cgroup \<Rightarrow> string \<Rightarrow> 's \<Rightarrow> (go_error, string) result"
  fs_write :: "cgroup \<Rightarrow> string \<Rightarrow> string \<Rightarrow> 's \<Rightarrow> (go_error, unit) result \<times> 's"

definition ErrDoesNotExist :: go_error where "ErrDoesNotExist = PlainErr ''cgroup does not exist''"

definition Root :: "cgroup \<Rightarrow> cgroup" where "Root g = g\<lparr>cg_name := []\<rparr>"

text \<open>Two steps in a row, the second whatever the first returned.\<close>

definition then_do :: "('s \<Rightarrow> 'a \<times> 's) \<Rightarrow> ('s \<Rightarrow> 'b \<times> 's) \<Rightarrow> 's \<Rightarrow> 'b \<times> 's" where
  "then_do f g s = g (snd (f s))"

section \<open>Tasks, processor sets and devices\<close>

definition Task :: "'s cg_fs \<Rightarrow> cgroup \<Rightarrow> int \<Rightarrow> 's \<Rightarrow> (go_error, unit) result \<times> 's" where
  "Task F g pid = fs_write F g ''cgroup.procs'' (itoa_int pid)"

definition parse_pids :: "string \<Rightarrow> (go_error, int list) result" where
  "parse_pids raw = rmap (\<lambda>s. case scan_d s of None \<Rightarrow> Inl (PlainErr ''expected integer'') | Some p \<Rightarrow> Inr p)
     (filter (\<lambda>s. s \<noteq> []) (split_on (CHR 0x0A) raw))"

definition Tasks :: "'s cg_fs \<Rightarrow> cgroup \<Rightarrow> 's \<Rightarrow> (go_error, int list) result" where
  "Tasks F g s = rbind (fs_read F g ''cgroup.procs'' s) parse_pids"

definition Cpus :: "'s cg_fs \<Rightarrow> cgroup \<Rightarrow> string \<Rightarrow> 's \<Rightarrow> (go_error, unit) result \<times> 's" where
  "Cpus F g = fs_write F g ''cpuset.cpus''"

definition Mems :: "'s cg_fs \<Rightarrow> cgroup \<Rightarrow> string \<Rightarrow> 's \<Rightarrow> (go_error, unit) result \<times> 's" where
  "Mems F g = fs_write F g ''cpuset.mems''"

definition GetCpus :: "'s cg_fs \<Rightarrow> cgroup \<Rightarrow> 's \<Rightarrow> (go_error, string) result" where
  "GetCpus F g s = rbind (fs_read F g ''cpuset.cpus'' s) (\<lambda>d. Inr (TrimSpace d))"

definition GetMems :: "'s cg_fs \<Rightarrow> cgroup \<Rightarrow> 's \<Rightarrow> (go_error, string) result" where
  "GetMems F g s = rbind (fs_read F g ''cpuset.mems'' s) (\<lambda>d. Inr (TrimSpace d))"

definition or_empty :: "(go_error, string) result \<Rightarrow> string" where
  "or_empty r = (case r of Inl e \<Rightarrow> [] | Inr s \<Rightarrow> s)"

definition cpuset_Reset :: "'s cg_fs \<Rightarrow> cgroup \<Rightarrow> 's \<Rightarrow> 's" where
  "cpuset_Reset F g s =
     (let s = snd (Cpus F g (or_empty (GetCpus F (Root g) s)) s)
      in snd (Mems F g (or_empty (GetMems F (Root g) s)) s))"

definition Deny :: "'s cg_fs \<Rightarrow> cgroup \<Rightarrow> string \<Rightarrow> 's \<Rightarrow> (go_error, unit) result \<times> 's" where
  "Deny F g = fs_write F g ''devices.deny''"

definition Allow :: "'s cg_fs \<Rightarrow> cgroup \<Rightarrow> string \<Rightarrow> 's \<Rightarrow> (go_error, unit) result \<times> 's" where
  "Allow F g = fs_write F g ''devices.allow''"

definition devices_List :: "'s cg_fs \<Rightarrow> cgroup \<Rightarrow> 's \<Rightarrow> (go_error, string list) result" where
  "devices_List F g s = rbind (fs_read F g ''devices.list'' s) (\<lambda>d. Inr (split_on (CHR 0x0A) d))"

section \<open>Memory limits\<close>

definition memFile :: string where "memFile = ''memory.limit_in_bytes''"
definition swapFile :: string where "swapFile = ''memory.memsw.limit_in_bytes''"

definition read_limit :: "'s cg_fs \<Rightarrow> cgroup \<Rightarrow> string \<Rightarrow> 's \<Rightarrow> (go_error, int) result" where
  "read_limit F g f s = rbind (fs_read F g f s) (\<lambda>d. case scan_d (TrimSpace d) of
     None \<Rightarrow> Inl (PlainErr ''expected integer'') | Some v \<Rightarrow> Inr v)"

definition Limits :: "'s cg_fs \<Rightarrow> cgroup \<Rightarrow> 's \<Rightarrow> (go_error, int \<times> int) result" where
  "Limits F g s = rbind (read_limit F g memFile s) (\<lambda>m. rbind (read_limit F g swapFile s) (\<lambda>w. Inr (m, w)))"

definition set_limit :: "'s cg_fs \<Rightarrow> cgroup \<Rightarrow> string \<Rightarrow> int \<Rightarrow> 's \<Rightarrow> (go_error, unit) result \<times> 's" where
  "set_limit F g f v = fs_write F g f (itoa_int v)"

definition memory_Reset :: "'s cg_fs \<Rightarrow> cgroup \<Rightarrow> 's \<Rightarrow> 's" where
  "memory_Reset F g s = snd (then_do (set_limit F g swapFile (- 1)) (set_limit F g memFile (- 1)) s)"

text \<open>The sum of two 64-bit integers of Go.\<close>

definition add64 :: "int \<Rightarrow> int \<Rightarrow> int" where
  "add64 a b = sint (word_of_int (a + b) :: 64 word)"

text \<open>The order of the two writes depends on the current limits, because the limit of memory and swap together can never be
  below that of memory; what the writes return is not looked at.\<close>

definition Limit :: "'s cg_fs \<Rightarrow> cgroup \<Rightarrow> int \<Rightarrow> int \<Rightarrow> 's \<Rightarrow> (go_error, unit) result \<times> 's" where
  "Limit F g mem swap s = (case Limits F g s of
     Inl e \<Rightarrow> (Inl e, s)
   | Inr (cmem, cswap) \<Rightarrow>
       let mem = (if mem = 0 then cmem else mem); swap = add64 mem swap in
       (Inr (), snd (if cswap < mem then then_do (set_limit F g swapFile swap) (set_limit F g memFile mem) s
                     else then_do (set_limit F g memFile mem) (set_limit F g swapFile swap) s)))"

section \<open>Groups\<close>

definition group_Reset :: "'s cg_fs \<Rightarrow> cgroup \<Rightarrow> 's \<Rightarrow> 's" where
  "group_Reset F g s = (case cg_subsys g of
     DevicesSubsystem \<Rightarrow> s | CPUSetSubsystem \<Rightarrow> cpuset_Reset F g s | MemorySubsystem \<Rightarrow> memory_Reset F g s)"

definition Exists :: "'s cg_fs \<Rightarrow> string \<Rightarrow> string \<Rightarrow> 's \<Rightarrow> bool" where
  "Exists F sub name s = (case subsystem_of sub of None \<Rightarrow> False
     | Some y \<Rightarrow> fs_isdir F \<lparr>cg_name = name, cg_subsys = y\<rparr> s = Some True)"

definition GetGroup :: "'s cg_fs \<Rightarrow> string \<Rightarrow> string \<Rightarrow> 's \<Rightarrow> (go_error, cgroup) result \<times> 's" where
  "GetGroup F sub name s = (case subsystem_of sub of
     None \<Rightarrow> (Inl (PlainErr ''unknown subsystem''), s)
   | Some y \<Rightarrow>
       let g = \<lparr>cg_name = name, cg_subsys = y\<rparr> in
       if fs_isdir F g s \<noteq> None then (Inr g, s)
       else (case fs_mkdir F g s of
          (Inl e, s) \<Rightarrow> (Inl e, s)
        | (Inr u, s) \<Rightarrow> (Inr g, group_Reset F g s)))"

definition Get_group :: "'s cg_fs \<Rightarrow> string \<Rightarrow> string \<Rightarrow> 's \<Rightarrow> (go_error, cgroup) result \<times> 's" where
  "Get_group F sub name s = (if \<not> Exists F sub name s then (Inl ErrDoesNotExist, s) else GetGroup F sub name s)"

definition GetGroups :: "'s cg_fs \<Rightarrow> 's \<Rightarrow> (go_error, (subsystem \<times> string list) list) result" where
  "GetGroups F s = rbind (rmap (\<lambda>y. rbind (fs_entries F y s) (\<lambda>es. Inr (y, map fst (filter snd es)))) [CPUSetSubsystem, MemorySubsystem])
     (\<lambda>gs. Inr (filter (\<lambda>(y, names). names \<noteq> []) gs))"

definition move_tasks :: "'s cg_fs \<Rightarrow> cgroup \<Rightarrow> int list \<Rightarrow> 's \<Rightarrow> 's" where
  "move_tasks F g pids s = fold (\<lambda>p s. snd (Task F (Root g) p s)) pids s"

definition Remove :: "'s cg_fs \<Rightarrow> string \<Rightarrow> string \<Rightarrow> 's \<Rightarrow> (go_error, unit) result \<times> 's" where
  "Remove F sub name s = (case subsystem_of sub of
     None \<Rightarrow> (Inr (), s)
   | Some y \<Rightarrow>
       let g = \<lparr>cg_name = name, cg_subsys = y\<rparr> in
       if \<not> Exists F sub name s then (Inr (), s)
       else (case Tasks F g s of
          Inl e \<Rightarrow> (Inl e, s)
        | Inr [] \<Rightarrow> fs_rmdir F g s
        | Inr pids \<Rightarrow> fs_rmdir F g (move_tasks F g pids s)))"

section \<open>Actions\<close>

definition with_group :: "'s cg_fs \<Rightarrow> string \<Rightarrow> string \<Rightarrow> (cgroup \<Rightarrow> 's \<Rightarrow> (go_error, 'a) result \<times> 's) \<Rightarrow> 's \<Rightarrow> (go_error, 'a) result \<times> 's" where
  "with_group F sub name act s = (case Get_group F sub name s of
     (Inl e, s) \<Rightarrow> (Inl (NotFoundError (error_text e)), s) | (Inr g, s) \<Rightarrow> act g s)"

definition cg_list :: "'s cg_fs \<Rightarrow> 's \<Rightarrow> (go_error, (subsystem \<times> string list) list) result \<times> 's" where
  "cg_list F s = (GetGroups F s, s)"

definition cg_ensure :: "'s cg_fs \<Rightarrow> string \<Rightarrow> string \<Rightarrow> 's \<Rightarrow> (go_error, unit) result \<times> 's" where
  "cg_ensure F sub name s = (case GetGroup F sub name s of (r, s) \<Rightarrow> (rbind r (\<lambda>_. Inr ()), s))"

definition cg_remove :: "'s cg_fs \<Rightarrow> string \<Rightarrow> string \<Rightarrow> 's \<Rightarrow> (go_error, unit) result \<times> 's" where
  "cg_remove = Remove"

definition cg_reset :: "'s cg_fs \<Rightarrow> string \<Rightarrow> string \<Rightarrow> 's \<Rightarrow> (go_error, unit) result \<times> 's" where
  "cg_reset F sub name = with_group F sub name (\<lambda>g s. (Inr (), group_Reset F g s))"

definition cg_tasks :: "'s cg_fs \<Rightarrow> string \<Rightarrow> string \<Rightarrow> 's \<Rightarrow> (go_error, int list) result \<times> 's" where
  "cg_tasks F sub name = with_group F sub name (\<lambda>g s. (Tasks F g s, s))"

definition cg_taskAdd :: "'s cg_fs \<Rightarrow> string \<Rightarrow> string \<Rightarrow> int \<Rightarrow> 's \<Rightarrow> (go_error, unit) result \<times> 's" where
  "cg_taskAdd F sub name pid = with_group F sub name (\<lambda>g. Task F g pid)"

definition cg_taskRemove :: "'s cg_fs \<Rightarrow> string \<Rightarrow> string \<Rightarrow> int \<Rightarrow> 's \<Rightarrow> (go_error, unit) result \<times> 's" where
  "cg_taskRemove F sub name pid = with_group F sub name (\<lambda>g. Task F (Root g) pid)"

definition cpusetSpec :: "'s cg_fs \<Rightarrow> string \<Rightarrow> string \<Rightarrow> string \<Rightarrow> 's \<Rightarrow> (go_error, string \<times> string) result \<times> 's" where
  "cpusetSpec F name cpus mems = with_group F ''cpuset'' name (\<lambda>g s.
     case (if cpus \<noteq> [] then Cpus F g cpus s else (Inr (), s)) of
       (Inl e, s) \<Rightarrow> (Inl e, s)
     | (Inr u, s) \<Rightarrow> (case (if mems \<noteq> [] then Mems F g mems s else (Inr (), s)) of
         (Inl e, s) \<Rightarrow> (Inl e, s)
       | (Inr u, s) \<Rightarrow> (Inr (or_empty (GetCpus F g s), or_empty (GetMems F g s)), s)))"

definition limits_or_zero :: "(go_error, int \<times> int) result \<Rightarrow> int \<times> int" where
  "limits_or_zero r = (case r of Inl e \<Rightarrow> (0, 0) | Inr p \<Rightarrow> p)"

definition memorySpec :: "'s cg_fs \<Rightarrow> string \<Rightarrow> int \<Rightarrow> int \<Rightarrow> 's \<Rightarrow> (go_error, int \<times> int) result \<times> 's" where
  "memorySpec F name mem swap = with_group F ''memory'' name (\<lambda>g s.
     case (if mem \<noteq> 0 then Limit F g mem swap s else (Inr (), s)) of
       (Inl e, s) \<Rightarrow> (Inl e, s)
     | (Inr u, s) \<Rightarrow> (case limits_or_zero (Limits F g s) of (m, w) \<Rightarrow> (Inr (m, add64 w (- m)), s)))"

section \<open>Properties\<close>

lemma Get_group_same: "snd (Get_group F sub name s) = s"
  by (auto simp: Get_group_def Exists_def GetGroup_def Let_def split: option.splits)

text \<open>What the kernel documents of the two limits of a memory group: reading gives the value; a limit of memory above
  that of memory and swap is refused and changes nothing; a value in whole pages that is not below the memory in use is
  taken.  \<open>lim\<close> reads the two limits off the state of the file system, \<open>used\<close> bounds the memory in use.\<close>

definition memory_laws :: "'s cg_fs \<Rightarrow> cgroup \<Rightarrow> ('s \<Rightarrow> int \<times> int) \<Rightarrow> int \<Rightarrow> bool" where
  "memory_laws F g lim used \<longleftrightarrow> (\<forall>s.
     fs_read F g memFile s = Inr (itoa_int (fst (lim s)) @ [CHR 0x0A]) \<and>
     fs_read F g swapFile s = Inr (itoa_int (snd (lim s)) @ [CHR 0x0A]) \<and>
     0 \<le> fst (lim s) \<and> fst (lim s) \<le> snd (lim s) \<and> snd (lim s) < 2 ^ 63 \<and>
     (\<forall>v. 4096 dvd v \<and> used \<le> v \<and> v < 2 ^ 63 \<longrightarrow>
        lim (snd (fs_write F g memFile (itoa_int v) s)) = (if v \<le> snd (lim s) then (v, snd (lim s)) else lim s)) \<and>
     (\<forall>v. 4096 dvd v \<and> used \<le> v \<and> fst (lim s) \<le> v \<and> v < 2 ^ 63 \<longrightarrow>
        lim (snd (fs_write F g swapFile (itoa_int v) s)) = (fst (lim s), v)))"

lemma TrimSpace_itoa_nl: "TrimSpace (itoa n @ [CHR 0x0A]) = itoa n"
proof -
  have d: "\<not> is_space (hd (itoa n))" "\<not> is_space (last (itoa n))"
    using itoa_hd_last[of n] digit_not_space by blast+
  have "trim_right is_space (itoa n @ [CHR 0x0A]) = trim_right is_space (itoa n)"
    by (simp add: trim_right_def is_space_def)
  then show ?thesis
    using d by (simp add: TrimSpace_def trim_left_id trim_right_id)
qed

lemma scan_d_limit:
  assumes "0 \<le> v" and "v < 2 ^ 63" shows "scan_d (TrimSpace (itoa_int v @ [CHR 0x0A])) = Some v"
  using assms scan_d_itoa[of "nat v"] by (simp add: itoa_int_def TrimSpace_itoa_nl nat_less_iff)

lemma Limits_read:
  assumes "memory_laws F g lim used" shows "Limits F g s = Inr (lim s)"
proof -
  have l: "fs_read F g memFile s = Inr (itoa_int (fst (lim s)) @ [CHR 0x0A])"
    "fs_read F g swapFile s = Inr (itoa_int (snd (lim s)) @ [CHR 0x0A])"
    "0 \<le> fst (lim s)" "fst (lim s) \<le> snd (lim s)" "snd (lim s) < 2 ^ 63"
    using assms unfolding memory_laws_def by blast+
  show ?thesis using l scan_d_limit[of "fst (lim s)"] scan_d_limit[of "snd (lim s)"]
    by (simp add: Limits_def read_limit_def)
qed

lemma add64_exact: "- (2 ^ 63) \<le> a + b \<Longrightarrow> a + b < 2 ^ 63 \<Longrightarrow> add64 a b = a + b"
  unfolding add64_def by (subst sint_sbintrunc') (simp add: signed_take_bit_int_eq_self)

lemma Limit_order:
  assumes "Limits F g s = Inr p" and "m = (if mem = 0 then fst p else mem)" and "add64 m swap = t"
  shows "Limit F g mem swap s = (Inr (), if snd p < m
    then snd (set_limit F g memFile m (snd (set_limit F g swapFile t s)))
    else snd (set_limit F g swapFile t (snd (set_limit F g memFile m s))))"
  using assms by (cases p) (auto simp: Limit_def Let_def then_do_def)

lemma write_mem:
  assumes "memory_laws F g lim used" and "4096 dvd v" and "used \<le> v" and "v < 2 ^ 63"
  shows "lim (snd (set_limit F g memFile v s)) = (if v \<le> snd (lim s) then (v, snd (lim s)) else lim s)"
  using assms unfolding memory_laws_def set_limit_def by blast

lemma write_swap:
  assumes "memory_laws F g lim used" and "4096 dvd v" and "used \<le> v" and "fst (lim s) \<le> v" and "v < 2 ^ 63"
  shows "lim (snd (set_limit F g swapFile v s)) = (fst (lim s), v)"
  using assms unfolding memory_laws_def set_limit_def by blast

text \<open>Setting the limits of a memory group: for whole pages that are not below the memory in use, the group ends up with
  exactly the new limit of memory (the current one if 0 is passed) and that plus the swap, whatever the limits were before:
  in the order the code chooses, neither of the two writes is refused by the kernel.\<close>

theorem Limit_exact:
  assumes "memory_laws F g lim used"
    and "m = (if mem = 0 then fst (lim s) else mem)"
    and "4096 dvd m" "4096 dvd swap" "used \<le> m" "0 \<le> m" "0 \<le> swap" "m + swap < 2 ^ 63"
  shows "fst (Limit F g mem swap s) = Inr () \<and> lim (snd (Limit F g mem swap s)) = (m, m + swap)"
proof -
  have v: "fst (lim s) \<le> snd (lim s)" using assms(1) unfolding memory_laws_def by blast
  have a: "add64 m swap = m + swap" using assms(6-8) by (intro add64_exact) auto
  have d: "4096 dvd m + swap" using assms(3,4) by simp
  note o = Limit_order[OF Limits_read[OF assms(1)] assms(2) a]
  have b: "m < 2 ^ 63" using assms(7,8) by simp
  note wm = write_mem[OF assms(1,3,5) b]
  note ws = write_swap[OF assms(1) d _ _ assms(8)]
  show ?thesis
  proof (cases "snd (lim s) < m")
    case True
    have s1: "lim (snd (set_limit F g swapFile (m + swap) s)) = (fst (lim s), m + swap)"
      using True v assms(5,7) by (intro ws) auto
    show ?thesis using True assms(7) wm[of "snd (set_limit F g swapFile (m + swap) s)"] s1
      by (simp add: o)
  next
    case False
    have s1: "lim (snd (set_limit F g memFile m s)) = (m, snd (lim s))"
      using False wm[of s] by simp
    have "lim (snd (set_limit F g swapFile (m + swap) (snd (set_limit F g memFile m s)))) = (m, m + swap)"
      using ws[of "snd (set_limit F g memFile m s)"] s1 assms(5,7) by simp
    then show ?thesis using False
      by (simp add: o)
  qed
qed

text \<open>A memory group that is nothing but its two limits.\<close>

definition two_limits :: "int \<times> int \<Rightarrow> int \<times> int" where
  "two_limits s = (if 0 \<le> fst s \<and> fst s \<le> snd s \<and> snd s < 2 ^ 63 then s else (0, 0))"

definition two_limits_write :: "string \<Rightarrow> string \<Rightarrow> int \<times> int \<Rightarrow> int \<times> int" where
  "two_limits_write f d s = (case scan_d d of None \<Rightarrow> two_limits s | Some v \<Rightarrow>
     two_limits (case two_limits s of (m, w) \<Rightarrow>
       if f = memFile then (if v \<le> w then (v, w) else (m, w)) else (if m \<le> v then (m, v) else (m, w))))"

definition limits_fs :: "(int \<times> int) cg_fs" where
  "limits_fs = \<lparr>fs_isdir = \<lambda>g s. Some True, fs_mkdir = \<lambda>g s. (Inr (), s), fs_rmdir = \<lambda>g s. (Inr (), s),
     fs_entries = \<lambda>y s. Inr [],
     fs_read = \<lambda>g f s. Inr (itoa_int (if f = memFile then fst (two_limits s) else snd (two_limits s)) @ [CHR 0x0A]),
     fs_write = \<lambda>g f d s. (Inr (), two_limits_write f d s)\<rparr>"

lemma files_differ: "swapFile \<noteq> memFile" by (simp add: memFile_def swapFile_def)

lemma two_limits_bounds: "0 \<le> fst (two_limits s) \<and> fst (two_limits s) \<le> snd (two_limits s) \<and> snd (two_limits s) < 2 ^ 63"
  by (simp add: two_limits_def)

lemma two_limits_id: "0 \<le> m \<Longrightarrow> m \<le> w \<Longrightarrow> w < 2 ^ 63 \<Longrightarrow> two_limits (m, w) = (m, w)"
  by (simp add: two_limits_def)

lemma two_limits_idem: "two_limits (two_limits s) = two_limits s"
  by (simp add: two_limits_def)

lemma scan_d_int: "0 \<le> v \<Longrightarrow> v < 2 ^ 63 \<Longrightarrow> scan_d (itoa_int v) = Some v"
  using scan_d_itoa[of "nat v"] by (simp add: itoa_int_def nat_less_iff)

lemma limits_fs_laws: "memory_laws limits_fs g two_limits 0"
  unfolding memory_laws_def
proof (intro allI conjI impI; (elim conjE)?)
  fix s show "0 \<le> fst (two_limits s)" "fst (two_limits s) \<le> snd (two_limits s)" "snd (two_limits s) < 2 ^ 63"
    using two_limits_bounds[of s] by simp_all
next
  fix s v assume v: "0 \<le> v" "v < (2 :: int) ^ 63"
  show "two_limits (snd (fs_write limits_fs g memFile (itoa_int v) s)) =
      (if v \<le> snd (two_limits s) then (v, snd (two_limits s)) else two_limits s)"
    using two_limits_bounds[of s] v
    by (simp add: limits_fs_def two_limits_write_def scan_d_int two_limits_id two_limits_idem split_beta)
next
  fix s v assume v: "0 \<le> v" "v < (2 :: int) ^ 63" "fst (two_limits s) \<le> v"
  then show "two_limits (snd (fs_write limits_fs g swapFile (itoa_int v) s)) = (fst (two_limits s), v)"
    using two_limits_bounds[of s]
    by (simp add: limits_fs_def two_limits_write_def scan_d_int two_limits_id two_limits_idem split_beta files_differ)
qed (simp_all add: limits_fs_def files_differ)

definition vm_group :: cgroup where "vm_group = \<lparr>cg_name = ''vm'', cg_subsys = MemorySubsystem\<rparr>"

lemma Limit_exact_witness:
  "fst (Limit limits_fs vm_group 8192 4096 (4096, 4096)) = Inr () \<and>
   two_limits (snd (Limit limits_fs vm_group 8192 4096 (4096, 4096))) = (8192, 12288)"
  using Limit_exact[OF limits_fs_laws, of 8192 8192 "(4096, 4096)" 4096 vm_group] by simp

text \<open>\<^verbatim>\<open>memory.spec\<close> with no limit of memory changes nothing, although the operation behind it takes 0 for "swap
  only".\<close>

theorem memorySpec_ignores_swap: "snd (memorySpec F name 0 swap s) = s"
  by (simp add: memorySpec_def with_group_def split: prod.split sum.split)
     (metis Get_group_same snd_conv)

end
