(* ===== verification/Bridge.thy ===== *)
theory Bridge
  imports Steps Nft "HOL-Library.Sublist"
begin

text \<open>
  The bridge actions (\<^verbatim>\<open>apps/plugins/base/bridge/bridge.go\<close>): checks of the arguments, the test for overlapping networks,
  creating a bridge with its address, name server and firewall rules, cards, and removing a bridge with the rules it has
  left.  netlink, the process manager and files are the arguments of the operations; the rules go through the
  firewall plugin.  Addresses of a bridge are IPv4; addresses of other links may be of both versions.
\<close>

section \<open>Networks\<close>

text \<open>An address with the length of its prefix; an IPv6 address stands for itself, never for a mapped IPv4 address.\<close>

datatype ifaddr = Net4 "32 word" nat | Net6 "128 word" nat

definition prefix_mask :: "nat \<Rightarrow> 'a::len word" where
  "prefix_mask n = push_bit (LENGTH('a) - n) (-1)"

definition in_net :: "'a::len word \<Rightarrow> nat \<Rightarrow> 'a word \<Rightarrow> bool" where
  "in_net ip n x \<longleftrightarrow> x AND prefix_mask n = ip AND prefix_mask n"

definition net_meet :: "'a::len word \<Rightarrow> nat \<Rightarrow> 'a word \<Rightarrow> nat \<Rightarrow> bool" where
  "net_meet a m b n \<longleftrightarrow> (let ip1 = a AND prefix_mask n; ip2 = b AND prefix_mask m in in_net b n ip1 \<or> in_net a m ip2)"

definition intersect :: "ifaddr \<Rightarrow> ifaddr \<Rightarrow> bool" where
  "intersect n1 n2 = (case (n1, n2) of
     (Net4 a m, Net4 b n) \<Rightarrow> net_meet a m b n | (Net6 a m, Net6 b n) \<Rightarrow> net_meet a m b n | _ \<Rightarrow> False)"



section \<open>Arguments\<close>

record static_settings =
  st_CIDR :: string

record dnsmasq_settings = static_settings +
  ds_Start :: "ipv4 option"
  ds_End :: "ipv4 option"

definition cidr_checked :: "string \<Rightarrow> (fault, ipv4 \<times> ipnet) result" where
  "cidr_checked c = (case ParseCIDR c of None \<Rightarrow> fail ''invalid CIDR address''
     | Some (ip, network) \<Rightarrow> if net_ip network = ip then fail ''Invalid IP'' else Inr (ip, network))"

definition static_Validate :: "'a static_settings_scheme \<Rightarrow> (fault, unit) result" where
  "static_Validate n = rbind (cidr_checked (st_CIDR n)) (\<lambda>_. Inr ())"

definition contains_opt :: "ipnet \<Rightarrow> ipv4 option \<Rightarrow> bool" where
  "contains_opt n ip = (case ip of None \<Rightarrow> False | Some a \<Rightarrow> net_contains n a)"

definition dnsmasq_Validate :: "dnsmasq_settings \<Rightarrow> (fault, unit) result" where
  "dnsmasq_Validate n = rbind (cidr_checked (st_CIDR n)) (\<lambda>(ip, network).
     if \<not> contains_opt network (ds_Start n) then fail ''start ip address out of range''
     else if \<not> contains_opt network (ds_End n) then fail ''end ip address out of range''
     else Inr ())"

record bridge_network =
  bn_Mode :: string
  bn_Nat :: bool
  bn_Settings :: string

record bridge_args =
  ba_Name :: string
  ba_HwAddress :: string
  ba_Network :: bridge_network

definition bridge_Validate :: "bridge_args \<Rightarrow> (fault, unit) result" where
  "bridge_Validate br =
     (if length (ba_Name br) < 1 \<or> 15 < length (ba_Name br) then fail ''Bridge name must be between 1 and 15 characters''
      else if ba_Name br = ''default'' then fail (''Bridge name can'' @ [CHR 0x27] @ ''t be default'')
      else Inr ())"

section \<open>Surroundings\<close>

record link =
  lk_Name :: string
  lk_Type :: string
  lk_Index :: nat
  lk_MasterIndex :: nat

text \<open>Links are named; \<open>be_addrs\<close> asks for the addresses of a link, of IPv4 only when its first argument says so.
  \<open>be_run\<close> starts a process under an id; \<open>be_write\<close> gets the joined path, which is clean when the name of the file has no
  elements of a path.  The firewall is the model of its plugin over the tool \<open>be_nft\<close>.\<close>

record 's bridge_env =
  be_links :: "'s \<Rightarrow> (go_error, link list) result"
  be_by_name :: "string \<Rightarrow> 's \<Rightarrow> (go_error, link) result"
  be_addrs :: "bool \<Rightarrow> link \<Rightarrow> 's \<Rightarrow> (go_error, ifaddr list) result"
  be_link_add :: "string \<Rightarrow> string \<Rightarrow> 's \<Rightarrow> (go_error, unit) result \<times> 's"
  be_link_del :: "string \<Rightarrow> 's \<Rightarrow> (go_error, unit) result \<times> 's"
  be_set_hw :: "string \<Rightarrow> string \<Rightarrow> 's \<Rightarrow> (go_error, unit) result \<times> 's"
  be_set_up :: "string \<Rightarrow> 's \<Rightarrow> (go_error, unit) result \<times> 's"
  be_addr_add :: "string \<Rightarrow> ifaddr \<Rightarrow> 's \<Rightarrow> (go_error, unit) result \<times> 's"
  be_set_master :: "string \<Rightarrow> string option \<Rightarrow> 's \<Rightarrow> (go_error, unit) result \<times> 's"
  be_remove_all :: "string \<Rightarrow> 's \<Rightarrow> (go_error, unit) result \<times> 's"
  be_mkdir_all :: "string \<Rightarrow> 's \<Rightarrow> (go_error, unit) result \<times> 's"
  be_write :: "string \<Rightarrow> string \<Rightarrow> 's \<Rightarrow> (go_error, unit) result \<times> 's"
  be_run :: "string \<Rightarrow> string \<Rightarrow> string list \<Rightarrow> bool \<Rightarrow> 's \<Rightarrow> (go_error, unit) result \<times> 's"
  be_job :: "string \<Rightarrow> 's \<Rightarrow> bool"
  be_signal :: "string \<Rightarrow> string \<Rightarrow> 's \<Rightarrow> (go_error, unit) result \<times> 's"
  be_system :: "string list \<Rightarrow> 's \<Rightarrow> (go_error, string) result \<times> 's"
  be_nft :: "'s nft_tool"
  be_mac :: "string \<Rightarrow> (go_error, string) result"
  be_static :: "string \<Rightarrow> (go_error, static_settings) result"
  be_dnsmasq :: "string \<Rightarrow> (go_error, dnsmasq_settings) result"

section \<open>Addresses and name servers\<close>

definition conflict_address :: "ifaddr \<Rightarrow> ifaddr \<Rightarrow> unit \<Rightarrow> (fault, unit) result" where
  "conflict_address addr a u = (if intersect a addr then fail ''overlapping range'' else Inr ())"

definition conflict_link :: "'s bridge_env \<Rightarrow> ifaddr \<Rightarrow> 's \<Rightarrow> link \<Rightarrow> unit \<Rightarrow> (fault, unit) result" where
  "conflict_link E addr s l u = rbind (lift_err (be_addrs E False l s)) (\<lambda>as. rfold (conflict_address addr) as ())"

definition conflict :: "'s bridge_env \<Rightarrow> ifaddr \<Rightarrow> ('s, unit) act" where
  "conflict E addr = sget (\<lambda>s. rbind (lift_err (be_links E s)) (\<lambda>ls. rfold (conflict_link E addr s) ls ()))"

definition dnsmasqPName :: "string \<Rightarrow> string" where "dnsmasqPName n = ''dnsmasq-'' @ n"

definition dnsmasqHostsFilePath :: "string \<Rightarrow> string" where
  "dnsmasqHostsFilePath n = ''/var/run/dnsmasq/'' @ dnsmasqPName n"

definition leases_file :: "string \<Rightarrow> string" where "leases_file n = ''/var/lib/misc/'' @ n @ ''.leases''"

text \<open>The address of the text of a network: the address itself, with the length of the prefix.\<close>

definition parse_addr :: "string \<Rightarrow> (fault, ipv4 \<times> nat) result" where
  "parse_addr c = (case ParseCIDR c of None \<Rightarrow> fail ''invalid CIDR address'' | Some (ip, n) \<Rightarrow> Inr (ip, net_len n))"

definition dnsmasq_base :: "string \<Rightarrow> ipv4 \<Rightarrow> string list" where
  "dnsmasq_base br ip = [''--no-hosts'', ''--keep-in-foreground'', ''--pid-file=/var/run/dnsmasq/'' @ br @ ''.pid'',
     ''--dhcp-leasefile='' @ leases_file br, ''--listen-address='' @ print_ipv4 ip, ''--interface='' @ br]"

definition bridgeStaticNetworking :: "'s bridge_env \<Rightarrow> string \<Rightarrow> bridge_network \<Rightarrow> ('s, ipv4 \<times> nat) act" where
  "bridgeStaticNetworking E br network =
     sbind (slift (lift_err (be_static E (bn_Settings network)))) (\<lambda>settings.
     sbind (slift (static_Validate settings)) (\<lambda>_.
     sbind (slift (parse_addr (st_CIDR settings))) (\<lambda>addr.
     sbind (conflict E (Net4 (fst addr) (snd addr))) (\<lambda>_.
     sbind (scall (be_addr_add E br (Net4 (fst addr) (snd addr)))) (\<lambda>_.
     sbind (signore (scall (be_remove_all E (leases_file br)))) (\<lambda>_.
     sbind (scall (be_run E (dnsmasqPName br) ''dnsmasq''
         (dnsmasq_base br (fst addr) @ [''--bind-interfaces'', ''--except-interface=lo'']) False)) (\<lambda>_.
     sret addr)))))))"

definition opt_ip :: "ipv4 option \<Rightarrow> string" where
  "opt_ip ip = (case ip of None \<Rightarrow> ''<nil>'' | Some a \<Rightarrow> print_ipv4 a)"

definition bridgeDnsMasqNetworking :: "'s bridge_env \<Rightarrow> string \<Rightarrow> bridge_network \<Rightarrow> ('s, ipv4 \<times> nat) act" where
  "bridgeDnsMasqNetworking E br network =
     sbind (slift (lift_err (be_dnsmasq E (bn_Settings network)))) (\<lambda>settings.
     sbind (slift (dnsmasq_Validate settings)) (\<lambda>_.
     sbind (signore (scall (be_mkdir_all E ''/var/run/dnsmasq''))) (\<lambda>_.
     sbind (slift (parse_addr (st_CIDR settings))) (\<lambda>addr.
     sbind (conflict E (Net4 (fst addr) (snd addr))) (\<lambda>_.
     sbind (scall (be_addr_add E br (Net4 (fst addr) (snd addr)))) (\<lambda>_.
     sbind (signore (scall (be_remove_all E (dnsmasqHostsFilePath br)))) (\<lambda>_.
     sbind (signore (scall (be_mkdir_all E (dnsmasqHostsFilePath br)))) (\<lambda>_.
     sbind (signore (scall (be_remove_all E (leases_file br)))) (\<lambda>_.
     sbind (scall (be_run E (dnsmasqPName br) ''dnsmasq''
         (dnsmasq_base br (fst addr) @
          [''--dhcp-range='' @ opt_ip (ds_Start settings) @ '','' @ opt_ip (ds_End settings) @ '','' @
             print_ipv4 (cidr_mask (snd addr)),
           ''--dhcp-option=6,'' @ print_ipv4 (fst addr), ''--dhcp-hostsfile='' @ dnsmasqHostsFilePath br,
           ''--bind-interfaces'', ''--except-interface=lo'']) True)) (\<lambda>_.
     sret addr))))))))))"

section \<open>Firewall\<close>

definition one_rule :: "string \<Rightarrow> string \<Rightarrow> string \<Rightarrow> string \<Rightarrow> nft" where
  "one_rule t family c body = [(t, \<lparr>tb_Family = family, tb_Chains = [(c, \<lparr>ch_Type = [], ch_Hook = [], ch_Priority = 0,
     ch_Policy = [], ch_Rules = [\<lparr>Handle = 0, Body = body\<rparr>]\<rparr>)], tb_Sets = []\<rparr>)]"

definition nat_rule :: "ipv4 \<times> nat \<Rightarrow> nft" where
  "nat_rule addr = one_rule ''nat'' ''ip'' ''post''
     (''ip saddr '' @ ipnet_String \<lparr>net_ip = fst addr, net_len = snd addr\<rparr> @ '' masquerade'')"

definition setNAT :: "'s bridge_env \<Rightarrow> ipv4 \<times> nat \<Rightarrow> ('s, unit) act" where
  "setNAT E addr = scall (Apply (be_nft E) (nat_rule addr))"

definition allow_rule :: "string \<Rightarrow> nft" where
  "allow_rule br = one_rule ''filter'' ''inet'' ''input'' (''iif '' @ ''\"'' @ br @ ''\"'' @ '' udp dport {53,67,68} accept'')"

definition nftAllow :: "'s bridge_env \<Rightarrow> string \<Rightarrow> ('s, unit) act" where
  "nftAllow E br = scall (Apply (be_nft E) (allow_rule br))"

text \<open>\<^verbatim>\<open>ruleHandlerP\<close> at one place of a text.\<close>

definition is_net_char :: "char \<Rightarrow> bool" where
  "is_net_char c \<longleftrightarrow> is_digit c \<or> c = CHR ''.'' \<or> c = CHR ''/''"

definition masq_head :: "string \<Rightarrow> string option" where
  "masq_head s = (if has_prefix ''ip '' s \<and> drop 3 s \<noteq> [] \<and> s ! 3 \<noteq> CHR 0x0A \<and> has_prefix ''addr '' (drop 4 s)
     then Some (drop 9 s) else None)"

definition masq_at :: "string \<Rightarrow> ((string \<times> string) \<times> string) option" where
  "masq_at s = (case masq_head s of None \<Rightarrow> None | Some t \<Rightarrow>
     let net = takeWhile is_net_char t; u = dropWhile is_net_char t in
     if net = [] \<or> \<not> has_prefix '' masquerade # handle '' u then None
     else let v = drop 21 u; h = takeWhile is_digit v in
       if h = [] then None else Some ((net, h), dropWhile is_digit v))"

lemma drop_while_le: "length (dropWhile P xs) \<le> length xs"
  by (induction xs) auto

lemma masq_at_shorter: "masq_at s = Some (m, r) \<Longrightarrow> length r < length s"
  using drop_while_le[of is_net_char "drop 9 s"] drop_while_le[of is_digit "drop 21 (dropWhile is_net_char (drop 9 s))"]
  by (auto simp: masq_at_def masq_head_def Let_def split: if_splits)

function find_masq :: "string \<Rightarrow> (string \<times> string) list" where
  "find_masq s = (case masq_at s of
     Some (m, r) \<Rightarrow> m # find_masq r
   | None \<Rightarrow> (case s of [] \<Rightarrow> [] | c # t \<Rightarrow> find_masq t))"
  by pat_completeness auto
termination
  by (relation "measure length") (auto dest!: masq_at_shorter)

declare find_masq.simps [simp del]

text \<open>The network of an address as text; an IPv6 address does not come here.\<close>

definition network_text :: "ifaddr \<Rightarrow> string" where
  "network_text a = (case a of Net4 ip n \<Rightarrow> ipnet_String \<lparr>net_ip = ip AND cidr_mask n, net_len = n\<rparr> | Net6 ip n \<Rightarrow> [])"

definition masq_handles :: "ifaddr list \<Rightarrow> string \<Rightarrow> string list" where
  "masq_handles addrs out = map snd (filter (\<lambda>(ip, h). ip \<in> set (map network_text addrs)) (find_masq out))"

definition unsetNAT :: "'s bridge_env \<Rightarrow> ifaddr list \<Rightarrow> ('s, unit) act" where
  "unsetNAT E addrs = sbind (scall (be_system E [''nft'', ''list'', ''ruleset'', ''-a''])) (\<lambda>out.
     sfor (\<lambda>h. signore (scall (be_system E [''nft'', ''delete'', ''rule'', ''nat'', ''post'', ''handle'', h])))
       (masq_handles addrs out))"

text \<open>The rules that name the bridge by its number: \<^verbatim>\<open>[io]if N\<close> and a blank, anywhere in the body.\<close>

definition if_at :: "nat \<Rightarrow> string \<Rightarrow> bool" where
  "if_at idx s \<longleftrightarrow> (let p = ''if '' @ itoa idx in
     s \<noteq> [] \<and> (hd s = CHR ''i'' \<or> hd s = CHR ''o'') \<and> has_prefix p (tl s) \<and>
     (case drop (length p) (tl s) of [] \<Rightarrow> False | c # r \<Rightarrow> (of_char c :: nat) \<in> {9, 10, 12, 13, 32}))"

fun names_link :: "nat \<Rightarrow> string \<Rightarrow> bool" where
  "names_link idx [] = False"
| "names_link idx (c # s) = (if_at idx (c # s) \<or> names_link idx s)"

definition link_rules :: "nat \<Rightarrow> nft \<Rightarrow> (string \<times> string \<times> string \<times> int) list" where
  "link_rules idx rs = concat (map (\<lambda>(tn, t). concat (map (\<lambda>(cn, c).
     map (\<lambda>r. (tb_Family t, tn, cn, Handle r)) (filter (\<lambda>r. names_link idx (Body r)) (ch_Rules c))) (tb_Chains t))) rs)"

fun drop_all :: "'s nft_tool \<Rightarrow> (string \<times> string \<times> string \<times> int) list \<Rightarrow> 's \<Rightarrow> bool \<times> 's" where
  "drop_all K [] s = (False, s)"
| "drop_all K (r # rs) s = (case Drop K r s of (x, s) \<Rightarrow> case drop_all K rs s of (e, s) \<Rightarrow> (isl x \<or> e, s))"

definition unNFT :: "'s bridge_env \<Rightarrow> nat \<Rightarrow> ('s, unit) act" where
  "unNFT E idx = sbind (scall (manager_GetRules (be_nft E))) (\<lambda>rs s.
     case drop_all (be_nft E) (link_rules idx rs) s of (errored, s) \<Rightarrow>
       (if errored then fail ''failed to clean up nft rules'' else Inr (), s))"

section \<open>Actions\<close>

definition bridgeNetworking :: "'s bridge_env \<Rightarrow> string \<Rightarrow> bridge_network \<Rightarrow> ('s, unit) act" where
  "bridgeNetworking E br network =
     (if bn_Mode network = [] then sret ()
      else if bn_Mode network \<noteq> ''static'' \<and> bn_Mode network \<noteq> ''dnsmasq'' then slift (fail ''invalid networking mode'')
      else sbind (if bn_Mode network = ''static'' then bridgeStaticNetworking E br network
                  else bridgeDnsMasqNetworking E br network) (\<lambda>addr.
        if bn_Nat network then setNAT E addr else sret ()))"

text \<open>The deferred removal of the link looks at the outer \<^verbatim>\<open>err\<close>; the error of \<open>nftAllow\<close> is in a variable of its own.\<close>

definition bridge_create :: "'s bridge_env \<Rightarrow> bridge_args \<Rightarrow> ('s, unit) act" where
  "bridge_create E args =
     (let br = ba_Name args; clean = signore (scall (be_link_del E br)) in
      sbind (slift (bridge_Validate args)) (\<lambda>_.
      sbind (slift (if ba_HwAddress args \<noteq> [] then lift_err (be_mac E (ba_HwAddress args)) else Inr [])) (\<lambda>hw.
      sbind (scall (be_link_add E br hw)) (\<lambda>_.
      sbind (on_fault (sbind (if ba_HwAddress args \<noteq> [] then scall (be_set_hw E br hw) else sret ())
        (\<lambda>_. scall (be_set_up E br))) clean) (\<lambda>_.
      sbind (nftAllow E br) (\<lambda>_.
      on_fault (bridgeNetworking E br (ba_Network args)) clean))))))"

definition addHost :: "'s bridge_env \<Rightarrow> string \<Rightarrow> string \<Rightarrow> string \<Rightarrow> ('s, unit) act" where
  "addHost E br ip mac = (\<lambda>s.
     if \<not> be_job E (dnsmasqPName br) s then (fail ''not supported no dnsmasq process found'', s)
     else sbind (scall (be_write E (dnsmasqHostsFilePath br @ ''/'' @ ip) (mac @ '','' @ ip)))
       (\<lambda>_. scall (be_signal E (dnsmasqPName br) ''SIGHUP'')) s)"

definition not_found :: "(go_error, 'a) result \<Rightarrow> (fault, 'a) result" where
  "not_found r = (case r of Inl e \<Rightarrow> Inl (Fault (NotFoundError (error_text e))) | Inr a \<Rightarrow> Inr a)"

definition bridge_addNic :: "'s bridge_env \<Rightarrow> string \<Rightarrow> string \<Rightarrow> ('s, unit) act" where
  "bridge_addNic E name nic = sbind (sget (\<lambda>s. not_found (be_by_name E name s))) (\<lambda>l.
     if lk_Type l \<noteq> ''bridge'' then slift (Inl (Fault (BadRequestError ''not a bridge'')))
     else sbind (sget (\<lambda>s. not_found (be_by_name E nic s))) (\<lambda>n. scall (be_set_master E (lk_Name n) (Some (lk_Name l)))))"

definition bridge_removeNic :: "'s bridge_env \<Rightarrow> string \<Rightarrow> ('s, unit) act" where
  "bridge_removeNic E nic = sbind (sget (\<lambda>s. not_found (be_by_name E nic s))) (\<lambda>n. scall (be_set_master E (lk_Name n) None))"

definition listNic :: "'s bridge_env \<Rightarrow> string \<Rightarrow> ('s, string list) act" where
  "listNic E name = sbind (sget (\<lambda>s. not_found (be_by_name E name s))) (\<lambda>l.
     if lk_Type l \<noteq> ''bridge'' then slift (Inl (Fault (BadRequestError ''not a bridge'')))
     else sget (\<lambda>s. case be_links E s of Inl e \<Rightarrow> Inl (Fault (InternalError (error_text e)))
       | Inr ls \<Rightarrow> Inr (map lk_Name (filter (\<lambda>x. lk_MasterIndex x = lk_Index l) ls))))"

definition bridge_list :: "'s bridge_env \<Rightarrow> ('s, string list) act" where
  "bridge_list E = sget (\<lambda>s. rbind (lift_err (be_links E s)) (\<lambda>ls.
     Inr (map lk_Name (filter (\<lambda>l. lk_Type l = ''bridge'') ls))))"

definition bridge_delete :: "'s bridge_env \<Rightarrow> string \<Rightarrow> ('s, unit) act" where
  "bridge_delete E name =
     sbind (sask (be_by_name E name)) (\<lambda>l.
     if lk_Type l \<noteq> ''bridge'' then slift (fail ''bridge not found'')
     else
       sbind (\<lambda>s. if be_job E (dnsmasqPName (lk_Name l)) s
          then signore (scall (be_signal E (dnsmasqPName (lk_Name l)) ''SIGTERM'')) s else sret () s) (\<lambda>_.
       sbind (sask (be_addrs E True l)) (\<lambda>addrs.
       sbind (unsetNAT E addrs) (\<lambda>_.
       sbind (scall (be_link_del E (lk_Name l))) (\<lambda>_.
       signore (unNFT E (lk_Index l)))))))"

section \<open>Overlapping networks\<close>

lemma bit_prefix_mask: "bit (prefix_mask n :: 'a::len word) i \<longleftrightarrow> LENGTH('a) - n \<le> i \<and> i < LENGTH('a)"
  by (auto simp: prefix_mask_def bit_not_iff bit_mask_iff)

lemma masked_eq_iff:
  "(a :: 'a::len word) AND prefix_mask n = b AND prefix_mask n \<longleftrightarrow> (\<forall>i<LENGTH('a). LENGTH('a) - n \<le> i \<longrightarrow> bit a i = bit b i)"
  by (auto simp: bit_eq_iff bit_and_iff bit_prefix_mask bit_imp_le_length dest: bit_imp_le_length)











section \<open>Cleaning up\<close>




text \<open>When the firewall refuses that rule, the creation fails and the bridge stays: the error is kept in a variable that the
  deferred removal does not see.\<close>

theorem bridge_create_leaks_link:
  assumes "bridge_Validate args = Inr ()" and "ba_HwAddress args = []"
    and "be_link_add E (ba_Name args) [] s = (Inr (), s1)"
    and "be_set_up E (ba_Name args) s1 = (Inr (), s2)"
    and "Apply (be_nft E) (allow_rule (ba_Name args)) s2 = (Inl e, s3)" and "has s3"
  shows "fst (bridge_create E args s) = Inl (Fault e) \<and> has (snd (bridge_create E args s))"
  using assms
  by (simp add: bridge_create_def Let_def sbind_def slift_def sret_def scall_def on_fault_def nftAllow_def)

section \<open>Rules left behind\<close>

text \<open>The listing of the rules: a line for the rule of a network with its handle, or any other line.\<close>

datatype rule_line = MasqLine string nat | OtherLine string

definition print_line :: "rule_line \<Rightarrow> string" where
  "print_line l = (case l of
     MasqLine net h \<Rightarrow> tab @ tab @ ''ip saddr '' @ net @ '' masquerade # handle '' @ itoa h
   | OtherLine t \<Rightarrow> t) @ [CHR 0x0A]"

definition line_ok :: "rule_line \<Rightarrow> bool" where
  "line_ok l = (case l of MasqLine net h \<Rightarrow> net \<noteq> [] \<and> list_all is_net_char net
     | OtherLine t \<Rightarrow> CHR 0x0A \<notin> set t \<and> \<not> sublist ''masquerade'' t)"

fun masq_lines :: "rule_line list \<Rightarrow> (string \<times> string) list" where
  "masq_lines [] = []"
| "masq_lines (MasqLine net h # ls) = (net, itoa h) # masq_lines ls"
| "masq_lines (OtherLine t # ls) = masq_lines ls"

lemma masq_at_decomp:
  assumes "masq_at s = Some ((net, h), r)"
  shows "\<exists>c. c \<noteq> CHR 0x0A \<and> s = ''ip '' @ c # ''addr '' @ net @ '' masquerade # handle '' @ h @ r \<and>
    list_all is_net_char net \<and> list_all is_digit h"
proof -
  obtain t where t: "masq_head s = Some t" using assms by (auto simp: masq_at_def split: option.splits)
  then have p: "has_prefix ''ip '' s" "drop 3 s \<noteq> []" "s ! 3 \<noteq> CHR 0x0A" "has_prefix ''addr '' (drop 4 s)" "t = drop 9 s"
    by (auto simp: masq_head_def split: if_splits)
  obtain x where x: "s = ''ip '' @ x" using p(1) by (auto simp: has_prefix_iff)
  obtain c y where y: "x = c # y" using p(2) x by (cases x) auto
  obtain z where z: "y = ''addr '' @ z" using p(4) x y by (auto simp: has_prefix_iff)
  have tz: "t = z" using p(5) x y z by simp
  let ?u = "dropWhile is_net_char z"
  have m: "has_prefix '' masquerade # handle '' ?u" and n: "net = takeWhile is_net_char z"
    and h: "h = takeWhile is_digit (drop 21 ?u)" and r: "r = dropWhile is_digit (drop 21 ?u)"
    using assms by (auto simp: masq_at_def t tz Let_def split: if_splits)
  obtain v where v: "?u = '' masquerade # handle '' @ v" using m by (auto simp: has_prefix_iff)
  have "z = net @ '' masquerade # handle '' @ v" using takeWhile_dropWhile_id[of is_net_char z] n v by simp
  moreover have "v = h @ r" using v h r by simp
  moreover have "c \<noteq> CHR 0x0A" using p(3) x y by simp
  moreover have "list_all is_net_char net" using n set_takeWhileD[of _ is_net_char z] by (auto simp: list_all_iff)
  moreover have "list_all is_digit h" using h set_takeWhileD[of _ is_digit "drop 21 ?u"] by (auto simp: list_all_iff)
  ultimately show ?thesis using x y z by (intro exI[of _ c]) simp
qed

lemma no_newline: "is_net_char c \<Longrightarrow> c \<noteq> CHR 0x0A" "is_digit c \<Longrightarrow> c \<noteq> CHR 0x0A"
  by (auto simp: is_net_char_def is_digit_def)

lemma prefix_before_newline:
  assumes "p @ q = l @ CHR 0x0A # r" and "CHR 0x0A \<notin> set p"
  shows "prefix p l"
  using assms by (auto simp: append_eq_append_conv2 append_eq_Cons_conv prefix_def)

lemma masq_at_other:
  assumes "CHR 0x0A \<notin> set l" and "\<not> sublist ''masquerade'' l"
  shows "masq_at (l @ CHR 0x0A # r) = None"
proof (rule ccontr)
  assume "masq_at (l @ CHR 0x0A # r) \<noteq> None"
  then obtain net h x where "masq_at (l @ CHR 0x0A # r) = Some ((net, h), x)" by auto
  from masq_at_decomp[OF this] obtain c where c: "c \<noteq> CHR 0x0A" "list_all is_net_char net"
    and e: "l @ CHR 0x0A # r = ''ip '' @ c # ''addr '' @ net @ '' masquerade # handle '' @ h @ x" by blast
  let ?p = "''ip '' @ c # ''addr '' @ net @ '' masquerade''"
  have "CHR 0x0A \<notin> set ?p" using c no_newline(1) by (auto simp: list_all_iff)
  moreover have "?p @ '' # handle '' @ h @ x = l @ CHR 0x0A # r" using e by simp
  ultimately have "prefix ?p l" using prefix_before_newline by blast
  moreover have "sublist ''masquerade'' ?p"
    unfolding sublist_def by (intro exI[of _ "''ip '' @ c # ''addr '' @ net @ '' ''"] exI[of _ "[]"]) simp
  ultimately show False using assms(2) sublist_order.order_trans prefix_imp_sublist by blast
qed

lemma find_masq_other:
  assumes "CHR 0x0A \<notin> set l" and "\<not> sublist ''masquerade'' l"
  shows "find_masq (l @ CHR 0x0A # r) = find_masq r"
  using assms
proof (induction l)
  case Nil
  have "masq_at (CHR 0x0A # r) = None" using masq_at_other[of "[]" r] by simp
  then show ?case by (subst find_masq.simps) simp
next
  case (Cons c l)
  have "masq_at (c # l @ CHR 0x0A # r) = None" using masq_at_other[of "c # l" r] Cons.prems by simp
  moreover have "\<not> sublist ''masquerade'' l" using Cons.prems(2) by (auto simp: sublist_Cons_right)
  ultimately show ?case using Cons by (subst find_masq.simps) simp
qed

lemma masq_at_line:
  assumes "net \<noteq> []" and "list_all is_net_char net"
  shows "masq_at (''ip saddr '' @ net @ '' masquerade # handle '' @ itoa h @ CHR 0x0A # r) = Some ((net, itoa h), CHR 0x0A # r)"
proof -
  have s: "\<not> is_net_char (CHR '' '')" "\<not> is_digit (CHR 0x0A)" by (simp_all add: is_net_char_def is_digit_def)
  have t: "takeWhile is_net_char (net @ '' masquerade # handle '' @ v) = net"
    "dropWhile is_net_char (net @ '' masquerade # handle '' @ v) = '' masquerade # handle '' @ v" for v
    using assms(2) s(1) by (auto simp: takeWhile_append dropWhile_append list_all_iff)
  have d: "takeWhile is_digit (itoa h @ CHR 0x0A # r) = itoa h" "dropWhile is_digit (itoa h @ CHR 0x0A # r) = CHR 0x0A # r"
    using itoa_digits[of h] s(2) by (auto simp: takeWhile_append dropWhile_append list_all_iff)
  have m: "masq_head (''ip saddr '' @ z) = Some z" for z
    by (simp add: masq_head_def has_prefix_def numeral_eq_Suc)
  have p: "has_prefix '' masquerade # handle '' ('' masquerade # handle '' @ v)" "drop 21 ('' masquerade # handle '' @ v) = v" for v
    by (simp_all add: has_prefix_def numeral_eq_Suc)
  show ?thesis unfolding masq_at_def m option.case Let_def t p d using assms(1) by (simp add: has_prefix_def)
qed

lemma find_masq_skip: "hd s \<noteq> CHR ''i'' \<Longrightarrow> s \<noteq> [] \<Longrightarrow> find_masq s = find_masq (tl s)"
  by (subst find_masq.simps) (cases s; auto simp: masq_at_def masq_head_def has_prefix_def)

lemma find_masq_tab: "find_masq (tab @ s) = find_masq s"
  using find_masq_skip[of "tab @ s"] by (simp add: tab_def char_of_def)

lemma find_masq_lines: "list_all line_ok ls \<Longrightarrow> find_masq (concat (map print_line ls)) = masq_lines ls"
proof (induction ls)
  case Nil
  show ?case by (subst find_masq.simps) (simp add: masq_at_def masq_head_def has_prefix_def)
next
  case (Cons l ls)
  let ?r = "concat (map print_line ls)"
  show ?case
  proof (cases l)
    case (OtherLine t)
    then show ?thesis using Cons.IH Cons.prems find_masq_other[of t ?r]
      by (simp add: print_line_def[of "OtherLine t"] line_ok_def[of "OtherLine t"])
  next
    case (MasqLine net h)
    let ?s = "''ip saddr '' @ net @ '' masquerade # handle '' @ itoa h @ CHR 0x0A # ?r"
    have ok: "net \<noteq> []" "list_all is_net_char net" using Cons.prems MasqLine by (simp_all add: line_ok_def)
    have "find_masq (tab @ tab @ ?s) = find_masq ?s" by (simp only: find_masq_tab)
    also have "\<dots> = (net, itoa h) # find_masq (CHR 0x0A # ?r)"
      by (subst find_masq.simps) (simp only: masq_at_line[OF ok] option.case prod.case)
    also have "find_masq (CHR 0x0A # ?r) = find_masq ?r" by (simp add: find_masq_skip)
    finally show ?thesis using Cons.IH Cons.prems MasqLine by (simp add: print_line_def[of "MasqLine net h"])
  qed
qed

text \<open>Which rules are deleted with a bridge: from the listing the tool prints, exactly those that translate the addresses of
  a network of the bridge, each by its own handle, whatever other rules the listing holds.\<close>

theorem masq_handles_listing:
  assumes "list_all line_ok ls"
  shows "masq_handles addrs (concat (map print_line ls)) =
    map snd (filter (\<lambda>(net, h). net \<in> set (map network_text addrs)) (masq_lines ls))"
  by (simp only: masq_handles_def find_masq_lines[OF assms])

lemma drop_all_deletes:
  assumes "nft_deletes K live"
  shows "live (snd (drop_all K rs s)) = live s - set rs \<and> (fst (drop_all K rs s) \<longleftrightarrow> \<not> (distinct rs \<and> set rs \<subseteq> live s))"
proof (induction rs arbitrary: s)
  case (Cons r rs)
  obtain x s' where d: "Drop K r s = (x, s')" by (cases "Drop K r s")
  have "case Drop K r s of (Inr u, k') \<Rightarrow> r \<in> live s \<and> live k' = live s - {r} | (Inl e, k') \<Rightarrow> r \<notin> live s \<and> live k' = live s"
    by (rule assms[unfolded nft_deletes_def, THEN spec, THEN spec])
  then show ?case using Cons.IH[of s'] by (cases x) (auto simp: d split: prod.splits)
qed simp

text \<open>Cleaning up the rules of a removed bridge deletes exactly the listed rules that name its number, goes on after a rule that
  cannot be deleted, and reports an error just when one of them was not there (any more).\<close>

theorem unNFT_removes_link_rules:
  assumes "nft_deletes (be_nft E) live" and "manager_GetRules (be_nft E) s = (Inr rs, s1)"
  shows "live (snd (unNFT E idx s)) = live s1 - set (link_rules idx rs) \<and>
    (fst (unNFT E idx s) = Inr () \<longleftrightarrow> distinct (link_rules idx rs) \<and> set (link_rules idx rs) \<subseteq> live s1)"
  using drop_all_deletes[OF assms(1), of "link_rules idx rs" s1]
  by (cases "drop_all (be_nft E) (link_rules idx rs) s1") (auto simp: unNFT_def sbind_def scall_def assms(2))

lemma if_at_number:
  assumes "c = CHR ''i'' \<or> c = CHR ''o''"
  shows "if_at idx (c # ''if '' @ itoa n @ CHR '' '' # t) \<longleftrightarrow> idx = n"
proof
  assume "if_at idx (c # ''if '' @ itoa n @ CHR '' '' # t)"
  then obtain r where r: "itoa n @ CHR '' '' # t = itoa idx @ r"
    "case r of [] \<Rightarrow> False | b # r \<Rightarrow> (of_char b :: nat) \<in> {9, 10, 12, 13, 32}"
    unfolding if_at_def Let_def has_prefix_iff by (auto simp del: drop_append) (auto simp: drop_append)
  then obtain b r' where e: "itoa n @ CHR '' '' # t = itoa idx @ b # r'" and b: "(of_char b :: nat) \<in> {9, 10, 12, 13, 32}"
    by (cases r) auto
  have nb: "\<not> is_digit b" using b by (auto simp: is_digit_def)
  have "takeWhile is_digit (itoa n @ CHR '' '' # t) = itoa n"
    using itoa_digits[of n] by (auto simp: takeWhile_append list_all_iff is_digit_def)
  moreover have "takeWhile is_digit (itoa idx @ b # r') = itoa idx"
    using itoa_digits[of idx] nb by (auto simp: takeWhile_append list_all_iff)
  ultimately have "itoa n = itoa idx" using e by simp
  then show "idx = n" by simp
next
  assume "idx = n"
  then show "if_at idx (c # ''if '' @ itoa n @ CHR '' '' # t)"
    using assms by (auto simp: if_at_def Let_def has_prefix_iff)
qed

lemma names_link_skip:
  "list_all (\<lambda>c. c \<noteq> CHR ''i'' \<and> c \<noteq> CHR ''o'') p \<Longrightarrow> names_link idx (p @ t) = names_link idx t"
  by (induction p) (auto simp: if_at_def)

text \<open>The rule that lets a bridge answer DHCP and DNS, as it is listed after the bridge is gone, is taken for a rule of the bridge
  with the number in it and of no other, in particular not of one whose number begins with the same digits.\<close>

theorem names_link_exact:
  "names_link idx (''iif '' @ itoa n @ '' udp dport { 53, 67, 68 } accept'') \<longleftrightarrow> idx = n"
proof -
  have d: "list_all (\<lambda>c. c \<noteq> CHR ''i'' \<and> c \<noteq> CHR ''o'') (itoa n)"
    using itoa_digits[of n] by (auto simp: list_all_iff is_digit_def)
  have "names_link idx (''iif '' @ itoa n @ CHR '' '' # t) = (idx = n \<or> names_link idx (CHR '' '' # t))" for t
    using if_at_number[of "CHR ''i''" idx n t] names_link_skip[OF d, of idx "CHR '' '' # t"]
    by (simp add: if_at_def[of idx "CHR ''i'' # CHR ''f'' # x" for x] if_at_def[of idx "CHR ''f'' # x" for x]
        if_at_def[of idx "CHR '' '' # x" for x] has_prefix_def)
  moreover have "\<not> names_link idx '' udp dport { 53, 67, 68 } accept''"
    by (simp add: if_at_def has_prefix_def)
  ultimately show ?thesis by simp
qed

section \<open>A host for the examples\<close>

text \<open>A host with one card at 10.0.0.1/24; \<open>up\<close> and \<open>down\<close> say what adding and deleting the bridge does to its state.\<close>

definition demo_host :: "'s nft_tool \<Rightarrow> ('s \<Rightarrow> 's) \<Rightarrow> ('s \<Rightarrow> 's) \<Rightarrow> 's bridge_env" where
  "demo_host K up down = \<lparr>be_links = (\<lambda>s. Inr [\<lparr>lk_Name = ''eth0'', lk_Type = ''device'', lk_Index = 2, lk_MasterIndex = 0\<rparr>]),
     be_by_name = (\<lambda>n s. Inr \<lparr>lk_Name = n, lk_Type = ''bridge'', lk_Index = 5, lk_MasterIndex = 0\<rparr>),
     be_addrs = (\<lambda>v4 l s. Inr [Net4 0x0A000001 24]),
     be_link_add = (\<lambda>n hw s. (Inr (), up s)), be_link_del = (\<lambda>n s. (Inr (), down s)),
     be_set_hw = (\<lambda>n hw s. (Inr (), s)), be_set_up = (\<lambda>n s. (Inr (), s)), be_addr_add = (\<lambda>n a s. (Inr (), s)),
     be_set_master = (\<lambda>n m s. (Inr (), s)), be_remove_all = (\<lambda>p s. (Inr (), s)), be_mkdir_all = (\<lambda>p s. (Inr (), s)),
     be_write = (\<lambda>p d s. (Inr (), s)), be_run = (\<lambda>i n a q s. (Inr (), s)), be_job = (\<lambda>i s. True),
     be_signal = (\<lambda>i g s. (Inr (), s)), be_system = (\<lambda>a s. (Inr [], s)), be_nft = K,
     be_mac = (\<lambda>m. Inr m), be_static = (\<lambda>t. Inr \<lparr>st_CIDR = t\<rparr>), be_dnsmasq = (\<lambda>t. Inl (PlainErr ''no settings''))\<rparr>"

text \<open>A firewall that takes every rule, or none.\<close>

definition flat_nft :: "bool \<Rightarrow> 's nft_tool" where
  "flat_nft ok = \<lparr>run_nft = (\<lambda>a s. (Inr [], s)),
     run_file = (\<lambda>t s. (if ok then Inr () else Inl (PlainErr ''nft: failed''), s)), json_dec = (\<lambda>t. Inr JNull)\<rparr>"

definition demo_bridge :: "string \<Rightarrow> string \<Rightarrow> bridge_args" where
  "demo_bridge mode cidr = \<lparr>ba_Name = ''br0'', ba_HwAddress = [],
     ba_Network = \<lparr>bn_Mode = mode, bn_Nat = False, bn_Settings = cidr\<rparr>\<rparr>"

lemma allow_rule_text: "\<exists>t. MarshalText (allow_rule br) = Inr t"
  by (simp add: MarshalText_def allow_rule_def one_rule_def table_marshal_def)

lemma flat_Apply: "Apply (flat_nft ok) (allow_rule br) s = (if ok then Inr () else Inl (PlainErr ''nft: failed''), s)"
  using allow_rule_text[of br] by (auto simp: Apply_def flat_nft_def)



lemma bridge_create_leaks_link_witness:
  "fst (bridge_create (demo_host (flat_nft False) (\<lambda>b. True) (\<lambda>b. False)) (demo_bridge [] []) False) =
     Inl (Fault (PlainErr ''nft: failed'')) \<and>
   snd (bridge_create (demo_host (flat_nft False) (\<lambda>b. True) (\<lambda>b. False)) (demo_bridge [] []) False)"
  by (rule bridge_create_leaks_link[where has = "\<lambda>b. b" and ?s1.0 = True and ?s2.0 = True and ?s3.0 = True])
     (simp_all add: bridge_Validate_def demo_bridge_def demo_host_def flat_Apply)

lemma masq_handles_listing_witness:
  "masq_handles [Net4 0x0A000001 24] (concat (map print_line [MasqLine ''10.0.0.0/24'' 7, OtherLine ''chain post'', MasqLine ''10.1.0.0/24'' 8])) = [''7'']"
proof -
  have ok: "list_all line_ok [MasqLine ''10.0.0.0/24'' 7, OtherLine ''chain post'', MasqLine ''10.1.0.0/24'' 8]"
    by code_simp
  have m: "(0x0A000001 :: 32 word) AND cidr_mask 24 = 0x0A000000" by code_simp
  have t: "network_text (Net4 0x0A000001 24) = ''10.0.0.0/24''"
    by (simp add: network_text_def m ipnet_String_def print_ipv4_def octets_def itoa_eval)
  show ?thesis unfolding masq_handles_listing[OF ok] by (simp add: t itoa_eval)
qed

definition bridge_json :: json where
  "bridge_json = small_json [(9, [JObj [(''match'', JObj [(''left'', JObj [(''meta'', JStr ''iif'')]), (''right'', JNum 5)])], JObj [(''accept'', JNull)]])]"

lemma unNFT_removes_link_rules_witness:
  "small_live (snd (unNFT (demo_host (small_tool bridge_json) id id) 5 [9, 4])) = {(''inet'', ''filter'', ''input'', 4)}"
proof -
  let ?rs = "[(''filter'', \<lparr>tb_Family = ''inet'', tb_Chains = [(''input'',
        \<lparr>ch_Type = [], ch_Hook = [], ch_Priority = 0, ch_Policy = [],
          ch_Rules = [\<lparr>Handle = 9, Body = ''iif 5 accept''\<rparr>]\<rparr>)], tb_Sets = []\<rparr>)]"
  have g: "manager_GetRules (be_nft (demo_host (small_tool bridge_json) id id)) [9, 4] = (Inr ?rs, [9, 4])"
    by (simp add: demo_host_def manager_GetRules_def small_tool_def bridge_json_def small_json_def parse_eval)
  have d: "nft_deletes (be_nft (demo_host (small_tool bridge_json) id id)) small_live"
    using small_tool_deletes by (simp add: demo_host_def)
  have l: "link_rules 5 ?rs = [(''inet'', ''filter'', ''input'', 9)]"
    by (simp add: link_rules_def if_at_def has_prefix_def itoa_eval)
  show ?thesis using unNFT_removes_link_rules[OF d g, of 5] unfolding l by (auto simp: small_live_def)
qed

end
