(* ===== verification/Logger.thy ===== *)
theory Logger
  imports Pm_Types Bounded_Log Stream_Message
begin

text \<open>
  The logger plugin (\<^verbatim>\<open>apps/plugins/logger/plugin\<close>): which messages a logger takes, the console, the queue of the streamed
  output of every job, and the subscriptions to the log of all jobs.  The plugin stores entries through the list operations of
  the protocol plugin (\<^verbatim>\<open>apps/plugins/protocol/plugin/db.go\<close>); the locale \<open>list_database\<close> is what it relies on, and
  redis at its documented meaning provides it.
\<close>

section \<open>Lists in the database\<close>

text \<open>\<open>RPush\<close> and \<open>LTrim\<close> may fail; the time to live of a list is set by \<open>LExpire\<close>, whose answer nobody reads.\<close>

record ('v, 'd) list_db =
  db_RPush :: "string \<Rightarrow> 'v \<Rightarrow> 'd \<Rightarrow> (go_error, int) result \<times> 'd"
  db_LTrim :: "string \<Rightarrow> int \<Rightarrow> int \<Rightarrow> 'd \<Rightarrow> (go_error, unit) result \<times> 'd"
  db_LExpire :: "string \<Rightarrow> int \<Rightarrow> 'd \<Rightarrow> (go_error, int) result \<times> 'd"

text \<open>\<^verbatim>\<open>LTRIM key start stop\<close>: an index below zero counts from the end; the entries between the two are kept.\<close>

definition trimmed :: "int \<Rightarrow> int \<Rightarrow> 'v list \<Rightarrow> 'v list" where
  "trimmed start stop l =
     (let n = int (length l); s = (if start < 0 then max 0 (n + start) else start); e = (if stop < 0 then n + stop else stop) in
      take (nat (e + 1) - nat s) (drop (nat s) l))"

lemma trimmed_last: assumes "0 < k" shows "trimmed (- k) (- 1) l = drop (length l - nat k) l"
proof -
  have s: "nat (max 0 (int (length l) + - k)) = length l - nat k" using assms by (simp add: max_def nat_diff_distrib)
  show ?thesis unfolding trimmed_def Let_def using assms s by simp
qed

locale list_database =
  fixes D :: "('v, 'd) list_db" and content :: "string \<Rightarrow> 'd \<Rightarrow> 'v list"
  assumes rpush: "db_RPush D k v d = (Inr n, d') \<Longrightarrow> content k d' = content k d @ [v]"
    and rpush_fails: "db_RPush D k v d = (Inl e, d') \<Longrightarrow> content k d' = content k d"
    and rpush_other: "q \<noteq> k \<Longrightarrow> content q (snd (db_RPush D k v d)) = content q d"
    and ltrim: "db_LTrim D k i j d = (Inr u, d') \<Longrightarrow> content k d' = trimmed i j (content k d)"
    and ltrim_fails: "db_LTrim D k i j d = (Inl e, d') \<Longrightarrow> content k d' = content k d"
    and ltrim_other: "q \<noteq> k \<Longrightarrow> content q (snd (db_LTrim D k i j d)) = content q d"
    and lexpire: "content q (snd (db_LExpire D k t d)) = content q d"
begin

text \<open>A push and a trim to the last \<open>n\<close> entries, when both succeed.\<close>

lemma push_trim:
  assumes "db_RPush D k v d = (Inr i, d1)" and "db_LTrim D k (- n) (- 1) d1 = (Inr u, d2)" and "0 < n"
  shows "content k d2 = drop (Suc (length (content k d)) - nat n) (content k d @ [v])"
  unfolding ltrim[OF assms(2)] rpush[OF assms(1)] trimmed_last[OF assms(3)] by simp

end

text \<open>redis: a key that is not there is an empty list.  The state is the lists and their times to live; \<open>up\<close> says whether the
  connection works.\<close>

record 'v redis_lists =
  rd_up :: bool
  rd_lists :: "string \<Rightarrow> 'v list"
  rd_ttl :: "string \<Rightarrow> int option"

definition no_connection :: go_error where "no_connection = PlainErr ''dial: connection refused''"

definition RPush :: "string \<Rightarrow> 'v \<Rightarrow> 'v redis_lists \<Rightarrow> (go_error, int) result \<times> 'v redis_lists" where
  "RPush key v d = (if \<not> rd_up d then (Inl no_connection, d)
     else let l = rd_lists d key @ [v] in (Inr (int (length l)), d\<lparr>rd_lists := (rd_lists d)(key := l)\<rparr>))"

definition LTrim :: "string \<Rightarrow> int \<Rightarrow> int \<Rightarrow> 'v redis_lists \<Rightarrow> (go_error, unit) result \<times> 'v redis_lists" where
  "LTrim key start stop d = (if \<not> rd_up d then (Inl no_connection, d)
     else (Inr (), d\<lparr>rd_lists := (rd_lists d)(key := trimmed start stop (rd_lists d key))\<rparr>))"

definition LExpire :: "string \<Rightarrow> int \<Rightarrow> 'v redis_lists \<Rightarrow> (go_error, int) result \<times> 'v redis_lists" where
  "LExpire key t d = (if \<not> rd_up d then (Inl no_connection, d)
     else if rd_lists d key = [] then (Inr 0, d) else (Inr 1, d\<lparr>rd_ttl := (rd_ttl d)(key \<mapsto> t)\<rparr>))"

definition redis_db :: "('v, 'v redis_lists) list_db" where
  "redis_db = \<lparr>db_RPush = RPush, db_LTrim = LTrim, db_LExpire = LExpire\<rparr>"

lemma redis_db_sel [simp]: "db_RPush redis_db = RPush" "db_LTrim redis_db = LTrim" "db_LExpire redis_db = LExpire"
  by (simp_all add: redis_db_def)

interpretation redis: list_database redis_db "\<lambda>q d. rd_lists d q"
  by unfold_locales (auto simp: RPush_def LTrim_def LExpire_def Let_def split: if_splits)

section \<open>Records and the console\<close>

record log_record =
  lr_Core :: "16 word"
  lr_Command :: string
  lr_Message :: message

definition IsLoggable :: "16 word list \<Rightarrow> message \<Rightarrow> bool" where
  "IsLoggable defaults msg = (if defaults \<noteq> [] then Assert (msg_meta msg) defaults else True)"

text \<open>What the console prints for a record, if anything.\<close>

definition console_LogRecord :: "16 word list \<Rightarrow> log_record \<Rightarrow> string option" where
  "console_LogRecord defaults r =
     (if \<not> IsLoggable defaults (lr_Message r) then None
      else if msg_text (lr_Message r) \<noteq> [] then
        Some (''['' @ itoa (unat (lr_Core r)) @ '']'' @ lr_Command r @ '' '' @ message_String (lr_Message r))
      else None)"

section \<open>Streams\<close>

definition MaxStreamRedisQueueSize :: nat where "MaxStreamRedisQueueSize = 1000"
definition StreamRedisQueueTTL :: int where "StreamRedisQueueTTL = 60"

record stream_logger =
  sl_size :: int
  sl_ch :: "log_record list"

definition newStreamLogger :: "int \<Rightarrow> stream_logger" where
  "newStreamLogger n = \<lparr>sl_size = (if n = 0 then int MaxStreamRedisQueueSize else n), sl_ch = []\<rparr>"

text \<open>A send to the full channel waits (\<open>None\<close>) until the pusher has taken a record.\<close>

definition stream_LogRecord :: "log_record \<Rightarrow> stream_logger \<Rightarrow> stream_logger option" where
  "stream_LogRecord r l =
     (if \<not> Is (msg_meta (lr_Message r)) StreamFlag then Some l
      else if MaxStreamRedisQueueSize \<le> length (sl_ch l) then None
      else Some (l\<lparr>sl_ch := sl_ch l @ [r]\<rparr>))"

text \<open>One turn of the loop of the pusher: an error ends \<^verbatim>\<open>push\<close>, which the pusher calls again, so in every case it
  goes on with the next record.\<close>

definition stream_queue :: "log_record \<Rightarrow> string" where
  "stream_queue r = ''stream:'' @ lr_Command r"

definition stream_store :: "('v, 'd) list_db \<Rightarrow> (log_record \<Rightarrow> (go_error, 'v) result) \<Rightarrow> int \<Rightarrow> log_record \<Rightarrow> 'd \<Rightarrow> 'd" where
  "stream_store D enc n r d = (case enc r of
     Inl e \<Rightarrow> d
   | Inr bytes \<Rightarrow> (case db_RPush D (stream_queue r) bytes d of
       (Inl e, d) \<Rightarrow> d
     | (Inr i, d) \<Rightarrow> (case db_LTrim D (stream_queue r) (-1 * n) (-1) d of
         (Inl e, d) \<Rightarrow> d
       | (Inr u, d) \<Rightarrow> snd (db_LExpire D (stream_queue r) StreamRedisQueueTTL d))))"

definition stream_push :: "('v, 'd) list_db \<Rightarrow> (log_record \<Rightarrow> (go_error, 'v) result) \<Rightarrow> stream_logger \<times> 'd \<Rightarrow> (stream_logger \<times> 'd) option" where
  "stream_push D enc = (\<lambda>(l, d). case sl_ch l of [] \<Rightarrow> None
     | r # rs \<Rightarrow> Some (l\<lparr>sl_ch := rs\<rparr>, stream_store D enc (sl_size l) r d))"

text \<open>A schedule of the messages of the jobs and of the pusher; a schedule is impossible (\<open>None\<close>) when it sends to a full
  channel or pushes from an empty one, where the code waits.\<close>

datatype stream_event = Logged log_record | Pushed

fun stream_run :: "('v, 'd) list_db \<Rightarrow> (log_record \<Rightarrow> (go_error, 'v) result) \<Rightarrow> stream_event list \<Rightarrow> stream_logger \<times> 'd \<Rightarrow>
    (stream_logger \<times> 'd) option" where
  "stream_run D enc [] s = Some s"
| "stream_run D enc (Logged r # es) s = (case stream_LogRecord r (fst s) of None \<Rightarrow> None | Some l \<Rightarrow> stream_run D enc es (l, snd s))"
| "stream_run D enc (Pushed # es) s = (case stream_push D enc s of None \<Rightarrow> None | Some s \<Rightarrow> stream_run D enc es s)"

fun streamed :: "stream_event list \<Rightarrow> log_record list" where
  "streamed [] = []"
| "streamed (Logged r # es) = (if Is (msg_meta (lr_Message r)) StreamFlag then r # streamed es else streamed es)"
| "streamed (Pushed # es) = streamed es"

section \<open>Subscriptions\<close>

definition MaxRedisQueueSize :: int where "MaxRedisQueueSize = 1000"

record redis_logger =
  rl_defaults :: "16 word list"
  rl_size :: int
  rl_buffer :: "log_record buffer"
  rl_queues :: "(string \<times> 16 word list) list"

definition newTrunkLogger :: "16 word list \<Rightarrow> int \<Rightarrow> redis_logger" where
  "newTrunkLogger defaults n = \<lparr>rl_defaults = defaults, rl_size = (if n = 0 then MaxRedisQueueSize else n),
     rl_buffer = NewBuffer MaxStreamRedisQueueSize, rl_queues = []\<rparr>"

text \<open>The records of a subscription: the levels asked for, and the records that end a job.\<close>

definition wanted :: "16 word list \<Rightarrow> log_record \<Rightarrow> bool" where
  "wanted lvls r = (let meta = msg_meta (lr_Message r) in
     lvls = [] \<or> Level meta \<in> set lvls \<or> Is meta (ExitSuccessFlag OR ExitErrorFlag))"

text \<open>The backlog is copied without trimming in between; a record that cannot be encoded is left out.\<close>

fun flush_backlog :: "('v, 'd) list_db \<Rightarrow> (log_record \<Rightarrow> (go_error, 'v) result) \<Rightarrow> string \<Rightarrow> 16 word list \<Rightarrow> log_record list \<Rightarrow> 'd \<Rightarrow>
    (go_error, unit) result \<times> 'd" where
  "flush_backlog D enc q lvls [] d = (Inr (), d)"
| "flush_backlog D enc q lvls (r # rs) d =
     (if \<not> wanted lvls r then flush_backlog D enc q lvls rs d
      else (case enc r of
          Inl e \<Rightarrow> flush_backlog D enc q lvls rs d
        | Inr bytes \<Rightarrow> (case db_RPush D q bytes d of
            (Inl e, d) \<Rightarrow> (Inl e, d) | (Inr i, d) \<Rightarrow> flush_backlog D enc q lvls rs d)))"

definition Subscribe :: "('v, 'd) list_db \<Rightarrow> (log_record \<Rightarrow> (go_error, 'v) result) \<Rightarrow> string \<Rightarrow> 16 word list \<Rightarrow>
    redis_logger \<times> 'd \<Rightarrow> (go_error, unit) result \<times> redis_logger \<times> 'd" where
  "Subscribe D enc q lvls = (\<lambda>(l, d).
     if q \<in> set (map fst (rl_queues l)) then (Inr (), l, d)
     else let l = l\<lparr>rl_queues := rl_queues l @ [(q, remdups lvls)]\<rparr> in
       (case flush_backlog D enc q (remdups lvls) (buf_list (rl_buffer l)) d of
          (Inl e, d) \<Rightarrow> (Inl e, l, d)
        | (Inr u, d) \<Rightarrow> (case db_LTrim D q (-1 * rl_size l) (-1) d of (r, d) \<Rightarrow> (r, l, d))))"

definition subscribe_name :: "string \<Rightarrow> string \<Rightarrow> string" where
  "subscribe_name uuid q = ''logger:'' @ (if q = [] then uuid else q)"

definition unSubscribe :: "string \<Rightarrow> redis_logger \<Rightarrow> (go_error, unit) result \<times> redis_logger" where
  "unSubscribe q l = (if q = [] then (Inl (PlainErr ''queue is required''), l)
     else (Inr (), l\<lparr>rl_queues := filter (\<lambda>(k, v). k \<noteq> q) (rl_queues l)\<rparr>))"

fun push_each :: "('v, 'd) list_db \<Rightarrow> int \<Rightarrow> log_record \<Rightarrow> 'v \<Rightarrow> (string \<times> 16 word list) list \<Rightarrow> 'd \<Rightarrow> (go_error, unit) result \<times> 'd" where
  "push_each D n r bytes [] d = (Inr (), d)"
| "push_each D n r bytes ((q, lvls) # qs) d =
     (if \<not> wanted lvls r then push_each D n r bytes qs d
      else (case db_RPush D q bytes d of
          (Inl e, d) \<Rightarrow> (Inl e, d)
        | (Inr i, d) \<Rightarrow> (case db_LTrim D q (-1 * n) (-1) d of
            (Inl e, d) \<Rightarrow> (Inl e, d) | (Inr u, d) \<Rightarrow> push_each D n r bytes qs d)))"

definition pushQueues :: "('v, 'd) list_db \<Rightarrow> (log_record \<Rightarrow> (go_error, 'v) result) \<Rightarrow> log_record \<Rightarrow>
    redis_logger \<times> 'd \<Rightarrow> (go_error, unit) result \<times> redis_logger \<times> 'd" where
  "pushQueues D enc r = (\<lambda>(l, d).
     let l = l\<lparr>rl_buffer := buffer_Append r (rl_buffer l)\<rparr> in
     if rl_queues l = [] then (Inr (), l, d)
     else (case enc r of Inl e \<Rightarrow> (Inl e, l, d)
       | Inr bytes \<Rightarrow> (case push_each D (rl_size l) r bytes (rl_queues l) d of (x, d) \<Rightarrow> (x, l, d))))"

text \<open>A record for the log of all jobs, put on the channel when it is of the levels of the log and then pushed.\<close>

definition trunk_LogRecord :: "('v, 'd) list_db \<Rightarrow> (log_record \<Rightarrow> (go_error, 'v) result) \<Rightarrow> log_record \<Rightarrow> redis_logger \<times> 'd \<Rightarrow> redis_logger \<times> 'd" where
  "trunk_LogRecord D enc r s = (if \<not> IsLoggable (rl_defaults (fst s)) (lr_Message r) then s else snd (pushQueues D enc r s))"

text \<open>The handler of the plugin: every message of a command goes to the console and to the streams.\<close>

definition logger_Message :: "16 word list \<Rightarrow> command \<Rightarrow> message \<Rightarrow> stream_logger \<Rightarrow> string option \<times> stream_logger option" where
  "logger_Message defaults cmd msg l =
     (let r = \<lparr>lr_Core = cmd_Core cmd, lr_Command = cmd_ID cmd, lr_Message = msg\<rparr> in
      (console_LogRecord defaults r, stream_LogRecord r l))"

section \<open>The last entries of a list\<close>

definition lastn :: "nat \<Rightarrow> 'a list \<Rightarrow> 'a list" where "lastn n xs = drop (length xs - n) xs"

lemma lastn_Nil [simp]: "lastn n [] = []" by (simp add: lastn_def)

lemma length_lastn: "length (lastn n xs) = min n (length xs)" by (auto simp: lastn_def)

lemma lastn_lastn: "lastn n (lastn n xs @ ys) = lastn n (xs @ ys)"
proof (cases "length xs \<le> n")
  case False
  then have "lastn n (lastn n xs @ ys) = drop (length ys) (drop (length xs - n) xs @ ys)"
    by (simp add: lastn_def)
  also have "drop (length xs - n) xs @ ys = drop (length xs - n) (xs @ ys)" by simp
  also have "drop (length ys) (drop (length xs - n) (xs @ ys)) = drop (length ys + (length xs - n)) (xs @ ys)"
    by (simp only: drop_drop)
  also have "length ys + (length xs - n) = length (xs @ ys) - n" using False by simp
  finally show ?thesis by (simp only: lastn_def)
qed (simp add: lastn_def)

lemma lastn_idem: "lastn n (lastn n xs) = lastn n xs" using lastn_lastn[of n xs "[]"] by simp

lemma lastn_short: "length xs \<le> n \<Longrightarrow> lastn n xs = xs" by (simp add: lastn_def)

text \<open>What a record adds to the list of a queue.\<close>

definition queue_entry :: "nat \<Rightarrow> (string \<times> 16 word list) list \<Rightarrow> log_record \<Rightarrow> 'v \<Rightarrow> string \<Rightarrow> 'v list \<Rightarrow> 'v list" where
  "queue_entry n qs r v k l = (case map_of qs k of
     Some lvls \<Rightarrow> if wanted lvls r then lastn n (l @ [v]) else l | None \<Rightarrow> l)"

section \<open>A database that works\<close>

locale working_database = list_database D content
  for D :: "('v, 'd) list_db" and content :: "string \<Rightarrow> 'd \<Rightarrow> 'v list" +
  fixes works :: "'d \<Rightarrow> bool"
  assumes rpush_works: "works d \<Longrightarrow> \<exists>i d'. db_RPush D k v d = (Inr i, d') \<and> works d'"
    and ltrim_works: "works d \<Longrightarrow> \<exists>d'. db_LTrim D k i j d = (Inr (), d') \<and> works d'"
    and lexpire_works: "works d \<Longrightarrow> works (snd (db_LExpire D k t d))"
begin

lemma push_and_trim:
  assumes "works d" and "0 < n"
  shows "\<exists>i d1 d2. db_RPush D k v d = (Inr i, d1) \<and> db_LTrim D k (- n) (- 1) d1 = (Inr (), d2) \<and> works d2 \<and>
    (\<forall>q. content q d2 = (if q = k then lastn (nat n) (content q d @ [v]) else content q d))"
proof -
  obtain i d1 where 1: "db_RPush D k v d = (Inr i, d1)" "works d1" using rpush_works[OF assms(1)] by blast
  obtain d2 where 2: "db_LTrim D k (- n) (- 1) d1 = (Inr (), d2)" "works d2" using ltrim_works[OF 1(2)] by blast
  have "content q d2 = content q d" if "q \<noteq> k" for q
    using rpush_other[OF that, of v d] ltrim_other[OF that, of "- n" "- 1" d1] 1 2 by simp
  moreover have "content k d2 = lastn (nat n) (content k d @ [v])"
    using push_trim[OF 1(1) 2(1) assms(2)] by (simp add: lastn_def)
  ultimately show ?thesis using 1 2 by auto
qed

lemma stream_store_content:
  assumes "works d" and "0 < n"
  shows "works (stream_store D (\<lambda>r. Inr (f r)) n r d) \<and> content q (stream_store D (\<lambda>r. Inr (f r)) n r d) =
    (if q = stream_queue r then lastn (nat n) (content q d @ [f r]) else content q d)"
proof -
  obtain i d1 d2 where s: "db_RPush D (stream_queue r) (f r) d = (Inr i, d1)"
    "db_LTrim D (stream_queue r) (- n) (- 1) d1 = (Inr (), d2)" "works d2"
    "\<forall>q. content q d2 = (if q = stream_queue r then lastn (nat n) (content q d @ [f r]) else content q d)"
    using push_and_trim[OF assms(1,2), of "stream_queue r" "f r"] by blast
  then show ?thesis using lexpire lexpire_works by (simp add: stream_store_def)
qed

lemma flush_content:
  assumes "works d"
  shows "\<exists>d'. flush_backlog D (\<lambda>r. Inr (f r)) q lvls rs d = (Inr (), d') \<and> works d' \<and>
    (\<forall>k. content k d' = (if k = q then content k d @ map f (filter (wanted lvls) rs) else content k d))"
  using assms
proof (induction rs arbitrary: d)
  case (Cons r rs)
  show ?case
  proof (cases "wanted lvls r")
    case True
    obtain i d1 where 1: "db_RPush D q (f r) d = (Inr i, d1)" "works d1" using rpush_works[OF Cons.prems] by blast
    from Cons.IH[OF 1(2)] obtain d' where d': "flush_backlog D (\<lambda>r. Inr (f r)) q lvls rs d1 = (Inr (), d')" "works d'"
      "\<forall>k. content k d' = (if k = q then content k d1 @ map f (filter (wanted lvls) rs) else content k d1)" by blast
    have "content k d1 = (if k = q then content k d @ [f r] else content k d)" for k
      using rpush[OF 1(1)] rpush_other[of k q "f r" d] 1(1) by auto
    then show ?thesis using True 1 d' by simp
  next
    case False
    then show ?thesis using Cons.IH[OF Cons.prems] by auto
  qed
qed simp

lemma push_each_content:
  assumes "works d" and "0 < n" and "distinct (map fst qs)"
  shows "\<exists>d'. push_each D n r v qs d = (Inr (), d') \<and> works d' \<and>
    (\<forall>k. content k d' = queue_entry (nat n) qs r v k (content k d))"
  using assms(1,3)
proof (induction qs arbitrary: d)
  case Nil
  then show ?case by (simp add: queue_entry_def)
next
  case (Cons p qs)
  obtain q lvls where p: "p = (q, lvls)" by (cases p)
  have q: "queue_entry (nat n) qs r v q l = l" for l
  proof -
    have "map_of qs q = None" using Cons.prems(2) p by (simp add: map_of_eq_None_iff)
    then show ?thesis by (simp add: queue_entry_def)
  qed
  obtain d2 where d2: "works d2" "push_each D n r v (p # qs) d = push_each D n r v qs d2"
    "\<forall>k. content k d2 = (if k = q \<and> wanted lvls r then lastn (nat n) (content k d @ [v]) else content k d)"
  proof (cases "wanted lvls r")
    case True
    with push_and_trim[OF Cons.prems(1) assms(2), of q v] that show ?thesis by (auto simp: p)
  next
    case False
    with Cons.prems(1) that show ?thesis by (auto simp: p)
  qed
  obtain d' where d': "push_each D n r v qs d2 = (Inr (), d')" "works d'"
    "\<forall>k. content k d' = queue_entry (nat n) qs r v k (content k d2)"
    using Cons.IH[OF d2(1)] Cons.prems(2) by auto
  have "content k d' = queue_entry (nat n) (p # qs) r v k (content k d)" for k
    using d'(3) d2(3) q by (cases "k = q") (simp_all add: queue_entry_def p)
  then show ?case using d2(2) d' by auto
qed

lemma stream_run_content:
  assumes "works d" and "0 < n" and "\<forall>q. length (content q d) \<le> nat n"
    and "stream_run D (\<lambda>r. Inr (f r)) es (\<lparr>sl_size = n, sl_ch = c\<rparr>, d) = Some (l, d')"
  shows "\<exists>pushed. c @ streamed es = pushed @ sl_ch l \<and>
    (\<forall>q. content q d' = lastn (nat n) (content q d @ map f (filter (\<lambda>r. stream_queue r = q) pushed)))"
  using assms(1,3,4)
proof (induction es arbitrary: c d)
  case Nil
  then show ?case by (intro exI[of _ "[]"]) (auto simp: lastn_short)
next
  case (Cons e es)
  show ?case
  proof (cases e)
    case (Logged r)
    show ?thesis
    proof (cases "Is (msg_meta (lr_Message r)) StreamFlag")
      case True
      then have "stream_run D (\<lambda>r. Inr (f r)) es (\<lparr>sl_size = n, sl_ch = c @ [r]\<rparr>, d) = Some (l, d')"
        using Cons.prems(3) by (auto simp: Logged stream_LogRecord_def split: if_splits)
      from Cons.IH[OF Cons.prems(1,2) this] show ?thesis using True by (simp add: Logged)
    next
      case False
      then have "stream_run D (\<lambda>r. Inr (f r)) es (\<lparr>sl_size = n, sl_ch = c\<rparr>, d) = Some (l, d')"
        using Cons.prems(3) by (simp add: Logged stream_LogRecord_def)
      from Cons.IH[OF Cons.prems(1,2) this] show ?thesis using False by (simp add: Logged)
    qed
  next
    case Pushed
    then obtain r rs where c: "c = r # rs" using Cons.prems(3) by (cases c) (auto simp: stream_push_def)
    let ?d = "stream_store D (\<lambda>r. Inr (f r)) n r d"
    note st = stream_store_content[OF Cons.prems(1) assms(2), of f r]
    have "stream_run D (\<lambda>r. Inr (f r)) es (\<lparr>sl_size = n, sl_ch = rs\<rparr>, ?d) = Some (l, d')"
      using Cons.prems(3) by (simp add: Pushed c stream_push_def)
    moreover have "works ?d" "\<forall>q. length (content q ?d) \<le> nat n"
      using st Cons.prems(2) by (simp_all add: length_lastn)
    ultimately obtain pushed where p: "rs @ streamed es = pushed @ sl_ch l"
      "\<forall>q. content q d' = lastn (nat n) (content q ?d @ map f (filter (\<lambda>r. stream_queue r = q) pushed))"
      using Cons.IH by blast
    have "content q d' = lastn (nat n) (content q d @ map f (filter (\<lambda>r. stream_queue r = q) (r # pushed)))" for q
    proof (cases "q = stream_queue r")
      case True
      then show ?thesis using p(2) st[of q] lastn_lastn[of "nat n" "content q d @ [f r]"] by simp
    next
      case False
      then show ?thesis using p(2) st[of q] by simp
    qed
    then show ?thesis using p(1) by (intro exI[of _ "r # pushed"]) (simp add: Pushed c)
  qed
qed

lemma pushQueues_content:
  assumes "works d" and "0 < rl_size l" and "distinct (map fst (rl_queues l))"
    and "pushQueues D (\<lambda>r. Inr (f r)) r (l, d) = (x, l', d')"
  shows "x = Inr () \<and> works d' \<and> l' = l\<lparr>rl_buffer := buffer_Append r (rl_buffer l)\<rparr> \<and>
    content q d' = queue_entry (nat (rl_size l)) (rl_queues l) r (f r) q (content q d)"
proof (cases "rl_queues l = []")
  case True
  then show ?thesis using assms(1,4) by (auto simp: pushQueues_def Let_def queue_entry_def)
next
  case False
  from push_each_content[OF assms(1-3), of r "f r"] obtain d2 where
    "push_each D (rl_size l) r (f r) (rl_queues l) d = (Inr (), d2)" "works d2"
    "\<forall>k. content k d2 = queue_entry (nat (rl_size l)) (rl_queues l) r (f r) k (content k d)" by blast
  then show ?thesis using False assms(4) by (auto simp: pushQueues_def Let_def)
qed

lemma trunk_records:
  assumes "works d" and "0 < rl_size l" and "distinct (map fst (rl_queues l))" and "map_of (rl_queues l) q = Some lvls"
    and "length (content q d) \<le> nat (rl_size l)"
  shows "content q (snd (fold (trunk_LogRecord D (\<lambda>r. Inr (f r))) rs (l, d))) =
    lastn (nat (rl_size l)) (content q d @ map f (filter (wanted lvls) (filter (\<lambda>r. IsLoggable (rl_defaults l) (lr_Message r)) rs)))"
  using assms
proof (induction rs arbitrary: l d)
  case Nil
  then show ?case by (simp add: lastn_short)
next
  case (Cons r rs)
  show ?case
  proof (cases "IsLoggable (rl_defaults l) (lr_Message r)")
    case True
    obtain x l1 d1 where p: "pushQueues D (\<lambda>r. Inr (f r)) r (l, d) = (x, l1, d1)" by (cases "pushQueues D (\<lambda>r. Inr (f r)) r (l, d)")
    note c = pushQueues_content[OF Cons.prems(1-3) p]
    have e: "content q d1 = (if wanted lvls r then lastn (nat (rl_size l)) (content q d @ [f r]) else content q d)"
      using c[of q] Cons.prems(4) by (simp add: queue_entry_def)
    have len: "length (content q d1) \<le> nat (rl_size l)" using e Cons.prems(5) by (simp add: length_lastn)
    have t: "trunk_LogRecord D (\<lambda>r. Inr (f r)) r (l, d) = (l1, d1)" using True by (simp add: trunk_LogRecord_def p)
    have l1: "works d1" "rl_size l1 = rl_size l" "rl_queues l1 = rl_queues l" "rl_defaults l1 = rl_defaults l"
      using c[of q] by simp_all
    let ?rs = "map f (filter (wanted lvls) (filter (\<lambda>r. IsLoggable (rl_defaults l) (lr_Message r)) rs))"
    have "content q (snd (fold (trunk_LogRecord D (\<lambda>r. Inr (f r))) rs (l1, d1))) = lastn (nat (rl_size l)) (content q d1 @ ?rs)"
      using Cons.IH[of d1 l1] l1 len Cons.prems(2-4) by (simp only: l1 simp_thms)
    also have "\<dots> = lastn (nat (rl_size l)) (content q d @ (if wanted lvls r then [f r] else []) @ ?rs)"
      using lastn_lastn[of "nat (rl_size l)" "content q d @ [f r]" ?rs] by (simp add: e del: filter_filter)
    finally show ?thesis using True by (simp add: t del: filter_filter)
  next
    case False
    then show ?thesis using Cons.IH[OF Cons.prems] by (simp add: trunk_LogRecord_def)
  qed
qed

lemma Subscribe_content:
  assumes "works d" and "0 < rl_size l" and "q \<notin> set (map fst (rl_queues l))"
  shows "\<exists>d'. Subscribe D (\<lambda>r. Inr (f r)) q lvls (l, d) = (Inr (), l\<lparr>rl_queues := rl_queues l @ [(q, remdups lvls)]\<rparr>, d') \<and> works d' \<and>
    content q d' = lastn (nat (rl_size l)) (content q d @ map f (filter (wanted lvls) (buf_list (rl_buffer l))))"
proof -
  have w: "wanted (remdups lvls) = wanted lvls" by (auto simp: wanted_def fun_eq_iff Let_def)
  from flush_content[OF assms(1), of f q "remdups lvls" "buf_list (rl_buffer l)"] obtain d1 where
    1: "flush_backlog D (\<lambda>r. Inr (f r)) q (remdups lvls) (buf_list (rl_buffer l)) d = (Inr (), d1)" "works d1"
    "content q d1 = content q d @ map f (filter (wanted lvls) (buf_list (rl_buffer l)))" unfolding w by auto
  obtain d2 where 2: "db_LTrim D q (- rl_size l) (- 1) d1 = (Inr (), d2)" "works d2" using ltrim_works[OF 1(2)] by blast
  have "content q d2 = lastn (nat (rl_size l)) (content q d1)"
    unfolding ltrim[OF 2(1)] trimmed_last[OF assms(2)] lastn_def ..
  then show ?thesis using assms(3) 1 2 by (simp add: Subscribe_def)
qed

end

interpretation working_redis: working_database redis_db "\<lambda>q d. rd_lists d q" rd_up
  by unfold_locales (auto simp: RPush_def LTrim_def LExpire_def Let_def)

section \<open>Properties\<close>

text \<open>The queue of the streamed output of a job: under every schedule of messages and pushes, while the database works, it
  holds exactly the last \<open>n\<close> of the messages of that job with the stream flag, in order, except those still in the channel;
  messages of other jobs and messages without the flag never get there.\<close>

theorem stream_queue_keeps_last:
  assumes "rd_up d" and "0 < n" and "\<forall>q. rd_lists d q = []"
    and "stream_run redis_db (\<lambda>r. Inr (f r)) es (newStreamLogger n, d) = Some (l, d')"
  shows "\<exists>pushed. streamed es = pushed @ sl_ch l \<and>
    (\<forall>i. rd_lists d' (''stream:'' @ i) = lastn (nat n) (map f (filter (\<lambda>r. lr_Command r = i) pushed)))"
  using working_redis.stream_run_content[OF assms(1,2), of f es "[]"] assms(2-4)
  by (auto simp: newStreamLogger_def stream_queue_def)

text \<open>A subscription to the log: after subscribing a new queue and any further records, the queue holds exactly the last \<open>n\<close>
  of the backlog and the records since then that are of the levels of the log and of the levels asked for, or end a job, in
  order, whatever other queues are subscribed.\<close>

theorem subscription_complete:
  assumes "rd_up d" and "0 < rl_size l" and "distinct (map fst (rl_queues l))" and "q \<notin> set (map fst (rl_queues l))"
    and "rd_lists d q = []" and "Subscribe redis_db (\<lambda>r. Inr (f r)) q lvls (l, d) = (x, s)"
  shows "x = Inr () \<and> rd_lists (snd (fold (trunk_LogRecord redis_db (\<lambda>r. Inr (f r))) rs s)) q =
    lastn (nat (rl_size l)) (map f (filter (wanted lvls)
      (buf_list (rl_buffer l) @ filter (\<lambda>r. IsLoggable (rl_defaults l) (lr_Message r)) rs)))"
proof -
  obtain d1 where d1: "s = (l\<lparr>rl_queues := rl_queues l @ [(q, remdups lvls)]\<rparr>, d1)" "x = Inr ()" "rd_up d1"
    "rd_lists d1 q = lastn (nat (rl_size l)) (map f (filter (wanted lvls) (buf_list (rl_buffer l))))"
    using working_redis.Subscribe_content[OF assms(1,2,4), of f lvls] assms(5,6) by auto
  have w: "wanted (remdups lvls) = wanted lvls" by (auto simp: wanted_def fun_eq_iff Let_def)
  have m: "map_of (rl_queues l @ [(q, remdups lvls)]) q = Some (remdups lvls)"
  proof -
    have "map_of (rl_queues l) q = None" using assms(4) by (simp add: map_of_eq_None_iff)
    then show ?thesis by (simp add: map_add_def)
  qed
  show ?thesis
    using working_redis.trunk_records[of d1 "l\<lparr>rl_queues := rl_queues l @ [(q, remdups lvls)]\<rparr>" q "remdups lvls" f rs] assms(2-4) d1 m
    by (simp add: w length_lastn lastn_lastn)
qed

definition fresh_redis :: "string redis_lists" where
  "fresh_redis = \<lparr>rd_up = True, rd_lists = (\<lambda>k. []), rd_ttl = (\<lambda>k. None)\<rparr>"

definition job_record :: "string \<Rightarrow> string \<Rightarrow> flag list \<Rightarrow> log_record" where
  "job_record i t fs = \<lparr>lr_Core = 0, lr_Command = i, lr_Message = \<lparr>msg_text = t, msg_epoch = 0, msg_meta = NewMeta 1 fs\<rparr>\<rparr>"

definition record_text :: "log_record \<Rightarrow> string" where "record_text r = msg_text (lr_Message r)"

lemma stream_queue_keeps_last_witness:
  "\<exists>l d'. stream_run redis_db (\<lambda>r. Inr (record_text r))
     [Logged (job_record ''a'' ''one'' [StreamFlag]), Logged (job_record ''a'' ''quiet'' []), Pushed] (newStreamLogger 2, fresh_redis) = Some (l, d') \<and>
     rd_lists d' ''stream:a'' = [''one'']"
proof -
  let ?es = "[Logged (job_record ''a'' ''one'' [StreamFlag]), Logged (job_record ''a'' ''quiet'' []), Pushed]"
  have f: "Is (msg_meta (lr_Message (job_record ''a'' ''one'' [StreamFlag]))) StreamFlag"
    "\<not> Is (msg_meta (lr_Message (job_record ''a'' ''quiet'' []))) StreamFlag"
    by (code_simp, code_simp)
  obtain l d' where r: "stream_run redis_db (\<lambda>r. Inr (record_text r)) ?es (newStreamLogger 2, fresh_redis) = Some (l, d')" "sl_ch l = []"
    using f by (auto simp: stream_LogRecord_def newStreamLogger_def stream_push_def MaxStreamRedisQueueSize_def)
  have "rd_up fresh_redis" "(0 :: int) < 2" "\<forall>q. rd_lists fresh_redis q = []" by (simp_all add: fresh_redis_def)
  from stream_queue_keeps_last[OF this r(1)] show ?thesis using r f
    by (auto simp: job_record_def record_text_def lastn_def)
qed

lemma subscription_complete_witness:
  "rd_lists (snd (fold (trunk_LogRecord redis_db (\<lambda>r. Inr (record_text r))) [job_record ''a'' ''two'' []]
     (snd (Subscribe redis_db (\<lambda>r. Inr (record_text r)) ''q'' [1]
       ((newTrunkLogger [] 1)\<lparr>rl_buffer := buffer_Append (job_record ''a'' ''one'' []) (NewBuffer 1000)\<rparr>, fresh_redis))))) ''q'' = [''two'']"
proof -
  let ?l = "(newTrunkLogger [] 1)\<lparr>rl_buffer := buffer_Append (job_record ''a'' ''one'' []) (NewBuffer 1000)\<rparr>"
  obtain x s where s: "Subscribe redis_db (\<lambda>r. Inr (record_text r)) ''q'' [1] (?l, fresh_redis) = (x, s)" using prod.exhaust by blast
  have w: "wanted [1] (job_record ''a'' t [])" for t
    by (simp add: wanted_def job_record_def) 
  have "rd_up fresh_redis" "0 < rl_size ?l" "distinct (map fst (rl_queues ?l))" "''q'' \<notin> set (map fst (rl_queues ?l))" "rd_lists fresh_redis ''q'' = []"
    by (simp_all add: fresh_redis_def newTrunkLogger_def)
  note c = subscription_complete[OF this s, of "[job_record ''a'' ''two'' []]", THEN conjunct2]
  show ?thesis unfolding s snd_conv c
    using w by (simp add: newTrunkLogger_def buffer_Append_def IsLoggable_def lastn_def record_text_def) (simp add: job_record_def)
qed

end
