(* ===== verification/Btrfs.thy ===== *)
theory Btrfs
  imports Scan Steps "HOL-Library.AList"
begin

text \<open>
  The btrfs actions (\<^verbatim>\<open>apps/plugins/base/btrfs/btrfs.go\<close>): the readers of what \<^verbatim>\<open>btrfs filesystem show\<close>,
  \<^verbatim>\<open>filesystem df\<close>, \<^verbatim>\<open>subvolume list\<close> and \<^verbatim>\<open>qgroup show\<close> print, and the actions that run the program.  A run of
  the program is an argument: it returns the output of the job, when there is one, and an error.
\<close>

section \<open>Data\<close>

record btrfs_device =
  dv_Missing :: bool
  dv_DevID :: int
  dv_Size :: int
  dv_Used :: int
  dv_Path :: string

record btrfs_fs =
  bf_Label :: string
  bf_UUID :: string
  bf_TotalDevices :: int
  bf_Used :: int
  bf_Devices :: "btrfs_device list"
  bf_Warnings :: string

record btrfs_data =
  bi_Profile :: string
  bi_Total :: int
  bi_Used :: int

record btrfs_info =
  fi_FS :: btrfs_fs
  fi_Data :: btrfs_data
  fi_System :: btrfs_data
  fi_MetaData :: btrfs_data
  fi_GlobalReserve :: btrfs_data

record btrfs_subvol =
  sv_ID :: int
  sv_Gen :: int
  sv_TopLevel :: int
  sv_Path :: string
  sv_Quota :: "64 word"

record btrfs_qgroup =
  qg_ID :: string
  qg_Rfer :: "64 word"
  qg_Excl :: "64 word"
  qg_MaxRfer :: "64 word"
  qg_MaxExcl :: "64 word"

definition Profiles :: "string list" where
  "Profiles = [''raid0'', ''raid1'', ''raid5'', ''raid6'', ''raid10'', ''dup'', ''single'', []]"

record create_argument =
  ca_Label :: string
  ca_Metadata :: string
  ca_Data :: string
  ca_Devices :: "string list"
  ca_Overwrite :: bool

definition create_Validate :: "create_argument \<Rightarrow> (fault, unit) result" where
  "create_Validate a =
     (if ca_Devices a = [] then fail ''need to specify devices to create btrfs''
      else if ca_Metadata a \<notin> set Profiles then fail ''invalid metadata profile''
      else if ca_Data a \<notin> set Profiles then fail ''invalid data profile''
      else Inr ())"

section \<open>File systems\<close>

definition nl2 :: string where "nl2 = [CHR 0x0A, CHR 0x0A]"

definition device_line :: "string \<Rightarrow> btrfs_device option" where
  "device_line line = (case sscanf (scan_format ''devid    %d size %d used %d path %s'') (TrimSpace line) of
     Some [SInt i, SInt sz, SInt u, SStr p] \<Rightarrow> Some \<lparr>dv_Missing = False, dv_DevID = i, dv_Size = sz, dv_Used = u, dv_Path = p\<rparr>
   | _ \<Rightarrow> None)"

text \<open>A line that is no device is left out.\<close>

definition parseDevices :: "string list \<Rightarrow> btrfs_device list" where
  "parseDevices lines = List.map_filter (\<lambda>l. if l = [] then None else device_line l) lines"

text \<open>A label stands between quotes, which are cut off; of a text of one character nothing is left to cut.\<close>

definition unquote :: "string \<Rightarrow> (fault, string) result" where
  "unquote label = (if label = ''none'' then Inr label
     else if length label < 2 then Inl (Panic ''slice bounds out of range'')
     else Inr (butlast (tl label)))"

definition is_warning :: "string \<Rightarrow> bool" where
  "is_warning line \<longleftrightarrow> has_prefix ''**'' (TrimSpace line)"

definition parseFS :: "string list \<Rightarrow> (fault, btrfs_fs) result" where
  "parseFS lines = (case sscanf (scan_format ''Label: %s uuid: %s'') (hd lines) of
     Some [SStr label, SStr uuid] \<Rightarrow> rbind (unquote label) (\<lambda>label.
       (case sscanf (scan_format ''Total devices %d FS bytes used %d'') (TrimSpace (lines ! 1)) of
          Some [SInt tot, SInt used] \<Rightarrow>
            Inr \<lparr>bf_Label = label, bf_UUID = uuid, bf_TotalDevices = tot, bf_Used = used,
                 bf_Devices = parseDevices (filter (\<lambda>l. \<not> is_warning l) (drop 2 lines)),
                 bf_Warnings = concat (map TrimSpace (filter is_warning (drop 2 lines)))\<rparr>
        | _ \<Rightarrow> fail ''unexpected input''))
   | _ \<Rightarrow> fail ''unexpected input'')"

definition parse_block_fs :: "string \<Rightarrow> (fault, btrfs_fs option) result" where
  "parse_block_fs block =
     (if TrimSpace block = [] then Inr None
      else (case str_index ''Label:'' block of
         None \<Rightarrow> Inl (Panic ''slice bounds out of range'')
       | Some i \<Rightarrow> (let lines = split_on (CHR 0x0A) (drop i block) in
           if length lines < 3 then Inr None else rbind (parseFS lines) (\<lambda>fs. Inr (Some fs)))))"

fun parse_blocks :: "string list \<Rightarrow> (fault, btrfs_fs list) result" where
  "parse_blocks [] = Inr []"
| "parse_blocks (b # bs) = rbind (parse_block_fs b) (\<lambda>fs. rbind (parse_blocks bs) (\<lambda>fss.
     Inr (case fs of None \<Rightarrow> fss | Some f \<Rightarrow> f # fss)))"

definition btrfs_parseList :: "string \<Rightarrow> (fault, btrfs_fs list) result" where
  "btrfs_parseList out = parse_blocks (split_str nl2 out)"

section \<open>Usage\<close>

text \<open>\<^verbatim>\<open>reBtrfsFilesystemDf\<close> at one place: no two parts of the expression that follow each other can take the same
  character, so there is one way to match.\<close>

definition re_run :: "(char \<Rightarrow> bool) \<Rightarrow> string \<Rightarrow> (string \<times> string) option" where
  "re_run P s = (let w = takeWhile P s in if w = [] then None else Some (w, dropWhile P s))"

definition re_lit :: "string \<Rightarrow> string \<Rightarrow> string option" where
  "re_lit p s = (if has_prefix p s then Some (drop (length p) s) else None)"

definition df_at :: "string \<Rightarrow> ((string \<times> string \<times> string \<times> string) \<times> string) option" where
  "df_at s = Option.bind (re_run is_word s) (\<lambda>(name, s). Option.bind (re_lit '','' s) (\<lambda>s.
     if s = [] \<or> \<not> is_re_space (hd s) then None
     else Option.bind (re_run is_word (tl s)) (\<lambda>(profile, s). Option.bind (re_lit '':'' s) (\<lambda>s.
     Option.bind (re_run is_re_space s) (\<lambda>(b, s). Option.bind (re_lit ''total='' s) (\<lambda>s.
     Option.bind (re_run is_digit s) (\<lambda>(total, s). Option.bind (re_lit '','' s) (\<lambda>s.
     Option.bind (re_run is_re_space s) (\<lambda>(b, s). Option.bind (re_lit ''used='' s) (\<lambda>s.
     Option.bind (re_run is_digit s) (\<lambda>(used, s). Some ((name, profile, total, used), s))))))))))))"

lemma drop_while_length: "length (dropWhile P xs) \<le> length xs"
  by (induction xs) auto

lemma re_run_shorter: "re_run P s = Some (w, r) \<Longrightarrow> length r < length s"
proof -
  assume a: "re_run P s = Some (w, r)"
  have "length s = length (takeWhile P s) + length (dropWhile P s)" by (metis length_append takeWhile_dropWhile_id)
  with a show ?thesis by (auto simp: re_run_def Let_def split: if_splits)
qed

lemma re_lit_shorter: "re_lit p s = Some r \<Longrightarrow> length r \<le> length s"
  by (auto simp: re_lit_def split: if_splits)

lemma df_at_shorter: "df_at s = Some (m, r) \<Longrightarrow> length r < length s"
  unfolding df_at_def
  by (auto simp: bind_eq_Some_conv split: if_splits dest!: re_run_shorter re_lit_shorter)

function find_df :: "string \<Rightarrow> (string \<times> string \<times> string \<times> string) list" where
  "find_df s = (case df_at s of
     Some (m, r) \<Rightarrow> m # find_df r
   | None \<Rightarrow> (case s of [] \<Rightarrow> [] | c # t \<Rightarrow> find_df t))"
  by pat_completeness auto
termination
  by (relation "measure length") (auto dest: df_at_shorter)

declare find_df.simps [simp del]

definition parse_i64 :: "string \<Rightarrow> (fault, int) result" where
  "parse_i64 s = (case parse_int 64 s of Inl e \<Rightarrow> fail ''strconv.ParseInt'' | Inr n \<Rightarrow> Inr n)"

definition df_line :: "string \<times> string \<times> string \<times> string \<Rightarrow> btrfs_info \<Rightarrow> (fault, btrfs_info) result" where
  "df_line = (\<lambda>(name, profile, total, used) fs.
     if name \<notin> {''Data'', ''System'', ''Metadata'', ''GlobalReserve''} then Inr fs
     else rbind (parse_i64 total) (\<lambda>t. rbind (parse_i64 used) (\<lambda>u.
       let d = \<lparr>bi_Profile = profile, bi_Total = t, bi_Used = u\<rparr> in
       Inr (if name = ''Data'' then fs\<lparr>fi_Data := d\<rparr> else if name = ''System'' then fs\<lparr>fi_System := d\<rparr>
            else if name = ''Metadata'' then fs\<lparr>fi_MetaData := d\<rparr> else fs\<lparr>fi_GlobalReserve := d\<rparr>))))"

definition parseFilesystemDF :: "string \<Rightarrow> btrfs_info \<Rightarrow> (fault, btrfs_info) result" where
  "parseFilesystemDF out = rfold df_line (find_df out)"

section \<open>Subvolumes\<close>

definition subvol_line :: "string \<Rightarrow> (fault, btrfs_subvol) result" where
  "subvol_line line = (case sscanf (scan_format ''ID %d gen %d top level %d path %s'') line of
     Some [SInt i, SInt g, SInt t, SStr p] \<Rightarrow> Inr \<lparr>sv_ID = i, sv_Gen = g, sv_TopLevel = t, sv_Path = p, sv_Quota = 0\<rparr>
   | _ \<Rightarrow> fail ''unexpected input'')"

definition parseSubvolList :: "string \<Rightarrow> (fault, btrfs_subvol list) result" where
  "parseSubvolList out = rmap subvol_line (filter (\<lambda>l. l \<noteq> []) (map TrimSpace (split_on (CHR 0x0A) out)))"

text \<open>\<^verbatim>\<open>reBtrfsQgroup\<close> at the start of a line; the rest of the line belongs to the match.\<close>

definition re_limit :: "string \<Rightarrow> (string \<times> string) option" where
  "re_limit s = (case re_run is_digit s of Some m \<Rightarrow> Some m
     | None \<Rightarrow> map_option (\<lambda>r. (''none'', r)) (re_lit ''none'' s))"

definition qgroup_at :: "string \<Rightarrow> ((string \<times> string \<times> string \<times> string \<times> string) \<times> string) option" where
  "qgroup_at s = Option.bind (re_run is_digit s) (\<lambda>(a, s). Option.bind (re_lit ''/'' s) (\<lambda>s. Option.bind (re_run is_digit s) (\<lambda>(b, s).
     Option.bind (re_run is_re_space s) (\<lambda>(x, s). Option.bind (re_run is_digit s) (\<lambda>(rfer, s).
     Option.bind (re_run is_re_space s) (\<lambda>(x, s). Option.bind (re_run is_digit s) (\<lambda>(excl, s).
     Option.bind (re_run is_re_space s) (\<lambda>(x, s). Option.bind (re_limit s) (\<lambda>(mrfer, s).
     Option.bind (re_run is_re_space s) (\<lambda>(x, s). Option.bind (re_limit s) (\<lambda>(mexcl, s).
     Some ((a @ ''/'' @ b, rfer, excl, mrfer, mexcl), dropWhile (\<lambda>c. c \<noteq> CHR 0x0A) s))))))))))))"

lemma re_limit_shorter: "re_limit s = Some (w, r) \<Longrightarrow> length r \<le> length s"
  by (auto simp: re_limit_def split: option.splits dest!: re_run_shorter re_lit_shorter)

lemma qgroup_at_shorter: "qgroup_at s = Some (m, r) \<Longrightarrow> length r < length s"
  unfolding qgroup_at_def
  by (auto simp: bind_eq_Some_conv dest!: re_run_shorter re_lit_shorter re_limit_shorter
      intro: le_less_trans[OF drop_while_length])

text \<open>All matches; \<open>bol\<close>: this is the start of a line.\<close>

function find_qgroups :: "bool \<Rightarrow> string \<Rightarrow> (string \<times> string \<times> string \<times> string \<times> string) list" where
  "find_qgroups bol s = (case (if bol then qgroup_at s else None) of
     Some (m, r) \<Rightarrow> m # find_qgroups False r
   | None \<Rightarrow> (case s of [] \<Rightarrow> [] | c # t \<Rightarrow> find_qgroups (c = CHR 0x0A) t))"
  by pat_completeness auto
termination
  by (relation "measure (\<lambda>(b, s). length s)") (auto split: if_splits dest!: qgroup_at_shorter)

declare find_qgroups.simps [simp del]

text \<open>\<^verbatim>\<open>ParseUint\<close> with the error dropped: out of range gives the largest number.\<close>

definition parse_u64s :: "string \<Rightarrow> 64 word" where
  "parse_u64s s = (case parse_uint 64 s of Inr n \<Rightarrow> of_nat n | Inl ErrRange \<Rightarrow> -1 | Inl ErrSyntax \<Rightarrow> 0)"

definition limit_u64 :: "string \<Rightarrow> 64 word" where
  "limit_u64 s = (if s \<noteq> ''none'' then parse_u64s s else 0)"

definition qgroup_of :: "string \<times> string \<times> string \<times> string \<times> string \<Rightarrow> btrfs_qgroup" where
  "qgroup_of = (\<lambda>(i, r, e, mr, me). \<lparr>qg_ID = i, qg_Rfer = parse_u64s r, qg_Excl = parse_u64s e,
     qg_MaxRfer = limit_u64 mr, qg_MaxExcl = limit_u64 me\<rparr>)"

definition parseQGroups :: "string \<Rightarrow> (string \<times> btrfs_qgroup) list" where
  "parseQGroups s = fold (\<lambda>m. AList.update (fst m) (qgroup_of m)) (find_qgroups True s) []"

section \<open>Actions\<close>

text \<open>A run of the program: its standard output and standard error, when there was a job, and the error.\<close>

record 's btrfs_env =
  bt_run :: "string list \<Rightarrow> 's \<Rightarrow> ((string \<times> string) option \<times> go_error option) \<times> 's"

definition run_btrfs :: "'s btrfs_env \<Rightarrow> string list \<Rightarrow> ('s, string) act" where
  "run_btrfs E args = (\<lambda>s. case bt_run E args s of ((job, err), s) \<Rightarrow>
     ((case err of Some e \<Rightarrow> Inl (Fault e)
       | None \<Rightarrow> (case job of None \<Rightarrow> Inl (Panic ''nil pointer dereference'') | Some (out, err) \<Rightarrow> Inr out)), s))"

definition run_ignore :: "'s btrfs_env \<Rightarrow> string list \<Rightarrow> ('s, unit) act" where
  "run_ignore E args = (\<lambda>s. case bt_run E args s of ((job, err), s) \<Rightarrow>
     ((case err of Some e \<Rightarrow> Inl (Fault e) | None \<Rightarrow> Inr ()), s))"

definition create_options :: "create_argument \<Rightarrow> string list" where
  "create_options a = (if ca_Overwrite a then [''-f''] else []) @
     (if ca_Label a \<noteq> [] then [''-L'', ca_Label a] else []) @
     (if ca_Metadata a \<noteq> [] then [''-m'', ca_Metadata a] else []) @
     (if ca_Data a \<noteq> [] then [''-d'', ca_Data a] else []) @ ca_Devices a"

definition btrfs_Create :: "'s btrfs_env \<Rightarrow> create_argument \<Rightarrow> ('s, unit) act" where
  "btrfs_Create E a = sbind (slift (create_Validate a)) (\<lambda>_. run_ignore E (''mkfs.btrfs'' # create_options a))"

definition DeviceAdd :: "'s btrfs_env \<Rightarrow> string list \<Rightarrow> string \<Rightarrow> ('s, unit) act" where
  "DeviceAdd E devs mnt = run_ignore E ([''btrfs'', ''device'', ''add'', ''-K'', ''-f''] @ devs @ [mnt])"

definition DeviceRemove :: "'s btrfs_env \<Rightarrow> string list \<Rightarrow> string \<Rightarrow> ('s, unit) act" where
  "DeviceRemove E devs mnt = run_ignore E ([''btrfs'', ''device'', ''remove''] @ devs @ [mnt])"

definition btrfs_list :: "'s btrfs_env \<Rightarrow> string list \<Rightarrow> ('s, btrfs_fs list) act" where
  "btrfs_list E args = sbind (run_btrfs E ([''btrfs'', ''filesystem'', ''show'', ''--raw''] @ args)) (\<lambda>out.
     slift (btrfs_parseList out))"

definition btrfs_List :: "'s btrfs_env \<Rightarrow> ('s, btrfs_fs list) act" where
  "btrfs_List E = btrfs_list E []"

definition no_data :: btrfs_data where "no_data = \<lparr>bi_Profile = [], bi_Total = 0, bi_Used = 0\<rparr>"

definition btrfs_Info :: "'s btrfs_env \<Rightarrow> string \<Rightarrow> ('s, btrfs_info) act" where
  "btrfs_Info E mnt = sbind (btrfs_list E [mnt]) (\<lambda>fss.
     sbind (run_btrfs E [''btrfs'', ''filesystem'', ''df'', ''--raw'', mnt]) (\<lambda>out.
     slift (case fss of [] \<Rightarrow> Inl (Panic ''index out of range'')
       | f # r \<Rightarrow> parseFilesystemDF out \<lparr>fi_FS = f, fi_Data = no_data, fi_System = no_data, fi_MetaData = no_data,
            fi_GlobalReserve = no_data\<rparr>)))"

definition path_check :: "string \<Rightarrow> (fault, unit) result" where
  "path_check p = (if p = [] \<or> \<not> has_prefix ''/'' p then fail ''invalid path'' else Inr ())"

definition SubvolCreate :: "'s btrfs_env \<Rightarrow> string \<Rightarrow> ('s, unit) act" where
  "SubvolCreate E p = sbind (slift (path_check p)) (\<lambda>_. run_ignore E [''btrfs'', ''subvolume'', ''create'', p])"

definition SubvolDelete :: "'s btrfs_env \<Rightarrow> string \<Rightarrow> ('s, unit) act" where
  "SubvolDelete E p = sbind (slift (path_check p)) (\<lambda>_. run_ignore E [''btrfs'', ''subvolume'', ''delete'', p])"

definition SubvolQuota :: "'s btrfs_env \<Rightarrow> string \<Rightarrow> string \<Rightarrow> ('s, unit) act" where
  "SubvolQuota E p limit = sbind (slift (path_check p)) (\<lambda>_.
     sbind (run_ignore E [''btrfs'', ''quota'', ''enable'', p]) (\<lambda>_. run_ignore E [''btrfs'', ''qgroup'', ''limit'', limit, p]))"

definition SubvolSnapshot :: "'s btrfs_env \<Rightarrow> string \<Rightarrow> string \<Rightarrow> bool \<Rightarrow> ('s, unit) act" where
  "SubvolSnapshot E src dst ro = run_ignore E ([''btrfs'', ''subvolume'', ''snapshot''] @ (if ro then [''-r''] else []) @ [src, dst])"

text \<open>\<^verbatim>\<open>IndexAny\<close> asks for any of the characters of its second argument.\<close>

definition index_any :: "string \<Rightarrow> string \<Rightarrow> bool" where
  "index_any s chars \<longleftrightarrow> list_ex (\<lambda>c. c \<in> set chars) s"

definition getQGroups :: "'s btrfs_env \<Rightarrow> string \<Rightarrow> ('s, (string \<times> btrfs_qgroup) list) act" where
  "getQGroups E p = (\<lambda>s. case bt_run E [''btrfs'', ''qgroup'', ''show'', ''-re'', ''--raw'', p] s of ((job, err), s) \<Rightarrow>
     ((case (job, err) of
         (None, Some e) \<Rightarrow> Inl (Fault e)
       | (None, None) \<Rightarrow> Inl (Panic ''nil pointer dereference'')
       | (Some (out, serr), Some e) \<Rightarrow> if index_any serr ''No such file or directory'' then Inr [] else Inr (parseQGroups out)
       | (Some (out, serr), None) \<Rightarrow> Inr (parseQGroups out)), s))"

definition set_quota :: "(string \<times> btrfs_qgroup) list \<Rightarrow> btrfs_subvol \<Rightarrow> btrfs_subvol" where
  "set_quota gs v = (case map_of gs (''0/'' @ itoa_int (sv_ID v)) of None \<Rightarrow> v | Some g \<Rightarrow> v\<lparr>sv_Quota := qg_MaxRfer g\<rparr>)"

definition SubvolList :: "'s btrfs_env \<Rightarrow> string \<Rightarrow> ('s, btrfs_subvol list) act" where
  "SubvolList E p = sbind (slift (path_check p)) (\<lambda>_.
     sbind (run_btrfs E [''btrfs'', ''subvolume'', ''list'', ''-o'', p]) (\<lambda>out.
     sbind (slift (parseSubvolList out)) (\<lambda>vols.
     sbind (getQGroups E p) (\<lambda>gs. sret (map (set_quota gs) vols)))))"

section \<open>What \<^verbatim>\<open>btrfs filesystem show\<close> prints\<close>

definition nl1 :: string where "nl1 = [CHR 0x0A]"
definition tab1 :: string where "tab1 = [CHR 0x09]"
definition quote :: "string \<Rightarrow> string" where "quote s = CHR 0x27 # s @ [CHR 0x27]"

definition print_label :: "string \<Rightarrow> string" where
  "print_label l = (if l = ''none'' then l else quote l)"

definition device_text :: "btrfs_device \<Rightarrow> string" where
  "device_text d = ''devid    '' @ itoa_int (dv_DevID d) @ '' size '' @ itoa_int (dv_Size d) @ '' used '' @ itoa_int (dv_Used d) @
     '' path '' @ dv_Path d"

definition fs_lines :: "btrfs_fs \<Rightarrow> string list" where
  "fs_lines f = [''Label: '' @ print_label (bf_Label f) @ ''  uuid: '' @ bf_UUID f,
      tab1 @ ''Total devices '' @ itoa_int (bf_TotalDevices f) @ '' FS bytes used '' @ itoa_int (bf_Used f)] @
     map (\<lambda>d. tab1 @ device_text d) (bf_Devices f) @ (if bf_Warnings f = [] then [] else [tab1 @ bf_Warnings f])"

definition print_listing :: "btrfs_fs list \<Rightarrow> string" where
  "print_listing fss = concat (map (\<lambda>f. str_join nl1 (fs_lines f) @ nl2) fss)"

definition device_ok :: "btrfs_device \<Rightarrow> bool" where
  "device_ok d \<longleftrightarrow> \<not> dv_Missing d \<and> num_ok (dv_DevID d) \<and> num_ok (dv_Size d) \<and> num_ok (dv_Used d) \<and> word_ok (dv_Path d)"

definition fs_ok :: "btrfs_fs \<Rightarrow> bool" where
  "fs_ok f \<longleftrightarrow> word_ok (bf_Label f) \<and> word_ok (bf_UUID f) \<and> num_ok (bf_TotalDevices f) \<and> num_ok (bf_Used f) \<and>
     bf_Devices f \<noteq> [] \<and> list_all device_ok (bf_Devices f) \<and>
     (bf_Warnings f = [] \<or> has_prefix ''**'' (bf_Warnings f) \<and> TrimSpace (bf_Warnings f) = bf_Warnings f \<and>
        CHR 0x0A \<notin> set (bf_Warnings f))"

subsection \<open>Reading one line\<close>

lemma blank_char: "is_blank (CHR '' '')" by (simp add: is_blank_def)

lemma TrimSpace_tab:
  assumes "s \<noteq> []" and "\<not> is_space (hd s)" and "\<not> is_space (last s)"
  shows "TrimSpace (tab1 @ s) = s"
proof -
  have "trim_left is_space (tab1 @ s) = trim_left is_space s" by (simp add: tab1_def trim_left_def is_space_def)
  also have "\<dots> = s" using assms by (intro trim_left_id) simp
  finally show ?thesis using assms by (simp add: TrimSpace_def trim_right_id)
qed

lemma num_last: "num_ok i \<Longrightarrow> itoa_int i \<noteq> [] \<and> \<not> is_space (last (itoa_int i))"
  using itoa_hd_last(2)[of "nat i"] digit_not_space by (auto simp: num_ok_def itoa_int_def)

lemma word_last: "word_ok w \<Longrightarrow> w \<noteq> [] \<and> \<not> is_space (last w)"
  by (auto simp: word_ok_def list_all_iff)

lemma device_line_print:
  assumes "device_ok d" shows "device_line (tab1 @ device_text d) = Some d"
proof -
  let ?f = "scan_format ''devid    %d size %d used %d path %s''"
  let ?vs = "[SInt (dv_DevID d), SInt (dv_Size d), SInt (dv_Used d), SStr (dv_Path d)]"
  let ?bs = "''    '' # replicate 6 '' ''"
  note ok = assms[unfolded device_ok_def]
  have t: "fill ?f ?vs ?bs = device_text d"
    by (simp add: is_blank_def device_text_def numeral_eq_Suc)
  have "fills ?f ?vs ?bs" using ok by (simp add: is_blank_def numeral_eq_Suc)
  from sscanf_fill[OF this] have s: "sscanf ?f (device_text d) = Some ?vs" unfolding t .
  have "TrimSpace (tab1 @ device_text d) = device_text d"
    using ok word_last[of "dv_Path d"] by (intro TrimSpace_tab) (auto simp: device_text_def is_space_def)
  then show ?thesis using s ok by (simp add: device_line_def del: scan_format.simps)
qed

lemma total_line_print:
  assumes "num_ok n" and "num_ok u"
  shows "sscanf (scan_format ''Total devices %d FS bytes used %d'')
    (TrimSpace (tab1 @ ''Total devices '' @ itoa_int n @ '' FS bytes used '' @ itoa_int u)) = Some [SInt n, SInt u]"
proof -
  let ?f = "scan_format ''Total devices %d FS bytes used %d''" and ?vs = "[SInt n, SInt u]" and ?bs = "replicate 6 '' ''"
  let ?t = "''Total devices '' @ itoa_int n @ '' FS bytes used '' @ itoa_int u"
  have t: "fill ?f ?vs ?bs = ?t" by (simp add: is_blank_def numeral_eq_Suc)
  have "fills ?f ?vs ?bs" using assms by (simp add: is_blank_def numeral_eq_Suc)
  from sscanf_fill[OF this] have s: "sscanf ?f ?t = Some ?vs" unfolding t .
  have "TrimSpace (tab1 @ ?t) = ?t" using num_last[OF assms(2)] by (intro TrimSpace_tab) (auto simp: is_space_def)
  then show ?thesis using s by (simp only:)
qed

lemma label_ok: "word_ok l \<Longrightarrow> word_ok (print_label l)"
  by (auto simp: print_label_def quote_def word_ok_def is_space_def)

lemma label_line_print:
  assumes "word_ok l" and "word_ok u"
  shows "sscanf (scan_format ''Label: %s uuid: %s'') (''Label: '' @ print_label l @ ''  uuid: '' @ u) = Some [SStr (print_label l), SStr u]"
proof -
  let ?f = "scan_format ''Label: %s uuid: %s''" and ?vs = "[SStr (print_label l), SStr u]" and ?bs = "['' '', ''  '', '' '']"
  have t: "fill ?f ?vs ?bs = ''Label: '' @ print_label l @ ''  uuid: '' @ u" by (simp add: is_blank_def)
  have "fills ?f ?vs ?bs" using assms label_ok by (simp add: is_blank_def)
  from sscanf_fill[OF this] show ?thesis unfolding t .
qed

lemma unquote_print: "unquote (print_label l) = Inr l"
  by (auto simp: unquote_def print_label_def quote_def)

lemma parseFS_print:
  assumes "fs_ok f" shows "parseFS (fs_lines f) = Inr f"
proof -
  note ok = assms[unfolded fs_ok_def]
  have d: "\<not> is_warning (tab1 @ device_text d)" if "device_ok d" for d
  proof -
    have "TrimSpace (tab1 @ device_text d) = device_text d"
      using that word_last[of "dv_Path d"] by (intro TrimSpace_tab) (auto simp: device_ok_def device_text_def is_space_def)
    then show ?thesis by (simp add: is_warning_def device_text_def has_prefix_def)
  qed
  have w: "TrimSpace (tab1 @ bf_Warnings f) = bf_Warnings f" if "bf_Warnings f \<noteq> []"
  proof -
    have "TrimSpace (tab1 @ bf_Warnings f) = TrimSpace (bf_Warnings f)"
      by (simp add: TrimSpace_def tab1_def trim_left_def is_space_def)
    then show ?thesis using ok that by simp
  qed
  let ?ws = "if bf_Warnings f = [] then [] else [tab1 @ bf_Warnings f]"
  let ?ds = "map (\<lambda>d. tab1 @ device_text d) (bf_Devices f)"
  have f1: "filter is_warning (?ds @ ?ws) = ?ws" "filter (\<lambda>l. \<not> is_warning l) (?ds @ ?ws) = ?ds"
    using ok d w by (auto simp: list_all_iff filter_empty_conv filter_id_conv is_warning_def)
  have "parseDevices (map (\<lambda>d. tab1 @ device_text d) ds) = ds" if "list_all device_ok ds" for ds
    using that by (induction ds) (simp_all add: parseDevices_def map_filter_simps device_line_print, simp add: tab1_def)
  then have "parseDevices ?ds = bf_Devices f" using ok by blast
  moreover have "concat (map TrimSpace ?ws) = bf_Warnings f" using w by simp
  moreover have "drop 2 (fs_lines f) = ?ds @ ?ws" "hd (fs_lines f) = ''Label: '' @ print_label (bf_Label f) @ ''  uuid: '' @ bf_UUID f"
    "fs_lines f ! 1 = tab1 @ ''Total devices '' @ itoa_int (bf_TotalDevices f) @ '' FS bytes used '' @ itoa_int (bf_Used f)"
    by (simp_all add: fs_lines_def numeral_2_eq_2)
  ultimately show ?thesis
    using label_line_print[of "bf_Label f" "bf_UUID f"] total_line_print[of "bf_TotalDevices f" "bf_Used f"] ok
    unfolding parseFS_def by (simp only: f1 option.case list.case sval.case unquote_print rbind_Inr) simp
qed

subsection \<open>Reading the listing\<close>

lemma nl2_skip: "c \<noteq> CHR 0x0A \<Longrightarrow> str_index nl2 (c # s) = map_option Suc (str_index nl2 s)"
  by (simp add: nl2_def has_prefix_def)

lemma nl2_line: "CHR 0x0A \<notin> set l \<Longrightarrow> str_index nl2 (l @ s) = map_option (\<lambda>i. length l + i) (str_index nl2 s)"
proof (induction l)
  case (Cons c l)
  then show ?case using nl2_skip[of c "l @ s"] by (cases "str_index nl2 s") auto
qed (cases "str_index nl2 s"; simp)

definition line_plain :: "string \<Rightarrow> bool" where "line_plain l \<longleftrightarrow> l \<noteq> [] \<and> CHR 0x0A \<notin> set l"

lemma nl2_block:
  assumes "ls \<noteq> []" and "list_all line_plain ls"
  shows "str_index nl2 (str_join nl1 ls @ nl2 @ r) = Some (length (str_join nl1 ls))"
  using assms
proof (induction nl1 ls rule: str_join.induct)
  case (2 l)
  have "str_index nl2 (nl2 @ r) = Some 0" by (simp add: nl2_def has_prefix_def)
  then show ?case using 2 nl2_line[of l "nl2 @ r"] by (simp add: line_plain_def)
next
  case (3 l m ls)
  let ?t = "str_join nl1 (m # ls) @ nl2 @ r"
  obtain c t where c: "str_join nl1 (m # ls) = c # t" "c \<noteq> CHR 0x0A"
    using 3(3) by (cases m; cases ls) (auto simp: line_plain_def)
  have "str_index nl2 (nl1 @ ?t) = map_option Suc (str_index nl2 ?t)"
    using c by (simp add: nl1_def nl2_def has_prefix_def)
  then show ?case using 3 nl2_line[of l "nl1 @ ?t"] by (simp add: line_plain_def nl1_def)
qed simp

lemma TrimSpace_not_Nil: "\<not> is_space c \<Longrightarrow> TrimSpace (c # s) \<noteq> []"
  by (simp add: TrimSpace_def trim_left_def trim_right_def)

lemma num_no_nl: "num_ok i \<Longrightarrow> CHR 0x0A \<notin> set (itoa_int i)"
  using itoa_no_char[of "CHR 0x0A" "nat i"] by (simp add: num_ok_def itoa_int_def is_digit_def)

lemma word_no_nl: "word_ok w \<Longrightarrow> CHR 0x0A \<notin> set w"
  by (auto simp: word_ok_def list_all_iff is_space_def)

lemma fs_lines_plain:
  assumes "fs_ok f" shows "list_all line_plain (fs_lines f)"
proof -
  note ok = assms[unfolded fs_ok_def]
  have "line_plain (tab1 @ device_text d)" if "device_ok d" for d
    using that num_no_nl word_no_nl[of "dv_Path d"] by (auto simp: line_plain_def device_ok_def device_text_def tab1_def)
  moreover have "CHR 0x0A \<notin> set (print_label (bf_Label f))"
    using word_no_nl[of "bf_Label f"] ok by (auto simp: print_label_def quote_def)
  ultimately show ?thesis
    using ok num_no_nl word_no_nl[of "bf_UUID f"] by (auto simp: fs_lines_def line_plain_def tab1_def list_all_iff)
qed

lemma parse_block_print:
  assumes "fs_ok f" shows "parse_block_fs (str_join nl1 (fs_lines f)) = Inr (Some f)"
proof -
  obtain m ls where l: "fs_lines f = (''Label: '' @ print_label (bf_Label f) @ ''  uuid: '' @ bf_UUID f) # m # ls" "ls \<noteq> []"
    using assms by (auto simp: fs_lines_def fs_ok_def)
  then have b: "\<exists>t. str_join nl1 (fs_lines f) = ''Label:'' @ t" by simp
  then obtain t where t: "str_join nl1 (fs_lines f) = ''Label:'' @ t" by blast
  have "str_index ''Label:'' (str_join nl1 (fs_lines f)) = Some 0" unfolding t by (simp add: has_prefix_def)
  moreover have "TrimSpace (str_join nl1 (fs_lines f)) \<noteq> []"
    unfolding t using TrimSpace_not_Nil[of "CHR ''L''" "''abel:'' @ t"] by (simp add: is_space_def)
  moreover have "split_on (CHR 0x0A) (str_join nl1 (fs_lines f)) = fs_lines f"
    unfolding nl1_def using fs_lines_plain[OF assms] l(1) by (intro split_on_str_join) (auto simp: list_all_iff line_plain_def)
  moreover have "\<not> length (fs_lines f) < 3" using l by (cases ls) auto
  ultimately show ?thesis using parseFS_print[OF assms] by (simp add: parse_block_fs_def)
qed

text \<open>The listing of the file systems is read back exactly: every file system with its label, UUID, sizes, devices and warning,
  in the order of the listing.\<close>

theorem btrfs_parseList_print:
  assumes "list_all fs_ok fss"
  shows "btrfs_parseList (print_listing fss) = Inr fss"
proof -
  have "parse_blocks (split_str nl2 (print_listing fss)) = Inr fss"
    using assms
  proof (induction fss)
    case Nil
    have "split_str nl2 [] = [[]]" by (rule split_str_none) (simp_all add: nl2_def)
    then show ?case by (simp add: print_listing_def parse_block_fs_def TrimSpace_def trim_left_def trim_right_def)
  next
    case (Cons f fss)
    have "nl2 \<noteq> []" by (simp add: nl2_def)
    moreover have "fs_lines f \<noteq> []" by (simp add: fs_lines_def)
    ultimately have "split_str nl2 (print_listing (f # fss)) = str_join nl1 (fs_lines f) # split_str nl2 (print_listing fss)"
      using split_str_first[OF _ nl2_block[OF _ fs_lines_plain]] Cons.prems
      by (simp add: print_listing_def)
    then show ?case using Cons parse_block_print by simp
  qed
  then show ?thesis by (simp add: btrfs_parseList_def)
qed

text \<open>A part of the listing without a label, such as a warning on its own between empty lines, makes the reader panic: the
  position \<open>-1\<close> of the label is used as the start of a slice.\<close>

theorem parseList_panics_without_label:
  assumes "TrimSpace out \<noteq> []" and "str_index ''Label:'' out = None" and "str_index nl2 out = None"
  shows "\<exists>m. btrfs_parseList out = Inl (Panic m)"
proof -
  have "split_str nl2 out = [out]" using assms(3) by (intro split_str_none) (simp_all add: nl2_def)
  then show ?thesis using assms(1,2) by (simp add: btrfs_parseList_def parse_block_fs_def)
qed

text \<open>When the quota groups cannot be read, the error is dropped as soon as its text has one of the letters of "No such file or
  directory": the test is for any of the characters.  The volumes are then listed without their quotas.\<close>

theorem getQGroups_drops_errors:
  assumes "bt_run E [''btrfs'', ''qgroup'', ''show'', ''-re'', ''--raw'', p] s = ((Some (out, serr), Some e), s')"
    and "CHR ''e'' \<in> set serr"
  shows "getQGroups E p s = (Inr [], s')"
  using assms by (auto simp: getQGroups_def index_any_def list_ex_iff)

text \<open>Information on a mount point that holds no file system panics instead of failing.\<close>

theorem Info_panics_without_file_system:
  assumes "bt_run E [''btrfs'', ''filesystem'', ''show'', ''--raw'', mnt] s = ((Some ([], []), None), s1)"
    and "bt_run E [''btrfs'', ''filesystem'', ''df'', ''--raw'', mnt] s1 = ((Some (out, []), None), s2)"
  shows "btrfs_Info E mnt s = (Inl (Panic ''index out of range''), s2)"
proof -
  have "btrfs_parseList [] = Inr []" using btrfs_parseList_print[of "[]"] by (simp add: print_listing_def)
  then show ?thesis using assms by (simp add: btrfs_Info_def btrfs_list_def run_btrfs_def act_defs)
qed

section \<open>Quotas\<close>

definition limit_text :: "nat option \<Rightarrow> string" where
  "limit_text l = (case l of None \<Rightarrow> ''none'' | Some n \<Rightarrow> itoa n)"

text \<open>A line of \<^verbatim>\<open>qgroup show\<close>: level and number of the group, what it refers to and owns, and the limits.\<close>

type_synonym qgroup_row = "nat \<times> nat \<times> nat \<times> nat \<times> nat option \<times> nat option"

definition qgroup_line :: "qgroup_row \<Rightarrow> string" where
  "qgroup_line = (\<lambda>(lv, n, r, e, mr, me). itoa lv @ ''/'' @ itoa n @ ''  '' @ itoa r @ ''  '' @ itoa e @ ''  '' @ limit_text mr @
     ''  '' @ limit_text me @ [CHR 0x0A])"

definition row_of :: "qgroup_row \<Rightarrow> string \<times> string \<times> string \<times> string \<times> string" where
  "row_of = (\<lambda>(lv, n, r, e, mr, me). (itoa lv @ ''/'' @ itoa n, itoa r, itoa e, limit_text mr, limit_text me))"

lemma re_run_digits:
  assumes "r = [] \<or> \<not> is_digit (hd r)" shows "re_run is_digit (itoa n @ r) = Some (itoa n, r)"
proof -
  have "\<forall>x\<in>set (itoa n). is_digit x" using itoa_digits[of n] by (simp add: list_all_iff)
  then have "takeWhile is_digit (itoa n @ r) = itoa n" "dropWhile is_digit (itoa n @ r) = r"
    using assms by (cases r; simp add: takeWhile_append dropWhile_append)+
  then show ?thesis by (simp add: re_run_def)
qed

lemma re_run_blanks: "r = [] \<or> \<not> is_re_space (hd r) \<Longrightarrow> re_run is_re_space (''  '' @ r) = Some (''  '', r)"
  by (cases r) (auto simp: re_run_def Let_def is_re_space_def)

lemma itoa_not_space: "\<not> is_re_space (hd (itoa n @ r))"
  using itoa_hd_last(1)[of n] itoa_not_Nil[of n] by (cases "itoa n") (auto simp: is_digit_def is_re_space_def)

lemma limit_not_space: "\<not> is_re_space (hd (limit_text l @ r))"
  using itoa_not_space by (cases l) (auto simp: limit_text_def is_re_space_def)

lemma re_limit_text: "r = [] \<or> \<not> is_digit (hd r) \<Longrightarrow> re_limit (limit_text l @ r) = Some (limit_text l, r)"
  by (cases l) (auto simp: re_limit_def limit_text_def re_run_digits, simp_all add: re_run_def re_lit_def has_prefix_def is_digit_def)

lemma qgroup_at_line: "qgroup_at (qgroup_line q @ r) = Some (row_of q, CHR 0x0A # r)"
proof -
  obtain lv n rf e mr me where q: "q = (lv, n, rf, e, mr, me)" by (metis prod_cases6)
  have nd: "\<not> is_digit (CHR ''/'')" "\<not> is_digit (CHR '' '')" "\<not> is_digit (CHR 0x0A)" by (simp_all add: is_digit_def)
  have s: "re_run is_digit (itoa k @ CHR ''/'' # t) = Some (itoa k, CHR ''/'' # t)"
    "re_run is_digit (itoa k @ ''  '' @ t) = Some (itoa k, ''  '' @ t)"
    "re_limit (limit_text l @ ''  '' @ t) = Some (limit_text l, ''  '' @ t)"
    "re_limit (limit_text l @ CHR 0x0A # t) = Some (limit_text l, CHR 0x0A # t)"
    "re_run is_re_space (''  '' @ itoa k @ t) = Some (''  '', itoa k @ t)"
    "re_run is_re_space (''  '' @ limit_text l @ t) = Some (''  '', limit_text l @ t)"
    "re_lit ''/'' (CHR ''/'' # t) = Some t" for k l t
    using nd re_run_digits[of "CHR ''/'' # t" k] re_run_digits[of "''  '' @ t" k] re_limit_text[of "''  '' @ t" l]
      re_limit_text[of "CHR 0x0A # t" l] re_run_blanks[of "itoa k @ t"] re_run_blanks[of "limit_text l @ t"]
      itoa_not_space[of k t] limit_not_space[of l t]
    by (simp_all add: re_lit_def has_prefix_def)
  have e: "qgroup_line q @ r = itoa lv @ CHR ''/'' # itoa n @ ''  '' @ itoa rf @ ''  '' @ itoa e @ ''  '' @ limit_text mr @
      ''  '' @ limit_text me @ CHR 0x0A # r" by (simp add: qgroup_line_def q)
  show ?thesis unfolding e qgroup_at_def by (simp only: s bind.bind_lunit prod.case) (simp add: q row_of_def)
qed

lemma find_qgroups_lines: "find_qgroups True (concat (map qgroup_line qs)) = map row_of qs"
proof (induction qs)
  case Nil
  show ?case by (subst find_qgroups.simps) (simp add: qgroup_at_def re_run_def)
next
  case (Cons q qs)
  let ?r = "concat (map qgroup_line qs)"
  have "find_qgroups True (qgroup_line q @ ?r) = row_of q # find_qgroups False (CHR 0x0A # ?r)"
    by (subst find_qgroups.simps) (simp add: qgroup_at_line)
  also have "find_qgroups False (CHR 0x0A # ?r) = find_qgroups True ?r" by (subst find_qgroups.simps) simp
  finally show ?case using Cons.IH by simp
qed

text \<open>The limit of a group by its name, as it was printed: the last line of that name counts; no limit is 0.\<close>

definition listed_limit :: "qgroup_row list \<Rightarrow> nat \<Rightarrow> nat option option" where
  "listed_limit qs i = map_option (\<lambda>(lv, n, r, e, mr, me). mr) (find (\<lambda>(lv, n, r, e, mr, me). lv = 0 \<and> n = i) (rev qs))"

lemma group_name_eq: "itoa lv @ ''/'' @ itoa n = ''0/'' @ itoa i \<longleftrightarrow> lv = 0 \<and> n = i"
proof
  have nd: "CHR ''/'' \<notin> set (itoa k)" for k by (intro itoa_no_char) (simp add: is_digit_def)
  have z: "''0'' = itoa 0" by (simp add: itoa_eval)
  assume "itoa lv @ ''/'' @ itoa n = ''0/'' @ itoa i"
  then have "split_on (CHR ''/'') (itoa lv @ CHR ''/'' # itoa n) = split_on (CHR ''/'') (itoa 0 @ CHR ''/'' # itoa i)"
    by (simp add: z[symmetric])
  then have "itoa lv = itoa 0" "itoa n = itoa i" by (simp_all only: split_on_append[OF nd] split_on_no_sep[OF nd] list.inject)
  then show "lv = 0 \<and> n = i" unfolding itoa_inject by simp
qed (simp add: itoa_eval)

lemma map_of_fold_update:
  "map_of (fold (\<lambda>m. AList.update (fst m) (g m)) xs al) k =
     (case find (\<lambda>m. fst m = k) (rev xs) of Some m \<Rightarrow> Some (g m) | None \<Rightarrow> map_of al k)"
  by (induction xs rule: rev_induct) (auto simp: update_conv')

lemma find_rev_map: "find P (rev (map f xs)) = map_option f (find (P \<circ> f) (rev xs))"
  by (induction xs rule: rev_induct) auto

text \<open>The quota of a volume: it is the limit that the listing of the quota groups shows for the group of the volume, level 0
  and the number of the volume, or 0 when that group has no limit; a volume without a group keeps its quota.\<close>

theorem quota_of_volume:
  assumes "num_ok (sv_ID v)" and "list_all (\<lambda>(lv, n, r, e, mr, me). mr \<noteq> None \<longrightarrow> the mr < 2 ^ 64) qs"
  shows "sv_Quota (set_quota (parseQGroups (concat (map qgroup_line qs))) v) =
    (case listed_limit qs (nat (sv_ID v)) of None \<Rightarrow> sv_Quota v | Some None \<Rightarrow> 0 | Some (Some n) \<Rightarrow> of_nat n)"
proof -
  let ?p = "\<lambda>(lv, n, r, e, mr, me). lv = (0 :: nat) \<and> n = nat (sv_ID v)"
  have p: "((\<lambda>m. fst m = ''0/'' @ itoa_int (sv_ID v)) \<circ> row_of) = ?p"
    using assms(1) group_name_eq by (auto simp: fun_eq_iff row_of_def num_ok_def itoa_int_def)
  have "map_of (parseQGroups (concat (map qgroup_line qs))) k =
      map_option (qgroup_of \<circ> row_of) (find ((\<lambda>m. fst m = k) \<circ> row_of) (rev qs))" for k
    by (simp add: parseQGroups_def find_qgroups_lines map_of_fold_update find_rev_map option.map_comp split: option.split)
  note m = this[of "''0/'' @ itoa_int (sv_ID v)", unfolded p]
  show ?thesis
  proof (cases "find ?p (rev qs)")
    case None
    then show ?thesis unfolding set_quota_def m by (simp add: listed_limit_def)
  next
    case (Some q)
    obtain lv n r e mr me where q: "q = (lv, n, r, e, mr, me)" by (metis prod_cases6)
    have "q \<in> set (rev qs)" using Some unfolding find_Some_iff by (metis nth_mem)
    then have "q \<in> set qs" by simp
    then have b: "mr \<noteq> None \<Longrightarrow> the mr < 2 ^ 64" using assms(2) q by (auto simp: list_all_iff)
    have none: "itoa k \<noteq> ''none''" for k using itoa_hd_last(1)[of k] by (auto simp: is_digit_def)
    have "limit_u64 (limit_text mr) = (case mr of None \<Rightarrow> 0 | Some k \<Rightarrow> of_nat k)"
      using b none by (cases mr) (simp_all add: limit_u64_def limit_text_def parse_u64s_def parse_uint_itoa)
    then show ?thesis unfolding set_quota_def m using Some q by (simp add: listed_limit_def qgroup_of_def row_of_def split: option.splits)
  qed
qed

section \<open>Examples\<close>

definition demo_fs :: btrfs_fs where
  "demo_fs = \<lparr>bf_Label = ''two'', bf_UUID = ''5efab9c9'', bf_TotalDevices = 2, bf_Used = 294912,
     bf_Devices = [\<lparr>dv_Missing = False, dv_DevID = 1, dv_Size = 1048576000, dv_Used = 218103808, dv_Path = ''/dev/loop1''\<rparr>],
     bf_Warnings = ''*** Some devices missing''\<rparr>"

lemma demo_fs_ok: "fs_ok demo_fs"
  by (simp add: fs_ok_def demo_fs_def device_ok_def word_ok_def num_ok_def is_space_def has_prefix_def TrimSpace_def
      trim_left_def trim_right_def)

lemma btrfs_parseList_print_witness: "btrfs_parseList (print_listing [demo_fs, demo_fs]) = Inr [demo_fs, demo_fs]"
  using btrfs_parseList_print[of "[demo_fs, demo_fs]"] demo_fs_ok by simp

lemma parseList_panics_without_label_witness: "\<exists>m. btrfs_parseList ''warning, device 2 is missing'' = Inl (Panic m)"
  by (rule parseList_panics_without_label)
     (simp_all add: TrimSpace_def trim_left_def trim_right_def is_space_def has_prefix_def nl2_def)

definition demo_btrfs :: "string \<Rightarrow> unit btrfs_env" where
  "demo_btrfs err = \<lparr>bt_run = (\<lambda>args s. ((Some ([], err), if err = [] then None else Some (PlainErr err)), s))\<rparr>"

lemma getQGroups_drops_errors_witness:
  "getQGroups (demo_btrfs ''quotas not enabled'') ''/mnt'' () = (Inr [], ())"
  using getQGroups_drops_errors[of "demo_btrfs ''quotas not enabled''" "''/mnt''" "()" "[]" "''quotas not enabled''"
      "PlainErr ''quotas not enabled''" "()"] by (simp add: demo_btrfs_def)

lemma Info_panics_without_file_system_witness:
  "btrfs_Info (demo_btrfs []) ''/mnt'' () = (Inl (Panic ''index out of range''), ())"
  by (rule Info_panics_without_file_system[where ?s1.0 = "()" and out = "[]"]) (simp_all add: demo_btrfs_def)

lemma quota_of_volume_witness:
  "sv_Quota (set_quota (parseQGroups (concat (map qgroup_line [(0, 257, 16384, 16384, Some 1048576, None), (0, 258, 0, 0, None, None)])))
     \<lparr>sv_ID = 257, sv_Gen = 9, sv_TopLevel = 5, sv_Path = ''vol'', sv_Quota = 0\<rparr>) = 1048576"
  using quota_of_volume[of "\<lparr>sv_ID = 257, sv_Gen = 9, sv_TopLevel = 5, sv_Path = ''vol'', sv_Quota = 0\<rparr>"
      "[(0, 257, 16384, 16384, Some 1048576, None), (0, 258, 0, 0, None, None)]"]
  by (simp add: num_ok_def listed_limit_def)

end
