(* ===== verification/Cont_Network.thy ===== *)
theory Cont_Network
  imports Containers Steps
begin

text \<open>
  The network cards of a container on the host and in its name space (\<^verbatim>\<open>containers/plugin/network.go\<close>): what is
  set up before the process of the container runs, what is done once it runs, and what the end of the container takes back.
  The kernel, the programs that are run, the container of Open vSwitch and the zerotier daemon are the functions of
  \<open>net_env\<close>; addresses are those of IPv4.
\<close>

section \<open>Surroundings\<close>

text \<open>A link of the host, and how a call names one: by its name, or by the index of a link that was looked up.\<close>

record nlink =
  nl_Name :: string
  nl_Index :: int
  nl_Type :: string
  nl_HW :: string

datatype lref = ByName string | ByIndex int

datatype jval = JText string | JInt int

text \<open>\<open>ne_dispatch\<close> runs a command in a container and gives the state and the data of its result; \<open>ne_zt\<close> makes sure
  that the zerotier daemon of the container runs; \<open>ne_sleep\<close> lets milliseconds pass.\<close>

record 's net_env =
  ne_by_name :: "string \<Rightarrow> 's \<Rightarrow> (go_error, nlink) result"
  ne_by_index :: "int \<Rightarrow> 's \<Rightarrow> (go_error, nlink) result"
  ne_add_veth :: "string \<Rightarrow> string \<Rightarrow> 's \<Rightarrow> (go_error, unit) result \<times> 's"
  ne_add_macvlan :: "string \<Rightarrow> int \<Rightarrow> 's \<Rightarrow> (go_error, unit) result \<times> 's"
  ne_link_del :: "lref \<Rightarrow> 's \<Rightarrow> (go_error, unit) result \<times> 's"
  ne_set_master :: "lref \<Rightarrow> lref \<Rightarrow> 's \<Rightarrow> (go_error, unit) result \<times> 's"
  ne_set_hw :: "lref \<Rightarrow> string \<Rightarrow> 's \<Rightarrow> (go_error, unit) result \<times> 's"
  ne_set_down :: "lref \<Rightarrow> 's \<Rightarrow> (go_error, unit) result \<times> 's"
  ne_set_name :: "lref \<Rightarrow> string \<Rightarrow> 's \<Rightarrow> (go_error, unit) result \<times> 's"
  ne_set_ns :: "lref \<Rightarrow> int \<Rightarrow> 's \<Rightarrow> (go_error, unit) result \<times> 's"
  ne_system :: "string list \<Rightarrow> 's \<Rightarrow> (go_error, unit) result \<times> 's"
  ne_run :: "string list \<Rightarrow> 's \<Rightarrow> (go_error, unit) result \<times> 's"
  ne_dispatch :: "16 word \<Rightarrow> string \<Rightarrow> (string \<times> jval) list \<Rightarrow> 's \<Rightarrow> (go_error, string \<times> string) result \<times> 's"
  ne_json_text :: "string \<Rightarrow> (go_error, string) result"
  ne_mac :: "string \<Rightarrow> (go_error, string) result"
  ne_append :: "string \<Rightarrow> string \<Rightarrow> 's \<Rightarrow> (go_error, unit) result \<times> 's"
  ne_write :: "string \<Rightarrow> string \<Rightarrow> 's \<Rightarrow> (go_error, unit) result \<times> 's"
  ne_mkdir :: "string \<Rightarrow> 's \<Rightarrow> (go_error, unit) result \<times> 's"
  ne_bind :: "string \<Rightarrow> string \<Rightarrow> 's \<Rightarrow> (go_error, unit) result \<times> 's"
  ne_umount :: "string \<Rightarrow> 's \<Rightarrow> (go_error, unit) result \<times> 's"
  ne_remove_all :: "string \<Rightarrow> 's \<Rightarrow> (go_error, unit) result \<times> 's"
  ne_signal :: "string \<Rightarrow> string \<Rightarrow> 's \<Rightarrow> (go_error, unit) result \<times> 's"
  ne_job :: "string \<Rightarrow> 's \<Rightarrow> bool"
  ne_zt :: "'s \<Rightarrow> (go_error, unit) result \<times> 's"
  ne_sleep :: "nat \<Rightarrow> 's \<Rightarrow> 's"
  ne_nft :: "'s nft_tool"

text \<open>The container that is worked on: its number, root, process, port forwards, and the manager that knows the others.\<close>

record cont_ctx =
  cx_id :: "16 word"
  cx_root :: string
  cx_pid :: int
  cx_host_network :: bool
  cx_ports :: "(string \<times> int) list"
  cx_mgr :: cmanager

text \<open>The state: the cards of the container, the port forwards of the host and the rest of the world.\<close>

record 's cnet =
  cw_nics :: "nic list"
  cw_socat :: socat
  cw_sys :: 's

definition sys :: "('s \<Rightarrow> (go_error, 'a) result \<times> 's) \<Rightarrow> ('s cnet, 'a) act" where
  "sys f = scall (\<lambda>s. case f (cw_sys s) of (r, w) \<Rightarrow> (r, s\<lparr>cw_sys := w\<rparr>))"

definition ask :: "('s \<Rightarrow> (go_error, 'a) result) \<Rightarrow> ('s cnet, 'a) act" where
  "ask f = sask (\<lambda>s. f (cw_sys s))"

definition on_socat :: "(socat \<times> 's \<Rightarrow> (go_error, 'a) result \<times> socat \<times> 's) \<Rightarrow> ('s cnet, 'a) act" where
  "on_socat f = scall (\<lambda>s. case f (cw_socat s, cw_sys s) of (r, sc, w) \<Rightarrow> (r, s\<lparr>cw_socat := sc, cw_sys := w\<rparr>))"

text \<open>The card is shared by reference: a change of it is seen by everybody.\<close>

definition upd_nic :: "nat \<Rightarrow> (nic \<Rightarrow> nic) \<Rightarrow> ('s cnet, unit) act" where
  "upd_nic k f = (\<lambda>s. (Inr (), s\<lparr>cw_nics := (cw_nics s)[k := f (cw_nics s ! k)]\<rparr>))"

section \<open>Before the container runs\<close>

definition OVSTag :: string where "OVSTag = ''ovs''"
definition OVSBackPlane :: string where "OVSBackPlane = ''backplane''"
definition OVSVXBackend :: string where "OVSVXBackend = ''vxbackend''"

definition ovs_id :: "cont_ctx \<Rightarrow> 16 word option" where
  "ovs_id cx = map_option ct_id (GetOneWithTags [OVSTag] (cx_mgr cx))"

text \<open>A hardware address that cannot be parsed is only logged.\<close>

definition set_hw_address :: "'s net_env \<Rightarrow> lref \<Rightarrow> nic \<Rightarrow> ('s cnet, unit) act" where
  "set_hw_address E l n =
     (if nic_HWAddress n = [] then sret ()
      else (case ne_mac E (nic_HWAddress n) of
          Inl e \<Rightarrow> sret ()
        | Inr mac \<Rightarrow> werr (told ''failed to setup hw address: '') (sys (ne_set_hw E l mac))))"

definition attach_master :: "'s net_env \<Rightarrow> string \<Rightarrow> nlink \<Rightarrow> string \<Rightarrow> 16 word option \<Rightarrow> ('s cnet, unit) act" where
  "attach_master E name link bridge ovs =
     (case ovs of
        None \<Rightarrow>
          if nl_Type link \<noteq> ''bridge'' then slift (Inl (Fault (BadRequestError (in_quotes bridge @ '' is not a bridge''))))
          else sys (ne_set_master E (ByName name) (ByIndex (nl_Index link)))
      | Some i \<Rightarrow>
          sbind (werr (told ''ovs dispatch error: '')
            (sys (ne_dispatch E i ''ovs.port-add'' [(''bridge'', JText bridge), (''port'', JText name)]))) (\<lambda>(st, data).
          if st \<noteq> ''SUCCESS'' then slift (fail (''failed to attach veth to bridge: '' @ data)) else sret ()))"

definition preBridge :: "'s net_env \<Rightarrow> cont_ctx \<Rightarrow> nat \<Rightarrow> string \<Rightarrow> nic \<Rightarrow> 16 word option \<Rightarrow> ('s cnet, unit) act" where
  "preBridge E cx index bridge n ovs =
     (let name = link_name (cx_id cx) index (nic_Monitor n) in
      sbind (werr (\<lambda>e. NotFoundError (''bridge '' @ in_quotes bridge @ '' not found: '' @ error_text e)) (ask (ne_by_name E bridge))) (\<lambda>link.
      sbind (werr (told ''create veth pair fail: '') (sys (ne_add_veth E name (peer_name name)))) (\<lambda>_.
      sbind (attach_master E name link bridge ovs) (\<lambda>_.
      sbind (werr (told ''get peer: '') (ask (ne_by_name E (peer_name name)))) (\<lambda>peer.
      set_hw_address E (ByIndex (nl_Index peer)) n)))))"

definition preMacVlanNetwork :: "'s net_env \<Rightarrow> cont_ctx \<Rightarrow> nat \<Rightarrow> nic \<Rightarrow> ('s cnet, unit) act" where
  "preMacVlanNetwork E cx index n =
     (let name = link_name (cx_id cx) index (nic_Monitor n) in
      sbind (werr (\<lambda>e. NotFoundError (''link '' @ in_quotes (nic_ID n) @ '' not found: '' @ error_text e)) (ask (ne_by_name E (nic_ID n)))) (\<lambda>link.
      sbind (werr (told ''create macvlan link fail: '') (sys (ne_add_macvlan E name (nl_Index link)))) (\<lambda>_.
      set_hw_address E (ByName name) n)))"

definition prePassthroughNetwork :: "'s net_env \<Rightarrow> cont_ctx \<Rightarrow> nat \<Rightarrow> nic \<Rightarrow> ('s cnet, unit) act" where
  "prePassthroughNetwork E cx index n =
     sbind (werr (\<lambda>e. NotFoundError (''link '' @ in_quotes (nic_ID n) @ '' not found: '' @ error_text e)) (ask (ne_by_name E (nic_ID n)))) (\<lambda>link.
     sbind (upd_nic index (\<lambda>n. n\<lparr>nic_Index := nl_Index link, nic_OriginalHWAddress := nl_HW link\<rparr>)) (\<lambda>_.
     sbind (sys (ne_set_down E (ByIndex (nl_Index link)))) (\<lambda>_.
     sbind (sys (ne_set_name E (ByIndex (nl_Index link)) (link_name (cx_id cx) index (nic_Monitor n)))) (\<lambda>_.
     set_hw_address E (ByIndex (nl_Index link)) n))))"

definition DefaultBridgeIP :: string where "DefaultBridgeIP = print_ipv4 BridgeIP"

text \<open>The card of the default network has only a configuration; everything else of it is empty, the wish for monitoring too.\<close>

definition defnet :: "cont_ctx \<Rightarrow> nic" where
  "defnet cx = \<lparr>nic_Type = [], nic_ID = [], nic_HWAddress = [], nic_Name = [],
     nic_Config = \<lparr>nc_Dhcp = False, nc_CIDR = print_ipv4 (getDefaultIP (cx_id cx)) @ ''/16'', nc_Gateway = DefaultBridgeIP,
       nc_DNS = [DefaultBridgeIP]\<rparr>,
     nic_Monitor = False, nic_State = NicStateNone, nic_Index = 0, nic_OriginalHWAddress = []\<rparr>"

definition preDefaultNetwork :: "'s net_env \<Rightarrow> cont_ctx \<Rightarrow> nat \<Rightarrow> ('s cnet, unit) act" where
  "preDefaultNetwork E cx index =
     sbind (preBridge E cx index DefaultBridgeName (defnet cx) None) (\<lambda>_.
     on_socat (setPortForwards (ne_nft E) (cx_id cx) (cx_ports cx)))"

text \<open>The bridge for a tag is made by the container with Open vSwitch, which answers with its name.\<close>

definition ensure_bridge :: "'s net_env \<Rightarrow> 16 word \<Rightarrow> string \<Rightarrow> string \<Rightarrow> int \<Rightarrow> ('s cnet, string) act" where
  "ensure_bridge E ovs tag master i =
     sbind (sys (ne_dispatch E ovs (''ovs.'' @ tag @ ''-ensure'') [(''master'', JText master), (tag, JInt i)])) (\<lambda>(st, data).
     if st \<noteq> ''SUCCESS'' then slift (fail (''failed to ensure '' @ tag @ '' bridge: '' @ data))
     else werr (told (''failed to load '' @ tag @ ''-ensure result: '')) (slift (lift_err (ne_json_text E data))))"

definition num_fault :: "num_error \<Rightarrow> fault" where
  "num_fault e = Fault (PlainErr (case e of ErrSyntax \<Rightarrow> ''invalid syntax'' | ErrRange \<Rightarrow> ''value out of range''))"

definition preVxlanNetwork :: "'s net_env \<Rightarrow> cont_ctx \<Rightarrow> nat \<Rightarrow> nic \<Rightarrow> ('s cnet, unit) act" where
  "preVxlanNetwork E cx index n = (case parse_int 64 (nic_ID n) of
     Inl e \<Rightarrow> slift (Inl (num_fault e))
   | Inr vxlan \<Rightarrow> (case ovs_id cx of
       None \<Rightarrow> slift (Inl (Fault (PreconditionFailedError ''ovs is needed for VXLAN network type'')))
     | Some ovs \<Rightarrow>
         sbind (ensure_bridge E ovs ''vxlan'' OVSVXBackend vxlan) (\<lambda>bridge.
         preBridge E cx index bridge n (Some ovs))))"

definition preVlanNetwork :: "'s net_env \<Rightarrow> cont_ctx \<Rightarrow> nat \<Rightarrow> nic \<Rightarrow> ('s cnet, unit) act" where
  "preVlanNetwork E cx index n = (case parse_int 16 (nic_ID n) of
     Inl e \<Rightarrow> slift (Inl (num_fault e))
   | Inr vlan \<Rightarrow>
       if vlan < 0 \<or> 4095 \<le> vlan then slift (fail ''invalid vlan id (0-4094)'')
       else (case ovs_id cx of
         None \<Rightarrow> slift (Inl (Fault (PreconditionFailedError ''ovs is needed for VLAN network type'')))
       | Some ovs \<Rightarrow>
           sbind (ensure_bridge E ovs ''vlan'' OVSBackPlane vlan) (\<lambda>bridge.
           preBridge E cx index bridge n (Some ovs))))"

definition pre_setup :: "'s net_env \<Rightarrow> cont_ctx \<Rightarrow> nat \<Rightarrow> nic \<Rightarrow> ('s cnet, unit) act" where
  "pre_setup E cx index n =
     (if nic_Type n = ''vxlan'' then preVxlanNetwork E cx index n
      else if nic_Type n = ''vlan'' then preVlanNetwork E cx index n
      else if nic_Type n = ''default'' then preDefaultNetwork E cx index
      else if nic_Type n = ''bridge'' then preBridge E cx index (nic_ID n) n None
      else if nic_Type n = ''macvlan'' then preMacVlanNetwork E cx index n
      else if nic_Type n = ''passthrough'' then prePassthroughNetwork E cx index n
      else if nic_Type n = ''zerotier'' then sret ()
      else slift (Inl (Fault (BadRequestError (''unkown network type '' @ in_quotes (nic_Type n))))))"

definition the_nic :: "nat \<Rightarrow> ('s cnet, nic) act" where "the_nic k = sget (\<lambda>s. Inr (cw_nics s ! k))"

definition set_state :: "nat \<Rightarrow> nic_state \<Rightarrow> ('s cnet, unit) act" where
  "set_state k st = upd_nic k (\<lambda>n. n\<lparr>nic_State := st\<rparr>)"

definition pre_nic :: "'s net_env \<Rightarrow> cont_ctx \<Rightarrow> nat \<Rightarrow> ('s cnet, unit) act" where
  "pre_nic E cx k =
     sbind (set_state k NicStateUnknown) (\<lambda>_. sbind (the_nic k) (\<lambda>n.
     on_fault (pre_setup E cx k n) (set_state k NicStateError)))"

definition preStartIsolatedNetworking :: "'s net_env \<Rightarrow> cont_ctx \<Rightarrow> ('s cnet, unit) act" where
  "preStartIsolatedNetworking E cx = (\<lambda>s. sfor (pre_nic E cx) [0..<length (cw_nics s)] s)"

section \<open>Once the container runs\<close>

definition ip_n :: "cont_ctx \<Rightarrow> string list \<Rightarrow> string list" where
  "ip_n cx args = [''ip'', ''-n'', itoa (unat (cx_id cx))] @ args"

definition setGateway :: "'s net_env \<Rightarrow> cont_ctx \<Rightarrow> string \<Rightarrow> string \<Rightarrow> ('s cnet, unit) act" where
  "setGateway E cx dev gw = werr (told ''error settings default gateway: '')
     (sys (ne_system E (ip_n cx [''route'', ''add'', ''metric'', ''1000'', ''default'', ''via'', gw, ''dev'', dev])))"

definition setDNS :: "'s net_env \<Rightarrow> cont_ctx \<Rightarrow> string \<Rightarrow> ('s cnet, unit) act" where
  "setDNS E cx dns =
     sbind (signore (sys (ne_mkdir E (cx_root cx @ ''/etc'')))) (\<lambda>_.
     sys (ne_append E (cx_root cx @ ''/etc/resolv.conf'') ([CHR 0x0A] @ ''nameserver '' @ dns @ [CHR 0x0A])))"

definition setup_address :: "'s net_env \<Rightarrow> cont_ctx \<Rightarrow> string \<Rightarrow> network_config \<Rightarrow> ('s cnet, unit) act" where
  "setup_address E cx target c =
     (if nc_Dhcp c then
        signore (sys (ne_run E [''ip'', ''netns'', ''exec'', itoa (unat (cx_id cx)), ''udhcpc'', ''-q'', ''-i'', target, ''-s'',
          ''/usr/share/udhcp/simple.script'']))
      else if nc_CIDR c \<noteq> [] then
        (case ParseCIDR (nc_CIDR c) of
           None \<Rightarrow> slift (fail (''invalid CIDR address: '' @ nc_CIDR c))
         | Some a \<Rightarrow>
             sbind (werr (told ''error bringing interface up: '')
               (sys (ne_system E (ip_n cx [''link'', ''set'', ''dev'', target, ''up''])))) (\<lambda>_.
             werr (told ''error settings interface ip: '')
               (sys (ne_system E (ip_n cx [''address'', ''add'', nc_CIDR c, ''dev'', target])))))
      else sret ())"

definition setupLink :: "'s net_env \<Rightarrow> cont_ctx \<Rightarrow> string \<Rightarrow> string \<Rightarrow> nic \<Rightarrow> ('s cnet, unit) act" where
  "setupLink E cx src target n =
     sbind (werr (told ''get link: '') (ask (ne_by_name E src))) (\<lambda>link.
     sbind (werr (told ''set ns pid: '') (sys (ne_set_ns E (ByIndex (nl_Index link)) (cx_pid cx)))) (\<lambda>_.
     sbind (werr (told ''failed to rename device: '') (sys (ne_system E (ip_n cx [''link'', ''set'', src, ''name'', target])))) (\<lambda>_.
     sbind (setup_address E cx target (nic_Config n)) (\<lambda>_.
     sbind (if nc_Gateway (nic_Config n) \<noteq> [] then setGateway E cx target (nc_Gateway (nic_Config n)) else sret ()) (\<lambda>_.
     sfor (setDNS E cx) (nc_DNS (nic_Config n)))))))"

definition postBridge :: "'s net_env \<Rightarrow> cont_ctx \<Rightarrow> string \<Rightarrow> nat \<Rightarrow> nic \<Rightarrow> ('s cnet, unit) act" where
  "postBridge E cx dev index n = setupLink E cx (peer_name (link_name (cx_id cx) index (nic_Monitor n))) dev n"

definition postLink :: "'s net_env \<Rightarrow> cont_ctx \<Rightarrow> string \<Rightarrow> nat \<Rightarrow> nic \<Rightarrow> ('s cnet, unit) act" where
  "postLink E cx dev index n = setupLink E cx (link_name (cx_id cx) index (nic_Monitor n)) dev n"

definition zerotierHome :: "cont_ctx \<Rightarrow> string" where
  "zerotierHome cx = ''/var/cache/containers/'' @ itoa (unat (cx_id cx)) @ ''/zerotier''"

definition zerotier_cli :: "'s net_env \<Rightarrow> cont_ctx \<Rightarrow> string \<Rightarrow> string \<Rightarrow> ('s cnet, unit) act" where
  "zerotier_cli E cx verb netID =
     sbind (sys (ne_zt E)) (\<lambda>_.
     sys (ne_system E [''ip'', ''netns'', ''exec'', itoa (unat (cx_id cx)), ''zerotier-cli'', ''-D'' @ zerotierHome cx, verb, netID]))"

definition joinZerotierNetwork :: "'s net_env \<Rightarrow> cont_ctx \<Rightarrow> string \<Rightarrow> ('s cnet, unit) act" where
  "joinZerotierNetwork E cx netID = zerotier_cli E cx ''join'' netID"

definition leaveZerotierNetwork :: "'s net_env \<Rightarrow> cont_ctx \<Rightarrow> string \<Rightarrow> ('s cnet, unit) act" where
  "leaveZerotierNetwork E cx netID = zerotier_cli E cx ''leave'' netID"

definition post_setup :: "'s net_env \<Rightarrow> cont_ctx \<Rightarrow> nat \<Rightarrow> nic \<Rightarrow> ('s cnet, unit) act" where
  "post_setup E cx k n =
     (let name = device_name k n in
      if nic_Type n \<in> {''vxlan'', ''vlan'', ''bridge''} then postBridge E cx name k n
      else if nic_Type n = ''zerotier'' then joinZerotierNetwork E cx (nic_ID n)
      else if nic_Type n = ''default'' then postBridge E cx name k (defnet cx)
      else if nic_Type n \<in> {''macvlan'', ''passthrough''} then postLink E cx name k n
      else sret ())"

text \<open>The state of the card tells how it went.\<close>

definition post_nic :: "'s net_env \<Rightarrow> cont_ctx \<Rightarrow> nat \<Rightarrow> ('s cnet, unit) act" where
  "post_nic E cx k =
     sbind (the_nic k) (\<lambda>n.
     sbind (on_fault (post_setup E cx k n) (set_state k NicStateError)) (\<lambda>_. set_state k NicStateConfigured))"

definition namespace_of :: "cont_ctx \<Rightarrow> string" where
  "namespace_of cx = ''/run/netns/'' @ itoa (unat (cx_id cx))"

definition ct_namespace :: "'s net_env \<Rightarrow> cont_ctx \<Rightarrow> ('s cnet, unit) act" where
  "ct_namespace E cx =
     sbind (signore (sys (ne_mkdir E ''/run/netns''))) (\<lambda>_.
     sbind (signore (sys (ne_write E (namespace_of cx) []))) (\<lambda>_.
     werr (told ''namespace mount: '') (sys (ne_bind E (''/proc/'' @ itoa_int (cx_pid cx) @ ''/ns/net'') (namespace_of cx)))))"

definition hostsFile :: string where
  "hostsFile = ''127.0.0.1'' @ [CHR 0x09] @ ''localhost.localdomain'' @ [CHR 0x09] @ ''localhost''"

definition setupLO :: "'s net_env \<Rightarrow> cont_ctx \<Rightarrow> ('s cnet, unit) act" where
  "setupLO E cx =
     sbind (sys (ne_system E (ip_n cx [''address'', ''add'', ''127.0.0.1/8'', ''dev'', ''lo'']))) (\<lambda>_.
     sbind (sys (ne_system E (ip_n cx [''address'', ''add'', ''::1/128'', ''dev'', ''lo'']))) (\<lambda>_.
     sbind (sys (ne_system E (ip_n cx [''link'', ''set'', ''lo'', ''up'']))) (\<lambda>_.
     sys (ne_write E (cx_root cx @ ''/etc/hosts'') hostsFile))))"

definition postStartIsolatedNetworking :: "'s net_env \<Rightarrow> cont_ctx \<Rightarrow> ('s cnet, unit) act" where
  "postStartIsolatedNetworking E cx =
     sbind (ct_namespace E cx) (\<lambda>_. sbind (setupLO E cx) (\<lambda>_. (\<lambda>s.
     sfor (\<lambda>k. signore (post_nic E cx k)) [0..<length (cw_nics s)] s)))"

section \<open>At the end\<close>

definition unLink :: "'s net_env \<Rightarrow> cont_ctx \<Rightarrow> nat \<Rightarrow> nic \<Rightarrow> ('s cnet, unit) act" where
  "unLink E cx k n =
     (if nic_Type n \<noteq> ''macvlan'' then slift (fail ''unlink is only for macvlan nic type'')
      else sbind (sys (ne_system E (ip_n cx [''link'', ''del'', ''eth'' @ itoa k]))) (\<lambda>_. set_state k NicStateDestroyed))"

definition unBridge :: "'s net_env \<Rightarrow> cont_ctx \<Rightarrow> nat \<Rightarrow> nic \<Rightarrow> 16 word option \<Rightarrow> ('s cnet, unit) act" where
  "unBridge E cx k n ovs =
     (let name = link_name (cx_id cx) k (nic_Monitor n) in
      sbind (set_state k NicStateDestroyed) (\<lambda>_.
      sbind (case ovs of None \<Rightarrow> sret () | Some i \<Rightarrow>
          sbind (sys (ne_dispatch E i ''ovs.port-del'' [(''port'', JText name)])) (\<lambda>_. sret ())) (\<lambda>_.
      sbind (ask (ne_by_name E name)) (\<lambda>link.
      sys (ne_link_del E (ByIndex (nl_Index link)))))))"

text \<open>The wait for a device to come back: \<open>rounds\<close> sleeps of a tenth of a second are left.\<close>

fun find_link :: "'s net_env \<Rightarrow> int \<Rightarrow> nat \<Rightarrow> ('s cnet, nlink) act" where
  "find_link E index 0 s = (case ne_by_index E index (cw_sys s) of
     Inr l \<Rightarrow> (Inr l, s)
   | Inl e \<Rightarrow> (fail (''failed to find device with index: '' @ itoa_int index), s))"
| "find_link E index (Suc rounds) s = (case ne_by_index E index (cw_sys s) of
     Inr l \<Rightarrow> (Inr l, s)
   | Inl e \<Rightarrow> find_link E index rounds (s\<lparr>cw_sys := ne_sleep E 100 (cw_sys s)\<rparr>))"

definition destroyPassthroughNetwork :: "'s net_env \<Rightarrow> nic \<Rightarrow> ('s cnet, unit) act" where
  "destroyPassthroughNetwork E n =
     sbind (find_link E (nic_Index n) 30) (\<lambda>link.
     sbind (sys (ne_set_hw E (ByIndex (nl_Index link)) (nic_OriginalHWAddress n))) (\<lambda>_.
     sys (ne_set_name E (ByIndex (nl_Index link)) (nic_ID n))))"

definition destroy_nic :: "'s net_env \<Rightarrow> cont_ctx \<Rightarrow> nat \<Rightarrow> ('s cnet, unit) act" where
  "destroy_nic E cx k = sbind (the_nic k) (\<lambda>n.
     if nic_Type n = ''vxlan'' \<or> nic_Type n = ''vlan'' then signore (unBridge E cx k n (ovs_id cx))
     else if nic_Type n = ''default'' then
       sbind (signore (unBridge E cx k n None)) (\<lambda>_. signore (on_socat (RemoveAll (ne_nft E) (forwardId (cx_id cx)))))
     else sret ())"

definition restore_nic :: "'s net_env \<Rightarrow> nat \<Rightarrow> ('s cnet, unit) act" where
  "restore_nic E k = sbind (the_nic k) (\<lambda>n.
     if nic_Type n = ''passthrough'' then signore (destroyPassthroughNetwork E n) else sret ())"

definition drop_namespace :: "'s net_env \<Rightarrow> cont_ctx \<Rightarrow> ('s cnet, unit) act" where
  "drop_namespace E cx =
     (if 0 < cx_pid cx then
        sbind (signore (sys (ne_umount E (namespace_of cx)))) (\<lambda>_. signore (sys (ne_remove_all E (namespace_of cx))))
      else sret ())"

definition stop_zerotier :: "'s net_env \<Rightarrow> cont_ctx \<Rightarrow> ('s cnet, unit) act" where
  "stop_zerotier E cx = (\<lambda>s. (if ne_job E (zerotierID (cx_id cx)) (cw_sys s)
     then signore (sys (ne_signal E (zerotierID (cx_id cx)) ''TERM'')) else sret ()) s)"

definition destroyNetwork :: "'s net_env \<Rightarrow> cont_ctx \<Rightarrow> ('s cnet, unit) act" where
  "destroyNetwork E cx = (\<lambda>s. let idx = [0..<length (cw_nics s)] in
     (if cx_host_network cx then sret ()
      else sbind (sfor (destroy_nic E cx) idx) (\<lambda>_.
           sbind (stop_zerotier E cx) (\<lambda>_.
           sbind (drop_namespace E cx) (\<lambda>_.
           sfor (restore_nic E) idx)))) s)"

section \<open>Starting\<close>

text \<open>\<^verbatim>\<open>Start\<close> with the steps that are not about the network: \<open>sandbox\<close> mounts the root, \<open>run\<close> starts
  the process, \<open>unmount\<close> takes the mounts back.  Every failure ends in the clean-up.\<close>

definition preStartHostNetworking :: "'s net_env \<Rightarrow> cont_ctx \<Rightarrow> ('s cnet, unit) act" where
  "preStartHostNetworking E cx = (let p = cx_root cx @ ''/etc/resolv.conf'' in
     sbind (signore (sys (ne_remove_all E p))) (\<lambda>_. sbind (signore (sys (ne_write E p []))) (\<lambda>_.
     sys (ne_bind E ''/etc/resolv.conf'' p))))"

definition preStart :: "'s net_env \<Rightarrow> cont_ctx \<Rightarrow> ('s cnet, unit) act" where
  "preStart E cx = (if cx_host_network cx then preStartHostNetworking E cx else preStartIsolatedNetworking E cx)"

definition postStart :: "'s net_env \<Rightarrow> cont_ctx \<Rightarrow> ('s cnet, unit) act" where
  "postStart E cx = (if cx_host_network cx then sret () else postStartIsolatedNetworking E cx)"

definition ct_cleanup :: "'s net_env \<Rightarrow> cont_ctx \<Rightarrow> ('s cnet, unit) act \<Rightarrow> ('s cnet, unit) act" where
  "ct_cleanup E cx unmount = sbind (destroyNetwork E cx) (\<lambda>_. signore unmount)"

definition ct_Start ::
  "'s net_env \<Rightarrow> cont_ctx \<Rightarrow> ('s cnet, unit) act \<Rightarrow> ('s cnet, unit) act \<Rightarrow> ('s cnet, unit) act \<Rightarrow> ('s cnet, unit) act" where
  "ct_Start E cx sandbox run unmount =
     on_fault (sbind sandbox (\<lambda>_. sbind (preStart E cx) (\<lambda>_. run))) (ct_cleanup E cx unmount)"

section \<open>Names of devices\<close>

lemma link_name_inject: "link_name i k m = link_name i' k' m' \<longleftrightarrow> i = i' \<and> k = k' \<and> m = m'"
proof
  assume eq: "link_name i k m = link_name i' k' m'"
  have d: "hd (itoa n) \<noteq> CHR ''m''" "itoa n \<noteq> []" for n using hd_itoa_digit[of n] by (auto simp: is_digit_def)
  have m: "m = m'"
    using eq d[of "unat i"] d[of "unat i'"] by (cases "itoa (unat i)"; cases "itoa (unat i')") (auto simp: link_name_def split: if_splits)
  then have r: "itoa (unat i) @ CHR ''-'' # itoa k = itoa (unat i') @ CHR ''-'' # itoa k'"
    using eq by (simp add: link_name_def split: if_splits)
  have t: "takeWhile is_digit (itoa n @ CHR ''-'' # r) = itoa n" for n r by (rule takeWhile_itoa) (simp add: is_digit_def)
  have "itoa (unat i) = itoa (unat i')" using arg_cong[OF r, of "takeWhile is_digit"] by (simp only: t)
  then show "i = i' \<and> k = k' \<and> m = m'" using r m by (simp add: word_unat_eq_iff)
qed simp

lemma last_link_name: "is_digit (last (link_name i k m))"
  using itoa_hd_last(2)[of k] by (simp add: link_name_def)

lemma itoa_length: "n < 10 ^ d \<Longrightarrow> 0 < d \<Longrightarrow> length (itoa n) \<le> d"
proof (induction d arbitrary: n)
  case (Suc d)
  show ?case
  proof (cases "n < 10")
    case True
    then show ?thesis by (subst itoa.simps) simp
  next
    case False
    then have "0 < d" using Suc.prems(1) by (cases d) auto
    moreover have "n div 10 < 10 ^ d" using Suc.prems(1) by (simp add: less_mult_imp_div_less mult.commute)
    ultimately show ?thesis using Suc.IH[of "n div 10"] False by (subst itoa.simps) simp
  qed
qed simp

text \<open>The devices of all cards of all containers have different names on the host, and so have the other ends of their pairs;
  for the first thousand cards the names fit into the 15 characters of a device name.\<close>

theorem device_names_distinct_and_short:
  "(link_name i k m = link_name i' k' m' \<longleftrightarrow> i = i' \<and> k = k' \<and> m = m') \<and>
   (peer_name (link_name i k m) = peer_name (link_name i' k' m') \<longleftrightarrow> i = i' \<and> k = k' \<and> m = m') \<and>
   peer_name (link_name i k m) \<noteq> link_name i' k' m' \<and>
   length (peer_name (link_name i (k mod 1000) m)) \<le> 15"
proof -
  have "\<not> is_digit (CHR ''p'')" by (simp add: is_digit_def)
  then have "last (peer_name (link_name i k m)) \<noteq> last (link_name i' k' m')"
    using last_link_name[of i' k' m'] by (auto simp: peer_name_def)
  then have ne: "peer_name (link_name i k m) \<noteq> link_name i' k' m'" by metis
  have "unat i < 2 ^ 16" using unsigned_less[of i] by simp
  then have "unat i < 10 ^ 5" by simp
  then have "length (itoa (unat i)) \<le> 5" by (rule itoa_length) simp
  moreover have "length (itoa (k mod 1000)) \<le> 3" by (rule itoa_length) auto
  ultimately have "length (peer_name (link_name i (k mod 1000) m)) \<le> 15" by (simp add: peer_name_def link_name_def)
  with ne show ?thesis by (simp add: link_name_inject peer_name_def)
qed

section \<open>Steps that keep what is known\<close>
















lemma no_panic_find_link [no_panic_intros]: "no_panic (find_link E i r)"
  unfolding no_panic_def
proof (intro allI)
  fix s p show "fst (find_link E i r s) \<noteq> Inl (Panic p)"
    by (induction r arbitrary: s) (auto simp: fail_def split: sum.splits)
qed


lemma succeeds_calls [succeeds_intros]: "succeeds (set_state k st)" "succeeds (the_nic k)"
  by (auto simp: succeeds_def set_state_def upd_nic_def the_nic_def sget_def)











section \<open>Cards that stay behind\<close>

text \<open>A card of the default network with a wish for monitoring is set up without it, under the plain name; its removal looks for
  the name of a monitored card, so it fails, marks the card as destroyed and leaves everything on the host as it is.\<close>

theorem monitored_default_not_removed:
  assumes "preDefaultNetwork E cx k s = (Inr (), s1)" and "nic_Monitor n"
    and "ne_by_name E (link_name (cx_id cx) k True) (cw_sys s2) = Inl e"
  shows "(\<exists>w w'. ne_add_veth E (link_name (cx_id cx) k False) (peer_name (link_name (cx_id cx) k False)) w = (Inr (), w')) \<and>
    fst (unBridge E cx k n None s2) = Inl (Fault e) \<and> cw_sys (snd (unBridge E cx k n None s2)) = cw_sys s2"
proof -
  let ?name = "link_name (cx_id cx) k False"
  obtain r w' where v: "ne_add_veth E ?name (peer_name ?name) (cw_sys s) = (r, w')" by (cases "ne_add_veth E ?name (peer_name ?name) (cw_sys s)")
  have "r = Inr ()"
    using assms(1) v
    by (cases r; cases "ne_by_name E DefaultBridgeName (cw_sys s)")
      (auto simp: preDefaultNetwork_def preBridge_def Let_def defnet_def sbind_def werr_def ask_def sask_def sys_def scall_def)
  then show ?thesis using v assms(2,3)
    by (auto simp: unBridge_def Let_def sbind_def set_state_def upd_nic_def sret_def ask_def sask_def)
qed

text \<open>What the end of a container does when it has only cards of the types bridge and macvlan and never ran: nothing.\<close>

lemma destroyNetwork_ignores:
  assumes "\<And>n. n \<in> set (cw_nics s) \<Longrightarrow> nic_Type n \<in> {''bridge'', ''macvlan'', ''zerotier''}"
    and "cx_pid cx = 0" and "\<not> ne_job E (zerotierID (cx_id cx)) (cw_sys s)"
  shows "destroyNetwork E cx s = (Inr (), s)"
proof -
  have "destroy_nic E cx k s = (Inr (), s)" "restore_nic E k s = (Inr (), s)" if "k < length (cw_nics s)" for k
    using assms(1)[OF nth_mem[OF that]] by (auto simp: destroy_nic_def restore_nic_def sbind_def the_nic_def sget_def sret_def)
  then have "sfor (destroy_nic E cx) xs s = (Inr (), s)" "sfor (restore_nic E) xs s = (Inr (), s)"
    if "set xs \<subseteq> {..<length (cw_nics s)}" for xs
    using that by (induction xs) (auto simp: sbind_def sret_def)
  note loops = this[of "[0..<length (cw_nics s)]", simplified atLeast_upt[symmetric] lessThan_atLeast0]
  show ?thesis using loops assms(2,3)
    by (auto simp: destroyNetwork_def Let_def sbind_def stop_zerotier_def drop_namespace_def sret_def)
qed

text \<open>The start of a container whose first card is set up on a bridge and whose second one names a bridge that is not there
  fails and is cleaned up, but the device of the first card stays on the host.\<close>

theorem failed_start_leaks_bridge:
  assumes "cw_nics s = [b, v]" and "nic_Type b = ''bridge''" and "nic_HWAddress b = []" and "nic_Type v = ''bridge''"
    and "\<not> cx_host_network cx" and "cx_pid cx = 0" and "name = link_name (cx_id cx) 0 (nic_Monitor b)"
    and "ne_by_name E (nic_ID b) (cw_sys s) = Inr l" and "nl_Type l = ''bridge''"
    and "ne_add_veth E name (peer_name name) (cw_sys s) = (Inr (), w1)"
    and "ne_set_master E (ByName name) (ByIndex (nl_Index l)) w1 = (Inr (), w2)"
    and "ne_by_name E (peer_name name) w2 = Inr p" and "ne_by_name E (nic_ID v) w2 = Inl e"
    and "\<not> ne_job E (zerotierID (cx_id cx)) w2"
  shows "\<exists>e s'. ct_Start E cx (sret ()) run (sret ()) s = (Inl (Fault e), s') \<and> cw_sys s' = w2"
proof -
  let ?s1 = "s\<lparr>cw_nics := [b\<lparr>nic_State := NicStateUnknown\<rparr>, v], cw_sys := w2\<rparr>"
  let ?s2 = "?s1\<lparr>cw_nics := [b\<lparr>nic_State := NicStateUnknown\<rparr>, v\<lparr>nic_State := NicStateError\<rparr>]\<rparr>"
  let ?e = "NotFoundError (''bridge '' @ in_quotes (nic_ID v) @ '' not found: '' @ error_text e)"
  note steps = sbind_def sget_def slift_def sret_def on_fault_def werr_def ask_def sask_def sys_def scall_def
    pre_nic_def set_state_def upd_nic_def the_nic_def pre_setup_def preBridge_def attach_master_def set_hw_address_def
  have p0: "pre_nic E cx 0 s = (Inr (), ?s1)"
    using assms(1-3,7-12) by (simp add: steps Let_def)
  have p1: "pre_nic E cx 1 ?s1 = (Inl (Fault ?e), ?s2)"
    using assms(4,13) by (simp add: steps Let_def)
  have "destroyNetwork E cx ?s2 = (Inr (), ?s2)"
    using assms(2,4,6,14) by (intro destroyNetwork_ignores) auto
  moreover have "preStart E cx s = (Inl (Fault ?e), ?s2)"
    using p0 p1 assms(1,5) by (simp add: preStart_def preStartIsolatedNetworking_def upt_rec sbind_def)
  ultimately show ?thesis by (simp add: ct_Start_def ct_cleanup_def on_fault_def sbind_def sret_def signore_def)
qed

section \<open>Devices that are passed through\<close>


definition after_sleeps :: "'s net_env \<Rightarrow> nat \<Rightarrow> 's \<Rightarrow> 's" where
  "after_sleeps E j w = ((ne_sleep E 100) ^^ j) w"

lemma after_sleeps_Suc: "after_sleeps E (Suc j) w = after_sleeps E j (ne_sleep E 100 w)"
  by (simp add: after_sleeps_def funpow_swap1)


text \<open>A device that does not come back is looked for once and then after each of thirty sleeps, three seconds in all.\<close>

theorem find_link_gives_up:
  assumes "\<And>j. j \<le> r \<Longrightarrow> \<exists>e. ne_by_index E i (after_sleeps E j (cw_sys s)) = Inl e"
  shows "find_link E i r s = (fail (''failed to find device with index: '' @ itoa_int i), s\<lparr>cw_sys := after_sleeps E r (cw_sys s)\<rparr>)"
  using assms
proof (induction r arbitrary: s)
  case 0
  then show ?case using 0[of 0] by (auto simp: after_sleeps_def)
next
  case (Suc r)
  obtain e where e: "ne_by_index E i (cw_sys s) = Inl e" using Suc.prems[of 0] by (auto simp: after_sleeps_def)
  let ?s = "s\<lparr>cw_sys := ne_sleep E 100 (cw_sys s)\<rparr>"
  have "\<exists>e. ne_by_index E i (after_sleeps E j (cw_sys ?s)) = Inl e" if "j \<le> r" for j
    using Suc.prems[of "Suc j"] that by (simp add: after_sleeps_Suc)
  from Suc.IH[OF this] show ?case using e by (simp add: after_sleeps_Suc)
qed






section \<open>What becomes of the cards\<close>














section \<open>The manager's view\<close>




section \<open>A host for the examples\<close>

text \<open>The devices of the host by position, each with its name, type and hardware address; a device without a name is gone.\<close>

type_synonym demo_host = "(string \<times> string \<times> string) list"

definition demo_at :: "demo_host \<Rightarrow> int \<Rightarrow> (go_error, nlink) result" where
  "demo_at w i = (if 0 \<le> i \<and> nat i < length w \<and> fst (w ! nat i) \<noteq> [] then
     Inr \<lparr>nl_Name = fst (w ! nat i), nl_Index = i, nl_Type = fst (snd (w ! nat i)), nl_HW = snd (snd (w ! nat i))\<rparr>
     else Inl (PlainErr ''no such device''))"

definition demo_by_name :: "string \<Rightarrow> demo_host \<Rightarrow> (go_error, nlink) result" where
  "demo_by_name x w = (case find (\<lambda>i. fst (w ! i) = x \<and> x \<noteq> []) [0..<length w] of
     None \<Rightarrow> Inl (PlainErr ''no such device'') | Some i \<Rightarrow> demo_at w (int i))"

definition demo_change :: "lref \<Rightarrow> (string \<times> string \<times> string \<Rightarrow> string \<times> string \<times> string) \<Rightarrow> demo_host \<Rightarrow> (go_error, unit) result \<times> demo_host" where
  "demo_change r f w = (case (case r of ByName x \<Rightarrow> demo_by_name x w | ByIndex i \<Rightarrow> demo_at w i) of
     Inl e \<Rightarrow> (Inl e, w) | Inr l \<Rightarrow> (Inr (), w[nat (nl_Index l) := f (w ! nat (nl_Index l))]))"

definition demo_del :: "lref \<Rightarrow> demo_host \<Rightarrow> (go_error, unit) result \<times> demo_host" where
  "demo_del r w = (case (case r of ByName x \<Rightarrow> demo_by_name x w | ByIndex i \<Rightarrow> demo_at w i) of
     Inl e \<Rightarrow> (Inl e, w) | Inr l \<Rightarrow> (Inr (), map (\<lambda>d. if fst d = nl_Name l then ([], [], []) else d) w))"

definition demo_ok :: "demo_host \<Rightarrow> (go_error, unit) result \<times> demo_host" where "demo_ok w = (Inr (), w)"

definition demo_net :: "demo_host net_env" where
  "demo_net = \<lparr>ne_by_name = demo_by_name, ne_by_index = (\<lambda>i w. demo_at w i),
     ne_add_veth = (\<lambda>a b w. (Inr (), w @ [(a, ''veth'', []), (b, ''veth'', [])])),
     ne_add_macvlan = (\<lambda>a i w. (Inr (), w @ [(a, ''macvlan'', [])])),
     ne_link_del = demo_del, ne_set_master = (\<lambda>a b. demo_ok),
     ne_set_hw = (\<lambda>r h. demo_change r (\<lambda>(n, t, hw). (n, t, h))), ne_set_down = (\<lambda>r. demo_ok),
     ne_set_name = (\<lambda>r x. demo_change r (\<lambda>(n, t, hw). (x, t, hw))), ne_set_ns = (\<lambda>r p. demo_del r),
     ne_system = (\<lambda>a. demo_ok), ne_run = (\<lambda>a. demo_ok), ne_dispatch = (\<lambda>i c a w. (Inr (''SUCCESS'', []), w)),
     ne_json_text = Inr, ne_mac = Inr, ne_append = (\<lambda>p t. demo_ok), ne_write = (\<lambda>p t. demo_ok), ne_mkdir = (\<lambda>p. demo_ok),
     ne_bind = (\<lambda>a b. demo_ok), ne_umount = (\<lambda>p. demo_ok), ne_remove_all = (\<lambda>p. demo_ok), ne_signal = (\<lambda>j g. demo_ok),
     ne_job = (\<lambda>j w. False), ne_zt = demo_ok, ne_sleep = (\<lambda>t w. w),
     ne_nft = \<lparr>run_nft = (\<lambda>a w. (Inr [], w)), run_file = (\<lambda>t. demo_ok), json_dec = (\<lambda>t. Inl (PlainErr ''no JSON''))\<rparr>\<rparr>"










definition demo_cx :: cont_ctx where
  "demo_cx = \<lparr>cx_id = 1, cx_root = ''/mnt/containers/1'', cx_pid = 0, cx_host_network = False, cx_ports = [],
     cx_mgr = \<lparr>cm_sequence = 1, cm_containers = []\<rparr>\<rparr>"

definition demo_state :: "nic list \<Rightarrow> demo_host \<Rightarrow> demo_host cnet" where
  "demo_state ns w = \<lparr>cw_nics = ns, cw_socat = \<lparr>sc_rules = [], sc_reserved = Map.empty\<rparr>, cw_sys = w\<rparr>"


lemma monitored_default_not_removed_witness:
  "let s = demo_state [] [(''core0'', ''bridge'', [])];
       s2 = demo_state [(plain_nic ''default'' [] [])\<lparr>nic_Monitor := True\<rparr>] [(''core0'', ''bridge'', []), (''cont1-0'', ''veth'', [])] in
   (\<exists>w w'. ne_add_veth demo_net (link_name 1 0 False) (peer_name (link_name 1 0 False)) w = (Inr (), w')) \<and>
   fst (unBridge demo_net demo_cx 0 ((plain_nic ''default'' [] [])\<lparr>nic_Monitor := True\<rparr>) None s2) = Inl (Fault (PlainErr ''no such device'')) \<and>
   cw_sys (snd (unBridge demo_net demo_cx 0 ((plain_nic ''default'' [] [])\<lparr>nic_Monitor := True\<rparr>) None s2)) = cw_sys s2"
proof -
  let ?w = "[(''core0'', ''bridge'', [])] :: demo_host"
  let ?w1 = "?w @ [(link_name 1 0 False, ''veth'', []), (peer_name (link_name 1 0 False), ''veth'', [])]"
  have n: "link_name 1 0 False = ''cont1-0''" "link_name 1 0 True = ''contm1-0''" by (simp_all add: link_name_def itoa_eval)
  have a: "demo_by_name ''core0'' ?w = Inr \<lparr>nl_Name = ''core0'', nl_Index = 0, nl_Type = ''bridge'', nl_HW = []\<rparr>"
    "demo_by_name ''cont1-0p'' [(''core0'', ''bridge'', []), (''cont1-0'', ''veth'', []), (''cont1-0p'', ''veth'', [])] =
       Inr \<lparr>nl_Name = ''cont1-0p'', nl_Index = 2, nl_Type = ''veth'', nl_HW = []\<rparr>"
    by code_simp+
  have pre: "preDefaultNetwork demo_net demo_cx 0 (demo_state [] ?w) = (Inr (), demo_state [] ?w1)"
    using a by (simp add: preDefaultNetwork_def preBridge_def attach_master_def set_hw_address_def defnet_def Let_def sbind_def slift_def sret_def
      werr_def ask_def sask_def sys_def scall_def on_socat_def demo_net_def demo_cx_def demo_state_def demo_ok_def DefaultBridgeName_def
      n peer_name_def del: setPortForwards.simps) (simp add: setPortForwards.simps)
  have none: "ne_by_name demo_net (link_name (cx_id demo_cx) 0 True)
      (cw_sys (demo_state [(plain_nic ''default'' [] [])\<lparr>nic_Monitor := True\<rparr>] [(''core0'', ''bridge'', []), (''cont1-0'', ''veth'', [])])) =
      Inl (PlainErr ''no such device'')"
    by (simp add: demo_net_def demo_cx_def demo_state_def n demo_by_name_def)
  show ?thesis
    using monitored_default_not_removed[OF pre _ none, of "(plain_nic ''default'' [] [])\<lparr>nic_Monitor := True\<rparr>"]
    by (simp add: demo_cx_def plain_nic_def Let_def)
qed

lemma find_link_gives_up_witness:
  "find_link demo_net 7 30 (demo_state [] []) = (fail (''failed to find device with index: '' @ itoa_int 7),
     (demo_state [] [])\<lparr>cw_sys := after_sleeps demo_net 30 (cw_sys (demo_state [] []))\<rparr>)"
proof -
  have "after_sleeps demo_net j [] = []" for j by (induction j) (simp_all add: after_sleeps_def demo_net_def)
  then show ?thesis by (intro find_link_gives_up) (simp add: demo_net_def demo_at_def demo_state_def)
qed

lemma failed_start_leaks_bridge_witness:
  "let b = plain_nic ''bridge'' ''br0'' []; v = plain_nic ''bridge'' ''br1'' []; s = demo_state [b, v] [(''br0'', ''bridge'', [])] in
   \<exists>e s'. ct_Start demo_net demo_cx (sret ()) (sret ()) (sret ()) s = (Inl (Fault e), s') \<and>
     cw_sys s' = [(''br0'', ''bridge'', []), (''cont1-0'', ''veth'', []), (''cont1-0p'', ''veth'', [])]"
  unfolding Let_def
proof (rule failed_start_leaks_bridge)
  let ?w = "[(''br0'', ''bridge'', []), (''cont1-0'', ''veth'', []), (''cont1-0p'', ''veth'', [])] :: demo_host"
  have n: "link_name 1 0 False = ''cont1-0''" by (simp add: link_name_def itoa_eval)
  show "ne_by_name demo_net (nic_ID (plain_nic ''bridge'' ''br0'' [])) (cw_sys (demo_state [plain_nic ''bridge'' ''br0'' [], plain_nic ''bridge'' ''br1'' []]
      [(''br0'', ''bridge'', [])])) = Inr \<lparr>nl_Name = ''br0'', nl_Index = 0, nl_Type = ''bridge'', nl_HW = []\<rparr>"
    by (simp add: demo_net_def demo_state_def plain_nic_def demo_by_name_def demo_at_def)
  show "ne_by_name demo_net (peer_name (link_name 1 0 False)) ?w = Inr \<lparr>nl_Name = ''cont1-0p'', nl_Index = 2, nl_Type = ''veth'', nl_HW = []\<rparr>"
    unfolding n by (simp add: demo_net_def peer_name_def demo_by_name_def demo_at_def upt_rec)
  show "ne_by_name demo_net (nic_ID (plain_nic ''bridge'' ''br1'' [])) ?w = Inl (PlainErr ''no such device'')"
    by (simp add: demo_net_def plain_nic_def demo_by_name_def upt_rec)
  show "ne_add_veth demo_net (link_name 1 0 False) (peer_name (link_name 1 0 False)) (cw_sys (demo_state
      [plain_nic ''bridge'' ''br0'' [], plain_nic ''bridge'' ''br1'' []] [(''br0'', ''bridge'', [])])) = (Inr (), ?w)"
    unfolding n by (simp add: demo_net_def demo_state_def peer_name_def)
qed (simp_all add: demo_state_def demo_cx_def plain_nic_def demo_net_def demo_ok_def)



end
