(* ===== verification/Dmi.thy ===== *)
theory Dmi
  imports Utils_Model Pm_Types
begin

text \<open>
  The reader of the output of \<^verbatim>\<open>dmidecode\<close> and the action around it (\<^verbatim>\<open>base/info/dmi.go\<close>).  A section
  starts with a handle line and a title; a property is a key and a value, with a list of items when the lines after it are
  indented deeper.  Lines are looked at by their positions, as in the code.
\<close>

section \<open>Data\<close>

record property_data =
  pd_Val :: string
  pd_Items :: "string list"

record dmi_section =
  ds_HandleLine :: string
  ds_Title :: string
  ds_TypeStr :: string
  ds_Type :: int
  ds_Properties :: "string \<rightharpoonup> property_data"

type_synonym dmi = "string \<rightharpoonup> dmi_section"

definition dmitypeToString :: "string list" where
  "dmitypeToString = [''BIOS'', ''System'', ''Baseboard'', ''Chassis'', ''Processor'', ''MemoryController'', ''MemoryModule'',
     ''Cache'', ''PortConnector'', ''SystemSlots'', ''OnBoardDevices'', ''OEMSettings'', ''SystemConfigurationOptions'',
     ''BIOSLanguage'', ''GroupAssociations'', ''SystemEventLog'', ''PhysicalMemoryArray'', ''MemoryDevice'',
     ''32BitMemoryError'', ''MemoryArrayMappedAddress'', ''MemoryDeviceMappedAddress'', ''BuiltinPointingDevice'',
     ''PortableBattery'', ''SystemReset'', ''HardwareSecurity'', ''SystemPowerControls'', ''VoltageProbe'', ''CoolingDevice'',
     ''TempratureProbe'', ''ElectricalCurrentProbe'', ''OutOfBandRemoteAccess'', ''BootIntegrityServices'', ''SystemBoot'',
     ''64BitMemoryError'', ''ManagementDevice'', ''ManagementDeviceComponent'', ''ManagementThresholdData'', ''MemoryChannel'',
     ''IPMIDevice'', ''PowerSupply'', ''AdditionalInformation'', ''OnboardDeviceExtendedInformation'',
     ''ManagementControllerHostInterface'']"

text \<open>A type without a name has the empty one, as a missing key of a Go map.\<close>

definition DMITypeToString :: "int \<Rightarrow> string" where
  "DMITypeToString t = (if 0 \<le> t \<and> t < int (length dmitypeToString) then dmitypeToString ! nat t else [])"

definition dmiKeywords :: "string list" where
  "dmiKeywords = [''bios'', ''system'', ''baseboard'', ''chassis'', ''processor'', ''memory'', ''cache'', ''connector'', ''slot'']"

section \<open>Lines\<close>

definition dmi_num_err :: "num_error \<Rightarrow> go_error" where
  "dmi_num_err e = PlainErr (case e of ErrSyntax \<Rightarrow> ''invalid syntax'' | ErrRange \<Rightarrow> ''value out of range'')"

text \<open>\<^verbatim>\<open>DMI type ([0-9]+)\<close>: the digits of the first place where the expression matches.\<close>

fun find_type :: "string \<Rightarrow> string option" where
  "find_type [] = None"
| "find_type (c # s) =
     (let r = drop 9 (c # s) in
      if has_prefix ''DMI type '' (c # s) \<and> r \<noteq> [] \<and> is_digit (hd r) then Some (takeWhile is_digit r) else find_type s)"

definition getDMITypeFromHandleLine :: "string \<Rightarrow> (go_error, int) result" where
  "getDMITypeFromHandleLine line =
     (case find_type line of
        None \<Rightarrow> Inl (PlainErr (''couldn't find dmitype in handleline '' @ line))
      | Some ds \<Rightarrow> (case parse_int 64 ds of Inl e \<Rightarrow> Inl (dmi_num_err e) | Inr t \<Rightarrow> Inr t))"

definition getLineLevel :: "string \<Rightarrow> nat" where
  "getLineLevel line = (let n = length (takeWhile is_space line) in if n < length line then n else 0)"

text \<open>\<^verbatim>\<open>(.+?):(.*)\<close> on one line: the key ends at the first colon that is not its first character.\<close>

definition propertyFromLine :: "string \<Rightarrow> (go_error, string \<times> property_data) result" where
  "propertyFromLine line =
     (case line of
        [] \<Rightarrow> Inl (PlainErr ''couldn't find key value pair on the line '')
      | c # r \<Rightarrow>
          if CHR '':'' \<in> set r then
            Inr (TrimSpace (c # takeWhile (\<lambda>x. x \<noteq> CHR '':'') r),
                 \<lparr>pd_Val = TrimSpace (drop 1 (dropWhile (\<lambda>x. x \<noteq> CHR '':'') r)), pd_Items = []\<rparr>)
          else Inl (PlainErr (''couldn't find key value pair on the line '' @ line)))"

section \<open>Sections\<close>

text \<open>The loop of \<^verbatim>\<open>readList\<close>: items up to the first line of another level.\<close>

function list_loop :: "nat \<Rightarrow> string list \<Rightarrow> nat \<Rightarrow> property_data \<Rightarrow> property_data \<times> nat" where
  "list_loop lv lines start pd =
     (if start < length lines then
        (let line = lines ! start in
         if getLineLevel line = lv then list_loop lv lines (start + 1) (pd\<lparr>pd_Items := pd_Items pd @ [TrimSpace line]\<rparr>)
         else (pd, start - 1))
      else (pd, start))"
  by pat_completeness auto
termination by (relation "measure (\<lambda>(lv, lines, start, pd). length lines - start)") auto

declare list_loop.simps [simp del]

text \<open>The caller has looked at the line at \<open>start\<close>, so it exists.\<close>

definition readList :: "property_data \<Rightarrow> string list \<Rightarrow> nat \<Rightarrow> property_data \<times> nat" where
  "readList pd lines start = list_loop (getLineLevel (lines ! start)) lines start pd"

lemma list_loop_ge: "n \<le> start \<Longrightarrow> (n < start \<or> getLineLevel (lines ! start) = lv) \<Longrightarrow> n \<le> snd (list_loop lv lines start pd)"
proof (induction lv lines start pd rule: list_loop.induct)
  case (1 lv lines start pd)
  then show ?case by (subst list_loop.simps) (auto simp: Let_def)
qed

lemma readList_ge: "n \<le> start \<Longrightarrow> n \<le> snd (readList pd lines start)"
  unfolding readList_def by (rule list_loop_ge) auto

text \<open>A property takes the lines after it as its list when they are indented deeper; the position of its last line is returned.\<close>

definition read_items :: "string list \<Rightarrow> nat \<Rightarrow> property_data \<Rightarrow> property_data \<times> nat" where
  "read_items lines start pd =
     (let next_level = (if start + 1 < length lines then getLineLevel (lines ! (start + 1)) else 0) in
      if getLineLevel (lines ! start) < next_level then readList pd lines (start + 1) else (pd, start))"

lemma read_items_ge: "read_items lines start pd = (pd', at) \<Longrightarrow> start \<le> at"
  using readList_ge[of start "start + 1" pd lines] by (auto simp: read_items_def Let_def split: if_splits)

function section_loop :: "string list \<Rightarrow> nat \<Rightarrow> dmi_section \<Rightarrow> (go_error, dmi_section \<times> nat) result" where
  "section_loop lines start sec =
     (if start < length lines then
        (if TrimSpace (lines ! start) = [] then Inr (sec, start)
         else (case propertyFromLine (lines ! start) of
             Inl e \<Rightarrow> Inl e
           | Inr (key, pd) \<Rightarrow> (case read_items lines start pd of (pd, at) \<Rightarrow>
               section_loop lines (at + 1) (sec\<lparr>ds_Properties := (ds_Properties sec)(key \<mapsto> pd)\<rparr>))))
      else Inr (sec, start))"
  by pat_completeness auto
termination
  by (relation "measure (\<lambda>(lines, start, sec). length lines - start)") (auto dest!: read_items_ge[OF sym])

declare section_loop.simps [simp del]

definition newSection :: dmi_section where
  "newSection = \<lparr>ds_HandleLine = [], ds_Title = [], ds_TypeStr = [], ds_Type = 0, ds_Properties = Map.empty\<rparr>"

definition readSection :: "dmi_section \<Rightarrow> string list \<Rightarrow> nat \<Rightarrow> (go_error, dmi_section \<times> nat) result" where
  "readSection sec lines start =
     (if length lines < start + 2 then Inl (PlainErr ''invalid section size'')
      else (let sec = sec\<lparr>ds_HandleLine := lines ! start, ds_Title := lines ! (start + 1)\<rparr> in
            rbind (getDMITypeFromHandleLine (ds_HandleLine sec)) (\<lambda>t.
            section_loop lines (start + 2) (sec\<lparr>ds_Type := t, ds_TypeStr := DMITypeToString t\<rparr>))))"

lemma section_loop_ge: "section_loop lines start sec = Inr (sec', n) \<Longrightarrow> start \<le> n"
proof (induction lines start sec rule: section_loop.induct)
  case (1 lines start sec)
  show ?case
  proof (cases "start < length lines \<and> TrimSpace (lines ! start) \<noteq> []")
    case False
    then show ?thesis using 1(2) by (subst (asm) section_loop.simps) (auto split: if_splits)
  next
    case True
    with 1(2) obtain kp where kp: "propertyFromLine (lines ! start) = Inr kp"
      by (subst (asm) section_loop.simps) (cases "propertyFromLine (lines ! start)"; simp)
    obtain key pd pd' at where p: "kp = (key, pd)" "read_items lines start pd = (pd', at)"
      by (metis surj_pair)
    have "section_loop lines (at + 1) (sec\<lparr>ds_Properties := (ds_Properties sec)(key \<mapsto> pd')\<rparr>) = Inr (sec', n)"
      using 1(2) True kp p by (subst (asm) section_loop.simps) simp
    then have "at + 1 \<le> n" using 1(1) True kp p by simp
    then show ?thesis using read_items_ge[OF p(2)] by simp
  qed
qed

lemma readSection_ge: "readSection sec lines start = Inr (sec', n) \<Longrightarrow> start \<le> n"
  by (auto simp: readSection_def Let_def rbind_eq_Inr split: if_splits dest: section_loop_ge)

function dmi_loop :: "string list \<Rightarrow> nat \<Rightarrow> dmi \<Rightarrow> (go_error, dmi) result" where
  "dmi_loop lines start secs =
     (if start < length lines then
        (if has_prefix ''Handle'' (lines ! start) then
           (case readSection newSection lines start of
              Inl e \<Rightarrow> Inl e
            | Inr (sec, at) \<Rightarrow> dmi_loop lines (at + 1) (secs(ds_Title sec \<mapsto> sec)))
         else dmi_loop lines (start + 1) secs)
      else Inr secs)"
  by pat_completeness auto
termination
  by (relation "measure (\<lambda>(lines, start, secs). length lines - start)") (auto dest: readSection_ge)

declare dmi_loop.simps [simp del]

definition ParseDMI :: "string \<Rightarrow> (go_error, dmi) result" where
  "ParseDMI input = dmi_loop (split_on (CHR 0x0A) input) 0 Map.empty"

section \<open>The listing that is read\<close>

text \<open>A property of a listing: its key, its value and its items.  Properties are indented by \<open>i\<close> blanks, items by \<open>j\<close>.\<close>

type_synonym dmi_prop = "string \<times> string \<times> string list"

definition tabs :: "nat \<Rightarrow> string" where "tabs n = replicate n (CHR 0x09)"

definition prop_line :: "nat \<Rightarrow> dmi_prop \<Rightarrow> string" where
  "prop_line i = (\<lambda>(k, v, is). tabs i @ k @ '':'' @ (if v = [] then [] else CHR '' '' # v))"

definition item_line :: "nat \<Rightarrow> string \<Rightarrow> string" where "item_line j t = tabs j @ t"

definition prop_lines :: "nat \<Rightarrow> nat \<Rightarrow> dmi_prop \<Rightarrow> string list" where
  "prop_lines i j p = prop_line i p # map (item_line j) (snd (snd p))"

text \<open>A section of a listing: the handle line, the title and the properties; an empty line follows.\<close>

type_synonym dmi_print = "string \<times> string \<times> dmi_prop list"

definition section_lines :: "nat \<Rightarrow> nat \<Rightarrow> dmi_print \<Rightarrow> string list" where
  "section_lines i j = (\<lambda>(h, t, ps). h # t # concat (map (prop_lines i j) ps) @ [[]])"

definition trimmed :: "string \<Rightarrow> bool" where
  "trimmed s \<longleftrightarrow> s \<noteq> [] \<and> \<not> is_space (hd s) \<and> \<not> is_space (last s) \<and> CHR 0x0A \<notin> set s"

definition prop_ok :: "dmi_prop \<Rightarrow> bool" where
  "prop_ok = (\<lambda>(k, v, is). trimmed k \<and> CHR '':'' \<notin> set k \<and> (v = [] \<or> trimmed v) \<and> list_all trimmed is)"

definition section_ok :: "dmi_print \<Rightarrow> bool" where
  "section_ok = (\<lambda>(h, t, ps). has_prefix ''Handle'' h \<and> isl (getDMITypeFromHandleLine h) = False \<and>
     CHR 0x0A \<notin> set h \<and> CHR 0x0A \<notin> set t \<and> list_all prop_ok ps)"

text \<open>What the section stands for.\<close>

definition data_of :: "dmi_prop \<Rightarrow> property_data" where
  "data_of = (\<lambda>(k, v, is). \<lparr>pd_Val = v, pd_Items = is\<rparr>)"

definition add_prop :: "dmi_prop \<Rightarrow> (string \<rightharpoonup> property_data) \<Rightarrow> string \<rightharpoonup> property_data" where
  "add_prop p m = m(fst p \<mapsto> data_of p)"

definition section_of :: "dmi_print \<Rightarrow> dmi_section" where
  "section_of = (\<lambda>(h, t, ps). let n = projr (getDMITypeFromHandleLine h) in
     \<lparr>ds_HandleLine = h, ds_Title = t, ds_TypeStr = DMITypeToString n, ds_Type = n,
      ds_Properties = fold add_prop ps Map.empty\<rparr>)"

definition add_section :: "dmi_print \<Rightarrow> dmi \<Rightarrow> dmi" where
  "add_section s m = m(fst (snd s) \<mapsto> section_of s)"

lemma tabs_space: "c \<in> set (tabs n) \<Longrightarrow> is_space c"
  by (auto simp: tabs_def is_space_def)

lemma TrimSpace_trimmed: "trimmed s \<Longrightarrow> TrimSpace s = s"
  by (cases s) (auto simp: trimmed_def TrimSpace_def trim_left_id trim_right_id)

lemma TrimSpace_blanks: "\<forall>c\<in>set b. is_space c \<Longrightarrow> TrimSpace (b @ s) = TrimSpace s"
  by (simp add: TrimSpace_def trim_left_def dropWhile_append2)

lemma getLineLevel_tabs:
  assumes "\<not> is_space c" shows "getLineLevel (tabs n @ c # s) = n"
proof -
  have "takeWhile is_space (tabs n @ c # s) = tabs n" using tabs_space assms by (simp add: takeWhile_append2)
  then show ?thesis by (simp add: getLineLevel_def tabs_def)
qed

lemma getLineLevel_Nil [simp]: "getLineLevel [] = 0" by (simp add: getLineLevel_def)

lemma trimmed_Cons: "trimmed k \<Longrightarrow> \<exists>c s. k = c # s \<and> \<not> is_space c"
  by (cases k) (auto simp: trimmed_def)

lemma level_item: "trimmed t \<Longrightarrow> getLineLevel (item_line j t) = j"
  using getLineLevel_tabs trimmed_Cons[of t] by (auto simp: item_line_def)

lemma level_prop: "prop_ok p \<Longrightarrow> getLineLevel (prop_line i p) = i"
  using getLineLevel_tabs trimmed_Cons[of "fst p"] by (auto simp: prop_line_def prop_ok_def split: prod.splits)

lemma Trim_item: "trimmed t \<Longrightarrow> TrimSpace (item_line j t) = t"
  using TrimSpace_trimmed TrimSpace_blanks tabs_space by (auto simp: item_line_def)

lemma Trim_prop: "prop_ok p \<Longrightarrow> TrimSpace (prop_line i p) \<noteq> []"
  using trimmed_Cons[of "fst p"] TrimSpace_blanks[of "tabs i"] tabs_space
  by (auto simp: prop_line_def prop_ok_def TrimSpace_def trim_left_def trim_right_def split: prod.splits)

lemma colon_no_space: "\<not> is_space (CHR '':'')" by (simp add: is_space_def)

lemma until_char: "c \<notin> set r \<Longrightarrow> takeWhile (\<lambda>x. x \<noteq> c) (r @ c # t) = r \<and> dropWhile (\<lambda>x. x \<noteq> c) (r @ c # t) = c # t"
  by (induction r) auto

lemma propertyFromLine_prop:
  assumes "prop_ok (k, v, is)" and "line = prop_line i (k, v, is)"
  shows "propertyFromLine line = Inr (k, \<lparr>pd_Val = v, pd_Items = []\<rparr>)"
proof -
  let ?tail = "if v = [] then [] else CHR '' '' # v"
  have k: "trimmed k" "CHR '':'' \<notin> set k" and v: "v = [] \<or> trimmed v" using assms(1) by (auto simp: prop_ok_def)
  have tabs: "CHR '':'' \<notin> set (tabs i)" by (auto simp: tabs_def)
  obtain c r where cr: "tabs i @ k = c # r" using k by (cases "tabs i @ k") (auto simp: trimmed_def)
  have nc: "CHR '':'' \<notin> set (c # r)" unfolding cr[symmetric] using k tabs by auto
  have line: "line = c # (r @ CHR '':'' # ?tail)" using cr assms(2) by (simp add: prop_line_def)
  note t = until_char[of "CHR '':''" r ?tail]
  have "TrimSpace (c # r) = k" unfolding cr[symmetric] using TrimSpace_blanks TrimSpace_trimmed[OF k(1)] tabs_space by metis
  moreover have "TrimSpace ?tail = v"
    using v TrimSpace_blanks[of "[CHR '' '']" v] TrimSpace_trimmed[of v] by (auto simp: is_space_def TrimSpace_def trim_left_def trim_right_def)
  ultimately show ?thesis unfolding line propertyFromLine_def using t nc by simp
qed

lemma drop_Cons: "drop n xs = y # ys \<Longrightarrow> n < length xs \<and> xs ! n = y \<and> drop (n + 1) xs = ys"
  by (metis Cons_nth_drop_Suc Suc_eq_plus1 drop_all list.inject list.simps(3) not_le_imp_less)

lemma list_loop_items:
  assumes "drop n lines = map (item_line j) is @ r # rs" and "list_all trimmed is" and "getLineLevel r \<noteq> j"
  shows "list_loop j lines n pd = (pd\<lparr>pd_Items := pd_Items pd @ is\<rparr>, n + length is - 1)"
  using assms
proof (induction "is" arbitrary: n pd)
  case Nil
  then show ?case using drop_Cons[of n lines r rs] by (subst list_loop.simps) (simp add: Let_def)
next
  case (Cons t ts)
  then have d: "n < length lines" "lines ! n = item_line j t" "drop (n + 1) lines = map (item_line j) ts @ r # rs"
    using drop_Cons[of n lines] by auto
  show ?case
    by (subst list_loop.simps) (use Cons.IH[OF d(3)] Cons.prems d(1,2) level_item[of t j] Trim_item[of t j] in \<open>simp add: Let_def\<close>)
qed

lemma read_items_print:
  assumes "drop n lines = l # map (item_line j) is @ r # rs" and "list_all trimmed is"
    and "getLineLevel l < j" and "getLineLevel r \<le> getLineLevel l"
  shows "read_items lines n \<lparr>pd_Val = v, pd_Items = []\<rparr> = (\<lparr>pd_Val = v, pd_Items = is\<rparr>, n + length is)"
proof (cases "is")
  case Nil
  then show ?thesis using assms drop_Cons[of n lines l] drop_Cons[of "n + 1" lines r rs] by (simp add: read_items_def)
next
  case (Cons t ts)
  then have d: "lines ! n = l" "drop (n + 1) lines = map (item_line j) is @ r # rs" using assms(1) drop_Cons[of n lines l] by auto
  then have e: "n + 1 < length lines" "lines ! (n + 1) = item_line j t"
    using Cons drop_Cons[of "n + 1" lines "item_line j t"] by auto
  have lv: "getLineLevel (item_line j t) = j" using Cons assms(2) level_item by simp
  have "readList \<lparr>pd_Val = v, pd_Items = []\<rparr> lines (n + 1) = (\<lparr>pd_Val = v, pd_Items = is\<rparr>, n + length is)"
    using list_loop_items[OF d(2) assms(2)] assms(3,4) Cons by (simp add: readList_def e(2)[simplified] lv)
  then show ?thesis using d(1) e lv assms(3) by (simp add: read_items_def)
qed

lemma next_level:
  assumes "list_all prop_ok ps"
  shows "\<exists>r rs. concat (map (prop_lines i j) ps) @ [] # rest = r # rs \<and> getLineLevel r \<le> i"
  using assms level_prop[of _ i] by (cases ps) (auto simp: prop_lines_def)

lemma section_loop_print:
  assumes "drop n lines = concat (map (prop_lines i j) ps) @ [] # rest" and "list_all prop_ok ps" and "i < j"
  shows "section_loop lines n sec =
    Inr (sec\<lparr>ds_Properties := fold add_prop ps (ds_Properties sec)\<rparr>,
      n + length (concat (map (prop_lines i j) ps)))"
  using assms(1,2)
proof (induction ps arbitrary: n sec)
  case Nil
  then have "n < length lines \<and> lines ! n = [] \<and> drop (n + 1) lines = rest" using drop_Cons[of n lines "[]" rest] by simp
  then show ?case by (subst section_loop.simps) (simp add: TrimSpace_def trim_left_def trim_right_def)
next
  case (Cons p ps)
  obtain k v "is" where p: "p = (k, v, is)" by (cases p)
  let ?rest = "concat (map (prop_lines i j) ps) @ [] # rest"
  have ok: "prop_ok (k, v, is)" "list_all trimmed is" using Cons.prems p by (auto simp: prop_ok_def)
  have d: "drop n lines = prop_line i p # map (item_line j) is @ ?rest" using Cons.prems(1) unfolding p prop_lines_def[of i j "(k, v, is)"] list.map concat.simps by simp
  have l: "n < length lines" "lines ! n = prop_line i p" using drop_Cons[OF d] by simp_all
  obtain r rs where r: "?rest = r # rs" "getLineLevel r \<le> i"
    using next_level[of ps i j rest] Cons.prems(2) by auto
  have ri: "read_items lines n \<lparr>pd_Val = v, pd_Items = []\<rparr> = (data_of p, n + length is)"
    using read_items_print[of n lines "prop_line i p" j "is" r rs v] d r ok level_prop[of p i] assms(3) p by (simp add: data_of_def)
  have "drop (n + length is + 1) lines = ?rest"
    using arg_cong[OF d, of "drop (length is + 1)"] by (simp add: add.commute add.left_commute)
  note IH = Cons.IH[OF this]
  have pr: "prop_ok p" and pf: "propertyFromLine (prop_line i p) = Inr (k, \<lparr>pd_Val = v, pd_Items = []\<rparr>)"
    using propertyFromLine_prop[OF ok(1), of "prop_line i p" i] ok(1) p by simp_all
  have "section_loop lines n sec = section_loop lines (n + length is + 1) (sec\<lparr>ds_Properties := add_prop p (ds_Properties sec)\<rparr>)"
    unfolding section_loop.simps[of lines n sec] l(2) pf using l(1) ri Trim_prop[of p i] pr by (simp add: add_prop_def p)
  moreover have "length (concat (map (prop_lines i j) (p # ps))) = length is + 1 + length (concat (map (prop_lines i j) ps))"
    unfolding p prop_lines_def[of i j "(k, v, is)"] list.map concat.simps by simp
  ultimately show ?case using IH Cons.prems(2) by simp
qed

lemma readSection_print:
  assumes "drop n lines = section_lines i j s @ rest" and "section_ok s" and "i < j"
  shows "readSection newSection lines n = Inr (section_of s, n + length (section_lines i j s) - 1)"
proof -
  obtain h t ps where s: "s = (h, t, ps)" by (cases s)
  have d: "drop n lines = h # t # concat (map (prop_lines i j) ps) @ [] # rest" using assms(1) s by (simp add: section_lines_def)
  have l: "lines ! n = h" "drop (n + 1) lines = t # concat (map (prop_lines i j) ps) @ [] # rest" using drop_Cons[OF d] by simp_all
  have m: "lines ! (n + 1) = t" "n + 1 < length lines" "drop (n + 2) lines = concat (map (prop_lines i j) ps) @ [] # rest"
    using drop_Cons[OF l(2)] by simp_all
  obtain ty where ty: "getDMITypeFromHandleLine h = Inr ty"
    using assms(2) s by (cases "getDMITypeFromHandleLine h") (auto simp: section_ok_def)
  have "list_all prop_ok ps" using assms(2) s by (simp add: section_ok_def)
  note loop = section_loop_print[OF m(3) this assms(3)]
  show ?thesis using l(1) m(1,2) ty loop by (simp add: readSection_def s section_of_def section_lines_def newSection_def Let_def)
qed

lemma dmi_loop_skip:
  assumes "drop n lines = pre @ rest" and "list_all (\<lambda>l. \<not> has_prefix ''Handle'' l) pre"
  shows "dmi_loop lines n m = dmi_loop lines (n + length pre) m"
  using assms
proof (induction pre arbitrary: n)
  case (Cons l pre)
  then have d: "n < length lines" "lines ! n = l" "drop (n + 1) lines = pre @ rest" using drop_Cons[of n lines l] by auto
  show ?case by (subst dmi_loop.simps) (use Cons.IH[OF d(3)] Cons.prems(2) d(1,2) in simp)
qed simp

lemma dmi_loop_sections:
  assumes "drop n lines = concat (map (section_lines i j) ss)" and "list_all section_ok ss" and "i < j"
  shows "dmi_loop lines n m = Inr (fold add_section ss m)"
  using assms(1,2)
proof (induction ss arbitrary: n m)
  case Nil
  then show ?case by (subst dmi_loop.simps) simp
next
  case (Cons s ss)
  have d: "drop n lines = section_lines i j s @ concat (map (section_lines i j) ss)" using Cons.prems(1) by simp
  have pos: "0 < length (section_lines i j s)" by (simp add: section_lines_def split: prod.splits)
  have h: "n < length lines" "has_prefix ''Handle'' (lines ! n)"
    using d drop_Cons[of n lines] Cons.prems(2) by (auto simp: section_lines_def section_ok_def split: prod.splits)
  have "drop (n + length (section_lines i j s)) lines = concat (map (section_lines i j) ss)"
    using arg_cong[OF d, of "drop (length (section_lines i j s))"] by (simp add: add.commute)
  note IH = Cons.IH[OF this]
  have t: "ds_Title (section_of s) = fst (snd s)" by (simp add: section_of_def Let_def split: prod.splits)
  have "dmi_loop lines n m = dmi_loop lines (n + length (section_lines i j s)) (add_section s m)"
    using h readSection_print[OF d _ assms(3)] Cons.prems(2) pos t by (subst dmi_loop.simps) (simp add: add_section_def)
  then show ?case using IH Cons.prems(2) by simp
qed


definition dmi_text :: "nat \<Rightarrow> nat \<Rightarrow> string list \<Rightarrow> dmi_print list \<Rightarrow> string" where
  "dmi_text i j pre ss = str_join [CHR 0x0A] (pre @ concat (map (section_lines i j) ss))"

lemma section_lines_no_nl:
  assumes "section_ok s" shows "list_all (\<lambda>l. CHR 0x0A \<notin> set l) (section_lines i j s)"
proof -
  have "CHR 0x0A \<notin> set l" if "prop_ok p" "l \<in> set (prop_lines i j p)" for p l
    using that by (cases p) (auto simp: prop_lines_def prop_line_def item_line_def prop_ok_def trimmed_def tabs_def list_all_iff)
  then show ?thesis using assms by (auto simp: section_lines_def section_ok_def list_all_iff split: prod.splits)
qed

text \<open>A listing of \<^verbatim>\<open>dmidecode\<close> is read back exactly: every section with its type, its title and its properties with their
  lists.  Lines before the first section are skipped; of several sections with the same title the last one is kept.\<close>

theorem ParseDMI_print:
  assumes "list_all section_ok ss" and "list_all (\<lambda>l. CHR 0x0A \<notin> set l \<and> \<not> has_prefix ''Handle'' l) pre"
    and "i < j" and "ss \<noteq> []"
  shows "ParseDMI (dmi_text i j pre ss) = Inr (fold add_section ss Map.empty)"
proof -
  let ?lines = "pre @ concat (map (section_lines i j) ss)"
  have "\<forall>l\<in>set ?lines. CHR 0x0A \<notin> set l"
    using assms(1,2) section_lines_no_nl[of _ i j] by (fastforce simp: list_all_iff)
  moreover have "?lines \<noteq> []" using assms(4) by (cases ss) (auto simp: section_lines_def split: prod.splits)
  ultimately have split: "split_on (CHR 0x0A) (dmi_text i j pre ss) = ?lines"
    unfolding dmi_text_def by (intro split_on_str_join) auto
  have "list_all (\<lambda>l. \<not> has_prefix ''Handle'' l) pre" using assms(2) by (simp add: list_all_iff)
  then have "dmi_loop ?lines 0 Map.empty = dmi_loop ?lines (length pre) Map.empty" using dmi_loop_skip[of 0 ?lines pre] by simp
  then show ?thesis using dmi_loop_sections[OF _ assms(1,3), of "length pre" ?lines] split by (simp add: ParseDMI_def)
qed

lemma ParseDMI_print_witness:
  "ParseDMI (dmi_text 1 2 [''# dmidecode 3.1''] [(''Handle 0x0000, DMI type 0, 24 bytes'', ''BIOS Information'',
     [(''Vendor'', ''LENOVO'', []), (''Characteristics'', [], [''PCI is supported'', ''ROM: shadowed''])])])
   = Inr (fold add_section [(''Handle 0x0000, DMI type 0, 24 bytes'', ''BIOS Information'',
     [(''Vendor'', ''LENOVO'', []), (''Characteristics'', [], [''PCI is supported'', ''ROM: shadowed''])])] Map.empty)"
proof (rule ParseDMI_print)
  have "getDMITypeFromHandleLine ''Handle 0x0000, DMI type 0, 24 bytes'' = Inr 0"
    by (simp add: getDMITypeFromHandleLine_def has_prefix_def is_digit_def parse_int_def dec_val_def digit_val_def)
  moreover have "list_all prop_ok [(''Vendor'', ''LENOVO'', []), (''Characteristics'', [], [''PCI is supported'', ''ROM: shadowed''])]"
    by code_simp
  ultimately show "list_all section_ok [(''Handle 0x0000, DMI type 0, 24 bytes'', ''BIOS Information'',
     [(''Vendor'', ''LENOVO'', []), (''Characteristics'', [], [''PCI is supported'', ''ROM: shadowed''])])]"
    by (simp add: section_ok_def has_prefix_def)
qed code_simp+

lemma fold_add_section: "fold add_section ss m t = (case find (\<lambda>s. fst (snd s) = t) (rev ss) of None \<Rightarrow> m t | Some s \<Rightarrow> Some (section_of s))"
  by (induction ss rule: rev_induct) (auto simp: add_section_def)

text \<open>The memory modules of a machine have sections of the same title, so all but the last are lost.\<close>

theorem ParseDMI_same_title_lost:
  assumes "list_all section_ok ss" and "i < j" and "ss \<noteq> []" and "list_all (\<lambda>s. fst (snd s) = t) ss"
  shows "ParseDMI (dmi_text i j [] ss) = Inr [t \<mapsto> section_of (last ss)]"
proof -
  have l: "fst (snd s) = t" if "s \<in> set ss" for s using that assms(4) by (simp add: list_all_iff)
  have "fold add_section ss Map.empty = [t \<mapsto> section_of (last ss)]"
  proof
    fix u
    show "fold add_section ss Map.empty u = [t \<mapsto> section_of (last ss)] u"
    proof (cases "u = t")
      case True
      obtain xs x where "ss = xs @ [x]" using assms(3) by (metis rev_exhaust)
      then show ?thesis using True l[of x] by (simp add: add_section_def)
    next
      case False
      then have "find (\<lambda>s. fst (snd s) = u) (rev ss) = None" using l by (auto simp: find_None_iff)
      then show ?thesis using False by (simp add: fold_add_section)
    qed
  qed
  moreover have "list_all (\<lambda>l. CHR 0x0A \<notin> set l \<and> \<not> has_prefix ''Handle'' l) []" by simp
  ultimately show ?thesis using ParseDMI_print[OF assms(1) _ assms(2,3), of "[]"] by simp
qed


lemma ParseDMI_same_title_lost_witness:
  "ParseDMI (dmi_text 1 2 [] [(''Handle 0x0011, DMI type 17, 84 bytes'', ''Memory Device'', [(''Size'', ''8192 MB'', [])]),
     (''Handle 0x0012, DMI type 17, 84 bytes'', ''Memory Device'', [(''Size'', ''4096 MB'', [])])])
   = Inr [''Memory Device'' \<mapsto> section_of (last [(''Handle 0x0011, DMI type 17, 84 bytes'', ''Memory Device'', [(''Size'', ''8192 MB'', [])]),
     (''Handle 0x0012, DMI type 17, 84 bytes'', ''Memory Device'', [(''Size'', ''4096 MB'', [])])])]"
proof (rule ParseDMI_same_title_lost)
  have "getDMITypeFromHandleLine ''Handle 0x0011, DMI type 17, 84 bytes'' = Inr 17"
    "getDMITypeFromHandleLine ''Handle 0x0012, DMI type 17, 84 bytes'' = Inr 17"
    by (simp_all add: getDMITypeFromHandleLine_def has_prefix_def is_digit_def parse_int_def dec_val_def digit_val_def)
  moreover have "list_all prop_ok [(''Size'', ''8192 MB'', [])]" "list_all prop_ok [(''Size'', ''4096 MB'', [])]"
    by code_simp+
  ultimately show "list_all section_ok [(''Handle 0x0011, DMI type 17, 84 bytes'', ''Memory Device'', [(''Size'', ''8192 MB'', [])]),
     (''Handle 0x0012, DMI type 17, 84 bytes'', ''Memory Device'', [(''Size'', ''4096 MB'', [])])]"
    by (simp add: section_ok_def has_prefix_def)
qed code_simp+

section \<open>The action\<close>

text \<open>An element of the argument list after decoding: a number by its sign, its integral part and the digits of its fraction as
  \<^verbatim>\<open>%v\<close> prints them (numbers of at most 15 digits), a text, or something else.\<close>

datatype dmi_arg = JNum bool nat string | JStr string | JOther string

definition num_text :: "bool \<Rightarrow> nat \<Rightarrow> string \<Rightarrow> string" where
  "num_text neg n fr = (if neg then ''-'' else []) @ itoa n @ (if fr = [] then [] else CHR ''.'' # fr)"

definition int_of_num :: "bool \<Rightarrow> nat \<Rightarrow> int" where "int_of_num neg n = (if neg then - int n else int n)"

definition dmi_check :: "dmi_arg \<Rightarrow> (go_error, string) result" where
  "dmi_check a = (case a of
       JNum neg n fr \<Rightarrow> (let num = int_of_num neg n in
         if num < 0 \<or> 42 < num then Inl (BadRequestError (''type out of range: '' @ itoa_int num)) else Inr (num_text neg n fr))
     | JStr k \<Rightarrow> if \<not> InString dmiKeywords k then Inl (PlainErr (''invalid keyword '' @ k)) else Inr k
     | JOther d \<Rightarrow> Inl (BadRequestError (''invalid type: '' @ d)))"

definition dmi_cmdargs :: "dmi_arg list \<Rightarrow> (go_error, string list) result" where
  "dmi_cmdargs as = rbind (rmap dmi_check as) (\<lambda>ts. Inr (concat (map (\<lambda>t. [''-t'', t]) ts)))"

text \<open>\<open>System\<close> runs a program and gives its output.\<close>

definition getDMIInfo :: "(string \<Rightarrow> string list \<Rightarrow> (go_error, string) result) \<Rightarrow> dmi_arg list \<Rightarrow> (go_error, dmi) result" where
  "getDMIInfo System as = rbind (dmi_cmdargs as) (\<lambda>cmdargs. rbind (System ''dmidecode'' cmdargs) ParseDMI)"

text \<open>Whether an argument is one that the action documents: a type from 0 to 42 or one of the keywords.\<close>

fun dmi_arg_ok :: "dmi_arg \<Rightarrow> bool" where
  "dmi_arg_ok (JNum neg n fr) \<longleftrightarrow> n \<le> 42 \<and> (neg \<longrightarrow> n = 0)"
| "dmi_arg_ok (JStr k) \<longleftrightarrow> k \<in> set dmiKeywords"
| "dmi_arg_ok (JOther d) \<longleftrightarrow> False"

fun dmi_arg_text :: "dmi_arg \<Rightarrow> string" where
  "dmi_arg_text (JNum neg n fr) = num_text neg n fr"
| "dmi_arg_text (JStr k) = k"
| "dmi_arg_text (JOther d) = d"

fun dmi_arg_error :: "dmi_arg \<Rightarrow> go_error" where
  "dmi_arg_error (JNum neg n fr) = BadRequestError (''type out of range: '' @ itoa_int (int_of_num neg n))"
| "dmi_arg_error (JStr k) = PlainErr (''invalid keyword '' @ k)"
| "dmi_arg_error (JOther d) = BadRequestError (''invalid type: '' @ d)"

lemma dmi_check_eq: "dmi_check a = (if dmi_arg_ok a then Inr (dmi_arg_text a) else Inl (dmi_arg_error a))"
  by (cases a) (auto simp: dmi_check_def int_of_num_def Let_def)

lemma rmap_dmi_check:
  "rmap dmi_check as = (case find (\<lambda>a. \<not> dmi_arg_ok a) as of None \<Rightarrow> Inr (map dmi_arg_text as) | Some a \<Rightarrow> Inl (dmi_arg_error a))"
  by (induction as) (auto simp: dmi_check_eq split: option.splits)

text \<open>\<^verbatim>\<open>dmidecode\<close> is run only when every argument is a type from 0 to 42 or one of the keywords, and then with
  each of them as a value of \<^verbatim>\<open>-t\<close>; its output is parsed.  Otherwise the first wrong argument is reported, a number
  as a bad request and a keyword as a plain error, and nothing is run.\<close>

theorem getDMIInfo_runs_checked:
  "getDMIInfo System as =
     (case find (\<lambda>a. \<not> dmi_arg_ok a) as of
        None \<Rightarrow> rbind (System ''dmidecode'' (concat (map (\<lambda>a. [''-t'', dmi_arg_text a]) as))) ParseDMI
      | Some a \<Rightarrow> Inl (dmi_arg_error a))"
  by (simp add: getDMIInfo_def dmi_cmdargs_def rmap_dmi_check comp_def split: option.splits)

end
