(* ===== verification/Paths.thy ===== *)
theory Paths
  imports Utils_Model "HOL-Library.Sublist"
begin

text \<open>
  Slash-separated paths: \<^verbatim>\<open>Clean\<close>, \<^verbatim>\<open>Join\<close>, \<^verbatim>\<open>Dir\<close>, \<^verbatim>\<open>Base\<close> and \<^verbatim>\<open>Ext\<close> of the
  standard library as the program uses them, and \<^verbatim>\<open>SafeNormalize\<close> of \<^verbatim>\<open>src/base/utils/utils.go\<close>.  An absolute
  clean path is written by its elements; joining is then appending, and a path is below another when its
  elements extend the other's.
\<close>

section \<open>The functions of the library\<close>

definition rooted :: "string \<Rightarrow> bool" where "rooted p \<longleftrightarrow> has_prefix ''/'' p"

definition elements :: "string \<Rightarrow> string list" where
  "elements p = filter (\<lambda>e. e \<noteq> [] \<and> e \<noteq> ''.'') (split_on CHR ''/'' p)"

text \<open>The elements kept so far, the last first; a \<^verbatim>\<open>..\<close> drops the element before it, and at the root nothing.\<close>

definition step_elem :: "bool \<Rightarrow> string \<Rightarrow> string list \<Rightarrow> string list" where
  "step_elem r e st =
     (if e \<noteq> ''..'' then e # st
      else case st of
          [] \<Rightarrow> if r then [] else [''..'']
        | s # st' \<Rightarrow> if s = ''..'' then ''..'' # st else st')"

definition abs_path :: "string list \<Rightarrow> string" where
  "abs_path es = CHR ''/'' # str_join ''/'' es"

definition path_clean :: "string \<Rightarrow> string" where
  "path_clean p =
     (let es = rev (fold (step_elem (rooted p)) (elements p) [])
      in if rooted p then abs_path es else if es = [] then ''.'' else str_join ''/'' es)"

definition path_join :: "string list \<Rightarrow> string" where
  "path_join ps = (case dropWhile (\<lambda>p. p = []) ps of [] \<Rightarrow> [] | qs \<Rightarrow> path_clean (str_join ''/'' qs))"

text \<open>The directory part with its last slash, and what follows it.\<close>

definition last_elem :: "string \<Rightarrow> string" where
  "last_elem p = rev (takeWhile (\<lambda>c. c \<noteq> CHR ''/'') (rev p))"

definition path_dir :: "string \<Rightarrow> string" where
  "path_dir p = path_clean (rev (dropWhile (\<lambda>c. c \<noteq> CHR ''/'') (rev p)))"

definition path_base :: "string \<Rightarrow> string" where
  "path_base p =
     (if p = [] then ''.''
      else let b = last_elem (trim_right (\<lambda>c. c = CHR ''/'') p) in if b = [] then ''/'' else b)"

definition path_ext :: "string \<Rightarrow> string" where
  "path_ext p =
     (let e = rev (last_elem p)
      in if CHR ''.'' \<in> set e then CHR ''.'' # rev (takeWhile (\<lambda>c. c \<noteq> CHR ''.'') e) else [])"

definition SafeNormalize :: "string \<Rightarrow> string" where
  "SafeNormalize p = path_clean (path_join [''/'', p])"

section \<open>Elements\<close>

text \<open>An element as a clean path has it, and one that does not lead upwards.\<close>

definition plain :: "string \<Rightarrow> bool" where
  "plain e \<longleftrightarrow> e \<noteq> [] \<and> e \<noteq> ''.'' \<and> CHR ''/'' \<notin> set e"

definition proper :: "string \<Rightarrow> bool" where "proper e \<longleftrightarrow> plain e \<and> e \<noteq> ''..''"

lemma elements_plain: "list_all plain (elements p)"
  by (auto simp: elements_def plain_def list_all_iff dest: split_on_parts)

lemma split_on_snoc_sep: "split_on d (a @ d # b) = split_on d a @ split_on d b"
  by (induction a) (auto split: list.splits)

lemma elements_slash: "elements (a @ CHR ''/'' # b) = elements a @ elements b"
  by (simp add: elements_def split_on_snoc_sep)

lemma elements_Nil [simp]: "elements [] = []"
  by (simp add: elements_def)

lemma elements_root [simp]: "elements (CHR ''/'' # p) = elements p"
  using elements_slash[of "[]" p] by simp

lemma elements_str_join: "elements (str_join ''/'' ps) = concat (map elements ps)"
  by (induction "''/''" ps rule: str_join.induct) (auto simp: elements_slash)

lemma elements_one: "plain e \<Longrightarrow> elements e = [e]"
  by (simp add: elements_def plain_def split_on_no_sep)

lemma concat_elements: "list_all plain es \<Longrightarrow> concat (map elements es) = es"
  by (induction es) (auto simp: elements_one)

lemma elements_abs_path [simp]: "list_all plain es \<Longrightarrow> elements (abs_path es) = es"
  by (simp add: abs_path_def elements_str_join concat_elements)

lemma rooted_Cons [simp]: "rooted (c # p) \<longleftrightarrow> c = CHR ''/''"
  by (auto simp: rooted_def has_prefix_def)

lemma rooted_abs_path [simp]: "rooted (abs_path es)"
  by (simp add: abs_path_def)

lemma abs_path_inject:
  assumes "list_all plain as" "list_all plain bs" "abs_path as = abs_path bs"
  shows "as = bs"
  by (metis assms elements_abs_path)

lemma proper_plain: "list_all proper es \<Longrightarrow> list_all plain es"
  by (auto simp: list_all_iff proper_def)

section \<open>Cleaning a rooted path\<close>

definition resolve :: "string list \<Rightarrow> string list \<Rightarrow> string list" where
  "resolve base es = rev (fold (step_elem True) es (rev base))"

lemma resolve_append: "resolve base (as @ bs) = resolve (resolve base as) bs"
  by (simp add: resolve_def)

lemma resolve_Nil [simp]: "resolve base [] = base"
  by (simp add: resolve_def)

lemma resolve_Cons:
  "resolve base (e # es) = resolve (if e = ''..'' then if base \<noteq> [] \<and> last base = ''..'' then base @ [e] else butlast base else base @ [e]) es"
  by (cases base rule: rev_cases) (auto simp: resolve_def step_elem_def)

lemma resolve_proper [simp]: "list_all proper es \<Longrightarrow> resolve base es = base @ es"
  by (induction es arbitrary: base) (auto simp: resolve_Cons proper_def)

lemma list_all_butlast: "list_all P xs \<Longrightarrow> list_all P (butlast xs)"
  by (cases xs rule: rev_cases) auto

lemma proper_resolve: "list_all proper base \<Longrightarrow> list_all plain es \<Longrightarrow> list_all proper (resolve base es)"
proof (induction es arbitrary: base)
  case (Cons e es)
  have "base \<noteq> [] \<Longrightarrow> last base \<noteq> ''..''"
    using Cons.prems(1) by (cases base rule: rev_cases) (auto simp: proper_def)
  then show ?case
    using Cons by (auto simp: resolve_Cons proper_def list_all_butlast)
qed simp

lemma path_clean_rooted: "rooted p \<Longrightarrow> path_clean p = abs_path (resolve [] (elements p))"
  by (simp add: path_clean_def resolve_def)

lemma path_clean_abs [simp]: "list_all proper es \<Longrightarrow> path_clean (abs_path es) = abs_path es"
  by (simp add: path_clean_rooted proper_plain)

text \<open>Joining to an absolute clean path resolves the elements of the other path from there.\<close>

lemma path_join_abs:
  assumes "list_all proper rs"
  shows "path_join [abs_path rs, p] = abs_path (resolve rs (elements p))"
proof -
  have "abs_path rs \<noteq> []" "rooted (abs_path rs @ CHR ''/'' # p)"
    by (simp_all add: abs_path_def)
  then show ?thesis
    using assms by (simp add: path_join_def path_clean_rooted elements_slash resolve_append proper_plain)
qed

lemma root_abs_path: "''/'' = abs_path []"
  by (simp add: abs_path_def)

lemma SafeNormalize_abs: "SafeNormalize p = abs_path (resolve [] (elements p))"
  using path_join_abs[of "[]" p] proper_resolve[of "[]" "elements p"] elements_plain[of p]
  by (simp add: SafeNormalize_def root_abs_path[symmetric])

lemma SafeNormalize_proper: "\<exists>es. SafeNormalize p = abs_path es \<and> list_all proper es"
  using SafeNormalize_abs proper_resolve[of "[]"] elements_plain by auto

lemma SafeNormalize_idem: "SafeNormalize (SafeNormalize p) = SafeNormalize p"
  using SafeNormalize_proper[of p] by (auto simp: SafeNormalize_abs proper_plain)

section \<open>Below a directory\<close>

definition under :: "string \<Rightarrow> string \<Rightarrow> bool" where
  "under root p \<longleftrightarrow> p = root \<or> has_prefix (root @ ''/'') p"

lemma str_join_append: "as \<noteq> [] \<Longrightarrow> bs \<noteq> [] \<Longrightarrow> str_join s (as @ bs) = str_join s as @ s @ str_join s bs"
  by (induction s as rule: str_join.induct) (auto simp: neq_Nil_conv)

lemma abs_path_append: "as \<noteq> [] \<Longrightarrow> bs \<noteq> [] \<Longrightarrow> abs_path (as @ bs) = abs_path as @ abs_path bs"
  by (simp add: abs_path_def str_join_append)

lemma under_abs_path:
  assumes "list_all plain rs" "list_all plain es" "rs \<noteq> []"
  shows "under (abs_path rs) (abs_path es) \<longleftrightarrow> prefix rs es"
proof
  assume "prefix rs es"
  then obtain xs where "es = rs @ xs" by (auto simp: prefix_def)
  then show "under (abs_path rs) (abs_path es)"
    using assms(3) abs_path_append[of rs xs] by (cases "xs = []") (auto simp: under_def has_prefix_iff abs_path_def)
next
  assume u: "under (abs_path rs) (abs_path es)"
  show "prefix rs es"
  proof (cases "abs_path es = abs_path rs")
    case True
    then show ?thesis using abs_path_inject[OF assms(2,1)] by simp
  next
    case False
    then obtain r where "abs_path es = abs_path rs @ CHR ''/'' # r" using u by (auto simp: under_def has_prefix_iff)
    then have "es = rs @ elements r" using elements_slash[of "abs_path rs" r] assms by (metis elements_abs_path)
    then show ?thesis by simp
  qed
qed

lemma under_join_safe:
  assumes "list_all proper rs" "rs \<noteq> []"
  shows "under (abs_path rs) (path_join [abs_path rs, SafeNormalize p])"
proof -
  obtain es where es: "SafeNormalize p = abs_path es" "list_all proper es" using SafeNormalize_proper by blast
  have "list_all plain (rs @ es)" using assms(1) es(2) by (simp add: proper_plain)
  then show ?thesis
    using es assms by (simp add: path_join_abs under_abs_path proper_plain)
qed

text \<open>A path without \<^verbatim>\<open>..\<close> stays below the directory it is joined to.\<close>

lemma elements_proper: "''..'' \<notin> set (elements p) \<Longrightarrow> list_all proper (elements p)"
  using elements_plain[of p] by (auto simp: list_all_iff proper_def)

lemma under_join_proper:
  assumes "list_all proper rs" "rs \<noteq> []" "''..'' \<notin> set (elements p)"
  shows "under (abs_path rs) (path_join [abs_path rs, p])"
  using assms elements_proper[OF assms(3)] proper_plain[OF elements_proper[OF assms(3)]]
  by (simp add: path_join_abs under_abs_path proper_plain)

lemma under_trans: "under a b \<Longrightarrow> under b c \<Longrightarrow> under a c"
  by (auto simp: under_def has_prefix_iff)

lemma under_refl [simp]: "under a a"
  by (simp add: under_def)

end
