(* ===== verification/Cont_Files.thy ===== *)
theory Cont_Files
  imports Containers Steps Paths Scan
begin

text \<open>
  The file system of a container (\<^verbatim>\<open>src/apps/plugins/containers/plugin/filesystem.go\<close>): the sandbox of mounts
  that is made before the container starts, the files that override its configuration, and the unmounting at its end.
  The system calls and the manager of flists are parameters; what is said of them is a property of the mounts or
  the files there are.
\<close>

section \<open>Surroundings and state\<close>

text \<open>A hook that is run when the file system of the root ends.\<close>

datatype sb_hook = OnSandboxExit

record 's file_env =
  fe_url :: "string \<Rightarrow> (go_error, string) result"
  fe_stat_dir :: "string \<Rightarrow> 's \<Rightarrow> (go_error, bool) result"
  fe_exists :: "string \<Rightarrow> 's \<Rightarrow> bool"
  fe_abs :: "string \<Rightarrow> 's \<Rightarrow> (go_error, string) result"
  fe_partitions :: "'s \<Rightarrow> (go_error, (string \<times> string) list) result"
  fe_mkdir_all :: "string \<Rightarrow> nat \<Rightarrow> 's \<Rightarrow> (go_error, unit) result \<times> 's"
  fe_write :: "string \<Rightarrow> string \<Rightarrow> nat \<Rightarrow> 's \<Rightarrow> (go_error, unit) result \<times> 's"
  fe_create :: "string \<Rightarrow> 's \<Rightarrow> (go_error, unit) result \<times> 's"
  fe_remove_all :: "string \<Rightarrow> 's \<Rightarrow> (go_error, unit) result \<times> 's"
  fe_bind :: "string \<Rightarrow> string \<Rightarrow> 's \<Rightarrow> (go_error, unit) result \<times> 's"
  fe_unmount :: "string \<Rightarrow> 's \<Rightarrow> (go_error, unit) result \<times> 's"
  fe_mounts :: "'s \<Rightarrow> (go_error, string) result"
  fe_system :: "string list \<Rightarrow> 's \<Rightarrow> (go_error, unit) result \<times> 's"
  fe_lookpath :: "string \<Rightarrow> 's \<Rightarrow> (go_error, string) result"
  fe_mount_flist :: "string \<Rightarrow> string \<Rightarrow> string \<Rightarrow> string \<Rightarrow> sb_hook list \<Rightarrow> 's \<Rightarrow> (go_error, unit) result \<times> 's"
  fe_merge_flist :: "string \<Rightarrow> string \<Rightarrow> string \<Rightarrow> string \<Rightarrow> 's \<Rightarrow> (go_error, unit) result \<times> 's"
  fe_global :: "string \<Rightarrow> string option"
  fe_terminate :: "'s \<Rightarrow> (go_error, unit) result \<times> 's"

text \<open>The container: its number and its arguments; the mounts in the order in which the map is walked.\<close>

record sb_ctx =
  sx_id :: "16 word"
  sx_Root :: string
  sx_Mount :: "(string \<times> string) list"
  sx_Config :: "(string \<times> string) list"

text \<open>The state: the storage of the container, which is set at the first mount, and the world.\<close>

record 's csand =
  sb_Storage :: string
  sb_sys :: 's

definition on_sys :: "('s \<Rightarrow> (go_error, 'a) result \<times> 's) \<Rightarrow> ('s csand, 'a) act" where
  "on_sys f = scall (\<lambda>s. case f (sb_sys s) of (r, w) \<Rightarrow> (r, s\<lparr>sb_sys := w\<rparr>))"

definition of_sys :: "('s \<Rightarrow> (go_error, 'a) result) \<Rightarrow> ('s csand, 'a) act" where
  "of_sys f = sask (\<lambda>s. f (sb_sys s))"

section \<open>Paths of a container\<close>

definition BackendBaseDir :: string where "BackendBaseDir = ''/var/cache/containers''"
definition ContainerBaseRootDir :: string where "ContainerBaseRootDir = ''/mnt/containers''"

definition container_name :: "16 word \<Rightarrow> string" where "container_name i = itoa (unat i)"

definition container_root :: "16 word \<Rightarrow> string" where
  "container_root i = path_join [ContainerBaseRootDir, container_name i]"

definition container_backend :: "16 word \<Rightarrow> string" where
  "container_backend i = path_join [BackendBaseDir, container_name i]"

definition container_namespace :: "16 word \<Rightarrow> string" where
  "container_namespace i = ''containers/'' @ container_name i"

section \<open>Operations\<close>

text \<open>Files of the arguments that replace files of the flist.\<close>

definition override_file :: "'s file_env \<Rightarrow> string \<Rightarrow> string \<times> string \<Rightarrow> ('s csand, unit) act" where
  "override_file E target = (\<lambda>(name, content). let p = path_join [target, SafeNormalize name] in
     sbind (werr (\<lambda>_. PlainErr (''failed to create director: '' @ path_dir p)) (on_sys (fe_mkdir_all E (path_dir p) 448)))
       (\<lambda>_. on_sys (fe_write E p content 384)))"

definition flistConfigOverride :: "'s file_env \<Rightarrow> string \<Rightarrow> (string \<times> string) list \<Rightarrow> ('s csand, unit) act" where
  "flistConfigOverride E target cfg = sfor (override_file E target) cfg"

definition mergeFList :: "'s file_env \<Rightarrow> sb_ctx \<Rightarrow> string \<Rightarrow> ('s csand, unit) act" where
  "mergeFList E cx src = on_sys (fe_merge_flist E (container_namespace (sx_id cx)) (container_root (sx_id cx)) (sx_Root cx) src)"



text \<open>The type of the file system of a directory: that of the longest mount point above it.\<close>

definition with_slash :: "string \<Rightarrow> string" where "with_slash m = (if m = ''/'' then m else m @ ''/'')"

definition disks_by_length :: "(string \<times> string) list \<Rightarrow> (string \<times> string) list" where
  "disks_by_length ps = sort_key (\<lambda>p. - int (length (fst p))) ps"

definition fs_of :: "string \<Rightarrow> (string \<times> string) list \<Rightarrow> string" where
  "fs_of d ps = (case find (\<lambda>p. has_prefix (with_slash (fst p)) d) (disks_by_length ps) of Some p \<Rightarrow> snd p | None \<Rightarrow> [])"

definition getFSType :: "'s file_env \<Rightarrow> string \<Rightarrow> 's \<Rightarrow> string" where
  "getFSType E dir w = (case fe_abs E dir w of
     Inl _ \<Rightarrow> []
   | Inr d \<Rightarrow> (case fe_partitions E w of
       Inl _ \<Rightarrow> []
     | Inr ps \<Rightarrow> fs_of (trim_right (\<lambda>c. c = CHR ''/'') d @ ''/'') ps))"



definition btrfs_volume :: "'s file_env \<Rightarrow> string \<Rightarrow> string \<Rightarrow> ('s csand, unit) act" where
  "btrfs_volume E verb p = signore (on_sys (fe_system E [''btrfs'', ''subvolume'', verb, p]))"


text \<open>The mount points of the text of \<^verbatim>\<open>/proc/mounts\<close>, and those of a container with the deepest first.\<close>

definition mount_points :: "string \<Rightarrow> string list" where
  "mount_points text = map (\<lambda>l. Fields l ! 1) (filter (\<lambda>l. 2 \<le> length (Fields l)) (split_on CHR 0x0A text))"

definition depth :: "string \<Rightarrow> nat" where "depth p = length (filter (\<lambda>c. c = CHR ''/'') p)"

definition unmount_order :: "string list \<Rightarrow> string list" where
  "unmount_order ts = sort_key (\<lambda>t. - int (depth t)) ts"

definition container_mounts :: "string \<Rightarrow> string list \<Rightarrow> string list" where
  "container_mounts root ts = unmount_order (filter (under root) ts)"

definition unMountAll :: "'s file_env \<Rightarrow> 16 word \<Rightarrow> ('s csand, unit) act" where
  "unMountAll E i = sbind (of_sys (fe_mounts E)) (\<lambda>text.
     sfor (\<lambda>t. signore (on_sys (fe_unmount E t))) (container_mounts (container_root i) (mount_points text)))"

definition cleanSandbox :: "'s file_env \<Rightarrow> 16 word \<Rightarrow> ('s csand, unit) act" where
  "cleanSandbox E i =
     sbind (signore (unMountAll E i)) (\<lambda>_.
     sbind (of_sys (\<lambda>w. Inr (getFSType E BackendBaseDir w))) (\<lambda>fstype.
     sbind (if fstype = ''btrfs'' then btrfs_volume E ''delete'' (container_backend i)
            else signore (on_sys (fe_remove_all E (container_backend i)))) (\<lambda>_.
     signore (on_sys (fe_remove_all E (container_root i))))))"

definition run_hook :: "'s file_env \<Rightarrow> 16 word \<Rightarrow> sb_hook \<Rightarrow> ('s csand, unit) act" where
  "run_hook E i h = (case h of OnSandboxExit \<Rightarrow> sbind (signore (on_sys (fe_terminate E))) (\<lambda>_. cleanSandbox E i))"

section \<open>Roots of containers\<close>

lemma itoa_proper: "proper (itoa n)"
proof -
  have d: "c \<in> set (itoa n) \<Longrightarrow> is_digit c" for c using itoa_digits[of n] by (auto simp: list_all_iff)
  have n: "CHR ''.'' \<notin> set (itoa n)" "CHR ''/'' \<notin> set (itoa n)" using d by (auto simp: is_digit_def)
  have "itoa n \<noteq> ''.''" "itoa n \<noteq> ''..''" using n(1) by (metis list.set_intros(1))+
  then show ?thesis using n(2) by (simp add: proper_def plain_def)
qed

lemma container_root_abs: "container_root i = abs_path [''mnt'', ''containers'', container_name i]"
proof -
  have b: "ContainerBaseRootDir = abs_path [''mnt'', ''containers'']" by (simp add: ContainerBaseRootDir_def abs_path_def)
  have "list_all proper [''mnt'', ''containers'']" by (simp add: proper_def plain_def)
  moreover have "elements (container_name i) = [container_name i]"
    using itoa_proper[of "unat i"] by (simp add: container_name_def proper_def elements_one)
  moreover have "list_all proper [container_name i]" using itoa_proper[of "unat i"] by (simp add: container_name_def)
  ultimately show ?thesis using path_join_abs[of "[''mnt'', ''containers'']" "container_name i"] resolve_proper
    by (simp only: container_root_def b append_Cons append_Nil)
qed

lemma container_root_proper: "list_all proper [''mnt'', ''containers'', container_name i]"
  using itoa_proper by (simp add: container_name_def proper_def plain_def)

lemma under_iff: "under r t \<longleftrightarrow> has_prefix (r @ ''/'') (t @ ''/'')"
proof
  assume "has_prefix (r @ ''/'') (t @ ''/'')"
  then obtain x where x: "t @ ''/'' = r @ CHR ''/'' # x" by (auto simp: has_prefix_iff)
  show "under r t"
  proof (cases x rule: rev_cases)
    case Nil then show ?thesis using x by (simp add: under_def)
  next
    case (snoc y c)
    then have "t = r @ CHR ''/'' # y" using x by (metis append.assoc append_Cons append1_eq_conv)
    then show ?thesis by (simp add: under_def has_prefix_iff)
  qed
qed (auto simp: under_def has_prefix_iff)

lemma roots_apart: "under (container_root i) t \<Longrightarrow> under (container_root j) t \<Longrightarrow> i = j"
proof -
  assume u: "under (container_root i) t" "under (container_root j) t"
  obtain x y where "t @ ''/'' = container_root i @ CHR ''/'' # x" "t @ ''/'' = container_root j @ CHR ''/'' # y"
    using u by (auto simp: under_iff has_prefix_iff)
  then have e: "itoa (unat i) @ CHR ''/'' # x = itoa (unat j) @ CHR ''/'' # y"
    by (simp add: container_root_abs abs_path_def container_name_def)
  have "takeWhile is_digit (itoa n @ CHR ''/'' # r) = itoa n" for n r by (rule takeWhile_itoa) (simp add: is_digit_def)
  then have "itoa (unat i) = itoa (unat j)" using arg_cong[OF e, of "takeWhile is_digit"] by (simp only:)
  then show "i = j" by (simp add: word_unat_eq_iff)
qed


section \<open>Files that override the flist\<close>

definition file_laws :: "'s file_env \<Rightarrow> ('s \<Rightarrow> string \<Rightarrow> 'f option) \<Rightarrow> bool" where
  "file_laws E look \<longleftrightarrow>
     (\<forall>p m w q. look w q \<noteq> None \<longrightarrow> look (snd (fe_mkdir_all E p m w)) q = look w q) \<and>
     (\<forall>p c m w q. q \<noteq> p \<longrightarrow> look (snd (fe_write E p c m w)) q = look w q)"

lemma preserves_on_sys: "(\<And>w. P w \<Longrightarrow> P (snd (f w))) \<Longrightarrow> preserves (\<lambda>s. P (sb_sys s)) (on_sys f)"
  unfolding on_sys_def by (rule preserves_scall) (auto split: prod.splits, metis snd_conv)


lemma preserves_override_file:
  assumes "file_laws E look" and "list_all proper ts" and "ts \<noteq> []"
  shows "preserves (\<lambda>s. \<forall>q. \<not> under (abs_path ts) q \<longrightarrow> look w0 q \<noteq> None \<longrightarrow> look (sb_sys s) q = look w0 q)
           (override_file E (abs_path ts) f)"
proof -
  let ?P = "\<lambda>w. \<forall>q. \<not> under (abs_path ts) q \<longrightarrow> look w0 q \<noteq> None \<longrightarrow> look w q = look w0 q"
  obtain name content where f: "f = (name, content)" by (cases f)
  have u: "under (abs_path ts) (path_join [abs_path ts, SafeNormalize name])" using under_join_safe assms(2,3) by blast
  have "preserves (\<lambda>s. ?P (sb_sys s)) (on_sys (fe_mkdir_all E p m))" for p m
    by (rule preserves_on_sys) (use assms(1) in \<open>auto simp: file_laws_def\<close>)
  moreover have "preserves (\<lambda>s. ?P (sb_sys s)) (on_sys (fe_write E (path_join [abs_path ts, SafeNormalize name]) content 384))"
    by (rule preserves_on_sys) (use assms(1) u in \<open>unfold file_laws_def, metis\<close>)
  ultimately show ?thesis
    unfolding f override_file_def Let_def prod.case by (intro preserves_intros preserves_werr)
qed

text \<open>The files of the arguments that replace files of the flist are written below the directory of the flist, whatever
  their names are: no file outside it that was there is changed.\<close>

theorem config_stays_inside:
  assumes "file_laws E look" and "list_all proper ts" and "ts \<noteq> []"
    and "\<not> under (abs_path ts) q" and "look (sb_sys s) q \<noteq> None"
  shows "look (sb_sys (snd (flistConfigOverride E (abs_path ts) cfg s))) q = look (sb_sys s) q"
proof -
  have "preserves (\<lambda>t. \<forall>q. \<not> under (abs_path ts) q \<longrightarrow> look (sb_sys s) q \<noteq> None \<longrightarrow> look (sb_sys t) q = look (sb_sys s) q)
          (flistConfigOverride E (abs_path ts) cfg)"
    unfolding flistConfigOverride_def by (intro preserves_sfor preserves_override_file assms(1-3))
  from preservesD[OF this, of s] show ?thesis using assms(4,5) by blast
qed

section \<open>Unmounting\<close>

lemma depth_append: "depth (a @ b) = depth a + depth b"
  by (simp add: depth_def)

lemma under_depth: "under a b \<Longrightarrow> a \<noteq> b \<Longrightarrow> depth a < depth b"
  by (auto simp: under_def has_prefix_iff depth_append) (simp add: depth_def)

theorem unmount_children_first:
  "sorted_wrt (\<lambda>a b. \<not> (under a b \<and> a \<noteq> b)) (container_mounts root ts) \<and>
   mset (container_mounts root ts) = filter_mset (under root) (mset ts)"
proof -
  have "sorted (map (\<lambda>t. - int (depth t)) (container_mounts root ts))"
    by (simp add: container_mounts_def unmount_order_def)
  then have "sorted_wrt (\<lambda>a b. depth b \<le> depth a) (container_mounts root ts)"
    by (simp add: sorted_map)
  then show ?thesis
    by (auto elim!: sorted_wrt_mono_rel[rotated] dest: under_depth simp: container_mounts_def unmount_order_def)
qed

text \<open>What the kernel does with mounts: the text lists them, a detaching unmount takes one away, with what is mounted
  below it or without, and fails only where nothing is mounted; a mount adds one; nothing else changes them.\<close>

definition adds_mount :: "('s \<Rightarrow> string multiset) \<Rightarrow> string \<Rightarrow> ('s \<Rightarrow> (go_error, unit) result \<times> 's) \<Rightarrow> bool" where
  "adds_mount view p f \<longleftrightarrow> (\<forall>w. view (snd (f w)) = (if isl (fst (f w)) then view w else add_mset p (view w)))"

definition drops_mount :: "('s \<Rightarrow> string multiset) \<Rightarrow> string \<Rightarrow> ('s \<Rightarrow> (go_error, unit) result \<times> 's) \<Rightarrow> bool" where
  "drops_mount view p f \<longleftrightarrow>
     (\<forall>w. if isl (fst (f w)) then p \<notin># view w \<and> view (snd (f w)) = view w
          else view (snd (f w)) \<subseteq># view w - {#p#} \<and>
            filter_mset (\<lambda>q. \<not> under p q) (view (snd (f w))) = filter_mset (\<lambda>q. \<not> under p q) (view w))"

definition lists_mounts :: "('s \<Rightarrow> string multiset) \<Rightarrow> (go_error, string) result \<Rightarrow> 's \<Rightarrow> bool" where
  "lists_mounts view r w \<longleftrightarrow> (case r of Inr content \<Rightarrow> mset (mount_points content) = view w | Inl _ \<Rightarrow> False)"

definition mount_laws :: "'s file_env \<Rightarrow> ('s \<Rightarrow> string multiset) \<Rightarrow> bool" where
  "mount_laws E view \<longleftrightarrow>
     (\<forall>w. lists_mounts view (fe_mounts E w) w) \<and>
     (\<forall>p. drops_mount view p (fe_unmount E p)) \<and>
     (\<forall>src p. adds_mount view p (fe_bind E src p)) \<and>
     (\<forall>n st src p hs. adds_mount view p (fe_mount_flist E n st src p hs)) \<and>
     (\<forall>p m w. view (snd (fe_mkdir_all E p m w)) = view w) \<and>
     (\<forall>p c m w. view (snd (fe_write E p c m w)) = view w) \<and>
     (\<forall>p w. view (snd (fe_create E p w)) = view w) \<and>
     (\<forall>p w. view (snd (fe_remove_all E p w)) = view w) \<and>
     (\<forall>c w. view (snd (fe_system E c w)) = view w)"

lemma unmount_law:
  assumes "mount_laws E view"
  shows "view (snd (fe_unmount E p w)) \<subseteq># view w - {#p#}"
    and "filter_mset (\<lambda>q. \<not> under p q) (view (snd (fe_unmount E p w))) = filter_mset (\<lambda>q. \<not> under p q) (view w)"
proof -
  have "drops_mount view p (fe_unmount E p)" using assms by (simp add: mount_laws_def)
  then show "view (snd (fe_unmount E p w)) \<subseteq># view w - {#p#}"
    "filter_mset (\<lambda>q. \<not> under p q) (view (snd (fe_unmount E p w))) = filter_mset (\<lambda>q. \<not> under p q) (view w)"
    by (auto simp: drops_mount_def diff_single_trivial split: if_splits dest: spec[of _ w])
qed

lemma lists_mountsD:
  assumes "mount_laws E view" shows "\<exists>content. fe_mounts E w = Inr content \<and> mset (mount_points content) = view w"
proof -
  have "lists_mounts view (fe_mounts E w) w" using assms by (simp add: mount_laws_def)
  then show ?thesis by (auto simp: lists_mounts_def split: sum.splits)
qed

lemma mset_diff_mono: "(A :: 'a multiset) \<subseteq># B \<Longrightarrow> A - C \<subseteq># B - C"
  by (simp add: subseteq_mset_def diff_le_mono)

lemma sb_sys_signore: "sb_sys (snd (signore (on_sys f) s)) = snd (f (sb_sys s))"
  by (auto simp: snd_signore on_sys_def scall_def split: prod.splits)

lemma on_sys_no_panic: "no_panic (on_sys f)"
  unfolding on_sys_def by (intro no_panic_intros)

lemma filter_under_unmount:
  assumes "mount_laws E view" and "under root p"
  shows "filter_mset (\<lambda>q. \<not> under root q) (view (snd (fe_unmount E p w))) = filter_mset (\<lambda>q. \<not> under root q) (view w)"
proof -
  have f: "filter_mset (\<lambda>q. \<not> under root q) M = filter_mset (\<lambda>q. \<not> under root q) (filter_mset (\<lambda>q. \<not> under p q) M)" for M
    using under_trans[OF assms(2)] by (auto intro: multiset_eqI)
  show ?thesis using unmount_law(2)[OF assms(1), of p w] f by metis
qed

lemma unmount_loop:
  assumes "mount_laws E view" and "\<forall>t\<in>set ts. under root t"
  shows "view (sb_sys (snd (sfor (\<lambda>t. signore (on_sys (fe_unmount E t))) ts s))) \<subseteq># view (sb_sys s) - mset ts \<and>
    filter_mset (\<lambda>q. \<not> under root q) (view (sb_sys (snd (sfor (\<lambda>t. signore (on_sys (fe_unmount E t))) ts s)))) =
    filter_mset (\<lambda>q. \<not> under root q) (view (sb_sys s))"
  using assms(2)
proof (induction ts arbitrary: s)
  case (Cons t ts)
  obtain a s' where r: "signore (on_sys (fe_unmount E t)) s = (Inr a, s')"
    using succeedsD[OF succeeds_signore[OF on_sys_no_panic]] by blast
  have s': "sb_sys s' = snd (fe_unmount E t (sb_sys s))" using sb_sys_signore[of "fe_unmount E t" s] r by simp
  have "view (sb_sys s') - mset ts \<subseteq># view (sb_sys s) - {#t#} - mset ts"
    unfolding s' by (rule mset_diff_mono) (rule unmount_law(1)[OF assms(1)])
  moreover have "under root t" using Cons.prems by simp
  ultimately show ?case
    using Cons.IH[of s'] Cons.prems r s' filter_under_unmount[OF assms(1), of root t "sb_sys s"]
    by (auto simp: sbind_def intro: subset_mset.trans)
qed (simp add: sret_def)

lemma clears:
  assumes "V' \<subseteq># V - filter_mset P V" and "filter_mset (\<lambda>q. \<not> P q) V' = filter_mset (\<lambda>q. \<not> P q) V"
  shows "V' = filter_mset (\<lambda>q. \<not> P q) V"
proof (rule subset_mset.antisym)
  have "V - filter_mset P V = filter_mset (\<lambda>q. \<not> P q) V" by (metis add_diff_cancel_left' multiset_partition)
  then show "V' \<subseteq># filter_mset (\<lambda>q. \<not> P q) V" using assms(1) by simp
  show "filter_mset (\<lambda>q. \<not> P q) V \<subseteq># V'" using assms(2) by (metis multiset_filter_subset)
qed

lemma unMountAll_clears:
  assumes "mount_laws E view"
  shows "view (sb_sys (snd (unMountAll E i s))) = filter_mset (\<lambda>q. \<not> under (container_root i) q) (view (sb_sys s))"
proof -
  obtain content where t: "fe_mounts E (sb_sys s) = Inr content" "mset (mount_points content) = view (sb_sys s)"
    using lists_mountsD[OF assms] by blast
  let ?ts = "container_mounts (container_root i) (mount_points content)"
  have m: "mset ?ts = filter_mset (under (container_root i)) (view (sb_sys s))" using unmount_children_first t(2) by auto
  have "\<forall>t\<in>set ?ts. under (container_root i) t" by (auto simp: container_mounts_def unmount_order_def)
  note l = unmount_loop[OF assms this, of s, unfolded m]
  show ?thesis
    using clears[OF conjunct1[OF l] conjunct2[OF l]] t(1) by (simp add: unMountAll_def of_sys_def sask_def sbind_def)
qed



abbreviation outside :: "16 word \<Rightarrow> string multiset \<Rightarrow> string multiset" where
  "outside i V \<equiv> filter_mset (\<lambda>q. \<not> under (container_root i) q) V"












text \<open>Mounts of other containers.\<close>

theorem unMountAll_spares_others:
  assumes "mount_laws E view" and "i \<noteq> j"
  shows "filter_mset (under (container_root j)) (view (sb_sys (snd (unMountAll E i s)))) =
         filter_mset (under (container_root j)) (view (sb_sys s))"
proof -
  have "filter_mset (under (container_root j)) (outside i M) = filter_mset (under (container_root j)) M" for M
    using roots_apart[of i _ j] assms(2) by (intro multiset_eqI) auto
  then show ?thesis by (simp only: unMountAll_clears[OF assms(1)])
qed

section \<open>A destination that leads upwards\<close>

lemma elements_up: "elements (''/../../..'' @ abs_path es) = [''..'', ''..'', ''..''] @ elements (abs_path es)"
proof -
  have "elements ''..'' = [''..'']" by (rule elements_one) (simp add: plain_def)
  then show ?thesis
    using elements_slash[of "''..''" "''../..'' @ abs_path es"] elements_slash[of "''..''" "''..'' @ abs_path es"]
      elements_slash[of "''..''" "str_join ''/'' es"] by (simp add: abs_path_def)
qed

theorem mount_target_escapes:
  assumes "list_all proper es"
  shows "path_join [container_root i, ''/../../..'' @ abs_path es] = abs_path es \<and>
         mount_ok V (src, ''/../../..'' @ abs_path es) = mount_ok V (src, abs_path es)"
proof
  have r: "resolve [''mnt'', ''containers'', container_name i] [''..'', ''..'', ''..''] = []"
    using container_root_proper[of i] by (simp add: resolve_Cons proper_def)
  show "path_join [container_root i, ''/../../..'' @ abs_path es] = abs_path es"
    unfolding container_root_abs path_join_abs[OF container_root_proper] elements_up resolve_append r
    using assms by (simp add: proper_plain)
  show "mount_ok V (src, ''/../../..'' @ abs_path es) = mount_ok V (src, abs_path es)"
    by (simp add: mount_ok_def abs_path_def has_prefix_def split: sum.splits)
qed

section \<open>The type of a file system\<close>

theorem getFSType_longest:
  assumes "p \<in> set ps" and "has_prefix (with_slash (fst p)) d"
  shows "\<exists>b\<in>set ps. fs_of d ps = snd b \<and> has_prefix (with_slash (fst b)) d \<and>
           (\<forall>q\<in>set ps. has_prefix (with_slash (fst q)) d \<longrightarrow> length (fst q) \<le> length (fst b))"
proof -
  let ?F = "\<lambda>p. has_prefix (with_slash (fst p)) d" and ?qs = "disks_by_length ps"
  have set: "set ?qs = set ps" by (simp add: disks_by_length_def)
  have "find ?F ?qs \<noteq> None" using assms set by (metis find_None_iff)
  then obtain b where b: "find ?F ?qs = Some b" by blast
  then obtain k where k: "k < length ?qs" "?F (?qs ! k)" "b = ?qs ! k" "\<forall>j<k. \<not> ?F (?qs ! j)"
    by (auto simp: find_Some_iff)
  have srt: "sorted_wrt (\<lambda>p q. length (fst q) \<le> length (fst p)) ?qs"
    using sorted_sort_key[of "\<lambda>p. - int (length (fst p))" ps] by (simp add: disks_by_length_def sorted_map)
  have "length (fst q) \<le> length (fst b)" if q: "q \<in> set ps" "?F q" for q
  proof -
    obtain j where j: "j < length ?qs" "q = ?qs ! j" using q(1) set by (metis in_set_conv_nth)
    then show ?thesis using sorted_wrt_nth_less[OF srt, of k j] k q(2) by (metis le_refl linorder_neqE_nat)
  qed
  then show ?thesis using b k set by (intro bexI[of _ b]) (auto simp: fs_of_def)
qed


section \<open>Witnesses\<close>

text \<open>A host whose state is the list of its mount points, words without blanks, and that knows no files.\<close>

definition word_path :: "string \<Rightarrow> bool" where
  "word_path p \<longleftrightarrow> p \<noteq> [] \<and> list_all (\<lambda>c. \<not> is_space c) p"

definition demo_mount :: "string \<Rightarrow> string list \<Rightarrow> (go_error, unit) result \<times> string list" where
  "demo_mount p w = (if word_path p then (Inr (), p # w) else (Inl (PlainErr ''invalid argument''), w))"

definition demo_unmount :: "string \<Rightarrow> string list \<Rightarrow> (go_error, unit) result \<times> string list" where
  "demo_unmount p w = (if word_path p \<and> p \<in> set w then (Inr (), remove1 p w) else (Inl (PlainErr ''invalid argument''), w))"

definition demo_mounts :: "string list \<Rightarrow> string" where
  "demo_mounts w = concat (map (\<lambda>p. ''none '' @ p @ [CHR 0x0A]) (filter word_path w))"

definition demo_quiet :: "string list \<Rightarrow> (go_error, unit) result \<times> string list" where "demo_quiet w = (Inr (), w)"

definition demo_files :: "string list file_env" where
  "demo_files = \<lparr>fe_url = (\<lambda>_. Inr []), fe_stat_dir = (\<lambda>_ _. Inr True), fe_exists = (\<lambda>_ _. False), fe_abs = (\<lambda>p _. Inr p),
     fe_partitions = (\<lambda>_. Inr []), fe_mkdir_all = (\<lambda>_ _. demo_quiet), fe_write = (\<lambda>_ _ _. demo_quiet), fe_create = (\<lambda>_. demo_quiet),
     fe_remove_all = (\<lambda>_. demo_quiet), fe_bind = (\<lambda>_ p. demo_mount p), fe_unmount = demo_unmount,
     fe_mounts = (\<lambda>w. Inr (demo_mounts w)), fe_system = (\<lambda>_. demo_quiet), fe_lookpath = (\<lambda>_ _. Inr ''/bin/coreX''),
     fe_mount_flist = (\<lambda>_ _ _ p _. demo_mount p), fe_merge_flist = (\<lambda>_ _ _ _. demo_quiet), fe_global = (\<lambda>_. None),
     fe_terminate = demo_quiet\<rparr>"

definition demo_view :: "string list \<Rightarrow> string multiset" where "demo_view w = mset (filter word_path w)"

lemma Fields_line: "word_path p \<Longrightarrow> Fields (''none '' @ p) = [''none'', p]"
  by (simp add: Fields_def word_path_def split_by_word) (simp add: is_space_def)

lemma word_path_line: "word_path p \<Longrightarrow> CHR 0x0A \<notin> set (''none '' @ p)"
  by (auto simp: word_path_def list_all_iff is_space_def)

lemma mount_points_demo: "mount_points (demo_mounts w) = filter word_path w"
proof (induction w)
  case Nil
  show ?case by (simp add: mount_points_def demo_mounts_def Fields_def)
next
  case (Cons p w)
  show ?case
  proof (cases "word_path p")
    case True
    have "split_on CHR 0x0A (demo_mounts (p # w)) = (''none '' @ p) # split_on CHR 0x0A (demo_mounts w)"
      using split_on_append[OF word_path_line[OF True], of "demo_mounts w"] True by (simp add: demo_mounts_def)
    then show ?thesis using Cons True Fields_line[OF True] by (simp add: mount_points_def)
  next
    case False
    then show ?thesis using Cons by (simp add: demo_mounts_def)
  qed
qed

lemma demo_drops: "drops_mount demo_view p (demo_unmount p)"
proof (unfold drops_mount_def, rule allI)
  fix w
  show "if isl (fst (demo_unmount p w)) then p \<notin># demo_view w \<and> demo_view (snd (demo_unmount p w)) = demo_view w
        else demo_view (snd (demo_unmount p w)) \<subseteq># demo_view w - {#p#} \<and>
          filter_mset (\<lambda>q. \<not> under p q) (demo_view (snd (demo_unmount p w))) = filter_mset (\<lambda>q. \<not> under p q) (demo_view w)"
    by (cases "word_path p \<and> p \<in> set w") (auto simp: demo_unmount_def demo_view_def filter_remove1)
qed

lemma demo_mount_laws: "mount_laws demo_files demo_view"
proof -
  have "adds_mount demo_view p (demo_mount p)" for p by (auto simp: adds_mount_def demo_mount_def demo_view_def)
  moreover have "lists_mounts demo_view (Inr (demo_mounts w)) w" for w
    by (simp add: lists_mounts_def mount_points_demo demo_view_def)
  ultimately show ?thesis by (simp add: mount_laws_def demo_files_def demo_drops demo_quiet_def)
qed

lemma demo_file_laws: "file_laws demo_files (\<lambda>w q. if q \<in> set w then Some () else None)"
  by (simp add: file_laws_def demo_files_def demo_quiet_def)


definition demo_csand :: "string list \<Rightarrow> string list csand" where
  "demo_csand w = \<lparr>sb_Storage = ''zdb://hub'', sb_sys = w\<rparr>"

lemma config_stays_inside_witness:
  "let s = demo_csand [''/etc/passwd''] in
   (if ''/etc/passwd'' \<in> set (sb_sys (snd (flistConfigOverride demo_files (abs_path [''mnt'', ''root'']) [(''../../etc/passwd'', ''x'')] s)))
    then Some () else None) = (if ''/etc/passwd'' \<in> set (sb_sys s) then Some () else None)"
  unfolding Let_def
  by (rule config_stays_inside[OF demo_file_laws])
     (simp_all add: proper_def plain_def under_def has_prefix_def abs_path_def demo_csand_def)


lemma unMountAll_spares_others_witness:
  "let s = demo_csand [''/mnt/containers/12/data'', ''/mnt/containers/1''] in
   filter_mset (under (container_root 12)) (demo_view (sb_sys (snd (unMountAll demo_files 1 s)))) =
   filter_mset (under (container_root 12)) (demo_view (sb_sys s))"
  unfolding Let_def by (rule unMountAll_spares_others[OF demo_mount_laws]) simp

lemma mount_target_escapes_witness:
  "path_join [container_root 1, ''/../../..'' @ abs_path [''etc'']] = ''/etc'' \<and>
   mount_ok plain_env (''/data'', ''/../../..'' @ abs_path [''etc'']) = mount_ok plain_env (''/data'', abs_path [''etc''])"
  using mount_target_escapes[of "[''etc'']" 1 plain_env "''/data''"] by (simp add: proper_def plain_def abs_path_def)

lemma getFSType_longest_witness:
  "fs_of ''/var/cache/containers/'' [(''/'', ''tmpfs''), (''/var/cache'', ''btrfs''), (''/var/ca'', ''ext4'')] = ''btrfs''"
proof -
  let ?ps = "[(''/'', ''tmpfs''), (''/var/cache'', ''btrfs''), (''/var/ca'', ''ext4'')]"
  have "(''/var/cache'', ''btrfs'') \<in> set ?ps" "has_prefix (with_slash (fst (''/var/cache'', ''btrfs''))) ''/var/cache/containers/''"
    by (simp_all add: with_slash_def has_prefix_def)
  from getFSType_longest[OF this] show ?thesis by (auto simp: with_slash_def has_prefix_def)
qed

end
