(* ===== verification/Flist.thy ===== *)
theory Flist
  imports Steps Paths "HOL-Library.Countable"
begin

text \<open>
  File lists (\<^verbatim>\<open>src/apps/plugins/zfs/plugin\<close>): where a list comes from, the copy of it that is kept under its hash
  with a file that tells which files are valid, and the mount of the file system that serves it.  Archives, URLs,
  HTTP, JSON and the system calls are parameters; the file of valid sizes is a text with the position of its handle.
\<close>

section \<open>Where a list comes from\<close>

record purl =
  u_Scheme :: string
  u_Hostname :: string
  u_Path :: string

record http_reply =
  hr_ok :: bool
  hr_Status :: string
  hr_body :: string

text \<open>A file of an archive; its body may break off with an error.\<close>

record tar_item =
  th_Name :: string
  th_dir :: bool
  th_body :: string
  th_broken :: "go_error option"

record dir_item =
  di_Name :: string
  di_dir :: bool
  di_Size :: int

datatype flist = LocalFList string | RemoteFList string

text \<open>\<open>le_tar\<close> gives the files of an archive and the error it ends with, if any; \<open>le_decode\<close> reads a map of sizes and
  \<open>le_taken\<close> tells how far it has read; the file of valid sizes is opened with its text and is saved.\<close>

record ('r, 's) flist_env =
  le_url :: "string \<Rightarrow> (go_error, purl) result"
  le_md5 :: "string \<Rightarrow> string"
  le_stat :: "string \<Rightarrow> 's \<Rightarrow> (go_error, unit) result"
  le_exists :: "string \<Rightarrow> 's \<Rightarrow> bool"
  le_get :: "string \<Rightarrow> 's \<Rightarrow> (go_error, http_reply) result"
  le_read :: "string \<Rightarrow> 's \<Rightarrow> (go_error, string) result"
  le_gzip :: "string \<Rightarrow> (go_error, 'r) result"
  le_bzip2 :: "string \<Rightarrow> 'r"
  le_tar :: "'r \<Rightarrow> tar_item list \<times> go_error option"
  le_mkdir_all :: "string \<Rightarrow> 's \<Rightarrow> (go_error, unit) result \<times> 's"
  le_create :: "string \<Rightarrow> 's \<Rightarrow> (go_error, unit) result \<times> 's"
  le_copy :: "string \<Rightarrow> string \<Rightarrow> 's \<Rightarrow> (go_error, unit) result \<times> 's"
  le_remove_all :: "string \<Rightarrow> 's \<Rightarrow> (go_error, unit) result \<times> 's"
  le_read_dir :: "string \<Rightarrow> 's \<Rightarrow> (go_error, dir_item list) result"
  le_decode :: "string \<Rightarrow> (string \<times> int) list option"
  le_taken :: "string \<Rightarrow> nat"
  le_encode :: "(string \<times> int) list \<Rightarrow> string"
  le_vopen :: "string \<Rightarrow> 's \<Rightarrow> (go_error, string) result \<times> 's"
  le_vstat :: "'s \<Rightarrow> (go_error, unit) result"
  le_vwrite :: "'s \<Rightarrow> (go_error, unit) result"
  le_vsave :: "string \<Rightarrow> string \<Rightarrow> 's \<Rightarrow> 's"
  le_flock :: "string \<Rightarrow> 's \<Rightarrow> (go_error, unit) result \<times> 's"
  le_unlock :: "string \<Rightarrow> 's \<Rightarrow> 's"
  le_write_file :: "string \<Rightarrow> string \<Rightarrow> 's \<Rightarrow> (go_error, unit) result \<times> 's"
  le_global :: "string \<Rightarrow> string option"
  le_run :: "string \<Rightarrow> string list \<Rightarrow> hook list \<Rightarrow> 's \<Rightarrow> (go_error, hook_call list \<times> string) result \<times> 's"
  le_job :: "string \<Rightarrow> 's \<Rightarrow> bool"
  le_signal :: "string \<Rightarrow> 's \<Rightarrow> (go_error, unit) result \<times> 's"

definition HubHost :: string where "HubHost = ''hub.grid.tf''"
definition ValidFileName :: string where "ValidFileName = ''.valid''"
definition CacheBaseDir :: string where "CacheBaseDir = ''/var/cache''"
definition CacheZeroFSDir :: string where "CacheZeroFSDir = CacheBaseDir @ ''/zerofs''"
definition CacheFListDir :: string where "CacheFListDir = CacheBaseDir @ ''/flist''"
definition LocalRouterFile :: string where "LocalRouterFile = CacheBaseDir @ ''/router.yaml''"

definition getFList :: "('r, 's) flist_env \<Rightarrow> string \<Rightarrow> (fault, flist) result" where
  "getFList E src = rbind (lift_err (le_url E src)) (\<lambda>u.
     if u_Scheme u = ''file'' \<or> u_Scheme u = [] then Inr (LocalFList (u_Path u))
     else if u_Scheme u = ''http'' \<or> u_Scheme u = ''https'' then
       if u_Hostname u \<noteq> HubHost then fail (''remote flist must be from ('' @ HubHost @ '')'') else Inr (RemoteFList src)
     else fail (''invalid flist url ('' @ src @ '')''))"

text \<open>The hash of a local list is that of its name; that of a remote list is downloaded, and the first 32 bytes of the
  reply are sliced out.\<close>

definition flist_Hash :: "('r, 's) flist_env \<Rightarrow> flist \<Rightarrow> 's \<Rightarrow> (fault, string) result" where
  "flist_Hash E fl w = (case fl of
     LocalFList p \<Rightarrow> rbind (lift_err (le_stat E p w)) (\<lambda>_. Inr (le_md5 E p))
   | RemoteFList p \<Rightarrow> rbind (lift_err (le_get E (p @ ''.md5'') w)) (\<lambda>r.
       if \<not> hr_ok r then fail (''failed to get flist hash: '' @ hr_Status r)
       else if length (hr_body r) < 32 then Inl (Panic ''slice bounds out of range'')
       else Inr (take 32 (hr_body r))))"

definition flist_Open :: "('r, 's) flist_env \<Rightarrow> flist \<Rightarrow> 's \<Rightarrow> (fault, string) result" where
  "flist_Open E fl w = (case fl of
     LocalFList p \<Rightarrow> lift_err (le_read E p w)
   | RemoteFList p \<Rightarrow> rbind (lift_err (le_get E p w)) (\<lambda>r.
       if hr_ok r then Inr (hr_body r) else fail (''failed to download flist: '' @ hr_Status r)))"

definition flist_Ext :: "flist \<Rightarrow> string" where
  "flist_Ext fl = (case fl of LocalFList p \<Rightarrow> path_ext p | RemoteFList p \<Rightarrow> path_ext p)"

section \<open>The file of valid sizes\<close>

text \<open>The text of the file and the position at which the handle reads and writes; what is written beyond the end leaves
  a hole of zero bytes.\<close>

record vfile =
  vf_text :: string
  vf_off :: nat

record 's lstate =
  ls_v :: vfile
  ls_sys :: 's

definition write_at :: "nat \<Rightarrow> string \<Rightarrow> string \<Rightarrow> string" where
  "write_at k d t = take k t @ replicate (k - length t) (CHR 0x00) @ d @ drop (k + length d) t"

definition upd_v :: "(vfile \<Rightarrow> vfile) \<Rightarrow> ('s lstate, unit) act" where
  "upd_v f = (\<lambda>s. (Inr (), s\<lparr>ls_v := f (ls_v s)\<rparr>))"

definition vf_Truncate :: "vfile \<Rightarrow> vfile" where "vf_Truncate v = v\<lparr>vf_text := []\<rparr>"

definition vf_Write :: "string \<Rightarrow> vfile \<Rightarrow> vfile" where
  "vf_Write d v = v\<lparr>vf_text := write_at (vf_off v) d (vf_text v), vf_off := vf_off v + length d\<rparr>"

definition vf_Decode :: "('r, 's) flist_env \<Rightarrow> ('s lstate, (string \<times> int) list option) act" where
  "vf_Decode E = (\<lambda>s. let rest = drop (vf_off (ls_v s)) (vf_text (ls_v s)) in
     (Inr (le_decode E rest), s\<lparr>ls_v := (ls_v s)\<lparr>vf_off := vf_off (ls_v s) + le_taken E rest\<rparr>\<rparr>))"

definition lsys :: "('s \<Rightarrow> (go_error, 'a) result \<times> 's) \<Rightarrow> ('s lstate, 'a) act" where
  "lsys f = scall (\<lambda>s. case f (ls_sys s) of (r, w) \<Rightarrow> (r, s\<lparr>ls_sys := w\<rparr>))"

definition lask :: "('s \<Rightarrow> (fault, 'a) result) \<Rightarrow> ('s lstate, 'a) act" where
  "lask f = sget (\<lambda>s. f (ls_sys s))"

text \<open>Every file of the directory must have an entry with its size; an entry need not have a file.\<close>

definition files_valid :: "(string \<times> int) list \<Rightarrow> dir_item list \<Rightarrow> bool" where
  "files_valid data files = list_all (\<lambda>f. di_dir f \<or> di_Name f = ValidFileName \<or> map_of data (di_Name f) = Some (di_Size f)) files"

definition metaValidate :: "('r, 's) flist_env \<Rightarrow> string \<Rightarrow> ('s lstate, bool) act" where
  "metaValidate E base =
     sbind (lask (\<lambda>w. lift_err (le_vstat E w))) (\<lambda>_.
     sbind (sget (\<lambda>s. Inr (vf_text (ls_v s)))) (\<lambda>t.
     if t = [] then sret False
     else sbind (vf_Decode E) (\<lambda>m. case m of
         None \<Rightarrow> sret False
       | Some data \<Rightarrow>
           if data = [] then sret False
           else sbind (lask (\<lambda>w. lift_err (le_read_dir E base w))) (\<lambda>files. sret (files_valid data files)))))"

section \<open>Extracting an archive\<close>

definition put_size :: "string \<Rightarrow> int \<Rightarrow> (string \<times> int) list \<Rightarrow> (string \<times> int) list" where
  "put_size k v m = (k, v) # filter (\<lambda>p. fst p \<noteq> k) m"

definition archive_reader :: "('r, 's) flist_env \<Rightarrow> string \<Rightarrow> string \<Rightarrow> (fault, 'r option) result" where
  "archive_reader E ext data =
     (if ext = ''.gz'' \<or> ext = ''.tgz'' \<or> ext = ''.flist'' then rbind (lift_err (le_gzip E data)) (\<lambda>r. Inr (Some r))
      else if ext = ''.tbz2'' \<or> ext = ''.bz2'' then Inr (Some (le_bzip2 E data))
      else if ext = ''.tar'' then Inr None
      else fail (''unknown flist type: '' @ ext))"

definition extract_item :: "('r, 's) flist_env \<Rightarrow> string \<Rightarrow> tar_item \<Rightarrow> (string \<times> int) list \<Rightarrow> ('s lstate, (string \<times> int) list) act" where
  "extract_item E base h valid =
     (if th_dir h then sret valid
      else
        sbind (lsys (le_mkdir_all E (path_join [base, path_dir (th_Name h)]))) (\<lambda>_.
        sbind (lsys (le_create E (path_join [base, th_Name h]))) (\<lambda>_.
        sbind (lsys (le_copy E (path_join [base, th_Name h]) (th_body h))) (\<lambda>_.
        case th_broken h of
          Some e \<Rightarrow> slift (Inl (Fault e))
        | None \<Rightarrow> sret (put_size (path_base (th_Name h)) (int (length (th_body h))) valid)))))"

fun extract_items :: "('r, 's) flist_env \<Rightarrow> string \<Rightarrow> tar_item list \<Rightarrow> (string \<times> int) list \<Rightarrow> ('s lstate, (string \<times> int) list) act" where
  "extract_items E base [] valid = sret valid"
| "extract_items E base (h # hs) valid = sbind (extract_item E base h valid) (extract_items E base hs)"

text \<open>A plain \<^verbatim>\<open>.tar\<close> is announced but leaves the reader unset, which the first read runs into.\<close>

definition extract_flist :: "('r, 's) flist_env \<Rightarrow> string \<Rightarrow> flist \<Rightarrow> ('s lstate, unit) act" where
  "extract_flist E base fl =
     sbind (lask (flist_Open E fl)) (\<lambda>data.
     sbind (slift (archive_reader E (flist_Ext fl) data)) (\<lambda>rd. case rd of
       None \<Rightarrow> slift (Inl (Panic ''invalid memory address or nil pointer dereference''))
     | Some r \<Rightarrow>
         sbind (extract_items E base (fst (le_tar E r)) []) (\<lambda>valid.
         case snd (le_tar E r) of
           Some e \<Rightarrow> slift (Inl (Fault e))
         | None \<Rightarrow>
             sbind (upd_v vf_Truncate) (\<lambda>_.
             sbind (lask (\<lambda>w. lift_err (le_vwrite E w))) (\<lambda>_.
             upd_v (vf_Write (le_encode E valid @ [CHR 0x0A])))))))"

section \<open>The copy of a list\<close>

text \<open>A step on the open file of valid sizes, which is saved whatever becomes of the step.\<close>

definition with_vfile :: "('r, 's) flist_env \<Rightarrow> string \<Rightarrow> ('s lstate, 'a) act \<Rightarrow> ('s, 'a) act" where
  "with_vfile E p m =
     sbind (scall (le_vopen E p)) (\<lambda>t. sbind (scall (le_flock E p)) (\<lambda>_.
       (\<lambda>w. case m \<lparr>ls_v = \<lparr>vf_text = t, vf_off = 0\<rparr>, ls_sys = w\<rparr> of
          (r, s) \<Rightarrow> (r, le_unlock E p (le_vsave E p (vf_text (ls_v s)) (ls_sys s))))))"

definition refresh :: "('r, 's) flist_env \<Rightarrow> string \<Rightarrow> flist \<Rightarrow> ('s lstate, unit) act" where
  "refresh E base fl = sbind (metaValidate E base) (\<lambda>valid. if valid then sret () else extract_flist E base fl)"

record fl_meta =
  fm_Base :: string
  fm_Hash :: string

definition getMeta :: "('r, 's) flist_env \<Rightarrow> string \<Rightarrow> ('s, fl_meta) act" where
  "getMeta E src =
     sbind (slift (getFList E src)) (\<lambda>fl.
     sbind (sget (flist_Hash E fl)) (\<lambda>hash.
     let base = path_join [CacheFListDir, hash] in
     sbind (scall (le_mkdir_all E base)) (\<lambda>_.
     sbind (with_vfile E (path_join [base, ValidFileName]) (refresh E base fl)) (\<lambda>_.
     sret \<lparr>fm_Base = base, fm_Hash = hash\<rparr>))))"

section \<open>Mounting\<close>

text \<open>The hooks of the mount: the first that fires, ready or exit, ends the wait; an exit without success is an error.
  Without either the wait does not end (\<open>None\<close>).\<close>

definition mount_hooks :: "hook list" where
  "mount_hooks = [MatchHook \<lparr>mh_Match = ''mount starts'', mh_io = False, mh_p = None, mh_o = False\<rparr>, ExitHook False]"

fun hooks_calls :: "(string \<Rightarrow> (string \<Rightarrow> bool) option) \<Rightarrow> hook_call list \<Rightarrow> hook list \<Rightarrow> hook_event list" where
  "hooks_calls compile [] hs = []"
| "hooks_calls compile (c # cs) hs = (case run_hooks (hook_call compile c) hs of (hs', e) \<Rightarrow> e @ hooks_calls compile cs hs')"

definition mount_outcome :: "string \<Rightarrow> string \<Rightarrow> hook_event list \<Rightarrow> (fault, unit) result option" where
  "mount_outcome target streams es = (case es of
     [] \<Rightarrow> None
   | ExitFired False # _ \<Rightarrow> Some (fail (''abnormal exit of filesystem mount at '' @ [CHR 0x27] @ target @ [CHR 0x27] @ '': '' @ streams))
   | _ # _ \<Rightarrow> Some (Inr ()))"

definition mount_id :: "string \<Rightarrow> string \<Rightarrow> string" where "mount_id namespace target = path_join [namespace, target]"

definition g8ufs_args :: "('r, 's) flist_env \<Rightarrow> string \<Rightarrow> fl_meta \<Rightarrow> string \<Rightarrow> string \<Rightarrow> bool \<Rightarrow> string list" where
  "g8ufs_args E backend meta storage target routed =
     [''--reset'', ''--backend'', backend,
      ''--cache'', (case le_global E ''cache'' of Some c \<Rightarrow> c | None \<Rightarrow> CacheZeroFSDir),
      ''--log'', path_join [backend, ''fs.log''], ''--meta'', fm_Base meta, ''--storage-url'', storage] @
     (if routed then [''--local-router'', LocalRouterFile] else []) @ [target]"

definition MountFList ::
  "('r, 's) flist_env \<Rightarrow> (string \<Rightarrow> (string \<Rightarrow> bool) option) \<Rightarrow> string \<Rightarrow> string \<Rightarrow> string \<Rightarrow> string \<Rightarrow> hook list \<Rightarrow> ('s, unit option) act" where
  "MountFList E compile namespace storage src target hooks =
     sbind (scall (le_mkdir_all E target)) (\<lambda>_.
     sbind (getMeta E src) (\<lambda>meta.
     let backend = path_join [CacheBaseDir, namespace, fm_Hash meta] in
     sbind (signore (scall (le_remove_all E backend))) (\<lambda>_.
     sbind (signore (scall (le_mkdir_all E backend))) (\<lambda>_.
     sbind (sget (\<lambda>w. Inr (le_exists E LocalRouterFile w))) (\<lambda>routed.
     sbind (scall (le_run E (mount_id namespace target) (g8ufs_args E backend meta storage target routed) (hooks @ mount_hooks)))
       (\<lambda>(calls, streams). case mount_outcome target streams (hooks_calls compile calls mount_hooks) of
          None \<Rightarrow> sret None
        | Some r \<Rightarrow> slift (rbind r (\<lambda>_. Inr (Some ())))))))))"

text \<open>One more list on top of a mounted one: its data is written beside the backend, and the file system is told to
  reload.\<close>

definition MergeFList :: "('r, 's) flist_env \<Rightarrow> string \<Rightarrow> string \<Rightarrow> string \<Rightarrow> string \<Rightarrow> ('s, unit) act" where
  "MergeFList E namespace target base fl =
     sbind (sget (\<lambda>w. Inr (le_job E (mount_id namespace target) w))) (\<lambda>ok.
     if \<not> ok then slift (fail (''no filesystem running for the provided namespace and target ('' @ namespace @ ''/'' @ target @ '')''))
     else
       sbind (getMeta E fl) (\<lambda>meta.
       sbind (slift (getFList E base)) (\<lambda>f.
       sbind (sget (flist_Hash E f)) (\<lambda>hash.
       sbind (scall (le_write_file E (path_join [path_join [CacheBaseDir, namespace, hash], ''.layered'']) (fm_Base meta))) (\<lambda>_.
       scall (le_signal E (mount_id namespace target)))))))"

section \<open>What a run leaves in the file of valid sizes\<close>




abbreviation opened :: "string \<Rightarrow> 's \<Rightarrow> 's lstate" where
  "opened t w \<equiv> \<lparr>ls_v = \<lparr>vf_text = t, vf_off = 0\<rparr>, ls_sys = w\<rparr>"














section \<open>A fresh copy is valid\<close>

definition sizes_of :: "tar_item list \<Rightarrow> (string \<times> int) list \<Rightarrow> (string \<times> int) list" where
  "sizes_of hs v = fold (\<lambda>h v. if th_dir h then v else put_size (path_base (th_Name h)) (int (length (th_body h))) v) hs v"


lemma put_size_simps [simp]: "map_of (put_size k v m) = (map_of m)(k \<mapsto> v)"
proof -
  have "map_of (filter (\<lambda>p. fst p \<noteq> k) m) x = (if x = k then None else map_of m x)" for x
    by (induction m) auto
  then show ?thesis by (auto simp: put_size_def)
qed









text \<open>Two files of the archive with one base name and different sizes: the copy is not valid although it is complete.\<close>

theorem same_base_name_not_valid:
  assumes "\<not> th_dir g" and "path_base (th_Name g) = di_Name f" and "int (length (th_body g)) \<noteq> di_Size f"
    and "\<not> di_dir f" and "di_Name f \<noteq> ValidFileName" and "f \<in> set files"
  shows "\<not> files_valid (sizes_of (hs @ [g]) []) files"
proof -
  have "map_of (sizes_of (hs @ [g]) []) (di_Name f) \<noteq> Some (di_Size f)"
    using assms(1-3) by (simp add: sizes_of_def)
  then show ?thesis using assms(4-6) by (auto simp: files_valid_def list_all_iff)
qed

text \<open>A copy whose files are gone counts as valid.\<close>

theorem emptied_copy_is_valid:
  assumes "le_vstat E w = Inr ()" and "le_read_dir E base w = Inr []" and "t \<noteq> []" and "le_decode E t = Some (p # m)"
  shows "fst (metaValidate E base (opened t w)) = Inr True"
  using assms by (simp add: metaValidate_def lask_def vf_Decode_def Let_def act_defs files_valid_def)

section \<open>Sources and panics\<close>

theorem remote_lists_are_from_the_hub:
  assumes "getFList E src = Inr (RemoteFList p)"
  shows "p = src \<and> (\<exists>u. le_url E src = Inr u \<and> u_Hostname u = HubHost \<and> u_Scheme u \<in> {''http'', ''https''})"
  using assms by (auto simp: getFList_def rbind_eq_Inr lift_err_Inr split: if_splits)

theorem other_schemes_are_refused:
  assumes "le_url E src = Inr u" and "u_Scheme u \<notin> {[], ''file'', ''http'', ''https''}"
  shows "fst (getMeta E src w) = fail (''invalid flist url ('' @ src @ '')'') \<and> snd (getMeta E src w) = w"
  using assms by (simp add: getMeta_def getFList_def act_defs fail_def)

theorem plain_tar_panics:
  assumes "flist_Open E fl (ls_sys s) = Inr data" and "flist_Ext fl = ''.tar''"
  shows "extract_flist E base fl s = (Inl (Panic ''invalid memory address or nil pointer dereference''), s)"
  using assms by (simp add: extract_flist_def archive_reader_def lask_def act_defs)

theorem short_hash_panics:
  assumes "le_get E (p @ ''.md5'') w = Inr r" and "hr_ok r" and "length (hr_body r) < 32"
  shows "flist_Hash E (RemoteFList p) w = Inl (Panic ''slice bounds out of range'')"
  using assms by (simp add: flist_Hash_def)

text \<open>The files of an archive whose names do not lead upwards are created below the directory of the copy.\<close>

lemma extracted_inside:
  assumes "list_all proper ts" and "ts \<noteq> []" and "''..'' \<notin> set (elements (th_Name h))"
  shows "under (abs_path ts) (path_join [abs_path ts, th_Name h])"
  using assms by (rule under_join_proper)

section \<open>The wait for the mount\<close>

text \<open>The call that ends the wait: a line that tells of the mount, or the exit.\<close>

definition decisive :: "(string \<Rightarrow> (string \<Rightarrow> bool) option) \<Rightarrow> hook_call \<Rightarrow> bool" where
  "decisive compile c = (case c of
     CallMessage m \<Rightarrow> (case compile ''mount starts'' of Some p \<Rightarrow> p (msg_text m) | None \<Rightarrow> False)
   | CallExit _ \<Rightarrow> True
   | _ \<Rightarrow> False)"

definition call_outcome :: "string \<Rightarrow> string \<Rightarrow> hook_call \<Rightarrow> (fault, unit) result" where
  "call_outcome target streams c =
     (case c of
        CallExit st \<Rightarrow> if st = StateSuccess then Inr ()
          else fail (''abnormal exit of filesystem mount at '' @ [CHR 0x27] @ target @ [CHR 0x27] @ '': '' @ streams)
      | _ \<Rightarrow> Inr ())"

definition waiting :: "(string \<Rightarrow> (string \<Rightarrow> bool) option) \<Rightarrow> hook list \<Rightarrow> bool" where
  "waiting compile hs \<longleftrightarrow> (\<exists>h. hs = [MatchHook h, ExitHook False] \<and> mh_Match h = ''mount starts'' \<and> \<not> mh_o h \<and>
     (mh_io h \<longrightarrow> mh_p h = compile ''mount starts''))"


lemma waiting_step:
  assumes "waiting compile hs" and "\<not> decisive compile c"
  shows "\<exists>hs'. run_hooks (hook_call compile c) hs = (hs', []) \<and> waiting compile hs'"
  using assms
  by (cases c) (auto simp: waiting_def decisive_def run_hooks_def hook_defs Let_def split: option.splits)

lemma decisive_step:
  assumes "waiting compile hs" and "decisive compile c"
  shows "\<exists>hs' es. run_hooks (hook_call compile c) hs =
    (hs', (case c of CallExit st \<Rightarrow> ExitFired (st = StateSuccess) | CallMessage m \<Rightarrow> MatchFired m | _ \<Rightarrow> DelayFired) # es)"
  using assms
  by (cases c) (auto simp: waiting_def decisive_def run_hooks_def hook_defs Let_def split: option.splits)

lemma waits_for_first:
  assumes "waiting compile hs"
  shows "mount_outcome target streams (hooks_calls compile calls hs) = map_option (call_outcome target streams) (find (decisive compile) calls)"
  using assms
proof (induction calls arbitrary: hs)
  case (Cons c cs)
  show ?case
  proof (cases "decisive compile c")
    case True
    obtain hs' es where "run_hooks (hook_call compile c) hs =
      (hs', (case c of CallExit st \<Rightarrow> ExitFired (st = StateSuccess) | CallMessage m \<Rightarrow> MatchFired m | _ \<Rightarrow> DelayFired) # es)"
      using decisive_step[OF Cons.prems True] by blast
    then show ?thesis using True by (cases c) (auto simp: mount_outcome_def call_outcome_def decisive_def split: bool.splits)
  next
    case False
    obtain hs' where "run_hooks (hook_call compile c) hs = (hs', [])" "waiting compile hs'" using waiting_step[OF Cons.prems False] by blast
    then show ?thesis using Cons.IH[of hs'] False by simp
  qed
qed (simp add: mount_outcome_def)

text \<open>The wait for a mount ends with the first line that tells of the mount or with the exit, whichever comes first in the
  run of the job, and gives an error only for an exit without success.\<close>

theorem mount_waits_for_first:
  "mount_outcome target streams (hooks_calls compile calls mount_hooks) =
   map_option (call_outcome target streams) (find (decisive compile) calls)"
  by (rule waits_for_first) (simp add: waiting_def mount_hooks_def)

section \<open>The root of a restored container\<close>

definition restored_root :: "string \<Rightarrow> string" where "restored_root repo = ''restic:'' @ repo"

theorem restored_root_never_mounts:
  assumes "le_url E (restored_root repo) = Inr u" and "u_Scheme u = ''restic''"
  shows "isl (fst (MountFList E compile namespace storage (restored_root repo) target hooks w))"
proof -
  obtain r w' where m: "le_mkdir_all E target w = (r, w')" by (cases "le_mkdir_all E target w")
  have g: "getMeta E (restored_root repo) w' = (fail (''invalid flist url ('' @ restored_root repo @ '')''), w')"
    using assms by (simp add: getMeta_def getFList_def act_defs fail_def)
  show ?thesis
  proof (cases r)
    case (Inl e)
    then show ?thesis using m by (simp add: MountFList_def sbind_def scall_def)
  next
    case (Inr x)
    then show ?thesis using m g by (simp add: MountFList_def sbind_def scall_def fail_def)
  qed
qed

section \<open>Witnesses\<close>

text \<open>A host with one archive; a map of sizes is written as a number in strokes.\<close>

definition demo_item :: tar_item where
  "demo_item = \<lparr>th_Name = ''flistdb.sqlite3'', th_dir = False, th_body = ''data'', th_broken = None\<rparr>"

definition demo_encode :: "(string \<times> int) list \<Rightarrow> string" where "demo_encode m = replicate (Suc (to_nat m)) (CHR ''x'')"

definition demo_decode :: "string \<Rightarrow> (string \<times> int) list option" where
  "demo_decode t = (case t of c # s \<Rightarrow> if c = CHR ''x'' then Some (from_nat (length s - 1)) else None | [] \<Rightarrow> None)"

definition demo_still :: "dir_item list \<Rightarrow> (go_error, unit) result \<times> dir_item list" where "demo_still w = (Inr (), w)"

definition demo_lists :: "(tar_item list, dir_item list) flist_env" where
  "demo_lists = \<lparr>le_url = (\<lambda>s. Inr \<lparr>u_Scheme = (if has_prefix ''restic:'' s then ''restic'' else []), u_Hostname = [], u_Path = s\<rparr>), le_md5 = id,
     le_stat = (\<lambda>_ _. Inr ()), le_exists = (\<lambda>_ _. False), le_get = (\<lambda>_ _. Inr \<lparr>hr_ok = True, hr_Status = [], hr_body = ''short''\<rparr>),
     le_read = (\<lambda>_ _. Inr []), le_gzip = (\<lambda>_. Inr [demo_item]), le_bzip2 = (\<lambda>_. []), le_tar = (\<lambda>r. (r, None)),
     le_mkdir_all = (\<lambda>_. demo_still), le_create = (\<lambda>_. demo_still), le_copy = (\<lambda>_ _. demo_still), le_remove_all = (\<lambda>_. demo_still),
     le_read_dir = (\<lambda>_ w. Inr w), le_decode = demo_decode, le_taken = length, le_encode = demo_encode, le_vopen = (\<lambda>_ w. (Inr [], w)),
     le_vstat = (\<lambda>_. Inr ()), le_vwrite = (\<lambda>_. Inr ()), le_vsave = (\<lambda>_ _ w. w), le_flock = (\<lambda>_. demo_still), le_unlock = (\<lambda>_ w. w),
     le_write_file = (\<lambda>_ _. demo_still), le_global = (\<lambda>_. None), le_run = (\<lambda>_ _ _ w. (Inr ([], []), w)), le_job = (\<lambda>_ _. True),
     le_signal = (\<lambda>_. demo_still)\<rparr>"






lemma same_base_name_not_valid_witness:
  "\<not> files_valid (sizes_of ([demo_item] @ [demo_item\<lparr>th_Name := ''old/flistdb.sqlite3'', th_body := []\<rparr>]) [])
     [\<lparr>di_Name = ''flistdb.sqlite3'', di_dir = False, di_Size = 4\<rparr>]"
  by (rule same_base_name_not_valid) (simp_all add: demo_item_def path_base_def last_elem_def trim_right_def ValidFileName_def)

lemma emptied_copy_is_valid_witness:
  "fst (metaValidate (demo_lists\<lparr>le_decode := \<lambda>_. Some [(''flistdb.sqlite3'', 4)]\<rparr>) ''/c'' (opened ''x'' [])) = Inr True"
  by (rule emptied_copy_is_valid) (simp_all add: demo_lists_def)

lemma remote_lists_are_from_the_hub_witness:
  "let E = demo_lists\<lparr>le_url := \<lambda>_. Inr \<lparr>u_Scheme = ''https'', u_Hostname = HubHost, u_Path = []\<rparr>\<rparr> in
   \<exists>u. le_url E ''https://hub.grid.tf/a'' = Inr u \<and> u_Hostname u = HubHost"
proof -
  let ?E = "demo_lists\<lparr>le_url := \<lambda>_. Inr \<lparr>u_Scheme = ''https'', u_Hostname = HubHost, u_Path = []\<rparr>\<rparr>"
  have "getFList ?E ''https://hub.grid.tf/a'' = Inr (RemoteFList ''https://hub.grid.tf/a'')" by (simp add: getFList_def)
  from remote_lists_are_from_the_hub[OF this] show ?thesis by auto
qed

lemma other_schemes_are_refused_witness:
  "fst (getMeta demo_lists ''restic:r'' []) = fail (''invalid flist url ('' @ ''restic:r'' @ '')'') \<and> snd (getMeta demo_lists ''restic:r'' []) = []"
  by (rule other_schemes_are_refused[where u = "\<lparr>u_Scheme = ''restic'', u_Hostname = [], u_Path = ''restic:r''\<rparr>"])
     (simp_all add: demo_lists_def has_prefix_def)

lemma plain_tar_panics_witness:
  "extract_flist demo_lists ''/c'' (LocalFList ''u.tar'') (opened [] []) =
     (Inl (Panic ''invalid memory address or nil pointer dereference''), opened [] [])"
  by (rule plain_tar_panics) (simp_all add: flist_Open_def demo_lists_def flist_Ext_def path_ext_def last_elem_def)

lemma short_hash_panics_witness:
  "flist_Hash demo_lists (RemoteFList ''https://hub.grid.tf/a'') [] = Inl (Panic ''slice bounds out of range'')"
  by (rule short_hash_panics[where r = "\<lparr>hr_ok = True, hr_Status = [], hr_body = ''short''\<rparr>"]) (simp_all add: demo_lists_def)

lemma restored_root_never_mounts_witness:
  "isl (fst (MountFList demo_lists (\<lambda>_. None) ''containers/1'' ''zdb'' (restored_root ''/backup'') ''/mnt/containers/1'' [] []))"
  by (rule restored_root_never_mounts[where u = "\<lparr>u_Scheme = ''restic'', u_Hostname = [], u_Path = ''restic:/backup''\<rparr>"])
     (simp_all add: demo_lists_def restored_root_def has_prefix_def)

end
