(* ===== verification/Cont_Flist.thy ===== *)
theory Cont_Flist
  imports Containers Steps Paths
begin

text \<open>
  Lists made from a container and backups of it (\<^verbatim>\<open>flist.go\<close> and \<^verbatim>\<open>backup.go\<close> of
  \<^verbatim>\<open>src/apps/plugins/containers/plugin\<close>).  Both stop the processes of the container while an external
  program reads its files.  The program, archives, YAML, JSON and the system calls are parameters.
\<close>

section \<open>Surroundings\<close>

datatype entry_kind = TypeDir | TypeReg | TypeOther

text \<open>An entry of an archive, and one of a directory tree that is walked.\<close>

record arch_item =
  ai_Name :: string
  ai_kind :: entry_kind
  ai_body :: string
  ai_broken :: "go_error option"

record walk_item =
  wi_path :: string
  wi_base :: string
  wi_kind :: entry_kind
  wi_body :: string

text \<open>A URL; \<open>bu_bare\<close> is its text without the query and the fragment.\<close>

record backup_url =
  bu_Scheme :: string
  bu_Path :: string
  bu_bare :: string
  bu_password :: string

record 's fc_env =
  fc_kill :: "int \<Rightarrow> string \<Rightarrow> 's \<Rightarrow> 's"
  fc_zflist :: "string list \<Rightarrow> 's \<Rightarrow> (go_error, unit) result \<times> 's"
  fc_yaml :: "string \<Rightarrow> (go_error, string) result"
  fc_read :: "string \<Rightarrow> 's \<Rightarrow> (go_error, string) result"
  fc_gunzip :: "string \<Rightarrow> (go_error, string) result"
  fc_untar :: "string \<Rightarrow> arch_item list \<times> go_error option"
  fc_exists :: "string \<Rightarrow> 's \<Rightarrow> bool"
  fc_mkdir_all :: "string \<Rightarrow> 's \<Rightarrow> (go_error, unit) result \<times> 's"
  fc_open_file :: "string \<Rightarrow> 's \<Rightarrow> (go_error, unit) result \<times> 's"
  fc_copy :: "string \<Rightarrow> string \<Rightarrow> 's \<Rightarrow> (go_error, unit) result \<times> 's"
  fc_write_file :: "string \<Rightarrow> string \<Rightarrow> 's \<Rightarrow> (go_error, unit) result \<times> 's"
  fc_truncate :: "string \<Rightarrow> 's \<Rightarrow> (go_error, unit) result \<times> 's"
  fc_remove_all :: "string \<Rightarrow> 's \<Rightarrow> (go_error, unit) result \<times> 's"
  fc_stat_dir :: "string \<Rightarrow> 's \<Rightarrow> (go_error, bool) result"
  fc_walk :: "string \<Rightarrow> 's \<Rightarrow> (go_error, walk_item) result list"
  fc_tar_add :: "string \<Rightarrow> arch_item \<Rightarrow> 's \<Rightarrow> (go_error, unit) result \<times> 's"
  fc_url :: "string \<Rightarrow> (go_error, backup_url) result"
  fc_json :: "cont_args \<Rightarrow> (go_error, string) result"
  fc_parse_args :: "string \<Rightarrow> (go_error, cont_args) result"
  fc_read_dir :: "string \<Rightarrow> 's \<Rightarrow> (go_error, string list) result"
  fc_remove :: "string \<Rightarrow> 's \<Rightarrow> (go_error, unit) result \<times> 's"
  fc_restic :: "string list \<Rightarrow> string \<Rightarrow> 's \<Rightarrow> (go_error, bool \<times> string \<times> string) result \<times> 's"
  fc_snapshot :: "string \<Rightarrow> string option"
  fc_tmp_dir :: "'s \<Rightarrow> (go_error, string) result \<times> 's"
  fc_restore_repo :: "string \<Rightarrow> string \<Rightarrow> string list \<Rightarrow> 's \<Rightarrow> (go_error, unit) result \<times> 's"
  fc_create :: "cont_args \<Rightarrow> 's \<Rightarrow> (go_error, 16 word) result \<times> 's"
  fc_resolve :: "string \<Rightarrow> string"

text \<open>What a handler looks up of a container: its root, its process and its arguments.\<close>

record flist_cont =
  lc_Root :: string
  lc_PID :: int
  lc_Args :: cont_args

type_synonym flist_conts = "16 word \<Rightarrow> flist_cont option"

text \<open>A deferred call runs after every outcome, a panic included.\<close>

definition deferred :: "('s, 'a) act \<Rightarrow> ('s, unit) act \<Rightarrow> ('s, 'a) act" where
  "deferred m h = (\<lambda>s. case m s of (r, s') \<Rightarrow> (r, snd (h s')))"

definition kill :: "'s fc_env \<Rightarrow> int \<Rightarrow> string \<Rightarrow> ('s, unit) act" where
  "kill E pid sig = (\<lambda>s. (Inr (), fc_kill E (- pid) sig s))"

text \<open>The processes of a container are stopped during a step.\<close>

definition while_stopped :: "'s fc_env \<Rightarrow> int \<Rightarrow> ('s, 'a) act \<Rightarrow> ('s, 'a) act" where
  "while_stopped E pid m = sbind (kill E pid ''SIGSTOP'') (\<lambda>_. deferred m (kill E pid ''SIGCONT''))"

section \<open>Archives\<close>

definition untar_item :: "'s fc_env \<Rightarrow> string \<Rightarrow> arch_item \<Rightarrow> ('s, unit) act" where
  "untar_item E dst h = (let target = path_join [dst, ai_Name h] in case ai_kind h of
     TypeDir \<Rightarrow> sbind (sget (\<lambda>w. Inr (fc_exists E target w))) (\<lambda>ex.
       if ex then sret () else scall (fc_mkdir_all E target))
   | TypeReg \<Rightarrow> sbind (scall (fc_open_file E target)) (\<lambda>_.
       sbind (scall (fc_copy E target (ai_body h))) (\<lambda>_.
       case ai_broken h of Some e \<Rightarrow> slift (Inl (Fault e)) | None \<Rightarrow> sret ()))
   | TypeOther \<Rightarrow> sret ())"

definition Untar :: "'s fc_env \<Rightarrow> string \<Rightarrow> string \<Rightarrow> ('s, unit) act" where
  "Untar E dst data =
     sbind (scall (fc_mkdir_all E dst)) (\<lambda>_.
     sbind (slift (lift_err (fc_gunzip E data))) (\<lambda>t.
     sbind (sfor (untar_item E dst) (fst (fc_untar E t))) (\<lambda>_.
     case snd (fc_untar E t) of Some e \<Rightarrow> slift (Inl (Fault e)) | None \<Rightarrow> sret ())))"

definition trim_prefix :: "string \<Rightarrow> string \<Rightarrow> string" where
  "trim_prefix p s = (if has_prefix p s then drop (length p) s else s)"

text \<open>The name of an entry: below the root of the walk, with a slash behind it for a directory.\<close>

definition tar_name :: "string \<Rightarrow> bool \<Rightarrow> walk_item \<Rightarrow> string" where
  "tar_name src src_dir i =
     (let is_dir = (wi_kind i = TypeDir);
          n = (if is_dir \<and> wi_path i = src then ''.''
               else if src_dir \<and> path_base src \<noteq> [] then ''.'' @ trim_prefix src (wi_path i)
               else wi_base i)
      in if is_dir then n @ ''/'' else n)"

definition tar_item :: "string \<Rightarrow> bool \<Rightarrow> walk_item \<Rightarrow> arch_item" where
  "tar_item src src_dir i = \<lparr>ai_Name = tar_name src src_dir i, ai_kind = wi_kind i,
     ai_body = (if wi_kind i = TypeReg then wi_body i else []), ai_broken = None\<rparr>"

definition Tar :: "'s fc_env \<Rightarrow> string \<Rightarrow> string \<Rightarrow> ('s, unit) act" where
  "Tar E src out =
     sbind (werr (\<lambda>e. PlainErr (''Unable to tar files - '' @ error_text e)) (sget (\<lambda>w. lift_err (fc_stat_dir E src w)))) (\<lambda>src_dir.
     sbind (sget (\<lambda>w. Inr (fc_walk E src w))) (\<lambda>items.
     sfor (\<lambda>i. sbind (slift (lift_err i)) (\<lambda>i. scall (fc_tar_add E out (tar_item src src_dir i)))) items))"

definition addRouterFile :: "'s fc_env \<Rightarrow> string \<Rightarrow> string \<Rightarrow> ('s, unit) act" where
  "addRouterFile E fl rt =
     sbind (sget (\<lambda>w. lift_err (fc_read E fl w))) (\<lambda>data.
     sbind (Untar E (fl @ ''.d'') data) (\<lambda>_.
     deferred
       (sbind (scall (fc_write_file E (path_join [fl @ ''.d'', ''router.yaml'']) rt)) (\<lambda>_.
        sbind (scall (fc_truncate E fl)) (\<lambda>_.
        Tar E (fl @ ''.d'') fl)))
       (signore (scall (fc_remove_all E (fl @ ''.d''))))))"

section \<open>A list of the files of a container\<close>

record flist_args =
  fa_Container :: "16 word"
  fa_Flist :: string
  fa_Storage :: string
  fa_Src :: string
  fa_Token :: string
  fa_Hub :: string

definition createArgs_Validate :: "flist_args \<Rightarrow> (fault, unit) result" where
  "createArgs_Validate a =
     (if fa_Container a = 0 then fail ''invalid container id''
      else if fa_Flist a = [] then fail ''flist destination need to be specified''
      else if fa_Storage a = [] then fail ''flist data storage need to be specified''
      else if fa_Src a = [] then fail ''source directory need to be specified''
      else if fa_Hub a \<noteq> [] \<and> fa_Token a = [] then fail ''if hub url is provided, token can not be empty''
      else Inr ())"

definition containerPath :: "flist_cont \<Rightarrow> string \<Rightarrow> string" where
  "containerPath c p = path_join [lc_Root c, p]"

definition zflist_args :: "'s fc_env \<Rightarrow> flist_cont \<Rightarrow> flist_args \<Rightarrow> string list" where
  "zflist_args E c a =
     [''--archive'', containerPath c (fa_Flist a), ''--create'', containerPath c (fa_Src a), ''--backend'', fc_resolve E (fa_Storage a)] @
     (if fa_Token a = [] then []
      else if fa_Hub a \<noteq> [] then [''--upload'', fa_Hub a, ''--token'', fa_Token a]
      else [''--upload'', ''--token'', fa_Token a])"

definition running_cont :: "flist_conts \<Rightarrow> 16 word \<Rightarrow> (fault, flist_cont) result" where
  "running_cont cs i = (case cs i of
     None \<Rightarrow> fail ''container does not exist''
   | Some c \<Rightarrow> if lc_PID c = 0 then fail ''container is not fully started yet'' else Inr c)"

definition flistCreate :: "'s fc_env \<Rightarrow> flist_conts \<Rightarrow> flist_args \<Rightarrow> ('s, string) act" where
  "flistCreate E cs a =
     sbind (slift (createArgs_Validate a)) (\<lambda>_.
     sbind (slift (running_cont cs (fa_Container a))) (\<lambda>c.
     while_stopped E (lc_PID c)
       (sbind (scall (fc_zflist E (zflist_args E c a))) (\<lambda>_.
        sbind (slift (lift_err (fc_yaml E (''zdb://'' @ fa_Storage a)))) (\<lambda>rt.
        sbind (addRouterFile E (containerPath c (fa_Flist a)) rt) (\<lambda>_.
        sret (containerPath c (fa_Flist a))))))))"

section \<open>Backups\<close>

definition backupMetaName :: string where "backupMetaName = ''.corex.meta''"

definition tag_args :: "string list \<Rightarrow> string list" where "tag_args ts = concat (map (\<lambda>t. [''--tag'', t]) ts)"

definition backup_repo :: "backup_url \<Rightarrow> string" where
  "backup_repo u = (if bu_Scheme u = ''file'' \<or> bu_Scheme u = [] then bu_Path u else bu_bare u)"

definition restic_args :: "string \<Rightarrow> string list \<Rightarrow> string list \<Rightarrow> string list \<Rightarrow> string list" where
  "restic_args repo own tags files =
     [''-r'', repo, ''backup'', ''--exclude'', ''proc/**'', ''--exclude'', ''dev/**'', ''--exclude'', ''sys/**''] @
     tag_args own @ tag_args tags @ files"

text \<open>The arguments that are kept with a backup: of the cards only those that are set up.\<close>

definition backup_args :: "cont_args \<Rightarrow> cont_args" where
  "backup_args a = a\<lparr>ca_Nics := filter (\<lambda>n. nic_State n = NicStateConfigured) (ca_Nics a)\<rparr>"

definition backup_files :: "string \<Rightarrow> string list \<Rightarrow> string list" where
  "backup_files root items = map (\<lambda>n. path_join [root, n]) (filter (\<lambda>n. n \<noteq> ''coreX'') items)"

definition backup_run :: "'s fc_env \<Rightarrow> flist_cont \<Rightarrow> backup_url \<Rightarrow> string list \<Rightarrow> ('s, string) act" where
  "backup_run E c u tags =
     sbind (sget (\<lambda>w. lift_err (fc_read_dir E (lc_Root c) w))) (\<lambda>items.
     let files = backup_files (lc_Root c) items in
     if files = [] then slift (fail ''nothing to backup'')
     else while_stopped E (lc_PID c)
       (sbind (scall (fc_restic E (restic_args (backup_repo u) (ca_Tags (lc_Args c)) tags files) (bu_password u))) (\<lambda>(ok, out, err).
        if \<not> ok then slift (fail (''failed to backup container: '' @ err))
        else case fc_snapshot E out of
          None \<Rightarrow> slift (fail ''failed to retrieve snapshot ID'')
        | Some snap \<Rightarrow> sret snap)))"

definition backup :: "'s fc_env \<Rightarrow> flist_conts \<Rightarrow> 16 word \<Rightarrow> string \<Rightarrow> string list \<Rightarrow> ('s, string) act" where
  "backup E cs i url tags =
     sbind (slift (if i = 0 then fail ''invalid container id'' else Inr ())) (\<lambda>_.
     sbind (slift (running_cont cs i)) (\<lambda>c.
     sbind (slift (lift_err (fc_url E url))) (\<lambda>u.
     sbind (slift (lift_err (fc_json E (backup_args (lc_Args c))))) (\<lambda>meta.
     let mf = path_join [lc_Root c, backupMetaName] in
     sbind (scall (fc_write_file E mf meta)) (\<lambda>_.
     deferred (backup_run E c u tags) (signore (scall (fc_remove E mf))))))))"

text \<open>A restored container has a root of its own scheme and the tags of the command.\<close>

definition restore_args :: "string \<Rightarrow> string list \<Rightarrow> cont_args \<Rightarrow> cont_args" where
  "restore_args url tags a = a\<lparr>ca_Root := ''restic:'' @ url, ca_Tags := tags\<rparr>"

definition restore :: "'s fc_env \<Rightarrow> string \<Rightarrow> string list \<Rightarrow> ('s, 16 word) act" where
  "restore E url tags =
     sbind (scall (fc_tmp_dir E)) (\<lambda>tmp.
     deferred
       (sbind (scall (fc_restore_repo E url tmp [backupMetaName])) (\<lambda>_.
        sbind (sget (\<lambda>w. lift_err (fc_read E (path_join [tmp, backupMetaName]) w))) (\<lambda>meta.
        sbind (slift (lift_err (fc_parse_args E meta))) (\<lambda>a.
        scall (fc_create E (restore_args url tags a))))))
       (signore (scall (fc_remove_all E tmp))))"

section \<open>The processes run again\<close>

definition same_stopped :: "('s \<Rightarrow> int set) \<Rightarrow> ('s \<Rightarrow> 'r \<times> 's) \<Rightarrow> bool" where
  "same_stopped stopped f \<longleftrightarrow> (\<forall>w. stopped (snd (f w)) = stopped w)"

text \<open>Signals stop and continue a group of processes; nothing else does.\<close>

definition stop_laws :: "'s fc_env \<Rightarrow> ('s \<Rightarrow> int set) \<Rightarrow> bool" where
  "stop_laws E stopped \<longleftrightarrow>
     (\<forall>g w. stopped (fc_kill E g ''SIGSTOP'' w) = insert g (stopped w) \<and> stopped (fc_kill E g ''SIGCONT'' w) = stopped w - {g}) \<and>
     (\<forall>xs. same_stopped stopped (fc_zflist E xs)) \<and> (\<forall>xs i. same_stopped stopped (fc_restic E xs i)) \<and>
     (\<forall>p. same_stopped stopped (fc_mkdir_all E p) \<and> same_stopped stopped (fc_open_file E p) \<and> same_stopped stopped (fc_truncate E p) \<and>
       same_stopped stopped (fc_remove_all E p) \<and> same_stopped stopped (fc_remove E p)) \<and>
     (\<forall>p c. same_stopped stopped (fc_copy E p c) \<and> same_stopped stopped (fc_write_file E p c)) \<and>
     (\<forall>p h. same_stopped stopped (fc_tar_add E p h))"

lemma preserves_same: "same_stopped stopped f \<Longrightarrow> preserves (\<lambda>w. stopped w = S) (scall f)"
  by (rule preserves_scall) (simp add: same_stopped_def)

lemma stopped_calls:
  assumes "stop_laws E stopped"
  shows "preserves (\<lambda>w. stopped w = S) (scall (fc_zflist E xs))" "preserves (\<lambda>w. stopped w = S) (scall (fc_restic E xs i))"
    "preserves (\<lambda>w. stopped w = S) (scall (fc_mkdir_all E p))" "preserves (\<lambda>w. stopped w = S) (scall (fc_open_file E p))"
    "preserves (\<lambda>w. stopped w = S) (scall (fc_truncate E p))" "preserves (\<lambda>w. stopped w = S) (scall (fc_remove_all E p))"
    "preserves (\<lambda>w. stopped w = S) (scall (fc_remove E p))" "preserves (\<lambda>w. stopped w = S) (scall (fc_copy E p c))"
    "preserves (\<lambda>w. stopped w = S) (scall (fc_write_file E p c))" "preserves (\<lambda>w. stopped w = S) (scall (fc_tar_add E p h))"
  using assms by (auto intro!: preserves_same simp: stop_laws_def)

lemma preserves_deferred: "preserves P m \<Longrightarrow> preserves P h \<Longrightarrow> preserves P (deferred m h)"
  by (auto simp: preserves_def deferred_def split: prod.splits)

lemma preserves_kind:
  "preserves P f \<Longrightarrow> preserves P g \<Longrightarrow> preserves P h \<Longrightarrow>
   preserves P (case k of TypeDir \<Rightarrow> f | TypeReg \<Rightarrow> g | TypeOther \<Rightarrow> h)"
  by (cases k) auto

lemma preserves_while_stopped:
  assumes "stop_laws E stopped" and "\<And>S. preserves (\<lambda>w. stopped w = S) m"
  shows "preserves (\<lambda>w. stopped w = {}) (while_stopped E pid m)"
  unfolding preserves_def
proof (intro allI impI)
  fix w assume w: "stopped w = {}"
  let ?w = "fc_kill E (- pid) ''SIGSTOP'' w"
  have k: "stopped (fc_kill E g ''SIGSTOP'' v) = insert g (stopped v)" "stopped (fc_kill E g ''SIGCONT'' v) = stopped v - {g}" for g v
    using assms(1) unfolding stop_laws_def by blast+
  have "stopped (snd (m ?w)) = {- pid}" using preservesD[OF assms(2)[of "{- pid}"], of ?w] w k(1)[of "- pid" w] by simp
  then have "stopped (fc_kill E (- pid) ''SIGCONT'' (snd (m ?w))) = {}" by (simp add: k)
  then show "stopped (snd (while_stopped E pid m w)) = {}"
    by (cases "m ?w") (simp add: while_stopped_def deferred_def kill_def sbind_def)
qed

lemmas stopped_intros = preserves_intros preserves_werr preserves_deferred preserves_kind

lemma stopped_Untar: "stop_laws E stopped \<Longrightarrow> preserves (\<lambda>w. stopped w = S) (Untar E dst d)"
  unfolding Untar_def untar_item_def Let_def by (intro stopped_intros stopped_calls)

lemma stopped_Tar: "stop_laws E stopped \<Longrightarrow> preserves (\<lambda>w. stopped w = S) (Tar E dst d)"
  unfolding Tar_def by (intro stopped_intros stopped_calls)

lemma stopped_addRouterFile: "stop_laws E stopped \<Longrightarrow> preserves (\<lambda>w. stopped w = S) (addRouterFile E p rt)"
  unfolding addRouterFile_def by (intro stopped_intros stopped_calls stopped_Untar stopped_Tar)

text \<open>C35: The processes of a container that are stopped while a list or a backup is made of it run again afterwards, whatever
  the outcome.\<close>

theorem container_runs_again:
  assumes "stop_laws E stopped" and "stopped w = {}"
  shows "stopped (snd (flistCreate E cs a w)) = {} \<and> stopped (snd (backup E cs i url tags w)) = {}"
proof
  have "preserves (\<lambda>w. stopped w = {}) (flistCreate E cs a)"
    unfolding flistCreate_def
    by (intro stopped_intros preserves_while_stopped assms(1) stopped_calls stopped_addRouterFile)
  then show "stopped (snd (flistCreate E cs a w)) = {}" by (rule preservesD) (rule assms(2))
  have "preserves (\<lambda>w. stopped w = {}) (backup E cs i url tags)"
    unfolding backup_def backup_run_def Let_def
    by (intro stopped_intros preserves_while_stopped assms(1) stopped_calls)
  then show "stopped (snd (backup E cs i url tags w)) = {}" by (rule preservesD) (rule assms(2))
qed

section \<open>Names in an archive\<close>

lemma elements_dot_path: "list_all plain xs \<Longrightarrow> elements (CHR ''.'' # abs_path xs) = xs"
  using elements_slash[of "''.''" "str_join ''/'' xs"] elements_abs_path[of xs]
  by (simp add: abs_path_def) (simp add: elements_def)

lemma elements_trailing: "elements (p @ ''/'') = elements p"
  using elements_slash[of p "[]"] by simp

lemma trim_prefix_append: "trim_prefix p (p @ r) = r"
  by (simp add: trim_prefix_def)

lemma elements_tar_name:
  assumes "list_all proper ss" and "ss \<noteq> []" and "list_all proper xs" and "wi_path i = abs_path (ss @ xs)"
  shows "elements (tar_name (abs_path ss) True i) = xs"
proof (cases "xs = []")
  case True
  have "elements ''.'' = []" "path_base (abs_path ss) \<noteq> []" by (auto simp: elements_def path_base_def Let_def)
  then show ?thesis
    using True assms(4) elements_trailing[of "''.''"] by (auto simp: tar_name_def Let_def trim_prefix_def has_prefix_def)
next
  case False
  have b: "path_base (abs_path ss) \<noteq> []" by (auto simp: path_base_def Let_def)
  have w: "wi_path i = abs_path ss @ abs_path xs" using abs_path_append[OF assms(2) False] assms(4) by simp
  then have "wi_path i \<noteq> abs_path ss" by (simp add: abs_path_def)
  then have "tar_name (abs_path ss) True i = (if wi_kind i = TypeDir then (CHR ''.'' # abs_path xs) @ ''/'' else CHR ''.'' # abs_path xs)"
    using w b by (simp add: tar_name_def Let_def trim_prefix_append)
  then show ?thesis using elements_dot_path[OF proper_plain[OF assms(3)]] elements_trailing[of "CHR ''.'' # abs_path xs"] by simp
qed

theorem tar_untar_place:
  assumes "list_all proper ss" and "ss \<noteq> []" and "list_all proper ds" and "list_all proper xs"
    and "wi_path i = abs_path (ss @ xs)"
  shows "path_join [abs_path ds, ai_Name (tar_item (abs_path ss) True i)] = abs_path (ds @ xs)"
  using elements_tar_name[OF assms(1,2,4,5)] assms(3,4) by (simp add: path_join_abs tar_item_def)

section \<open>The files of a backup\<close>

text \<open>The meta data is written before the directory is read, so there is always something to back up.\<close>

theorem backup_always_has_files: "backupMetaName \<in> set items \<Longrightarrow> backup_files root items \<noteq> []"
  by (auto simp: backup_files_def backupMetaName_def filter_empty_conv intro!: bexI[of _ "''.corex.meta''"])

theorem backup_files_exact:
  assumes "list_all proper rs" and "list_all proper items"
  shows "backup_files (abs_path rs) items = map (\<lambda>n. abs_path (rs @ [n])) (filter (\<lambda>n. n \<noteq> ''coreX'') items)"
proof -
  have "path_join [abs_path rs, n] = abs_path (rs @ [n])" if "n \<in> set items" for n
  proof -
    have "proper n" using that assms(2) by (auto simp: list_all_iff)
    then show ?thesis using elements_one[of n] by (simp add: path_join_abs[OF assms(1)] proper_def)
  qed
  then show ?thesis by (simp add: backup_files_def)
qed

section \<open>Witnesses\<close>

definition demo_ok_call :: "int set \<Rightarrow> (go_error, unit) result \<times> int set" where "demo_ok_call w = (Inr (), w)"

text \<open>A host whose state is the set of the stopped groups.\<close>

definition demo_fc :: "int set fc_env" where
  "demo_fc = \<lparr>fc_kill = (\<lambda>g sig w. if sig = ''SIGSTOP'' then insert g w else w - {g}), fc_zflist = (\<lambda>_. demo_ok_call),
     fc_yaml = Inr, fc_read = (\<lambda>_ _. Inr []), fc_gunzip = Inr, fc_untar = (\<lambda>_. ([], None)), fc_exists = (\<lambda>_ _. False),
     fc_mkdir_all = (\<lambda>_. demo_ok_call), fc_open_file = (\<lambda>_. demo_ok_call), fc_copy = (\<lambda>_ _. demo_ok_call),
     fc_write_file = (\<lambda>_ _. demo_ok_call), fc_truncate = (\<lambda>_. demo_ok_call), fc_remove_all = (\<lambda>_. demo_ok_call),
     fc_stat_dir = (\<lambda>_ _. Inr True), fc_walk = (\<lambda>_ _. []), fc_tar_add = (\<lambda>_ _. demo_ok_call),
     fc_url = (\<lambda>_. Inl (PlainErr ''bad url'')), fc_json = (\<lambda>_. Inr []), fc_parse_args = (\<lambda>_. Inl (PlainErr ''bad args'')),
     fc_read_dir = (\<lambda>_ _. Inr []), fc_remove = (\<lambda>_. demo_ok_call), fc_restic = (\<lambda>_ _ w. (Inr (True, [], []), w)),
     fc_snapshot = Some, fc_tmp_dir = (\<lambda>w. (Inr ''/tmp'', w)), fc_restore_repo = (\<lambda>_ _ _. demo_ok_call),
     fc_create = (\<lambda>_ w. (Inr 1, w)), fc_resolve = id\<rparr>"

definition demo_cont :: flist_cont where
  "demo_cont = \<lparr>lc_Root = ''/mnt/containers/1'', lc_PID = 42, lc_Args = plain_args []\<rparr>"

definition demo_flist_args :: flist_args where
  "demo_flist_args = \<lparr>fa_Container = 1, fa_Flist = ''/tmp/a.flist'', fa_Storage = ''127.0.0.1:9900'', fa_Src = ''/data'', fa_Token = [], fa_Hub = []\<rparr>"

lemma container_runs_again_witness:
  "snd (flistCreate demo_fc (\<lambda>_. Some demo_cont) demo_flist_args {}) = {} \<and>
   snd (backup demo_fc (\<lambda>_. Some demo_cont) 1 ''/backup'' [] {}) = {}"
  by (rule container_runs_again[where stopped = "\<lambda>w. w"])
     (simp_all add: stop_laws_def same_stopped_def demo_fc_def demo_ok_call_def)

lemma tar_untar_place_witness:
  "path_join [abs_path [''out''], ai_Name (tar_item (abs_path [''tmp'', ''l'']) True
     \<lparr>wi_path = ''/tmp/l/sub/file'', wi_base = ''file'', wi_kind = TypeReg, wi_body = []\<rparr>)] = abs_path ([''out''] @ [''sub'', ''file''])"
  by (rule tar_untar_place) (simp_all add: proper_def plain_def abs_path_def)

lemma backup_always_has_files_witness: "backup_files ''/mnt/containers/1'' [''.corex.meta''] \<noteq> []"
  by (rule backup_always_has_files) (simp add: backupMetaName_def)

lemma backup_files_exact_witness:
  "backup_files (abs_path [''mnt'']) [''bin'', ''coreX''] = map (\<lambda>n. abs_path ([''mnt''] @ [n])) (filter (\<lambda>n. n \<noteq> ''coreX'') [''bin'', ''coreX''])"
  by (rule backup_files_exact) (simp_all add: proper_def plain_def)

end
