(* ===== verification/Fs.thy ===== *)
theory Fs
  imports Steps Utils_Model "HOL-Library.AList"
begin

unbundle bit_operations_syntax

text \<open>
  The file actions (\<^verbatim>\<open>src/apps/plugins/base/fs/fs.go\<close>): open modes, file handles that are kept in a cache and
  closed when they expire (\<^verbatim>\<open>go-cache\<close>, as far as it is used), and the actions on paths.  The system calls, the clock,
  base64 and the random identifiers are parameters.
\<close>

section \<open>Modes\<close>

text \<open>The flags of \<^verbatim>\<open>open(2)\<close>.\<close>

definition O_RDONLY :: "64 word" where "O_RDONLY = 0"
definition O_WRONLY :: "64 word" where "O_WRONLY = 1"
definition O_RDWR :: "64 word" where "O_RDWR = 2"
definition O_CREATE :: "64 word" where "O_CREATE = 0x40"
definition O_EXCL :: "64 word" where "O_EXCL = 0x80"
definition O_TRUNC :: "64 word" where "O_TRUNC = 0x200"
definition O_APPEND :: "64 word" where "O_APPEND = 0x400"

record mode_state =
  ms_mode :: "64 word"
  ms_rwax :: nat
  ms_readable :: bool
  ms_writable :: bool

definition mode_char :: "char \<Rightarrow> mode_state \<Rightarrow> (fault, mode_state) result" where
  "mode_char c s =
     (if c = CHR ''r'' then Inr (s\<lparr>ms_rwax := ms_rwax s + 1, ms_readable := True\<rparr>)
      else if c = CHR ''x'' then
        Inr (s\<lparr>ms_rwax := ms_rwax s + 1, ms_writable := True, ms_mode := ms_mode s OR (O_CREATE OR O_EXCL)\<rparr>)
      else if c = CHR ''w'' then
        Inr (s\<lparr>ms_rwax := ms_rwax s + 1, ms_writable := True, ms_mode := ms_mode s OR (O_CREATE OR O_TRUNC)\<rparr>)
      else if c = CHR ''a'' then
        Inr (s\<lparr>ms_rwax := ms_rwax s + 1, ms_writable := True, ms_mode := ms_mode s OR (O_CREATE OR O_APPEND)\<rparr>)
      else if c = CHR ''+'' then Inr (s\<lparr>ms_readable := True, ms_writable := True\<rparr>)
      else fail (''unknown mode '' @ [CHR 0x27, c, CHR 0x27]))"

definition fs_mode :: "string \<Rightarrow> (fault, 64 word) result" where
  "fs_mode m =
     rbind (rfold mode_char m \<lparr>ms_mode = 0, ms_rwax = 0, ms_readable = False, ms_writable = False\<rparr>) (\<lambda>s.
     if ms_rwax s \<noteq> 1 then fail ''rwax modes has to be used once and only once''
     else Inr (ms_mode s OR (if ms_readable s \<and> ms_writable s then O_RDWR else if ms_writable s then O_WRONLY else O_RDONLY)))"

section \<open>The cache of handles\<close>

record citem =
  ci_Object :: nat
  ci_Expiration :: int

type_synonym fcache = "(string \<times> citem) list"

text \<open>Five minutes, in the nanoseconds of the clock.\<close>

definition fs_expiry :: int where "fs_expiry = 300000000000"

definition expired :: "int \<Rightarrow> citem \<Rightarrow> bool" where "expired now i \<longleftrightarrow> 0 < ci_Expiration i \<and> ci_Expiration i < now"

definition cache_Set :: "int \<Rightarrow> string \<Rightarrow> nat \<Rightarrow> fcache \<Rightarrow> fcache" where
  "cache_Set now k x c = AList.update k \<lparr>ci_Object = x, ci_Expiration = now + fs_expiry\<rparr> c"

definition cache_Get :: "int \<Rightarrow> string \<Rightarrow> fcache \<Rightarrow> nat option" where
  "cache_Get now k c = (case map_of c k of Some i \<Rightarrow> if expired now i then None else Some (ci_Object i) | None \<Rightarrow> None)"

text \<open>Deleting gives the objects that are handed to the eviction function.\<close>

definition cache_Delete :: "string \<Rightarrow> fcache \<Rightarrow> fcache \<times> nat list" where
  "cache_Delete k c = (AList.delete k c, case map_of c k of Some i \<Rightarrow> [ci_Object i] | None \<Rightarrow> [])"


section \<open>Surroundings and state\<close>

datatype read_end = ReadOk | ReadEOF | ReadErr go_error

record fs_entry =
  fn_Name :: string
  fn_Size :: int
  fn_Mode :: "32 word"
  fn_IsDir :: bool

record 's fs_env =
  fo_now :: "'s \<Rightarrow> int"
  fo_uuid :: "'s \<Rightarrow> string \<times> 's"
  fo_open :: "string \<Rightarrow> 64 word \<Rightarrow> 32 word \<Rightarrow> 's \<Rightarrow> (go_error, nat) result \<times> 's"
  fo_close :: "nat \<Rightarrow> 's \<Rightarrow> 's"
  fo_read :: "nat \<Rightarrow> nat \<Rightarrow> 's \<Rightarrow> (string \<times> read_end) \<times> 's"
  fo_write :: "nat \<Rightarrow> string \<Rightarrow> 's \<Rightarrow> (go_error, unit) result \<times> 's"
  fo_b64 :: "string \<Rightarrow> string"
  fo_unb64 :: "string \<Rightarrow> (go_error, string) result"
  fo_mkdir_all :: "string \<Rightarrow> 32 word \<Rightarrow> 's \<Rightarrow> (go_error, unit) result \<times> 's"
  fo_remove_all :: "string \<Rightarrow> 's \<Rightarrow> (go_error, unit) result \<times> 's"
  fo_missing :: "string \<Rightarrow> 's \<Rightarrow> bool"
  fo_read_dir :: "string \<Rightarrow> 's \<Rightarrow> (go_error, fs_entry list) result"
  fo_chmod :: "string \<Rightarrow> 32 word \<Rightarrow> 's \<Rightarrow> (go_error, unit) result \<times> 's"
  fo_chown :: "string \<Rightarrow> int \<Rightarrow> int \<Rightarrow> 's \<Rightarrow> (go_error, unit) result \<times> 's"
  fo_walk :: "string \<Rightarrow> 's \<Rightarrow> (string \<times> bool) list"
  fo_user :: "string \<Rightarrow> (go_error, string) result"
  fo_group :: "string \<Rightarrow> (go_error, string) result"
  fo_rename :: "string \<Rightarrow> string \<Rightarrow> 's \<Rightarrow> (go_error, unit) result \<times> 's"

record 's fstate =
  fs_items :: fcache
  fs_sys :: 's

definition fsys :: "('s \<Rightarrow> (go_error, 'a) result \<times> 's) \<Rightarrow> ('s fstate, 'a) act" where
  "fsys f = scall (\<lambda>s. case f (fs_sys s) of (r, w) \<Rightarrow> (r, s\<lparr>fs_sys := w\<rparr>))"

definition evict :: "'s fs_env \<Rightarrow> (fcache \<Rightarrow> fcache \<times> nat list) \<Rightarrow> ('s fstate, unit) act" where
  "evict E f = (\<lambda>s. case f (fs_items s) of
     (c, fds) \<Rightarrow> (Inr (), s\<lparr>fs_items := c, fs_sys := fold (fo_close E) fds (fs_sys s)\<rparr>))"


section \<open>Actions on handles\<close>

definition ModePerm :: "32 word" where "ModePerm = 0x1FF"
definition fsReadBS :: nat where "fsReadBS = 524288"

definition fs_set :: "'s fs_env \<Rightarrow> string \<Rightarrow> nat \<Rightarrow> ('s fstate, unit) act" where
  "fs_set E k x = (\<lambda>s. (Inr (), s\<lparr>fs_items := cache_Set (fo_now E (fs_sys s)) k x (fs_items s)\<rparr>))"


definition fs_close :: "'s fs_env \<Rightarrow> string \<Rightarrow> ('s fstate, unit) act" where
  "fs_close E fd = evict E (cache_Delete fd)"

text \<open>The look-up of a handle, and its new lease.\<close>

definition fs_lookup :: "'s fs_env \<Rightarrow> string \<Rightarrow> ('s fstate, nat) act" where
  "fs_lookup E fd = sget (\<lambda>s. case cache_Get (fo_now E (fs_sys s)) fd (fs_items s) of
     None \<Rightarrow> fail (''unknown file description '' @ [CHR 0x27] @ fd @ [CHR 0x27]) | Some f \<Rightarrow> Inr f)"

definition fs_handle :: "'s fs_env \<Rightarrow> string \<Rightarrow> ('s fstate, nat) act" where
  "fs_handle E fd = sbind (fs_lookup E fd) (\<lambda>f. sbind (fs_set E fd f) (\<lambda>_. sret f))"

definition fs_read :: "'s fs_env \<Rightarrow> string \<Rightarrow> ('s fstate, string) act" where
  "fs_read E fd =
     sbind (fs_handle E fd) (\<lambda>f.
     sbind (\<lambda>s. case fo_read E f fsReadBS (fs_sys s) of (r, w) \<Rightarrow> (Inr r, s\<lparr>fs_sys := w\<rparr>)) (\<lambda>(data, e). case e of
       ReadErr x \<Rightarrow> slift (Inl (Fault x))
     | _ \<Rightarrow> sret (fo_b64 E data)))"


section \<open>Actions on paths\<close>

definition fs_mkdir :: "'s fs_env \<Rightarrow> string \<Rightarrow> ('s fstate, unit) act" where
  "fs_mkdir E p = fsys (fo_mkdir_all E p 0x1ED)"

definition fs_remove :: "'s fs_env \<Rightarrow> string \<Rightarrow> ('s fstate, unit) act" where
  "fs_remove E p = fsys (fo_remove_all E p)"

definition fs_exists :: "'s fs_env \<Rightarrow> string \<Rightarrow> ('s fstate, bool) act" where
  "fs_exists E p = sget (\<lambda>s. Inr (\<not> fo_missing E p (fs_sys s)))"

definition fs_list :: "'s fs_env \<Rightarrow> string \<Rightarrow> ('s fstate, fs_entry list) act" where
  "fs_list E p = sbind (sget (\<lambda>s. lift_err (fo_read_dir E p (fs_sys s)))) (\<lambda>es.
     sret (map (\<lambda>e. e\<lparr>fn_Mode := fn_Mode e AND ModePerm\<rparr>) es))"

text \<open>A walk visits a path with the mark whether it could be looked at; what goes wrong at one is skipped.\<close>

definition walk_each :: "'s fs_env \<Rightarrow> string \<Rightarrow> (string \<Rightarrow> 's \<Rightarrow> (go_error, unit) result \<times> 's) \<Rightarrow> ('s fstate, unit) act" where
  "walk_each E p f = sbind (sget (\<lambda>s. Inr (fo_walk E p (fs_sys s)))) (\<lambda>ps.
     sfor (\<lambda>(q, bad). if bad then sret () else signore (fsys (f q))) ps)"

definition fs_chmod :: "'s fs_env \<Rightarrow> string \<Rightarrow> 32 word \<Rightarrow> bool \<Rightarrow> ('s fstate, unit) act" where
  "fs_chmod E p mode rec =
     (if \<not> rec then fsys (fo_chmod E p (ModePerm AND mode)) else walk_each E p (\<lambda>q. fo_chmod E q (ModePerm AND mode)))"

text \<open>\<^verbatim>\<open>strconv.ParseInt\<close> with its error ignored: zero, or the nearest number.\<close>

definition parse_id :: "string \<Rightarrow> int" where
  "parse_id s = (case parse_int 64 s of
     Inr i \<Rightarrow> i | Inl ErrSyntax \<Rightarrow> 0 | Inl ErrRange \<Rightarrow> if has_prefix ''-'' s then - (2 ^ 63) else 2 ^ 63 - 1)"

definition fs_chown :: "'s fs_env \<Rightarrow> string \<Rightarrow> string \<Rightarrow> string \<Rightarrow> bool \<Rightarrow> ('s fstate, unit) act" where
  "fs_chown E p usr grp rec =
     sbind (slift (lift_err (fo_user E usr))) (\<lambda>u.
     sbind (slift (lift_err (fo_group E grp))) (\<lambda>g.
     if \<not> rec then fsys (fo_chown E p (parse_id u) (parse_id g))
     else walk_each E p (\<lambda>q. fo_chown E q (parse_id u) (parse_id g))))"

definition fs_move :: "'s fs_env \<Rightarrow> string \<Rightarrow> string \<Rightarrow> ('s fstate, unit) act" where
  "fs_move E p dst = fsys (fo_rename E p dst)"

section \<open>Modes: what is accepted and what is opened\<close>

text \<open>One letter says how the file is opened, a plus that it is read and written.\<close>

definition creat :: "char \<Rightarrow> 64 word" where
  "creat c = (if c = CHR ''x'' then O_CREATE OR O_EXCL else if c = CHR ''w'' then O_CREATE OR O_TRUNC
              else if c = CHR ''a'' then O_CREATE OR O_APPEND else 0)"

definition letter_mode :: "string \<Rightarrow> (fault, 64 word) result" where
  "letter_mode m = (case find (\<lambda>c. c \<notin> set ''rxwa+'') m of
     Some c \<Rightarrow> fail (''unknown mode '' @ [CHR 0x27, c, CHR 0x27])
   | None \<Rightarrow> (case filter (\<lambda>c. c \<noteq> CHR ''+'') m of
       [c] \<Rightarrow> Inr (creat c OR (if CHR ''+'' \<in> set m then O_RDWR else if c = CHR ''r'' then O_RDONLY else O_WRONLY))
     | _ \<Rightarrow> fail ''rwax modes has to be used once and only once''))"

definition mode_after :: "string \<Rightarrow> mode_state \<Rightarrow> mode_state" where
  "mode_after m s = \<lparr>ms_mode = fold (\<lambda>c x. x OR creat c) (filter (\<lambda>c. c \<noteq> CHR ''+'') m) (ms_mode s),
     ms_rwax = ms_rwax s + length (filter (\<lambda>c. c \<noteq> CHR ''+'') m),
     ms_readable = (ms_readable s \<or> CHR ''r'' \<in> set m \<or> CHR ''+'' \<in> set m),
     ms_writable = (ms_writable s \<or> list_ex (\<lambda>c. c \<noteq> CHR ''r'') m)\<rparr>"

lemma mode_char_known: "c \<in> set ''rxwa+'' \<Longrightarrow> mode_char c s = Inr (mode_after [c] s)"
  by (auto simp: mode_char_def mode_after_def creat_def)

lemma mode_char_unknown: "c \<notin> set ''rxwa+'' \<Longrightarrow> mode_char c s = fail (''unknown mode '' @ [CHR 0x27, c, CHR 0x27])"
  by (simp add: mode_char_def)

lemma mode_after_Cons: "mode_after m (mode_after [c] s) = mode_after (c # m) s"
  by (auto simp: mode_after_def)

lemma rfold_mode:
  "rfold mode_char m s = (case find (\<lambda>c. c \<notin> set ''rxwa+'') m of
     Some c \<Rightarrow> fail (''unknown mode '' @ [CHR 0x27, c, CHR 0x27]) | None \<Rightarrow> Inr (mode_after m s))"
proof (induction m arbitrary: s)
  case Nil
  show ?case by (simp add: mode_after_def)
next
  case (Cons c m)
  show ?case
  proof (cases "c \<in> set ''rxwa+''")
    case True
    then show ?thesis using Cons.IH by (simp only: rfold.simps mode_char_known rbind_Inr mode_after_Cons find.simps if_False not_not simp_thms)
  next
    case False
    then show ?thesis by (simp only: rfold.simps mode_char_unknown find.simps if_True not_False_eq_True fail_simps option.case)
  qed
qed

lemma one_letter: "filter (\<lambda>c. c \<noteq> CHR ''+'') m = [c] \<Longrightarrow> set m = (if CHR ''+'' \<in> set m then {c, CHR ''+''} else {c}) \<and> c \<noteq> CHR ''+''"
proof -
  assume f: "filter (\<lambda>c. c \<noteq> CHR ''+'') m = [c]"
  have "set m - {CHR ''+''} = {c}" using arg_cong[OF f, of set] by auto
  then show ?thesis by auto
qed

text \<open>The mode of a file is read letter by letter as its meaning says: one of the letters r, w, a, x and any number of
  plus signs, nothing else; the flags are those of the letter, with reading and writing where a plus is.\<close>

theorem fs_mode_equiv: "fs_mode m = letter_mode m"
proof (cases "find (\<lambda>c. c \<notin> set ''rxwa+'') m")
  case (Some c)
  then show ?thesis unfolding fs_mode_def letter_mode_def rfold_mode by simp
next
  case None
  let ?s = "mode_after m \<lparr>ms_mode = 0, ms_rwax = 0, ms_readable = False, ms_writable = False\<rparr>"
  let ?ls = "filter (\<lambda>c. c \<noteq> CHR ''+'') m"
  have s: "fs_mode m = (if ms_rwax ?s \<noteq> 1 then fail ''rwax modes has to be used once and only once''
     else Inr (ms_mode ?s OR (if ms_readable ?s \<and> ms_writable ?s then O_RDWR else if ms_writable ?s then O_WRONLY else O_RDONLY)))"
    unfolding fs_mode_def rfold_mode None by simp
  show ?thesis
  proof (cases "\<exists>c. ?ls = [c]")
    case True
    then obtain c where c: "?ls = [c]" by blast
    have w: "list_ex (\<lambda>c. c \<noteq> CHR ''r'') m \<longleftrightarrow> CHR ''+'' \<in> set m \<or> c \<noteq> CHR ''r''"
      and r: "CHR ''r'' \<in> set m \<longleftrightarrow> c = CHR ''r''"
      using one_letter[OF c] by (auto simp: list_ex_iff split: if_splits)
    show ?thesis unfolding s letter_mode_def None using c w r by (simp add: mode_after_def)
  next
    case False
    then have "length ?ls \<noteq> 1" by (auto simp: length_Suc_conv)
    then show ?thesis unfolding s letter_mode_def None using False by (auto simp: mode_after_def split: list.splits)
  qed
qed

section \<open>Leases\<close>

theorem lease_lasts_five_minutes:
  assumes "0 \<le> t"
  shows "cache_Get t' k (cache_Set t k x c) = (if t' \<le> t + 300000000000 then Some x else None)"
  using assms by (simp add: cache_Get_def cache_Set_def update_conv' expired_def fs_expiry_def)

section \<open>No handle is lost\<close>

definition quiet :: "('s \<Rightarrow> nat set) \<Rightarrow> ('s \<Rightarrow> string set) \<Rightarrow> ('s \<Rightarrow> 'r \<times> 's) \<Rightarrow> bool" where
  "quiet files ids f \<longleftrightarrow> (\<forall>w. files (snd (f w)) = files w \<and> ids (snd (f w)) = ids w)"

text \<open>What the system does: opening gives a new file, closing takes it away, an identifier is never given twice; nothing
  else changes the files that are open.\<close>

definition handle_laws :: "'s fs_env \<Rightarrow> ('s \<Rightarrow> nat set) \<Rightarrow> ('s \<Rightarrow> string set) \<Rightarrow> bool" where
  "handle_laws E files ids \<longleftrightarrow>
     (\<forall>p m q w. ids (snd (fo_open E p m q w)) = ids w \<and> (case fst (fo_open E p m q w) of
        Inr f \<Rightarrow> f \<notin> files w \<and> files (snd (fo_open E p m q w)) = insert f (files w)
      | Inl _ \<Rightarrow> files (snd (fo_open E p m q w)) = files w)) \<and>
     (\<forall>f w. files (fo_close E f w) = files w - {f} \<and> ids (fo_close E f w) = ids w) \<and>
     (\<forall>w. fst (fo_uuid E w) \<notin> ids w \<and> ids (snd (fo_uuid E w)) = insert (fst (fo_uuid E w)) (ids w) \<and> files (snd (fo_uuid E w)) = files w) \<and>
     (\<forall>f n. quiet files ids (fo_read E f n)) \<and> (\<forall>f d. quiet files ids (fo_write E f d))"

definition objects :: "fcache \<Rightarrow> nat list" where "objects c = map (ci_Object \<circ> snd) c"

definition handles_ok :: "('s \<Rightarrow> nat set) \<Rightarrow> ('s \<Rightarrow> string set) \<Rightarrow> 's fstate \<Rightarrow> bool" where
  "handles_ok files ids s \<longleftrightarrow>
     distinct (map fst (fs_items s)) \<and> distinct (objects (fs_items s)) \<and>
     set (objects (fs_items s)) = files (fs_sys s) \<and> set (map fst (fs_items s)) \<subseteq> ids (fs_sys s)"



lemma ids_update: "set (map fst (AList.update k j c)) = insert k (set (map fst c))"
  by (simp add: dom_update)

lemma fold_close:
  assumes "handle_laws E files ids"
  shows "files (fold (fo_close E) fds w) = files w - set fds \<and> ids (fold (fo_close E) fds w) = ids w"
  using assms by (induction fds arbitrary: w) (auto simp: handle_laws_def)





















text \<open>A handle that was closed is unknown.\<close>

theorem closed_handle_unknown:
  "fst (fs_read E fd (snd (fs_close E fd s))) = fail (''unknown file description '' @ [CHR 0x27] @ fd @ [CHR 0x27])"
  by (simp add: fs_close_def evict_def cache_Delete_def fs_read_def fs_handle_def fs_lookup_def cache_Get_def act_defs fail_def
      delete_conv' split: option.splits)

text \<open>The look-up and the new lease are two accesses to the cache.  A close that comes between them closes the file, and the
  lease brings the closed file back into the cache.\<close>

theorem lease_revives_closed_handle:
  assumes "handle_laws E files ids" and "handles_ok files ids s" and "fst (fs_lookup E fd s) = Inr f"
  shows "let s' = snd (fs_set E fd f (snd (fs_close E fd s))) in
    map_option ci_Object (map_of (fs_items s') fd) = Some f \<and> f \<notin> files (fs_sys s') \<and> \<not> handles_ok files ids s'"
proof -
  let ?s = "snd (fs_set E fd f (snd (fs_close E fd s)))"
  obtain i where i: "map_of (fs_items s) fd = Some i" "ci_Object i = f"
    using assms(3) by (auto simp: fs_lookup_def sget_def cache_Get_def fail_def split: option.splits if_splits)
  have o: "map_option ci_Object (map_of (fs_items ?s) fd) = Some f"
    by (simp add: fs_set_def cache_Set_def update_conv')
  have c: "f \<notin> files (fs_sys ?s)"
    using fold_close[OF assms(1), of "[f]" "fs_sys s"] i by (simp add: fs_set_def fs_close_def evict_def cache_Delete_def)
  obtain j where "map_of (fs_items ?s) fd = Some j" "ci_Object j = f" using o by auto
  then have "f \<in> set (objects (fs_items ?s))" by (force simp: objects_def dest: map_of_SomeD)
  then show ?thesis using o c by (auto simp: Let_def handles_ok_def)
qed

section \<open>Recursion over a tree\<close>

theorem recursive_chmod_never_fails: "fst (fs_chmod E p mode True s) = Inr ()"
proof -
  have "succeeds (walk_each E p f)" for f
    unfolding walk_each_def fsys_def by (intro succeeds_intros no_panic_intros) (auto split: prod.splits intro!: succeeds_intros no_panic_intros)
  from succeedsD[OF this, of "\<lambda>q. fo_chmod E q (ModePerm AND mode)" s] show ?thesis by (auto simp: fs_chmod_def)
qed

section \<open>Witnesses\<close>

text \<open>A host whose state counts the files it has opened, knows those that are open, and the identifiers given.\<close>

type_synonym demo_fhost = "nat list \<times> nat \<times> nat"

definition demo_strokes :: "nat \<Rightarrow> string" where "demo_strokes n = replicate n (CHR ''i'')"

definition demo_silent :: "demo_fhost \<Rightarrow> (go_error, unit) result \<times> demo_fhost" where "demo_silent w = (Inr (), w)"

definition demo_fs :: "demo_fhost fs_env" where
  "demo_fs = \<lparr>fo_now = (\<lambda>_. 1), fo_uuid = (\<lambda>(l, n, u). (demo_strokes u, l, n, Suc u)),
     fo_open = (\<lambda>_ _ _ (l, n, u). if list_all (\<lambda>f. f < n) l then (Inr n, n # l, Suc n, u) else (Inl (PlainErr ''no''), l, n, u)),
     fo_close = (\<lambda>f (l, n, u). (removeAll f l, n, u)),
     fo_read = (\<lambda>_ _ w. (([], ReadEOF), w)), fo_write = (\<lambda>_ _. demo_silent), fo_b64 = id, fo_unb64 = Inr,
     fo_mkdir_all = (\<lambda>_ _. demo_silent), fo_remove_all = (\<lambda>_. demo_silent), fo_missing = (\<lambda>_ _. False), fo_read_dir = (\<lambda>_ _. Inr []),
     fo_chmod = (\<lambda>_ _. demo_silent), fo_chown = (\<lambda>_ _ _. demo_silent), fo_walk = (\<lambda>_ _. []), fo_user = Inr, fo_group = Inr,
     fo_rename = (\<lambda>_ _. demo_silent)\<rparr>"

definition demo_open_files :: "demo_fhost \<Rightarrow> nat set" where "demo_open_files w = set (fst w)"
definition demo_given :: "demo_fhost \<Rightarrow> string set" where "demo_given w = demo_strokes ` {..<snd (snd w)}"

lemma demo_handle_laws: "handle_laws demo_fs demo_open_files demo_given"
  unfolding handle_laws_def quiet_def
  by (auto simp: demo_fs_def demo_open_files_def demo_given_def demo_silent_def demo_strokes_def lessThan_Suc list_all_iff split: sum.splits if_splits)

definition demo_fstate :: "demo_fhost fstate" where
  "demo_fstate = \<lparr>fs_items = [(demo_strokes 0, \<lparr>ci_Object = 0, ci_Expiration = 10\<rparr>)], fs_sys = ([0], 1, 1)\<rparr>"

lemma demo_fstate_ok: "handles_ok demo_open_files demo_given demo_fstate"
  by (simp add: handles_ok_def demo_fstate_def demo_open_files_def demo_given_def objects_def)


lemma lease_revives_closed_handle_witness:
  "let s' = snd (fs_set demo_fs [] 0 (snd (fs_close demo_fs [] demo_fstate))) in
   map_option ci_Object (map_of (fs_items s') []) = Some 0 \<and> 0 \<notin> demo_open_files (fs_sys s') \<and> \<not> handles_ok demo_open_files demo_given s'"
  by (rule lease_revives_closed_handle[OF demo_handle_laws demo_fstate_ok])
     (simp add: fs_lookup_def sget_def cache_Get_def demo_fstate_def demo_strokes_def expired_def demo_fs_def)

lemma lease_lasts_five_minutes_witness: "cache_Get 300000000001 ''k'' (cache_Set 0 ''k'' 7 []) = None"
  using lease_lasts_five_minutes[of 0 300000000001 "''k''" 7 "[]"] by simp

end
