(* ===== verification/Cont_Channel.thy ===== *)
theory Cont_Channel
  imports Containers Steps Protocol
begin

text \<open>
  Commands for a container and what comes back from it (\<^verbatim>\<open>manager.go\<close>, \<^verbatim>\<open>container.go\<close> and \<^verbatim>\<open>comm.go\<close> of
  \<^verbatim>\<open>src/apps/plugins/containers/plugin\<close>): a command is flagged and handed to the channel of the container, and the
  messages of the container are results, log lines and figures, which go to the protocol, the logger and the aggregator.
\<close>

section \<open>Handing a command to a container\<close>

text \<open>The channel of a container as a sender finds it: somebody receives within five seconds, nobody does, or it was
  closed by the clean-up of the container.\<close>

datatype chan = ChanReady | ChanBusy | ChanClosed

text \<open>The containers, the flags and results of the protocol, and the commands that were handed over.\<close>

record cchan =
  cc_conts :: "(16 word \<times> chan) list"
  cc_proto :: proto
  cc_sent :: "(16 word \<times> command) list"

definition container_dispatch :: "16 word \<Rightarrow> chan \<Rightarrow> command \<Rightarrow> (cchan, unit) act" where
  "container_dispatch i c cmd = (\<lambda>s. case c of
     ChanReady \<Rightarrow> (Inr (), s\<lparr>cc_sent := cc_sent s @ [(i, cmd)]\<rparr>)
   | ChanBusy \<Rightarrow> (fail ''failed to dispatch command to container, check system logs for errors'', s)
   | ChanClosed \<Rightarrow> (Inl (Panic ''send on closed channel''), s))"

definition on_proto :: "(proto \<Rightarrow> 'a \<times> proto) \<Rightarrow> (cchan, 'a) act" where
  "on_proto f = (\<lambda>s. case f (cc_proto s) of (a, p) \<Rightarrow> (Inr a, s\<lparr>cc_proto := p\<rparr>))"

definition pushToContainer :: "16 word \<Rightarrow> chan \<Rightarrow> command \<Rightarrow> (cchan, unit) act" where
  "pushToContainer i c cmd = sbind (on_proto (\<lambda>p. ((), Flag_job (cmd_ID cmd) p))) (\<lambda>_. container_dispatch i c cmd)"

definition find_chan :: "16 word \<Rightarrow> (cchan, chan) act" where
  "find_chan i = sget (\<lambda>s. case map_of (cc_conts s) i of None \<Rightarrow> fail ''container does not exist'' | Some c \<Rightarrow> Inr c)"

text \<open>The action: \<open>uuid\<close> is the new identifier of a command that comes without.\<close>

definition dispatch_action :: "string \<Rightarrow> 16 word \<Rightarrow> command \<Rightarrow> (cchan, string) act" where
  "dispatch_action uuid i cmd =
     (if i = 0 then slift (fail ''invalid container id'')
      else sbind (find_chan i) (\<lambda>c.
        let cmd = (if cmd_ID cmd = [] then cmd\<lparr>cmd_ID := uuid\<rparr> else cmd)
        in sbind (pushToContainer i c cmd) (\<lambda>_. sret (cmd_ID cmd))))"

text \<open>The call of other plugins: after handing over, the first half; then the wait for the result.\<close>

definition Dispatch_send :: "string \<Rightarrow> 16 word \<Rightarrow> command \<Rightarrow> (cchan, unit) act" where
  "Dispatch_send uuid i cmd = sbind (find_chan i) (\<lambda>c. pushToContainer i c (cmd\<lparr>cmd_ID := uuid\<rparr>))"

definition Dispatch_wait :: "string \<Rightarrow> (cchan, (go_error, job_result) result option) act" where
  "Dispatch_wait uuid = on_proto (Get_result uuid)"

text \<open>What the forwarder writes to the channel: the number that unlocks the process, then the commands in order.\<close>

definition UnlockMagic :: nat where "UnlockMagic = 0x280682"

datatype frame = FMagic nat | FCommand command

definition forward_frames :: "command list \<Rightarrow> frame list" where
  "forward_frames cmds = FMagic UnlockMagic # map FCommand cmds"

section \<open>What a container sends\<close>

record 'f cx_stat =
  cs_Operation :: string
  cs_Key :: string
  cs_Value :: 'f
  cs_Tags :: "tag list"

record cx_message =
  cx_Type :: string
  cx_Command :: string
  cx_Payload :: string

text \<open>JSON: a value is decoded as far as it goes, a failure is only logged.\<close>

record 'f cx_json =
  cj_result :: "string \<Rightarrow> job_result"
  cj_message :: "string \<Rightarrow> message"
  cj_stat :: "string \<Rightarrow> 'f cx_stat"

record 'f rewound =
  rw_proto :: proto
  rw_logs :: "(command \<times> message) list"
  rw_stats :: "'f stats_call list"

definition corex_job :: "16 word \<Rightarrow> string" where "corex_job i = ''core-'' @ itoa (unat i)"

definition rewind_message :: "'f cx_json \<Rightarrow> 16 word \<Rightarrow> cx_message \<Rightarrow> 'f rewound \<Rightarrow> 'f rewound" where
  "rewind_message J i m s =
     (if cx_Type m = ''result'' then
        s\<lparr>rw_proto := snd (Set_result ((cj_result J (cx_Payload m))\<lparr>jr_Container := ucast i\<rparr>) (rw_proto s))\<rparr>
      else if cx_Type m = ''log'' then
        s\<lparr>rw_logs := rw_logs s @ [((new_command (cx_Command m) [])\<lparr>cmd_Core := i\<rparr>, cj_message J (cx_Payload m))]\<rparr>
      else if cx_Type m = ''stats'' then
        (let st = cj_stat J (cx_Payload m) in
         s\<lparr>rw_stats := rw_stats s @ [\<lparr>st_op = cs_Operation st, st_key = corex_job i @ ''.'' @ cs_Key st, st_value = cs_Value st,
             st_id = [], st_tags = cs_Tags st\<rparr>]\<rparr>)
      else s)"

definition rewind :: "'f cx_json \<Rightarrow> 16 word \<Rightarrow> cx_message list \<Rightarrow> 'f rewound \<Rightarrow> 'f rewound" where
  "rewind J i ms s = fold (rewind_message J i) ms s"

section \<open>Listing\<close>

text \<open>A container is listed when its job is there, with the figures of its process if it has one.\<close>

definition container_infos :: "(string \<Rightarrow> 'p option) \<Rightarrow> container list \<Rightarrow> (16 word \<times> 'p \<times> container) list" where
  "container_infos job cs = concat (map (\<lambda>c. case job (corex_job (ct_id c)) of
     None \<Rightarrow> [] | Some p \<Rightarrow> [(ct_id c, p, c)]) cs)"

definition list_containers :: "(string \<Rightarrow> 'p option) \<Rightarrow> cmanager \<Rightarrow> (16 word \<times> 'p \<times> container) list" where
  "list_containers job m = container_infos job (map snd (cm_containers m))"

definition find_containers :: "(string \<Rightarrow> 'p option) \<Rightarrow> string list \<Rightarrow> cmanager \<Rightarrow> (16 word \<times> 'p \<times> container) list" where
  "find_containers job tags m = container_infos job (GetWithTags tags m)"

section \<open>Properties\<close>

lemma find_chan_Some: "map_of (cc_conts s) i = Some c \<Longrightarrow> find_chan i s = (Inr c, s)"
  by (simp add: find_chan_def sget_def)

text \<open>Results of other jobs leave the queue and the flag of a job alone.\<close>

lemma Set_result_other:
  assumes "jr_ID r \<noteq> i"
  shows "pr_results (snd (Set_result r p)) i = pr_results p i"
  using assms by (auto simp: Set_result_def setResult_def UnFlag_def Let_def split: option.splits prod.splits)

lemma Set_result_own:
  assumes "jr_ID r \<noteq> []"
  shows "pr_results (snd (Set_result r p)) (jr_ID r) =
    Some ((case pr_results p (jr_ID r) of None \<Rightarrow> [] | Some (l, ttl) \<Rightarrow> l) @ [r], Some ReturnExpire)"
  using assms by (auto simp: Set_result_def setResult_def UnFlag_def Let_def split: option.splits prod.splits)

definition result_for :: "'f cx_json \<Rightarrow> string \<Rightarrow> cx_message \<Rightarrow> bool" where
  "result_for J i m \<longleftrightarrow> cx_Type m = ''result'' \<and> jr_ID (cj_result J (cx_Payload m)) = i"

lemma rewind_other:
  "list_all (\<lambda>m. \<not> result_for J i m) ms \<Longrightarrow> pr_results (rw_proto (rewind J k ms s)) i = pr_results (rw_proto s) i"
proof (induction ms arbitrary: s)
  case (Cons m ms)
  have "pr_results (rw_proto (rewind_message J k m s)) i = pr_results (rw_proto s) i"
    using Cons.prems Set_result_other[of "(cj_result J (cx_Payload m))\<lparr>jr_Container := ucast k\<rparr>" i]
    by (auto simp: rewind_message_def result_for_def Let_def)
  then show ?case using Cons by (simp add: rewind_def)
qed (simp add: rewind_def)

lemma rewind_flagged: "Flagged i (rw_proto (rewind J k ms s)) = Flagged i (rw_proto s)"
proof (induction ms arbitrary: s)
  case (Cons m ms)
  have "Flagged i (rw_proto (rewind_message J k m s)) = Flagged i (rw_proto s)"
    by (simp add: rewind_message_def Let_def)
  then show ?case using Cons by (simp add: rewind_def)
qed (simp add: rewind_def)

lemma rewind_append: "rewind J k (xs @ ys) s = rewind J k ys (rewind J k xs s)"
  by (simp add: rewind_def)

text \<open>A command that is handed to a container, and whose result comes back from it, is answered with that result, with the
  number of the container in it, also when other results come before and after it.\<close>

theorem dispatch_is_answered:
  assumes c: "map_of (cc_conts s) i = Some ChanReady" and id: "uuid \<noteq> []" and fresh: "pr_results (cc_proto s) uuid = None"
    and m: "result_for J uuid m" and others: "list_all (\<lambda>m. \<not> result_for J uuid m) (xs @ ys)"
    and sent: "Dispatch_send uuid i cmd s = (x, s1)"
    and same: "rw_proto w = cc_proto s1"
  shows "x = Inr () \<and> cc_sent s1 = cc_sent s @ [(i, cmd\<lparr>cmd_ID := uuid\<rparr>)] \<and>
    fst (Get_result uuid (rw_proto (rewind J i (xs @ m # ys) w))) = Some (Inr ((cj_result J (cx_Payload m))\<lparr>jr_Container := ucast i\<rparr>))"
proof -
  let ?r = "(cj_result J (cx_Payload m))\<lparr>jr_Container := ucast i\<rparr>"
  have p: "x = Inr ()" "cc_proto s1 = Flag_job uuid (cc_proto s)" "cc_sent s1 = cc_sent s @ [(i, cmd\<lparr>cmd_ID := uuid\<rparr>)]"
    using sent find_chan_Some[OF c]
    by (auto simp: Dispatch_send_def pushToContainer_def container_dispatch_def on_proto_def sbind_def)
  let ?wx = "rewind J i xs w"
  have n: "pr_results (rw_proto ?wx) uuid = None"
    using rewind_other[of J uuid xs i w] others same p(2) fresh by (simp add: Flag_job_def)
  have rid: "jr_ID ?r = uuid" and t: "cx_Type m = ''result''" using m by (simp_all add: result_for_def)
  have "pr_results (rw_proto (rewind_message J i m ?wx)) uuid = Some ([?r], Some ReturnExpire)"
    using Set_result_own[of ?r "rw_proto ?wx"] id rid n t by (simp add: rewind_message_def)
  then have "pr_results (rw_proto (rewind J i ys (rewind_message J i m ?wx))) uuid = Some ([?r], Some ReturnExpire)"
    using rewind_other[of J uuid ys i] others by simp
  moreover have "rewind J i (xs @ m # ys) w = rewind J i ys (rewind_message J i m ?wx)"
    by (simp add: rewind_def)
  moreover have "Flagged uuid (rw_proto (rewind J i (xs @ m # ys) w))"
    unfolding rewind_flagged same p(2) by simp
  ultimately show ?thesis using p by (simp add: Get_result_def)
qed

text \<open>A command that a container does not take stays flagged, without a time to live: who asks for its result waits.\<close>

theorem failed_dispatch_stays_flagged:
  assumes "map_of (cc_conts s) i = Some ChanBusy" and "pr_flags (cc_proto s) uuid = None" and "pr_results (cc_proto s) uuid = None"
  shows "let s1 = snd (Dispatch_send uuid i cmd s) in
    isl (fst (Dispatch_send uuid i cmd s)) \<and> pr_flags (cc_proto s1) uuid = Some None \<and> fst (Get_result uuid (cc_proto s1)) = None"
  using find_chan_Some[OF assms(1)] assms(2,3)
  by (simp add: Dispatch_send_def pushToContainer_def container_dispatch_def on_proto_def sbind_def Flag_job_def Get_result_def
      Flagged_def fail_def)

text \<open>The clean-up of a container closes its channel before the container leaves the table.\<close>

theorem dispatch_after_close_panics:
  assumes "map_of (cc_conts s) i = Some ChanClosed" and "i \<noteq> 0"
  shows "fst (dispatch_action uuid i cmd s) = Inl (Panic ''send on closed channel'')"
  using find_chan_Some[OF assms(1)] assms(2)
  by (simp add: dispatch_action_def pushToContainer_def container_dispatch_def on_proto_def sbind_def Let_def)

text \<open>A container may send a result under the identifier of any job, also of one that it was not given.\<close>

theorem container_forges_results:
  assumes "Flagged j (rw_proto w)" and "j \<noteq> []" and "pr_results (rw_proto w) j = None" and "result_for J j m"
  shows "fst (Get_result j (rw_proto (rewind J i [m] w))) = Some (Inr ((cj_result J (cx_Payload m))\<lparr>jr_Container := ucast i\<rparr>))"
proof -
  let ?r = "(cj_result J (cx_Payload m))\<lparr>jr_Container := ucast i\<rparr>"
  have r: "jr_ID ?r = j" and t: "cx_Type m = ''result''" using assms(4) by (simp_all add: result_for_def)
  have "pr_results (rw_proto (rewind J i [m] w)) j = Some ([?r], Some ReturnExpire)"
    using Set_result_own[of ?r "rw_proto w"] assms(2,3) r t by (simp add: rewind_def rewind_message_def)
  then show ?thesis using rewind_flagged[of j J i "[m]" w] assms(1) by (simp add: Get_result_def)
qed

text \<open>The figures of a container are kept apart from those of the host and of other containers.\<close>

lemma corex_job_inject: "corex_job i @ ''.'' @ a = corex_job j @ ''.'' @ b \<longleftrightarrow> i = j \<and> a = b"
proof
  assume e: "corex_job i @ ''.'' @ a = corex_job j @ ''.'' @ b"
  then have e: "itoa (unat i) @ CHR ''.'' # a = itoa (unat j) @ CHR ''.'' # b" by (simp add: corex_job_def)
  have t: "takeWhile is_digit (itoa n @ CHR ''.'' # r) = itoa n" for n r by (rule takeWhile_itoa) (simp add: is_digit_def)
  have "itoa (unat i) = itoa (unat j)" using arg_cong[OF e, of "takeWhile is_digit"] by (simp only: t)
  then show "i = j \<and> a = b" using e by (simp add: word_unat_eq_iff)
qed simp

theorem rewound_stats:
  "rw_stats (rewind J i ms s) = rw_stats s @
     map (\<lambda>m. let st = cj_stat J (cx_Payload m) in \<lparr>st_op = cs_Operation st, st_key = corex_job i @ ''.'' @ cs_Key st,
        st_value = cs_Value st, st_id = [], st_tags = cs_Tags st\<rparr>) (filter (\<lambda>m. cx_Type m = ''stats'') ms)"
  by (induction ms arbitrary: s) (simp_all add: rewind_def rewind_message_def Let_def)


section \<open>Witnesses\<close>

definition demo_result :: "string \<Rightarrow> job_result" where "demo_result t = (NewJobResult (new_command t ''core.ping''))\<lparr>jr_Data := ''pong''\<rparr>"

definition demo_json :: "nat cx_json" where
  "demo_json = \<lparr>cj_result = demo_result, cj_message = (\<lambda>t. \<lparr>msg_text = t, msg_epoch = 0, msg_meta = 0\<rparr>),
     cj_stat = (\<lambda>t. \<lparr>cs_Operation = ''A'', cs_Key = t, cs_Value = 0, cs_Tags = []\<rparr>)\<rparr>"

definition demo_proto :: proto where "demo_proto = \<lparr>pr_flags = (\<lambda>_. None), pr_results = (\<lambda>_. None)\<rparr>"

definition demo_reply :: cx_message where "demo_reply = \<lparr>cx_Type = ''result'', cx_Command = [], cx_Payload = ''u1''\<rparr>"

definition demo_chans :: "chan \<Rightarrow> cchan" where "demo_chans c = \<lparr>cc_conts = [(1, c)], cc_proto = demo_proto, cc_sent = []\<rparr>"

definition demo_rewound :: "proto \<Rightarrow> nat rewound" where "demo_rewound p = \<lparr>rw_proto = p, rw_logs = [], rw_stats = []\<rparr>"

lemma demo_result_for: "result_for demo_json ''u1'' demo_reply"
  by (simp add: result_for_def demo_json_def demo_reply_def demo_result_def NewJobResult_def new_command_def)

lemma dispatch_is_answered_witness:
  "let s1 = snd (Dispatch_send ''u1'' 1 (new_command [] ''core.ping'') (demo_chans ChanReady)) in
   fst (Get_result ''u1'' (rw_proto (rewind demo_json 1 ([] @ demo_reply # []) (demo_rewound (cc_proto s1))))) =
     Some (Inr ((cj_result demo_json (cx_Payload demo_reply))\<lparr>jr_Container := ucast (1 :: 16 word)\<rparr>))"
proof -
  let ?d = "Dispatch_send ''u1'' 1 (new_command [] ''core.ping'') (demo_chans ChanReady)"
  show ?thesis
    using dispatch_is_answered[of "demo_chans ChanReady" 1 "''u1''" demo_json demo_reply "[]" "[]" "new_command [] ''core.ping''"
        "fst ?d" "snd ?d" "demo_rewound (cc_proto (snd ?d))"] demo_result_for
    by (simp add: Let_def demo_chans_def demo_proto_def demo_rewound_def)
qed

lemma failed_dispatch_stays_flagged_witness:
  "let s = demo_chans ChanBusy; s1 = snd (Dispatch_send ''u1'' 1 (new_command [] ''core.ping'') s) in
   isl (fst (Dispatch_send ''u1'' 1 (new_command [] ''core.ping'') s)) \<and> pr_flags (cc_proto s1) ''u1'' = Some None \<and>
   fst (Get_result ''u1'' (cc_proto s1)) = None"
  using failed_dispatch_stays_flagged[of "demo_chans ChanBusy" 1 "''u1''" "new_command [] ''core.ping''"]
  by (simp add: Let_def demo_chans_def demo_proto_def)

lemma dispatch_after_close_panics_witness:
  "fst (dispatch_action ''u1'' 1 (new_command [] ''core.ping'') (demo_chans ChanClosed)) = Inl (Panic ''send on closed channel'')"
  by (rule dispatch_after_close_panics) (simp_all add: demo_chans_def)

lemma container_forges_results_witness:
  "fst (Get_result ''u1'' (rw_proto (rewind demo_json 7 [demo_reply] (demo_rewound (Flag_job ''u1'' demo_proto))))) =
     Some (Inr ((cj_result demo_json (cx_Payload demo_reply))\<lparr>jr_Container := ucast (7 :: 16 word)\<rparr>))"
  by (rule container_forges_results[OF _ _ _ demo_result_for])
     (simp_all add: demo_rewound_def demo_proto_def Flag_job_def Flagged_def)

end
