(* ===== verification/Monitor.thy ===== *)
theory Monitor
  imports Containers Steps Scan Mgr_Stats Mgr_Manager Paths
begin

text \<open>
  Figures of the host, and the actions on jobs and processes (\<^verbatim>\<open>src/apps/plugins/base/monitor\<close>, \<^verbatim>\<open>base/job\<close> and
  \<^verbatim>\<open>base/process\<close>).  What the operating system counts is a parameter; a figure is over an abstract type of floats with
  the conversions that the code uses.  An action gives the figures that it sends to the aggregator, also those sent before
  it fails.
\<close>

section \<open>Figures\<close>

record 'f floats =
  fl_of :: "nat \<Rightarrow> 'f"
  fl_mb :: "nat \<Rightarrow> 'f"
  fl_add :: "'f \<Rightarrow> 'f \<Rightarrow> 'f"
  fl_int :: "int \<Rightarrow> 'f"
  fl_parse :: "string \<Rightarrow> 'f"

definition AggreagteAverage :: string where "AggreagteAverage = ''A''"
definition AggreagteDifference :: string where "AggreagteDifference = ''D''"

definition phys :: tag where "phys = \<lparr>tag_Key = ''type'', tag_Value = ''phys''\<rparr>"

definition figure :: "string \<Rightarrow> string \<Rightarrow> 'f \<Rightarrow> string \<Rightarrow> tag list \<Rightarrow> 'f stats_call" where
  "figure op key v i tags = \<lparr>st_op = op, st_key = key, st_value = v, st_id = i, st_tags = phys # tags\<rparr>"

text \<open>The state of an action: the figures sent so far.\<close>

type_synonym ('f, 'a) sending = "('f stats_call list, 'a) act"

definition send :: "'f stats_call list \<Rightarrow> ('f, unit) sending" where "send fs = (\<lambda>s. (Inr (), s @ fs))"

definition given :: "(go_error, 'a) result \<Rightarrow> ('f, 'a) sending" where "given r = slift (lift_err r)"

section \<open>Disks\<close>

record disk_counter =
  dc_ReadCount :: nat
  dc_WriteCount :: nat
  dc_ReadBytes :: nat
  dc_WriteBytes :: nat

record disk_usage =
  du_Total :: nat
  du_Free :: nat
  du_Fstype :: string

definition disk_figures :: "'f floats \<Rightarrow> string \<times> disk_counter \<Rightarrow> 'f stats_call list" where
  "disk_figures F = (\<lambda>(name, c).
     [figure AggreagteDifference ''disk.iops.read'' (fl_of F (dc_ReadCount c)) name [],
      figure AggreagteDifference ''disk.iops.write'' (fl_of F (dc_WriteCount c)) name [],
      figure AggreagteDifference ''disk.throughput.read'' (fl_of F (dc_ReadBytes c div 1024)) name [],
      figure AggreagteDifference ''disk.throughput.write'' (fl_of F (dc_WriteBytes c div 1024)) name []])"

text \<open>A device is looked at once, at the last of its mount points.\<close>

definition device_mounts :: "(string \<times> string) list \<Rightarrow> (string \<times> string) list" where
  "device_mounts parts = map (\<lambda>d. (d, the (map_of (rev parts) d))) (remdups (map fst parts))"

definition usage_figures :: "'f floats \<Rightarrow> (string \<Rightarrow> (go_error, disk_usage) result) \<Rightarrow> string \<times> string \<Rightarrow> 'f stats_call list" where
  "usage_figures F usage = (\<lambda>(device, mount). case usage mount of
     Inl _ \<Rightarrow> []
   | Inr u \<Rightarrow> (let fs = \<lparr>tag_Key = ''fs'', tag_Value = du_Fstype u\<rparr> in
       [figure AggreagteAverage ''disk.size.total'' (fl_of F (du_Total u)) (path_base device) [fs],
        figure AggreagteAverage ''disk.size.free'' (fl_of F (du_Free u)) (path_base device) [fs]]))"

definition monitor_disk ::
  "'f floats \<Rightarrow> (go_error, (string \<times> disk_counter) list) result \<Rightarrow> (go_error, (string \<times> string) list) result \<Rightarrow>
   (string \<Rightarrow> (go_error, disk_usage) result) \<Rightarrow> ('f, unit) sending" where
  "monitor_disk F counters parts usage =
     sbind (given counters) (\<lambda>cs.
     sbind (send (concat (map (disk_figures F) cs))) (\<lambda>_.
     sbind (given parts) (\<lambda>ps.
     send (concat (map (usage_figures F usage) (device_mounts ps))))))"

section \<open>Processors\<close>

record 'f cpu_env =
  pe_times :: "(go_error, ('f \<times> 'f) list) result"
  pe_percent :: "(go_error, 'f list) result"
  pe_stat :: "(go_error, string) result"
  pe_threads :: "(go_error, int) result list"

definition numbered :: "'a list \<Rightarrow> (string \<times> 'a) list" where "numbered xs = zip (map itoa [0..<length xs]) xs"

text \<open>The first two words of each line of \<^verbatim>\<open>/proc/stat\<close>; a later line of one name takes the place of an earlier.\<close>

definition stat_format :: "fitem list" where "stat_format = [VerbS, Blanks, VerbS]"

definition stat_pair :: "string \<Rightarrow> (string \<times> string) option" where
  "stat_pair l = (case sscanf stat_format l of Some [SStr k, SStr v] \<Rightarrow> Some (k, v) | _ \<Rightarrow> None)"

definition stat_map :: "string \<Rightarrow> (string \<times> string) list" where
  "stat_map t = rev (List.map_filter stat_pair (split_on CHR 0x0A t))"

definition stat_figure :: "'f floats \<Rightarrow> string \<Rightarrow> string \<Rightarrow> string \<Rightarrow> 'f stats_call list" where
  "stat_figure F t word key = (case map_of (stat_map t) word of
     None \<Rightarrow> [] | Some v \<Rightarrow> [figure AggreagteDifference key (fl_parse F v) [] []])"

text \<open>The threads are added up in 32 bits.\<close>

definition thread_sum :: "(go_error, int) result list \<Rightarrow> 32 word" where
  "thread_sum ts = foldl (\<lambda>n t. case t of Inl _ \<Rightarrow> n | Inr k \<Rightarrow> n + of_int k) 0 ts"

definition monitor_cpu :: "'f floats \<Rightarrow> 'f cpu_env \<Rightarrow> ('f, unit) sending" where
  "monitor_cpu F E =
     sbind (given (pe_times E)) (\<lambda>ts.
     sbind (send (map (\<lambda>(nr, s, u). figure AggreagteDifference ''machine.CPU.utilisation'' (fl_add F s u) nr []) (numbered ts))) (\<lambda>_.
     sbind (given (pe_percent E)) (\<lambda>ps.
     sbind (send (map (\<lambda>(nr, v). figure AggreagteAverage ''machine.CPU.percent'' v nr []) (numbered ps))) (\<lambda>_.
     sbind (given (pe_stat E)) (\<lambda>t.
     send (stat_figure F t ''ctxt'' ''machine.CPU.contextswitch'' @ stat_figure F t ''intr'' ''machine.CPU.interrupts'' @
       [figure AggreagteAverage ''machine.process.threads'' (fl_int F (sint (thread_sum (pe_threads E)))) [] []]))))))"

section \<open>Memory\<close>

definition monitor_memory ::
  "'f floats \<Rightarrow> (go_error, nat) result \<Rightarrow> (go_error, nat \<times> nat) result \<Rightarrow> ('f, unit) sending" where
  "monitor_memory F virt swap =
     sbind (given virt) (\<lambda>available.
     sbind (send [figure AggreagteAverage ''machine.memory.ram.available'' (fl_mb F available) [] []]) (\<lambda>_.
     sbind (given swap) (\<lambda>(free, used).
     send [figure AggreagteAverage ''machine.memory.swap.left'' (fl_mb F free) [] [],
           figure AggreagteAverage ''machine.memory.swap.used'' (fl_mb F used) [] []])))"

section \<open>Networks\<close>

record net_counter =
  nc_Name :: string
  nc_BytesSent :: nat
  nc_BytesRecv :: nat
  nc_PacketsSent :: nat
  nc_PacketsRecv :: nat

definition networkMonitorTypes :: "string list" where "networkMonitorTypes = [''device'', ''bridge'', ''openvswitch'', ''veth'']"
definition networkMonitorIgnoreNames :: "string list" where "networkMonitorIgnoreNames = [''lo'', ''ovs-system'']"

text \<open>Which links are watched; of the cards of containers only those whose name says so.\<close>

definition net_watched :: "string \<Rightarrow> string \<Rightarrow> bool" where
  "net_watched name ltype \<longleftrightarrow> \<not> InString networkMonitorIgnoreNames name \<and>
     \<not> (\<not> InString networkMonitorTypes ltype \<or> (ltype = ''veth'' \<and> \<not> has_prefix ''contm'' name))"

definition net_figures :: "'f floats \<Rightarrow> (string \<Rightarrow> (go_error, string) result) \<Rightarrow> net_counter \<Rightarrow> 'f stats_call list" where
  "net_figures F ltype c = (case ltype (nc_Name c) of
     Inl _ \<Rightarrow> []
   | Inr t \<Rightarrow>
       if \<not> net_watched (nc_Name c) t then []
       else let kind = [\<lparr>tag_Key = ''kind'', tag_Value = t\<rparr>] in
         [figure AggreagteDifference ''network.throughput.outgoing'' (fl_mb F (nc_BytesSent c)) (nc_Name c) kind,
          figure AggreagteDifference ''network.throughput.incoming'' (fl_mb F (nc_BytesRecv c)) (nc_Name c) kind,
          figure AggreagteDifference ''network.packets.tx'' (fl_of F (nc_PacketsSent c)) (nc_Name c) kind,
          figure AggreagteDifference ''network.packets.rx'' (fl_of F (nc_PacketsRecv c)) (nc_Name c) kind])"

definition monitor_network ::
  "'f floats \<Rightarrow> (go_error, net_counter list) result \<Rightarrow> (string \<Rightarrow> (go_error, string) result) \<Rightarrow> ('f, unit) sending" where
  "monitor_network F counters ltype = sbind (given counters) (\<lambda>cs. send (concat (map (net_figures F ltype) cs)))"

text \<open>The action: \<open>lower\<close> is \<^verbatim>\<open>strings.ToLower\<close>.\<close>

record 'f monitor_env =
  me_lower :: "string \<Rightarrow> string"
  me_counters :: "(go_error, (string \<times> disk_counter) list) result"
  me_parts :: "(go_error, (string \<times> string) list) result"
  me_usage :: "string \<Rightarrow> (go_error, disk_usage) result"
  me_cpu :: "'f cpu_env"
  me_virt :: "(go_error, nat) result"
  me_swap :: "(go_error, nat \<times> nat) result"
  me_net :: "(go_error, net_counter list) result"
  me_ltype :: "string \<Rightarrow> (go_error, string) result"

definition monitor :: "'f floats \<Rightarrow> 'f monitor_env \<Rightarrow> string \<Rightarrow> ('f, unit) sending" where
  "monitor F E domain = (let d = me_lower E domain in
     if d = ''disk'' then monitor_disk F (me_counters E) (me_parts E) (me_usage E)
     else if d = ''cpu'' then monitor_cpu F (me_cpu E)
     else if d = ''memory'' then monitor_memory F (me_virt E) (me_swap E)
     else if d = ''network'' then monitor_network F (me_net E) (me_ltype E)
     else slift (fail (''invalid monitoring domain: '' @ domain)))"

section \<open>Jobs\<close>

record 'p job_info =
  ji_Cmd :: command
  ji_StartTime :: int
  ji_Stats :: "'p option"
  ji_PID :: int

text \<open>\<open>proc\<close> gives of a job its start, the figures of its process and its number, as far as it has them.\<close>

definition job_list ::
  "(job \<Rightarrow> int \<times> 'p option \<times> int option) \<Rightarrow> string \<Rightarrow> (string \<times> job) list \<Rightarrow> (fault, 'p job_info list) result" where
  "job_list proc i jobs =
     (let info = (\<lambda>j. case proc j of (t, st, pid) \<Rightarrow>
            \<lparr>ji_Cmd = jb_command j, ji_StartTime = t, ji_Stats = st, ji_PID = (case pid of Some p \<Rightarrow> p | None \<Rightarrow> 0)\<rparr>)
      in if i \<noteq> [] then (case map_of jobs i of
           None \<Rightarrow> fail (''Process with id '' @ in_quotes i @ '' doesn't exist'')
         | Some j \<Rightarrow> Inr [info j])
      else Inr (map (info \<circ> snd) jobs))"

text \<open>A signal to a job; zero stands for the signal to terminate, and an unknown job is no error.\<close>

definition job_kill :: "string \<Rightarrow> int \<Rightarrow> manager \<Rightarrow> (fault, bool) result \<times> manager" where
  "job_kill i sig m = (let sig = (if sig = 0 then SIGTERM else sig) in
     case JobOf i m of
       None \<Rightarrow> (Inr False, m)
     | Some j \<Rightarrow> (case job_Signal sig j of
         Inl e \<Rightarrow> (Inl (Fault e), m)
       | Inr j' \<Rightarrow> (Inr True, m\<lparr>mg_jobs := (mg_jobs m)(i \<mapsto> j')\<rparr>)))"

definition unschedule_job :: "string \<Rightarrow> manager \<Rightarrow> bool \<times> manager" where
  "unschedule_job i m = (case JobOf i m of
     None \<Rightarrow> (False, m) | Some j \<Rightarrow> (True, m\<lparr>mg_jobs := (mg_jobs m)(i \<mapsto> job_Unschedule j)\<rparr>))"

section \<open>Processes\<close>

text \<open>The parent of a process from the text of its \<^verbatim>\<open>stat\<close> file: the fourth word, where blanks separate words.\<close>

definition parent_pid :: "string \<Rightarrow> int" where
  "parent_pid t = (let fs = Fields t in
     if 4 \<le> length fs then (case sscanf [VerbD] (fs ! 3) of Some [SInt n] \<Rightarrow> n | _ \<Rightarrow> 0) else 0)"

definition process_kill :: "(int \<Rightarrow> int \<Rightarrow> 's \<Rightarrow> (go_error, unit) result \<times> 's) \<Rightarrow> int \<Rightarrow> int \<Rightarrow> ('s, unit) act" where
  "process_kill kill pid sig = (if pid \<le> 1 then slift (fail ''invalid PID'') else scall (kill pid sig))"

text \<open>The processes that are there when they are looked at.\<close>

definition process_list :: "(go_error, int list) result \<Rightarrow> (int \<Rightarrow> 'p option) \<Rightarrow> int \<Rightarrow> (go_error, 'p list) result" where
  "process_list pids look pid =
     rbind (if 0 < pid then Inr [pid] else pids) (\<lambda>ps. Inr (List.map_filter look ps))"

section \<open>Properties\<close>

text \<open>The card of a container is watched exactly when it was asked for: the name that the container gives to its link tells
  the monitor.\<close>

theorem container_card_watched: "net_watched (link_name i k m) ''veth'' = m"
proof -
  have d: "hd (itoa n) \<noteq> CHR ''m''" "itoa n \<noteq> []" for n using hd_itoa_digit[of n] by (auto simp: is_digit_def)
  have "has_prefix ''contm'' (link_name i k m) = m"
    using d[of "unat i"] by (cases "itoa (unat i)") (auto simp: link_name_def has_prefix_def)
  then show ?thesis by (auto simp: net_watched_def networkMonitorTypes_def networkMonitorIgnoreNames_def link_name_def)
qed

text \<open>A failure keeps what was sent: the figures of the parts before it.\<close>

lemma network_figures:
  "monitor_network F (Inr cs) ltype s = (Inr (), s @ concat (map (net_figures F ltype) cs))"
  by (simp add: monitor_network_def given_def send_def act_defs)

text \<open>Signals: a job that runs gets the signal, zero is SIGTERM, other jobs are left alone.\<close>

theorem job_kill_exact:
  "case job_kill i sig m of (r, m') \<Rightarrow>
     (\<forall>j. j \<noteq> i \<longrightarrow> mg_jobs m' j = mg_jobs m j) \<and>
     (r = Inr True \<longleftrightarrow> (\<exists>j. mg_jobs m i = Some j \<and> jb_running j \<and> length (jb_signals j) < signal_buffer \<and>
        mg_jobs m' i = Some (j\<lparr>jb_signals := jb_signals j @ [if sig = 0 then SIGTERM else sig]\<rparr>))) \<and>
     (r = Inr False \<longleftrightarrow> mg_jobs m i = None)"
  by (auto simp: job_kill_def JobOf_def job_Signal_def Let_def split: option.splits)

text \<open>No signal goes to the init process, to a group or to all processes.\<close>

theorem process_kill_spares_init:
  "snd (process_kill kill pid sig w) = (if 1 < pid then snd (kill pid sig w) else w)"
  by (auto simp: process_kill_def scall_def act_defs split: prod.splits)

text \<open>The name of a process stands in brackets in the second field and may hold blanks, which shift the fields.\<close>

theorem parent_pid_shifted:
  "parent_pid ''7 (sh) S 42 7'' = 42 \<and> parent_pid ''7 (my job) S 42 7'' = 0"
  by code_simp

end
