(* ===== verification/Ip.thy ===== *)
theory Ip
  imports Steps Dmi "HOL-Library.AList"
begin

text \<open>
  The actions on links, addresses, routes and bonds (\<^verbatim>\<open>src/apps/plugins/base/ip/ip.go\<close>).  netlink, the files of the
  kernel and the process manager are the arguments of the operations.  Networks and addresses, of both versions of the
  protocol, are of abstract types with their readers and their texts.
\<close>

section \<open>Surroundings\<close>

record ip_link =
  il_Name :: string
  il_Type :: string
  il_Index :: int
  il_MasterIndex :: int
  il_HardwareAddr :: string
  il_Up :: bool
  il_MTU :: int

record ('n, 'a) nl_route =
  rt_LinkIndex :: int
  rt_Dst :: "'n option"
  rt_Gw :: "'a option"

text \<open>\<open>ie_routes\<close> gives all routes; \<open>ie_filtered\<close> those of the link of the given route, and of its network and gateway where
  the two flags say so.  A master is a link or none.\<close>

record ('s, 'n, 'a) ip_env =
  ie_links :: "'s \<Rightarrow> (go_error, ip_link list) result"
  ie_by_name :: "string \<Rightarrow> 's \<Rightarrow> (go_error, ip_link) result"
  ie_add_bond :: "string \<Rightarrow> int \<Rightarrow> 's \<Rightarrow> (go_error, unit) result \<times> 's"
  ie_add_bridge :: "string \<Rightarrow> 's \<Rightarrow> (go_error, unit) result \<times> 's"
  ie_link_del :: "string \<Rightarrow> 's \<Rightarrow> (go_error, unit) result \<times> 's"
  ie_set_up :: "string \<Rightarrow> bool \<Rightarrow> 's \<Rightarrow> (go_error, unit) result \<times> 's"
  ie_set_mtu :: "string \<Rightarrow> int \<Rightarrow> 's \<Rightarrow> (go_error, unit) result \<times> 's"
  ie_set_name :: "string \<Rightarrow> string \<Rightarrow> 's \<Rightarrow> (go_error, unit) result \<times> 's"
  ie_set_hw :: "string \<Rightarrow> string \<Rightarrow> 's \<Rightarrow> (go_error, unit) result \<times> 's"
  ie_set_master :: "string \<Rightarrow> string option \<Rightarrow> 's \<Rightarrow> (go_error, unit) result \<times> 's"
  ie_addrs :: "string \<Rightarrow> 's \<Rightarrow> (go_error, 'n list) result"
  ie_addr_add :: "string \<Rightarrow> 'n \<Rightarrow> 's \<Rightarrow> (go_error, unit) result \<times> 's"
  ie_addr_del :: "string \<Rightarrow> 'n \<Rightarrow> 's \<Rightarrow> (go_error, unit) result \<times> 's"
  ie_routes :: "'s \<Rightarrow> (go_error, ('n, 'a) nl_route list) result"
  ie_filtered :: "('n, 'a) nl_route \<Rightarrow> bool \<Rightarrow> bool \<Rightarrow> 's \<Rightarrow> (go_error, ('n, 'a) nl_route list) result"
  ie_route_add :: "('n, 'a) nl_route \<Rightarrow> 's \<Rightarrow> (go_error, unit) result \<times> 's"
  ie_route_del :: "('n, 'a) nl_route \<Rightarrow> 's \<Rightarrow> (go_error, unit) result \<times> 's"
  ie_mac :: "string \<Rightarrow> (go_error, string) result"
  ie_parse_addr :: "string \<Rightarrow> (go_error, 'n) result"
  ie_parse_net :: "string \<Rightarrow> (go_error, 'n) result"
  ie_parse_ip :: "string \<Rightarrow> 'a option"
  ie_print_net :: "'n \<Rightarrow> string"
  ie_print_ip :: "'a \<Rightarrow> string"
  ie_system :: "string list \<Rightarrow> 's \<Rightarrow> (go_error, unit) result \<times> 's"
  ie_has_bonding :: "'s \<Rightarrow> bool"
  ie_read_dir :: "string \<Rightarrow> 's \<Rightarrow> (go_error, string list) result"
  ie_read_file :: "string \<Rightarrow> 's \<Rightarrow> (go_error, string) result"

definition link_of :: "('s, 'n, 'a) ip_env \<Rightarrow> string \<Rightarrow> ('s, ip_link) act" where
  "link_of E name = sask (ie_by_name E name)"

section \<open>Bonds\<close>

definition bondingBaseDir :: string where "bondingBaseDir = ''/proc/net/bonding/''"

text \<open>The kernel module is loaded at the first use; the bond that it comes with is removed.  The flag says that this was
  done.\<close>

definition bonding_once :: "('s, 'n, 'a) ip_env \<Rightarrow> ('s, unit) act" where
  "bonding_once E = (\<lambda>s. if ie_has_bonding E s then (Inr (), s) else
     sbind (signore (scall (ie_system E [''modprobe'', ''bonding'']))) (\<lambda>_ s.
       case ie_by_name E ''bond0'' s of
         Inl _ \<Rightarrow> (Inr (), s)
       | Inr l \<Rightarrow> signore (scall (ie_link_del E (il_Name l))) s) s)"

definition initBonding :: "('s, 'n, 'a) ip_env \<Rightarrow> (bool \<times> 's, unit) act" where
  "initBonding E = (\<lambda>(done, s). if done then (Inr (), (done, s)) else
     (case bonding_once E s of (r, s') \<Rightarrow> (r, (True, s'))))"

text \<open>The file of a bond: paragraphs that empty lines end, of lines with a name, a colon and the rest.\<close>

definition bond_line :: "string \<Rightarrow> (string \<times> string) list \<times> (string \<times> string) list list \<Rightarrow>
    (string \<times> string) list \<times> (string \<times> string) list list" where
  "bond_line line = (\<lambda>(m, l). let line = TrimSpace line in
     if line = [] then ([], l @ [m])
     else case split2 CHR '':'' line of [k, v] \<Rightarrow> (AList.update k v m, l) | _ \<Rightarrow> (m, l))"

definition parseBond :: "string \<Rightarrow> (string \<times> string) list list" where
  "parseBond c = (case fold bond_line (split_on CHR 0x0A c) ([], []) of
     (m, l) \<Rightarrow> if m = [] then l else l @ [m])"

definition on_world :: "('s, 'b) act \<Rightarrow> ('f \<times> 's, 'b) act" where
  "on_world m = (\<lambda>(f, s). case m s of (r, s') \<Rightarrow> (r, (f, s')))"

definition read_bonds ::
  "('s, 'n, 'a) ip_env \<Rightarrow> (string list) \<Rightarrow> 's \<Rightarrow> (fault, (string \<times> (string \<times> string) list list) list) result" where
  "read_bonds E names s = rmap (\<lambda>n. case ie_read_file E (bondingBaseDir @ n) s of
       Inl e \<Rightarrow> Inl (Fault (InternalError (error_text e)))
     | Inr t \<Rightarrow> Inr (n, parseBond t)) names"

definition bondList :: "('s, 'n, 'a) ip_env \<Rightarrow> (bool \<times> 's, (string \<times> (string \<times> string) list list) list) act" where
  "bondList E = sbind (initBonding E) (\<lambda>_. on_world (sbind (sask (ie_read_dir E bondingBaseDir)) (\<lambda>ns. sget (read_bonds E ns))))"

definition bondDel :: "('s, 'n, 'a) ip_env \<Rightarrow> string \<Rightarrow> ('s, unit) act" where
  "bondDel E name = sbind (link_of E name) (\<lambda>l. scall (ie_link_del E (il_Name l)))"

definition enslave_prepare :: "('s, 'n, 'a) ip_env \<Rightarrow> int \<Rightarrow> string \<Rightarrow> ('s, unit) act" where
  "enslave_prepare E mtu dev =
     sbind (werr (\<lambda>e. NotFoundError (''interface '' @ dev @ '': '' @ error_text e)) (link_of E dev)) (\<lambda>l.
     sbind (scall (ie_set_mtu E (il_Name l) mtu)) (\<lambda>_.
     scall (ie_set_up E (il_Name l) True)))"

definition bond_mtu :: "int \<Rightarrow> int" where "bond_mtu m = (if m = 0 then 1500 else m)"

definition bondAdd :: "('s, 'n, 'a) ip_env \<Rightarrow> string \<Rightarrow> string list \<Rightarrow> int \<Rightarrow> (bool \<times> 's, unit) act" where
  "bondAdd E bond devs mtu = sbind (initBonding E) (\<lambda>_. on_world (
     sbind (sfor (enslave_prepare E (bond_mtu mtu)) devs) (\<lambda>_.
     sbind (scall (ie_add_bond E bond (bond_mtu mtu))) (\<lambda>_.
     sbind (scall (ie_set_up E bond True)) (\<lambda>_.
     scall (ie_system E (''ifenslave'' # bond # devs)))))))"

section \<open>Bridges\<close>

definition ip_brAdd :: "('s, 'n, 'a) ip_env \<Rightarrow> string \<Rightarrow> string \<Rightarrow> ('s, unit) act" where
  "ip_brAdd E name hwaddr =
     sbind (if hwaddr = [] then sret [] else slift (lift_err (ie_mac E hwaddr))) (\<lambda>hw.
     sbind (scall (ie_add_bridge E name)) (\<lambda>_.
     on_fault (if hwaddr = [] then sret () else scall (ie_set_hw E name hw)) (scall (ie_link_del E name))))"

definition bridge_of :: "('s, 'n, 'a) ip_env \<Rightarrow> string \<Rightarrow> ('s, ip_link) act" where
  "bridge_of E name = sbind (link_of E name) (\<lambda>l.
     if il_Type l \<noteq> ''bridge'' then slift (fail (''no bridge with name '' @ in_quotes name)) else sret l)"

definition ip_brDel :: "('s, 'n, 'a) ip_env \<Rightarrow> string \<Rightarrow> ('s, unit) act" where
  "ip_brDel E name = sbind (bridge_of E name) (\<lambda>l. scall (ie_link_del E (il_Name l)))"

definition brAddInf :: "('s, 'n, 'a) ip_env \<Rightarrow> string \<Rightarrow> string \<Rightarrow> ('s, unit) act" where
  "brAddInf E name dev = sbind (bridge_of E name) (\<lambda>l. sbind (link_of E dev) (\<lambda>i.
     scall (ie_set_master E (il_Name i) (Some (il_Name l)))))"

definition brDelInf :: "('s, 'n, 'a) ip_env \<Rightarrow> string \<Rightarrow> string \<Rightarrow> ('s, unit) act" where
  "brDelInf E name dev = sbind (bridge_of E name) (\<lambda>l. sbind (link_of E dev) (\<lambda>i.
     if il_MasterIndex i \<noteq> il_Index l then slift (fail ''interface is not connected to bridge'')
     else scall (ie_set_master E (il_Name i) None)))"

section \<open>Links\<close>

definition linkUp :: "('s, 'n, 'a) ip_env \<Rightarrow> string \<Rightarrow> ('s, unit) act" where
  "linkUp E name = sbind (link_of E name) (\<lambda>l. scall (ie_set_up E (il_Name l) True))"

definition linkDown :: "('s, 'n, 'a) ip_env \<Rightarrow> string \<Rightarrow> ('s, unit) act" where
  "linkDown E name = sbind (link_of E name) (\<lambda>l. scall (ie_set_up E (il_Name l) False))"

definition linkName :: "('s, 'n, 'a) ip_env \<Rightarrow> string \<Rightarrow> string \<Rightarrow> ('s, unit) act" where
  "linkName E name new = sbind (link_of E name) (\<lambda>l. scall (ie_set_name E (il_Name l) new))"

definition linkMTU :: "('s, 'n, 'a) ip_env \<Rightarrow> string \<Rightarrow> int \<Rightarrow> ('s, unit) act" where
  "linkMTU E name mtu = sbind (werr (\<lambda>e. NotFoundError (error_text e)) (link_of E name)) (\<lambda>l.
     scall (ie_set_mtu E (il_Name l) mtu))"

record ip_info =
  ii_Name :: string
  ii_Type :: string
  ii_HwAddr :: string
  ii_Master :: string
  ii_Up :: bool
  ii_MTU :: int

definition master_name :: "ip_link list \<Rightarrow> ip_link \<Rightarrow> string" where
  "master_name ls l = (if il_MasterIndex l = 0 then []
     else foldl (\<lambda>m x. if il_MasterIndex l = il_Index x then il_Name x else m) [] ls)"

definition link_info :: "ip_link list \<Rightarrow> ip_link \<Rightarrow> ip_info" where
  "link_info ls l = \<lparr>ii_Name = il_Name l, ii_Type = il_Type l, ii_HwAddr = il_HardwareAddr l, ii_Master = master_name ls l,
     ii_Up = il_Up l, ii_MTU = il_MTU l\<rparr>"

definition linkList :: "('s, 'n, 'a) ip_env \<Rightarrow> ('s, ip_info list) act" where
  "linkList E = sbind (sask (ie_links E)) (\<lambda>ls. sret (map (link_info ls) ls))"

section \<open>Addresses\<close>

definition addrAdd :: "('s, 'n, 'a) ip_env \<Rightarrow> string \<Rightarrow> string \<Rightarrow> ('s, unit) act" where
  "addrAdd E name ip = sbind (link_of E name) (\<lambda>l. sbind (slift (lift_err (ie_parse_addr E ip))) (\<lambda>a.
     scall (ie_addr_add E (il_Name l) a)))"

definition addrDel :: "('s, 'n, 'a) ip_env \<Rightarrow> string \<Rightarrow> string \<Rightarrow> ('s, unit) act" where
  "addrDel E name ip = sbind (link_of E name) (\<lambda>l. sbind (slift (lift_err (ie_parse_addr E ip))) (\<lambda>a.
     scall (ie_addr_del E (il_Name l) a)))"

definition addrList :: "('s, 'n, 'a) ip_env \<Rightarrow> string \<Rightarrow> ('s, string list) act" where
  "addrList E name = sbind (link_of E name) (\<lambda>l. sbind (sask (ie_addrs E (il_Name l))) (\<lambda>as.
     sret (map (ie_print_net E) as)))"

section \<open>Routes\<close>

record ip_route =
  ir_Dev :: string
  ir_Dst :: string
  ir_Gw :: string

definition route_of :: "('s, 'n, 'a) ip_env \<Rightarrow> ip_route \<Rightarrow> ('s, ('n, 'a) nl_route) act" where
  "route_of E r = sbind (link_of E (ir_Dev r)) (\<lambda>l.
     sbind (if ir_Dst r = [] then sret None else sbind (slift (lift_err (ie_parse_net E (ir_Dst r)))) (\<lambda>n. sret (Some n))) (\<lambda>dst.
     sbind (if ir_Gw r = [] then sret None else case ie_parse_ip E (ir_Gw r) of
              None \<Rightarrow> slift (fail (''invalid gw ip '' @ in_quotes (ir_Gw r)))
            | Some a \<Rightarrow> sret (Some a)) (\<lambda>gw.
     sret \<lparr>rt_LinkIndex = il_Index l, rt_Dst = dst, rt_Gw = gw\<rparr>)))"

definition routeAdd :: "('s, 'n, 'a) ip_env \<Rightarrow> ip_route \<Rightarrow> ('s, unit) act" where
  "routeAdd E r = sbind (route_of E r) (\<lambda>x. scall (ie_route_add E x))"

definition routeDel :: "('s, 'n, 'a) ip_env \<Rightarrow> ip_route \<Rightarrow> ('s, unit) act" where
  "routeDel E r = sbind (route_of E r) (\<lambda>x.
     sbind (sask (ie_filtered E x (rt_Dst x \<noteq> None) (rt_Gw x \<noteq> None))) (\<lambda>rs.
     case rs of
       [] \<Rightarrow> slift (fail ''route not found'')
     | [y] \<Rightarrow> scall (ie_route_del E y)
     | _ \<Rightarrow> slift (fail ''ambiguous route matches multiple routes'')))"

definition route_info :: "('s, 'n, 'a) ip_env \<Rightarrow> ip_link list \<Rightarrow> ('n, 'a) nl_route \<Rightarrow> ip_route" where
  "route_info E ls r = \<lparr>
     ir_Dev = (case find (\<lambda>l. rt_LinkIndex r = il_Index l) ls of None \<Rightarrow> [] | Some l \<Rightarrow> il_Name l),
     ir_Dst = (case rt_Dst r of None \<Rightarrow> [] | Some n \<Rightarrow> ie_print_net E n),
     ir_Gw = (case rt_Gw r of None \<Rightarrow> [] | Some a \<Rightarrow> ie_print_ip E a)\<rparr>"

definition routeList :: "('s, 'n, 'a) ip_env \<Rightarrow> ('s, ip_route list) act" where
  "routeList E = sbind (sask (ie_routes E)) (\<lambda>rs. sbind (sask (ie_links E)) (\<lambda>ls. sret (map (route_info E ls) rs)))"

section \<open>Properties: bonds\<close>

lemma update_fresh: "k \<notin> fst ` set m \<Longrightarrow> AList.update k v m = m @ [(k, v)]"
  by (induction m) auto

definition bond_line_text :: "string \<times> string \<Rightarrow> string" where "bond_line_text = (\<lambda>(k, v). k @ CHR '':'' # v)"

definition bond_entry_ok :: "string \<times> string \<Rightarrow> bool" where
  "bond_entry_ok = (\<lambda>(k, v). CHR '':'' \<notin> set k \<and> trimmed (k @ CHR '':'' # v) \<and> CHR 0x0A \<notin> set (k @ v))"

definition bond_text :: "(string \<times> string) list list \<Rightarrow> string" where
  "bond_text ps = str_join [CHR 0x0A] (concat (map (\<lambda>p. map bond_line_text p @ [[]]) ps))"

lemma bond_lines:
  assumes "list_all bond_entry_ok p" and "distinct (map fst (m @ p))"
  shows "fold bond_line (map bond_line_text p) (m, l) = (m @ p, l)"
  using assms
proof (induction p arbitrary: m)
  case (Cons e p)
  obtain k v where e: "e = (k, v)" by (cases e)
  have "bond_line (bond_line_text e) (m, l) = (m @ [e], l)"
    using Cons.prems unfolding e
    by (auto simp: bond_line_def bond_line_text_def bond_entry_ok_def TrimSpace_trimmed split2_eq update_fresh)
  then show ?case using Cons.IH[of "m @ [e]"] Cons.prems by simp
qed simp

lemma bond_paragraphs:
  assumes "list_all (\<lambda>p. list_all bond_entry_ok p \<and> distinct (map fst p)) ps"
  shows "fold bond_line (concat (map (\<lambda>p. map bond_line_text p @ [[]]) ps)) ([], l) = ([], l @ ps)"
  using assms
proof (induction ps arbitrary: l)
  case (Cons p ps)
  have "fold bond_line (map bond_line_text p @ [[]]) ([], l) = ([], l @ [p])"
    using bond_lines[of p "[]" l] Cons.prems by (simp add: bond_line_def TrimSpace_def trim_left_def trim_right_def)
  then show ?case using Cons by simp
qed simp

text \<open>Bonds are read as they are written.\<close>

theorem parseBond_print:
  assumes "list_all (\<lambda>p. list_all bond_entry_ok p \<and> distinct (map fst p)) ps" and "ps \<noteq> []"
  shows "parseBond (bond_text ps) = ps"
proof -
  let ?ls = "concat (map (\<lambda>p. map bond_line_text p @ [[]]) ps)"
  have "\<forall>t\<in>set ?ls. CHR 0x0A \<notin> set t"
    using assms(1) by (auto simp: list_all_iff bond_line_text_def bond_entry_ok_def)
  moreover have "?ls \<noteq> []" using assms(2) by (cases ps) auto
  ultimately have "split_on CHR 0x0A (bond_text ps) = ?ls"
    unfolding bond_text_def by (intro split_on_str_join) auto
  then show ?thesis using bond_paragraphs[OF assms(1), of "[]"] by (simp add: parseBond_def)
qed

text \<open>The action that deletes a bond asks only for a link: any link goes.\<close>

theorem bondDel_any_link:
  "ie_by_name E name s = Inr l \<Longrightarrow> bondDel E name s = scall (ie_link_del E (il_Name l)) s"
  by (simp add: bondDel_def link_of_def sask_def sbind_def)

text \<open>A bond that cannot be given its links stays.\<close>

definition bond_laws :: "('s, 'n, 'a) ip_env \<Rightarrow> ('s \<Rightarrow> string set) \<Rightarrow> bool" where
  "bond_laws E names \<longleftrightarrow>
     (\<forall>n m s s'. ie_add_bond E n m s = (Inr (), s') \<longrightarrow> n \<in> names s') \<and>
     (\<forall>n b s. names (snd (ie_set_up E n b s)) = names s) \<and>
     (\<forall>c s. names (snd (ie_system E c s)) = names s)"

theorem failed_bond_stays:
  assumes laws: "bond_laws E names" and bond: "ie_add_bond E bond (bond_mtu mtu) s = (Inr (), s1)"
    and up: "ie_set_up E bond True s1 = (Inr (), s2)" and slaves: "ie_system E [''ifenslave'', bond] s2 = (Inl e, s3)"
  shows "bondAdd E bond [] mtu (True, s) = (Inl (Fault e), (True, s3)) \<and> bond \<in> names s3"
proof -
  have "names s3 = names s2" "names s2 = names s1" "bond \<in> names s1"
    using laws bond up slaves unfolding bond_laws_def by (metis snd_conv)+
  then show ?thesis using bond up slaves
    by (simp add: bondAdd_def initBonding_def on_world_def scall_def act_defs)
qed

section \<open>Properties: bridges and links\<close>

text \<open>A card is taken from a bridge exactly when the bridge is one and the card is in it.\<close>

theorem brDelInf_exact:
  "brDelInf E name dev s = (case ie_by_name E name s of
     Inl e \<Rightarrow> (Inl (Fault e), s)
   | Inr l \<Rightarrow> if il_Type l \<noteq> ''bridge'' then (fail (''no bridge with name '' @ in_quotes name), s)
     else (case ie_by_name E dev s of
       Inl e \<Rightarrow> (Inl (Fault e), s)
     | Inr i \<Rightarrow> if il_MasterIndex i = il_Index l then scall (ie_set_master E (il_Name i) None) s
         else (fail ''interface is not connected to bridge'', s)))"
  by (simp add: brDelInf_def bridge_of_def link_of_def sask_def act_defs fail_def split: sum.splits)

lemma master_name_found:
  assumes "distinct (map il_Index ls)" and "x \<in> set ls" and "il_MasterIndex l = il_Index x" and "il_Index x \<noteq> 0"
  shows "master_name ls l = il_Name x"
proof -
  have keep: "foldl (\<lambda>m x. if il_MasterIndex l = il_Index x then il_Name x else m) a ys = a"
    if "\<forall>y\<in>set ys. il_Index y \<noteq> il_MasterIndex l" for a ys using that by (induction ys) auto
  obtain as bs where ls: "ls = as @ x # bs" using assms(2) by (meson split_list)
  have "\<forall>y\<in>set bs. il_Index y \<noteq> il_MasterIndex l" using assms(1,3) by (auto simp: ls) (metis image_eqI)
  then show ?thesis using assms(3,4) keep by (simp add: master_name_def ls)
qed

text \<open>The clean-up of a bridge that does not get its hardware address.\<close>

definition bridge_laws :: "('s, 'n, 'a) ip_env \<Rightarrow> ('s \<Rightarrow> string set) \<Rightarrow> bool" where
  "bridge_laws E names \<longleftrightarrow>
     (\<forall>n s. case ie_add_bridge E n s of (Inl e, s') \<Rightarrow> names s' = names s | (Inr _, s') \<Rightarrow> names s' = insert n (names s) \<and> n \<notin> names s) \<and>
     (\<forall>n h s. names (snd (ie_set_hw E n h s)) = names s) \<and>
     (\<forall>n s. names (snd (ie_link_del E n s)) = names s - {n})"

theorem ip_brAdd_all_or_nothing:
  assumes "bridge_laws E names"
  shows "case ip_brAdd E name hw s of (r, s') \<Rightarrow> names s' = (if r = Inr () then insert name (names s) else names s)"
proof -
  have a: "case ie_add_bridge E name s of (Inl e, s') \<Rightarrow> names s' = names s
      | (Inr _, s') \<Rightarrow> names s' = insert name (names s) \<and> name \<notin> names s"
    using assms unfolding bridge_laws_def by (elim conjE allE)
  have h: "names (snd (ie_set_hw E name h t)) = names t" and d: "names (snd (ie_link_del E name t)) = names t - {name}" for h t
    using assms by (simp_all add: bridge_laws_def)
  obtain r1 s1 where add: "ie_add_bridge E name s = (r1, s1)" by (cases "ie_add_bridge E name s")
  show ?thesis
  proof (cases "hw = []")
    case True
    then show ?thesis using a by (cases r1) (simp_all add: ip_brAdd_def on_fault_def act_defs scall_def add)
  next
    case False
    show ?thesis
    proof (cases "ie_mac E hw")
      case (Inr m)
      obtain r2 s2 where set: "ie_set_hw E name m s1 = (r2, s2)" by (cases "ie_set_hw E name m s1")
      obtain r3 s3 where del: "ie_link_del E name s2 = (r3, s3)" by (cases "ie_link_del E name s2")
      have n: "names s2 = names s1" "names s3 = names s2 - {name}" using h[of m s1] d[of s2] set del by simp_all
      note run = ip_brAdd_def on_fault_def act_defs scall_def add set del Inr False
      show ?thesis
      proof (cases r1)
        case (Inr u)
        then show ?thesis using a n by (cases r2) (simp_all add: run)
      qed (use a in \<open>simp add: run\<close>)
    qed (use False in \<open>simp add: ip_brAdd_def act_defs\<close>)
  qed
qed

section \<open>Properties: routes\<close>

definition same_route :: "('n, 'a) nl_route \<Rightarrow> bool \<Rightarrow> bool \<Rightarrow> ('n, 'a) nl_route \<Rightarrow> bool" where
  "same_route x d g r \<longleftrightarrow> rt_LinkIndex r = rt_LinkIndex x \<and> (d \<longrightarrow> rt_Dst r = rt_Dst x) \<and> (g \<longrightarrow> rt_Gw r = rt_Gw x)"

definition matched :: "('n, 'a) nl_route \<Rightarrow> ('n, 'a) nl_route list \<Rightarrow> ('n, 'a) nl_route list" where
  "matched x rs = filter (same_route x (rt_Dst x \<noteq> None) (rt_Gw x \<noteq> None)) rs"

text \<open>What is relied on: the table of routes as netlink lists and changes it.\<close>

definition route_laws :: "('s, 'n, 'a) ip_env \<Rightarrow> ('s \<Rightarrow> ('n, 'a) nl_route list) \<Rightarrow> bool" where
  "route_laws E tbl \<longleftrightarrow>
     (\<forall>x d g s. ie_filtered E x d g s = Inr (filter (same_route x d g) (tbl s))) \<and>
     (\<forall>x s. case ie_route_add E x s of (Inl _, s') \<Rightarrow> tbl s' = tbl s | (Inr _, s') \<Rightarrow> tbl s' = tbl s @ [x]) \<and>
     (\<forall>x s. case ie_route_del E x s of (Inl _, s') \<Rightarrow> tbl s' = tbl s | (Inr _, s') \<Rightarrow> tbl s' = remove1 x (tbl s))"

lemma route_laws_del:
  "route_laws E tbl \<Longrightarrow> ie_route_del E y s = (Inl e, s') \<Longrightarrow> tbl s' = tbl s"
  "route_laws E tbl \<Longrightarrow> ie_route_del E y s = (Inr u, s') \<Longrightarrow> tbl s' = remove1 y (tbl s)"
proof -
  assume "route_laws E tbl"
  then have "case ie_route_del E y s of (Inl _, s') \<Rightarrow> tbl s' = tbl s | (Inr _, s') \<Rightarrow> tbl s' = remove1 y (tbl s)"
    unfolding route_laws_def by (elim conjE allE)
  then show "ie_route_del E y s = (Inl e, s') \<Longrightarrow> tbl s' = tbl s" "ie_route_del E y s = (Inr u, s') \<Longrightarrow> tbl s' = remove1 y (tbl s)"
    by simp_all
qed

lemma route_of_pure: "\<exists>q. route_of E r s = (q, s)"
  by (auto simp: route_of_def link_of_def sask_def act_defs split: sum.splits option.splits)

text \<open>A route is deleted exactly when what is asked for fits one route of the table, and then that one; otherwise the table
  stays as it is.\<close>

theorem routeDel_exact:
  assumes laws: "route_laws E tbl"
  shows "case routeDel E r s of
      (Inr _, s') \<Rightarrow> (\<exists>x y. route_of E r s = (Inr x, s) \<and> matched x (tbl s) = [y] \<and> tbl s' = remove1 y (tbl s))
    | (Inl _, s') \<Rightarrow> tbl s' = tbl s"
proof -
  obtain q where q: "route_of E r s = (q, s)" using route_of_pure[of E r s] by (rule exE)
  have f: "ie_filtered E x (rt_Dst x \<noteq> None) (rt_Gw x \<noteq> None) s = Inr (matched x (tbl s))" for x
    using laws by (simp add: route_laws_def matched_def)
  show ?thesis
  proof (cases q)
    case (Inl e)
    then show ?thesis by (simp add: routeDel_def sbind_def q)
  next
    case (Inr x)
    have run: "routeDel E r s = (case matched x (tbl s) of [] \<Rightarrow> (fail ''route not found'', s)
        | [y] \<Rightarrow> scall (ie_route_del E y) s | _ \<Rightarrow> (fail ''ambiguous route matches multiple routes'', s))"
      by (simp add: routeDel_def sbind_def q Inr sask_def f slift_def del: not_None_eq split: list.split)
    show ?thesis
    proof (cases "\<exists>y. matched x (tbl s) = [y]")
      case True
      then obtain y where m: "matched x (tbl s) = [y]" by blast
      obtain r' s' where d: "ie_route_del E y s = (r', s')" by (cases "ie_route_del E y s")
      then have t: "case r' of Inl _ \<Rightarrow> tbl s' = tbl s | Inr _ \<Rightarrow> tbl s' = remove1 y (tbl s)"
        using route_laws_del[OF laws, of y s] by (simp split: sum.split)
      show ?thesis using t by (cases r') (simp_all add: run m scall_def d q Inr)
    qed (simp add: run fail_def split: list.split)
  qed
qed

text \<open>A route that was added is deleted by the same description, when no route fitted it before.\<close>

theorem routeDel_undoes_routeAdd:
  assumes laws: "route_laws E tbl" and x: "route_of E r s = (Inr x, s)" "route_of E r s1 = (Inr x, s1)"
    and new: "matched x (tbl s) = []" and add: "routeAdd E r s = (Inr (), s1)" and del: "routeDel E r s1 = (Inr (), s2)"
  shows "tbl s2 = tbl s"
proof -
  have "ie_route_add E x s = (Inr (), s1)"
    using add by (auto simp: routeAdd_def sbind_def x scall_def lift_err_def split: prod.splits sum.splits)
  moreover have "case ie_route_add E x s of (Inl _, s') \<Rightarrow> tbl s' = tbl s | (Inr _, s') \<Rightarrow> tbl s' = tbl s @ [x]"
    using laws by (simp only: route_laws_def)
  ultimately have t: "tbl s1 = tbl s @ [x]" by simp
  have m: "matched x (tbl s1) = [x]" using new by (simp add: t matched_def same_route_def)
  have "x \<notin> set (tbl s)" using new by (auto simp: matched_def same_route_def filter_empty_conv)
  moreover have "tbl s2 = remove1 x (tbl s1)" using routeDel_exact[OF laws, where r = r and s = s1] del x(2) m by auto
  ultimately show ?thesis by (simp add: t remove1_append)
qed

text \<open>The default route is listed without a network; by what the list shows it cannot be deleted when its link has another
  route through the same gateway.\<close>

theorem default_route_ambiguous:
  assumes laws: "route_laws E tbl" and l: "ie_by_name E (il_Name l) s = Inr l" "find (\<lambda>x. il_Index l = il_Index x) ls = Some l"
    and t: "tbl s = [d, r]" and d: "d = \<lparr>rt_LinkIndex = il_Index l, rt_Dst = None, rt_Gw = None\<rparr>" and r: "rt_LinkIndex r = il_Index l"
  shows "fst (routeDel E (route_info E ls d) s) = fail ''ambiguous route matches multiple routes''"
proof -
  have "route_of E (route_info E ls d) s = (Inr d, s)"
    by (simp add: route_of_def route_info_def d l link_of_def sask_def act_defs)
  moreover have "ie_filtered E d (rt_Dst d \<noteq> None) (rt_Gw d \<noteq> None) s = Inr [d, r]"
    using laws r by (simp add: route_laws_def t d same_route_def)
  ultimately show ?thesis by (simp add: routeDel_def sbind_def sask_def slift_def del: not_None_eq)
qed

section \<open>Witnesses\<close>

text \<open>A host with one link and a table of routes.\<close>

definition demo_eth0 :: ip_link where
  "demo_eth0 = \<lparr>il_Name = ''eth0'', il_Type = ''device'', il_Index = 2, il_MasterIndex = 0, il_HardwareAddr = [], il_Up = True,
     il_MTU = 1500\<rparr>"

definition demo_routing :: "((nat, nat) nl_route list, nat, nat) ip_env" where
  "demo_routing = \<lparr>ie_links = (\<lambda>s. Inr [demo_eth0]),
     ie_by_name = (\<lambda>n s. if n = ''eth0'' then Inr demo_eth0 else Inl (PlainErr ''Link not found'')),
     ie_add_bond = (\<lambda>n m s. (Inr (), s)), ie_add_bridge = (\<lambda>n s. (Inr (), s)), ie_link_del = (\<lambda>n s. (Inr (), s)),
     ie_set_up = (\<lambda>n b s. (Inr (), s)), ie_set_mtu = (\<lambda>n m s. (Inr (), s)), ie_set_name = (\<lambda>n m s. (Inr (), s)),
     ie_set_hw = (\<lambda>n m s. (Inr (), s)), ie_set_master = (\<lambda>n m s. (Inr (), s)), ie_addrs = (\<lambda>n s. Inr []),
     ie_addr_add = (\<lambda>n a s. (Inr (), s)), ie_addr_del = (\<lambda>n a s. (Inr (), s)), ie_routes = Inr,
     ie_filtered = (\<lambda>x d g s. Inr (filter (same_route x d g) s)),
     ie_route_add = (\<lambda>x s. (Inr (), s @ [x])),
     ie_route_del = (\<lambda>x s. if x \<in> set s then (Inr (), remove1 x s) else (Inl (PlainErr ''no such process''), s)),
     ie_mac = Inr, ie_parse_addr = (\<lambda>t. Inr (length t)), ie_parse_net = (\<lambda>t. Inr (length t)), ie_parse_ip = (\<lambda>t. Some (length t)),
     ie_print_net = (\<lambda>n. replicate n CHR ''1''), ie_print_ip = (\<lambda>n. replicate n CHR ''1''), ie_system = (\<lambda>c s. (Inr (), s)),
     ie_has_bonding = (\<lambda>s. True), ie_read_dir = (\<lambda>p s. Inr []), ie_read_file = (\<lambda>p s. Inr [])\<rparr>"

lemma demo_route_laws: "route_laws demo_routing id"
  by (auto simp: route_laws_def demo_routing_def remove1_idem)

definition demo_default :: "(nat, nat) nl_route" where "demo_default = \<lparr>rt_LinkIndex = 2, rt_Dst = None, rt_Gw = None\<rparr>"
definition demo_local :: "(nat, nat) nl_route" where "demo_local = \<lparr>rt_LinkIndex = 2, rt_Dst = Some 3, rt_Gw = None\<rparr>"

definition demo_wanted :: ip_route where "demo_wanted = \<lparr>ir_Dev = ''eth0'', ir_Dst = ''111'', ir_Gw = []\<rparr>"

lemma demo_route_of: "route_of demo_routing demo_wanted s = (Inr demo_local, s)"
  by (simp add: route_of_def link_of_def sask_def act_defs demo_routing_def demo_wanted_def demo_eth0_def demo_local_def)

lemma routeDel_exact_witness:
  "case routeDel demo_routing demo_wanted [demo_default, demo_local] of
      (Inr _, s') \<Rightarrow> (\<exists>x y. route_of demo_routing demo_wanted [demo_default, demo_local] = (Inr x, [demo_default, demo_local]) \<and>
         matched x (id [demo_default, demo_local]) = [y] \<and> id s' = remove1 y (id [demo_default, demo_local]))
    | (Inl _, s') \<Rightarrow> id s' = id [demo_default, demo_local]"
  by (rule routeDel_exact[OF demo_route_laws])

lemma routeDel_undoes_routeAdd_witness:
  "id (snd (routeDel demo_routing demo_wanted (snd (routeAdd demo_routing demo_wanted [demo_default])))) = id [demo_default]"
proof -
  have m: "matched demo_local (id [demo_default]) = []" by (simp add: matched_def same_route_def demo_default_def demo_local_def)
  have a: "routeAdd demo_routing demo_wanted [demo_default] = (Inr (), [demo_default, demo_local])"
    by (simp add: routeAdd_def sbind_def demo_route_of scall_def) (simp add: demo_routing_def)
  have d: "routeDel demo_routing demo_wanted [demo_default, demo_local] = (Inr (), [demo_default])"
    by (simp add: routeDel_def sbind_def demo_route_of scall_def sask_def)
       (simp add: demo_routing_def same_route_def demo_default_def demo_local_def scall_def)
  show ?thesis using routeDel_undoes_routeAdd[OF demo_route_laws demo_route_of demo_route_of m a d] a d by simp
qed

lemma default_route_ambiguous_witness:
  "fst (routeDel demo_routing (route_info demo_routing [demo_eth0] demo_default) [demo_default, demo_local]) =
     fail ''ambiguous route matches multiple routes''"
  by (rule default_route_ambiguous[OF demo_route_laws, where l = demo_eth0 and r = demo_local])
     (simp_all add: demo_routing_def demo_eth0_def demo_default_def demo_local_def)

lemma parseBond_print_witness:
  "parseBond (bond_text [[(''Bonding Mode'', '' balance-rr''), (''MII Status'', '' up'')], [(''Slave Interface'', '' eth1'')]]) =
     [[(''Bonding Mode'', '' balance-rr''), (''MII Status'', '' up'')], [(''Slave Interface'', '' eth1'')]]"
  by (rule parseBond_print) (simp_all add: bond_entry_ok_def trimmed_def is_space_def)

end
