(* ===== verification/Boot.thy ===== *)
theory Boot
  imports Ip Settings_Startup Mgr_Manager
begin

text \<open>
  The boot sequence (\<^verbatim>\<open>src/apps/core0/bootstrap/bootstrap.go\<close>) and the set-up of the network of the host
  (\<^verbatim>\<open>bootstrap/network\<close>): which cards are configured and how, the wait for the internet, and the order of extensions,
  services and network.  netlink is that of \<open>Ip\<close>; the process manager, name lookup and the clock are further arguments.
\<close>

section \<open>Surroundings\<close>

record net_settings =
  ns_Auto :: bool
  ns_Interface :: "(string \<times> string) list"
  ns_Static :: "(string \<times> string \<times> string) list"
  ns_Tap :: "(string \<times> bool) list"

text \<open>\<open>bo_run\<close> starts a process under an id, \<open>bo_route\<close> adds a route with a source and a gateway to a link, \<open>bo_now\<close> is the
  clock in nanoseconds.  Whatever takes time (\<open>bo_sleep\<close>, \<open>bo_lookup\<close>, \<open>bo_dial\<close>) gives a new world, in which everything that
  goes on at the same time has gone on.\<close>

record ('s, 'n, 'a) boot_env = "('s, 'n, 'a) ip_env" +
  bo_load :: "string \<Rightarrow> 's \<Rightarrow> (go_error, net_settings) result"
  bo_add_tap :: "string \<Rightarrow> 's \<Rightarrow> (go_error, unit) result \<times> 's"
  bo_route :: "int \<Rightarrow> 'n \<Rightarrow> 'a \<Rightarrow> 's \<Rightarrow> (go_error, unit) result \<times> 's"
  bo_run :: "string \<Rightarrow> string list \<Rightarrow> 's \<Rightarrow> (go_error, unit) result \<times> 's"
  bo_hostname :: "'s \<Rightarrow> string"
  bo_lookup :: "string \<Rightarrow> 's \<Rightarrow> (go_error, string list) result \<times> 's"
  bo_dial :: "string \<Rightarrow> 's \<Rightarrow> bool \<times> 's"
  bo_now :: "'s \<Rightarrow> int"
  bo_sleep :: "int \<Rightarrow> 's \<Rightarrow> 's"
  bo_slice :: "startup list \<Rightarrow> 's \<Rightarrow> 's"

definition blink :: "('s, 'n, 'a) boot_env \<Rightarrow> string \<Rightarrow> ('s, ip_link) act" where
  "blink E name = sask (ie_by_name E name)"

section \<open>Ports\<close>

text \<open>A link of the type \<^verbatim>\<open>tuntap\<close> is what the type assertion asks for.\<close>

definition PortCreate :: "('s, 'n, 'a) boot_env \<Rightarrow> string \<Rightarrow> ('s, unit) act" where
  "PortCreate E n = sbind (sask (ie_links E)) (\<lambda>ls.
     case find (\<lambda>l. il_Name l = n) ls of
       Some l \<Rightarrow> if il_Type l = ''tuntap'' then sret () else slift (fail ''conflicting device name'')
     | None \<Rightarrow> scall (bo_add_tap E n))"

definition DeviceUp :: "('s, 'n, 'a) boot_env \<Rightarrow> string \<Rightarrow> ('s, unit) act" where
  "DeviceUp E n = sbind (blink E n) (\<lambda>l. scall (ie_set_up E (il_Name l) True))"

definition init_tap :: "('s, 'n, 'a) boot_env \<Rightarrow> string \<times> bool \<Rightarrow> ('s, unit) act" where
  "init_tap E = (\<lambda>(port, up). sbind (signore (PortCreate E port)) (\<lambda>_.
     if up then signore (DeviceUp E port) else sret ()))"

definition Initialize :: "('s, 'n, 'a) boot_env \<Rightarrow> net_settings \<Rightarrow> ('s, unit) act" where
  "Initialize E cfg = sfor (init_tap E) (ns_Tap cfg)"

section \<open>Protocols\<close>

definition ProtocolDHCP :: string where "ProtocolDHCP = ''dhcp''"
definition ProtocolStatic :: string where "ProtocolStatic = ''static''"
definition NoneProtocol :: string where "NoneProtocol = ''none''"

definition udhcpc_args :: "string \<Rightarrow> string \<Rightarrow> string list" where
  "udhcpc_args dev hostname = [''udhcpc'', ''-f'', ''-i'', dev, ''-t'', ''10'', ''-A'', ''3'', ''-s'', ''/usr/share/udhcp/simple.script'',
     ''--now'', ''-x'', ''hostname:'' @ hostname]"

definition dhcp_Configure :: "('s, 'n, 'a) boot_env \<Rightarrow> string \<Rightarrow> ('s, unit) act" where
  "dhcp_Configure E dev = sbind (sget (\<lambda>s. Inr (bo_hostname E s))) (\<lambda>h.
     scall (bo_run E (''udhcpc/'' @ dev) (udhcpc_args dev h)))"

text \<open>The address may be missing; it is first used when it is compared or added.\<close>

definition ConfigureStatic :: "('s, 'n, 'a) boot_env \<Rightarrow> 'n option \<Rightarrow> string \<Rightarrow> ('s, unit) act" where
  "ConfigureStatic E ip dev = sbind (blink E dev) (\<lambda>l. sbind (sask (ie_addrs E (il_Name l))) (\<lambda>as.
     case ip of
       None \<Rightarrow> slift (Inl (Panic ''nil pointer dereference''))
     | Some n \<Rightarrow>
         sbind (if ie_print_net E n \<in> set (map (ie_print_net E) as) then sret () else scall (ie_addr_add E (il_Name l) n)) (\<lambda>_.
         scall (ie_set_up E (il_Name l) True))))"

text \<open>The error of reading the address is overwritten.\<close>

definition static_Configure :: "('s, 'n, 'a) boot_env \<Rightarrow> net_settings \<Rightarrow> string \<Rightarrow> ('s, unit) act" where
  "static_Configure E cfg dev = sbind (blink E dev) (\<lambda>l.
     case map_of (ns_Static cfg) dev of
       None \<Rightarrow> slift (fail (''missing static configuration for interface '' @ in_quotes dev))
     | Some (addr, gateway) \<Rightarrow>
         let ip = (case ie_parse_net E addr of Inl _ \<Rightarrow> None | Inr n \<Rightarrow> Some n) in
         sbind (ConfigureStatic E ip dev) (\<lambda>_.
           if gateway = [] then sret ()
           else case ie_parse_ip E gateway of
             None \<Rightarrow> slift (fail (''invalid ip for gateway '' @ in_quotes ''<nil>''))
           | Some gw \<Rightarrow> scall (bo_route E (il_Index l) (the ip) gw)))"

text \<open>A card is a name with the protocol that configures it.\<close>

definition inf_Configure :: "('s, 'n, 'a) boot_env \<Rightarrow> net_settings \<Rightarrow> string \<times> string \<Rightarrow> ('s, unit) act" where
  "inf_Configure E cfg = (\<lambda>(name, proto).
     if proto = ProtocolDHCP then dhcp_Configure E name
     else if proto = ProtocolStatic then static_Configure E cfg name
     else if proto = NoneProtocol then DeviceUp E name
     else slift (fail (''unkonwn networking protocol '' @ in_quotes proto)))"

definition inf_SetUP :: "('s, 'n, 'a) boot_env \<Rightarrow> string \<Rightarrow> bool \<Rightarrow> ('s, unit) act" where
  "inf_SetUP E name up = sbind (blink E name) (\<lambda>l. scall (ie_set_up E (il_Name l) up))"

definition inf_Clear :: "('s, 'n, 'a) boot_env \<Rightarrow> string \<Rightarrow> ('s, unit) act" where
  "inf_Clear E name = sbind (blink E name) (\<lambda>l. sbind (sask (ie_addrs E (il_Name l))) (\<lambda>as.
     sfor (\<lambda>a. signore (scall (ie_addr_del E (il_Name l) a))) as))"

section \<open>Which cards\<close>

definition auto_card :: "net_settings \<Rightarrow> ip_link \<Rightarrow> bool" where
  "auto_card cfg l \<longleftrightarrow> \<not> (il_Name l = ''lo'' \<or> il_Type l \<noteq> ''device'') \<and> map_of (ns_Interface cfg) (il_Name l) = None"

definition getAutoInterfaces :: "('s, 'n, 'a) boot_env \<Rightarrow> net_settings \<Rightarrow> ('s, (string \<times> string) list) act" where
  "getAutoInterfaces E cfg = (if \<not> ns_Auto cfg then sret [] else
     sbind (sask (ie_links E)) (\<lambda>ls. sret (map (\<lambda>l. (il_Name l, ProtocolDHCP)) (filter (auto_card cfg) ls))))"

definition Interfaces :: "('s, 'n, 'a) boot_env \<Rightarrow> net_settings \<Rightarrow> ('s, (string \<times> string) list) act" where
  "Interfaces E cfg = sbind (getAutoInterfaces E cfg) (\<lambda>l. sret (l @ ns_Interface cfg))"

section \<open>The state of the boot sequence\<close>

text \<open>The cache of name lookups with the end of each entry, the goroutines that were started, the slices that were run.\<close>

record 's booting =
  bs_rs :: "(string \<times> string \<times> int) list"
  bs_go :: "(string \<times> string) list"
  bs_slices :: "startup list list"
  bs_sys :: 's

definition boot_sys :: "('s, 'b) act \<Rightarrow> ('s booting, 'b) act" where
  "boot_sys m = (\<lambda>s. case m (bs_sys s) of (r, w) \<Rightarrow> (r, s\<lparr>bs_sys := w\<rparr>))"

definition InternetTestAddress :: string where "InternetTestAddress = ''google.com''"
definition InternetTestPort :: string where "InternetTestPort = ''80''"

definition rs_expiry :: int where "rs_expiry = 20 * 60 * 1000000000"

definition rs_Get :: "int \<Rightarrow> string \<Rightarrow> (string \<times> string \<times> int) list \<Rightarrow> string option" where
  "rs_Get now k c = (case map_of c k of None \<Rightarrow> None | Some (a, e) \<Rightarrow> if 0 < e \<and> e < now then None else Some a)"

definition boot_resolve :: "('s, 'n, 'a) boot_env \<Rightarrow> string \<Rightarrow> ('s booting, string) act" where
  "boot_resolve E host = (\<lambda>s. case rs_Get (bo_now E (bs_sys s)) host (bs_rs s) of
     Some a \<Rightarrow> (Inr a, s)
   | None \<Rightarrow> sbind (boot_sys (scall (bo_lookup E host))) (\<lambda>as s. case as of
       [] \<Rightarrow> (Inl (Panic ''index out of range''), s)
     | a # _ \<Rightarrow> (Inr a, s\<lparr>bs_rs := AList.update host (a, bo_now E (bs_sys s) + rs_expiry) (bs_rs s)\<rparr>)) s)"

definition canReachInternet :: "('s, 'n, 'a) boot_env \<Rightarrow> ('s booting, bool) act" where
  "canReachInternet E = (\<lambda>s. case boot_resolve E InternetTestAddress s of
     (Inl (Panic p), s) \<Rightarrow> (Inl (Panic p), s)
   | (Inl (Fault e), s) \<Rightarrow> (Inr False, s)
   | (Inr a, s) \<Rightarrow> boot_sys (\<lambda>w. case bo_dial E (a @ '':'' @ InternetTestPort) w of (b, w) \<Rightarrow> (Inr b, w)) s)"

text \<open>The wait for the internet, two minutes at most with three seconds between the trials; None when the trials do not
  end.\<close>

fun wait_internet :: "nat \<Rightarrow> ('s, 'n, 'a) boot_env \<Rightarrow> int \<Rightarrow> 's booting \<Rightarrow> ((fault, bool) result \<times> 's booting) option" where
  "wait_internet 0 E t0 s = None"
| "wait_internet (Suc n) E t0 s =
     (if \<not> bo_now E (bs_sys s) - t0 < 2 * 60 * 1000000000 then Some (Inr False, s)
      else case canReachInternet E s of
        (Inr False, s) \<Rightarrow> wait_internet n E t0 (s\<lparr>bs_sys := bo_sleep E (3 * 1000000000) (bs_sys s)\<rparr>)
      | r \<Rightarrow> Some r)"

definition start_card :: "('s, 'n, 'a) boot_env \<Rightarrow> string list \<Rightarrow> string \<times> string \<Rightarrow> ('s booting, unit) act" where
  "start_card E ignored i =
     (if InString ignored (fst i) then sret ()
      else sbind (boot_sys (signore (inf_Clear E (fst i)))) (\<lambda>_.
           sbind (boot_sys (signore (inf_SetUP E (fst i) True))) (\<lambda>_.
           \<lambda>s. (Inr (), s\<lparr>bs_go := bs_go s @ [i]\<rparr>))))"

text \<open>The body of the goroutine.\<close>

definition card_goroutine :: "('s, 'n, 'a) boot_env \<Rightarrow> net_settings \<Rightarrow> string \<times> string \<Rightarrow> ('s, unit) act" where
  "card_goroutine E cfg i = signore (on_fault (inf_Configure E cfg i) (signore (inf_SetUP E (fst i) False)))"

text \<open>\<open>noauto\<close> are the values of the kernel argument \<^verbatim>\<open>noautonic\<close>.\<close>

definition start_cards :: "('s, 'n, 'a) boot_env \<Rightarrow> string \<Rightarrow> string list \<Rightarrow> ('s booting, unit) act" where
  "start_cards E file_name noauto =
     sbind (boot_sys (sask (bo_load E file_name))) (\<lambda>cfg.
     sbind (boot_sys (Initialize E cfg)) (\<lambda>_.
     sbind (werr (told ''failed to get network interfaces: '') (boot_sys (Interfaces E cfg))) (\<lambda>is.
     sfor (start_card E noauto) is)))"

definition setupNetworking ::
  "nat \<Rightarrow> ('s, 'n, 'a) boot_env \<Rightarrow> string \<Rightarrow> string list \<Rightarrow> 's booting \<Rightarrow> ((fault, unit) result \<times> 's booting) option" where
  "setupNetworking n E file_name noauto s =
     (if file_name = [] then Some (Inr (), s)
      else case start_cards E file_name noauto s of
        (Inl e, s) \<Rightarrow> Some (Inl e, s)
      | (Inr _, s) \<Rightarrow> map_option (\<lambda>(r, s). (map_sum id (\<lambda>_. ()) r, s)) (wait_internet n E (bo_now E (bs_sys s)) s))"

section \<open>Booting\<close>

text \<open>The extensions in the order of the map; a name that is taken is only logged.\<close>

definition register_one :: "string \<times> extension \<Rightarrow> (string \<Rightarrow> factory option) \<Rightarrow> string \<Rightarrow> factory option" where
  "register_one = (\<lambda>(k, e) fs. case RegisterExtension k (ex_Binary e) fs of Inl _ \<Rightarrow> fs | Inr fs' \<Rightarrow> fs')"

definition registerExtensions :: "(string \<times> extension) list \<Rightarrow> (string \<Rightarrow> factory option) \<Rightarrow> string \<Rightarrow> factory option" where
  "registerExtensions exts fs = fold register_one exts fs"

definition startupServices :: "('s, 'n, 'a) boot_env \<Rightarrow> tree \<Rightarrow> string \<Rightarrow> string \<Rightarrow> 's booting \<Rightarrow> 's booting" where
  "startupServices E t a b s = (let sl = tree_Slice t (After_Weight a) (After_Weight b)
     in s\<lparr>bs_slices := bs_slices s @ [sl], bs_sys := bo_slice E sl (bs_sys s)\<rparr>)"

text \<open>The set-up of the network is tried until it succeeds; \<open>k\<close> bounds the trials and \<open>n\<close> those of each wait.\<close>

fun retry_networking ::
  "nat \<Rightarrow> nat \<Rightarrow> ('s, 'n, 'a) boot_env \<Rightarrow> string \<Rightarrow> string list \<Rightarrow> 's booting \<Rightarrow> ((fault, unit) result \<times> 's booting) option" where
  "retry_networking 0 n E file_name noauto s = None"
| "retry_networking (Suc k) n E file_name noauto s =
     (case setupNetworking n E file_name noauto s of
        Some (Inl (Fault e), s) \<Rightarrow> retry_networking k n E file_name noauto (s\<lparr>bs_sys := bo_sleep E (2 * 1000000000) (bs_sys s)\<rparr>)
      | r \<Rightarrow> r)"

definition Second ::
  "nat \<Rightarrow> nat \<Rightarrow> ('s, 'n, 'a) boot_env \<Rightarrow> tree \<Rightarrow> bool \<Rightarrow> string \<Rightarrow> string list \<Rightarrow> 's booting \<Rightarrow> ((fault, unit) result \<times> 's booting) option" where
  "Second k n E t agent file_name noauto s =
     (let s = startupServices E t AfterInit AfterNet s in
      case (if agent then Some (Inr (), s) else retry_networking k n E file_name noauto s) of
        Some (Inr _, s) \<Rightarrow> Some (Inr (), startupServices E t AfterBoot ToTheEnd (startupServices E t AfterNet AfterBoot s))
      | r \<Rightarrow> r)"

section \<open>Properties: cards\<close>

lemma boot_sys_run: "m (bs_sys s) = (r, w) \<Longrightarrow> boot_sys m s = (r, s\<lparr>bs_sys := w\<rparr>)"
  by (simp add: boot_sys_def)










text \<open>A goroutine panics, and core0 with it, when the address of a static card cannot be read.\<close>

theorem bad_static_address_panics:
  assumes "ie_by_name E dev w = Inr l" and "ie_addrs E (il_Name l) w = Inr as" and "map_of (ns_Static cfg) dev = Some (addr, gw)"
    and "ie_parse_net E addr = Inl e"
  shows "fst (card_goroutine E cfg (dev, ProtocolStatic) w) = Inl (Panic ''nil pointer dereference'')"
  using assms
  by (simp add: card_goroutine_def signore_def on_fault_def inf_Configure_def ProtocolDHCP_def ProtocolStatic_def static_Configure_def
      ConfigureStatic_def blink_def sask_def act_defs)

text \<open>netlink gives no listed link the type that is asked for: an existing port is a conflict.\<close>

theorem existing_port_conflicts:
  assumes "ie_links E w = Inr ls" and "list_all (\<lambda>l. il_Type l \<noteq> ''tuntap'') ls" and "n \<in> il_Name ` set ls"
  shows "PortCreate E n w = (fail ''conflicting device name'', w)"
proof -
  obtain l where "find (\<lambda>l. il_Name l = n) ls = Some l" using assms(3) by (cases "find (\<lambda>l. il_Name l = n) ls") (auto simp: find_None_iff)
  moreover from this have "l \<in> set ls" by (auto simp: find_Some_iff)
  ultimately show ?thesis using assms(1,2) by (auto simp: PortCreate_def sask_def act_defs list_all_iff)
qed

section \<open>Properties: the wait and the order\<close>

definition clock_laws :: "('s, 'n, 'a) boot_env \<Rightarrow> bool" where
  "clock_laws E \<longleftrightarrow> (\<forall>d w. bo_now E w + d \<le> bo_now E (bo_sleep E d w)) \<and>
     (\<forall>h w. bo_now E w \<le> bo_now E (snd (bo_lookup E h w))) \<and> (\<forall>a w. bo_now E w \<le> bo_now E (snd (bo_dial E a w)))"

lemma resolve_later:
  assumes "clock_laws E" shows "bo_now E (bs_sys s) \<le> bo_now E (bs_sys (snd (boot_resolve E h s)))"
proof -
  have "bo_now E (bs_sys s) \<le> bo_now E (snd (bo_lookup E h (bs_sys s)))" using assms by (simp add: clock_laws_def)
  then show ?thesis
    by (auto simp: boot_resolve_def sbind_def boot_sys_def scall_def split: option.splits prod.splits sum.splits list.splits)
qed

lemma reach_later:
  assumes "clock_laws E" shows "bo_now E (bs_sys s) \<le> bo_now E (bs_sys (snd (canReachInternet E s)))"
proof -
  obtain r s1 where r: "boot_resolve E InternetTestAddress s = (r, s1)" by (cases "boot_resolve E InternetTestAddress s")
  have a: "bo_now E (bs_sys s) \<le> bo_now E (bs_sys s1)" using resolve_later[OF assms, of s InternetTestAddress] r by simp
  have "bo_now E (bs_sys s1) \<le> bo_now E (snd (bo_dial E x (bs_sys s1)))" for x using assms by (simp add: clock_laws_def)
  note le = order_trans[OF a this]
  show ?thesis
  proof (cases r)
    case (Inl e)
    then show ?thesis using a by (cases e) (simp_all add: canReachInternet_def r)
  next
    case (Inr x)
    then show ?thesis using le[of "x @ '':'' @ InternetTestPort"] by (auto simp: canReachInternet_def r boot_sys_def split: prod.splits)
  qed
qed

text \<open>The wait for the internet ends, whatever happens meanwhile: after 40 trials two minutes are over.\<close>

theorem wait_internet_returns:
  assumes laws: "clock_laws E" and fuel: "120000000000 \<le> bo_now E (bs_sys s) - t0 + 3000000000 * int n"
  shows "\<exists>r. wait_internet (Suc n) E t0 s = Some r"
  using fuel
proof (induction n arbitrary: s)
  case 0
  then show ?case by simp
next
  case (Suc n)
  obtain r s1 where r: "canReachInternet E s = (r, s1)" by (cases "canReachInternet E s")
  let ?s = "s1\<lparr>bs_sys := bo_sleep E 3000000000 (bs_sys s1)\<rparr>"
  have "bo_now E (bs_sys s) \<le> bo_now E (bs_sys s1)" using reach_later[OF laws, of s] r by simp
  moreover have "bo_now E (bs_sys s1) + 3000000000 \<le> bo_now E (bs_sys ?s)" using laws by (simp add: clock_laws_def)
  ultimately have "120000000000 \<le> bo_now E (bs_sys ?s) - t0 + 3000000000 * int n" using Suc.prems by simp
  from Suc.IH[OF this] obtain q where "wait_internet (Suc n) E t0 ?s = Some q" by blast
  then show ?case using r by (auto simp del: wait_internet.simps(2) simp: wait_internet.simps(2)[of "Suc n"] split: sum.splits bool.splits)
qed

corollary setupNetworking_returns:
  assumes "clock_laws E" shows "setupNetworking 41 E f ign s \<noteq> None"
proof (cases "start_cards E f ign s")
  case (Pair r s1)
  have "120000000000 \<le> bo_now E (bs_sys s1) - bo_now E (bs_sys s1) + 3000000000 * int 40" by simp
  from wait_internet_returns[OF assms this] show ?thesis
    by (cases r) (auto simp: setupNetworking_def Pair numeral_eq_Suc simp del: wait_internet.simps)
qed








text \<open>A network file that cannot be read stops the boot sequence before the network services, for ever.\<close>

theorem unreadable_network_file_stops_boot:
  assumes "\<And>w. isl (bo_load E f w)" and "f \<noteq> []"
  shows "Second k n E t False f ign s = None"
proof -
  have "retry_networking k n E f ign s = None" for s
  proof (induction k arbitrary: s)
    case (Suc k)
    obtain e where "bo_load E f (bs_sys s) = Inl e" using assms(1)[of "bs_sys s"] by (auto simp: isl_def)
    then have "setupNetworking n E f ign s = Some (Inl (Fault e), s)"
      using assms(2) by (simp add: setupNetworking_def start_cards_def sbind_def boot_sys_def sask_def)
    then show ?case using Suc by simp
  qed simp
  then show ?thesis by (simp add: Second_def Let_def)
qed

text \<open>The first extension of a name stays, and none takes the place of a command that was there.\<close>

lemma register_one_eq:
  "register_one (k, e) fs = (if fs k = None then fs(k \<mapsto> ExtensionFactory (ex_Binary e)) else fs)"
  by (simp add: register_one_def RegisterExtension_def)

theorem registerExtensions_first:
  "registerExtensions exts fs k = (case fs k of Some f \<Rightarrow> Some f
     | None \<Rightarrow> map_option (\<lambda>e. ExtensionFactory (ex_Binary e)) (map_of exts k))"
proof (induction exts arbitrary: fs)
  case (Cons x exts)
  then show ?case by (cases x) (auto simp: registerExtensions_def register_one_eq split: option.splits)
qed (simp add: registerExtensions_def split: option.split)

section \<open>Witnesses\<close>

text \<open>A host with a card, a loopback link and a tap device; the state is the clock.\<close>

definition demo_links :: "ip_link list" where
  "demo_links = map (\<lambda>(n, t, i). \<lparr>il_Name = n, il_Type = t, il_Index = i, il_MasterIndex = 0, il_HardwareAddr = [], il_Up = True,
     il_MTU = 1500\<rparr>) [(''lo'', ''device'', 1), (''eth0'', ''device'', 2), (''tap0'', ''tun'', 3)]"

definition demo_net :: net_settings where
  "demo_net = \<lparr>ns_Auto = True, ns_Interface = [(''eth1'', ''static'')], ns_Static = [(''eth0'', [], [])], ns_Tap = []\<rparr>"

definition demo_boot :: "bool \<Rightarrow> (int, nat, nat) boot_env" where
  "demo_boot file_ok = \<lparr>ie_links = (\<lambda>s. Inr demo_links),
     ie_by_name = (\<lambda>n s. case find (\<lambda>l. il_Name l = n) demo_links of None \<Rightarrow> Inl (PlainErr ''Link not found'') | Some l \<Rightarrow> Inr l),
     ie_add_bond = (\<lambda>n m s. (Inr (), s)), ie_add_bridge = (\<lambda>n s. (Inr (), s)), ie_link_del = (\<lambda>n s. (Inr (), s)),
     ie_set_up = (\<lambda>n b s. (Inr (), s)), ie_set_mtu = (\<lambda>n m s. (Inr (), s)), ie_set_name = (\<lambda>n m s. (Inr (), s)),
     ie_set_hw = (\<lambda>n m s. (Inr (), s)), ie_set_master = (\<lambda>n m s. (Inr (), s)), ie_addrs = (\<lambda>n s. Inr []),
     ie_addr_add = (\<lambda>n a s. (Inr (), s)), ie_addr_del = (\<lambda>n a s. (Inr (), s)), ie_routes = (\<lambda>s. Inr []),
     ie_filtered = (\<lambda>x d g s. Inr []), ie_route_add = (\<lambda>x s. (Inr (), s)), ie_route_del = (\<lambda>x s. (Inr (), s)),
     ie_mac = Inr, ie_parse_addr = (\<lambda>t. Inr (length t)),
     ie_parse_net = (\<lambda>t. if t = [] then Inl (PlainErr ''invalid CIDR address'') else Inr (length t)), ie_parse_ip = (\<lambda>t. Some (length t)),
     ie_print_net = (\<lambda>n. replicate n CHR ''1''), ie_print_ip = (\<lambda>n. replicate n CHR ''1''), ie_system = (\<lambda>c s. (Inr (), s)),
     ie_has_bonding = (\<lambda>s. True), ie_read_dir = (\<lambda>p s. Inr []), ie_read_file = (\<lambda>p s. Inr []),
     bo_load = (\<lambda>f s. if file_ok then Inr demo_net else Inl (PlainErr ''not a file of settings'')),
     bo_add_tap = (\<lambda>n s. (Inr (), s)), bo_route = (\<lambda>i n a s. (Inr (), s)), bo_run = (\<lambda>i c s. (Inr (), s)),
     bo_hostname = (\<lambda>s. ''node''), bo_lookup = (\<lambda>h s. (Inr [''10.0.0.1''], s + 1)), bo_dial = (\<lambda>a s. (False, s + 1)),
     bo_now = id, bo_sleep = (\<lambda>d s. s + d), bo_slice = (\<lambda>sl s. s)\<rparr>"

definition demo_booting :: "int booting" where "demo_booting = \<lparr>bs_rs = [], bs_go = [], bs_slices = [], bs_sys = 0\<rparr>"

lemma demo_clock: "clock_laws (demo_boot b)"
  by (simp add: clock_laws_def demo_boot_def)



lemma bad_static_address_panics_witness:
  "fst (card_goroutine (demo_boot True) demo_net (''eth0'', ProtocolStatic) 0) = Inl (Panic ''nil pointer dereference'')"
  by (rule bad_static_address_panics[where e = "PlainErr ''invalid CIDR address''"]) (simp_all add: demo_boot_def demo_links_def demo_net_def)

lemma existing_port_conflicts_witness: "PortCreate (demo_boot True) ''tap0'' 0 = (fail ''conflicting device name'', 0)"
  by (rule existing_port_conflicts[where ls = demo_links]) (simp_all add: demo_boot_def demo_links_def)

lemma wait_internet_returns_witness: "\<exists>r. wait_internet (Suc 40) (demo_boot True) 0 demo_booting = Some r"
  by (rule wait_internet_returns[OF demo_clock]) (simp add: demo_boot_def demo_booting_def)

lemma setupNetworking_returns_witness: "setupNetworking 41 (demo_boot True) ''net.toml'' [] demo_booting \<noteq> None"
  by (rule setupNetworking_returns[OF demo_clock])

lemma unreadable_network_file_stops_boot_witness:
  "Second 5 41 (demo_boot False) \<lparr>t_startups = [], t_weights = []\<rparr> False ''net.toml'' [] demo_booting = None"
  by (rule unreadable_network_file_stops_boot) (simp_all add: demo_boot_def)


end
