(* ===== verification/Redis_Proxy.thy ===== *)
theory Redis_Proxy
  imports Utils_Model
begin

text \<open>
  The authenticating proxy in front of redis (\<^verbatim>\<open>src/apps/redis-proxy\<close>): which organizations are asked for, the check of a
  token, the commands of a connection and the replies written to it.  The decoding of a token, its signature, the
  comparison of texts without case, and redis itself are the arguments of the operations.
\<close>

section \<open>Organizations\<close>

definition SupportOrganization :: string where "SupportOrganization = ''threefold.sysadmin''"

text \<open>The organizations of the command line, otherwise those of the kernel arguments; none in development mode.\<close>

definition proxy_organizations :: "kernel_options \<Rightarrow> string list \<Rightarrow> string list" where
  "proxy_organizations k cli =
     (if ko_Is k ''development'' then []
      else let orgs = (if cli = [] then (case ko_Get k ''organization'' of Some os \<Rightarrow> os | None \<Rightarrow> []) else cli)
        in if ko_Is k ''support'' then orgs @ [SupportOrganization] else orgs)"

section \<open>Tokens\<close>

text \<open>The claim \<^verbatim>\<open>scope\<close>: missing, not a list, or a list in which what is not a string is None.\<close>

datatype scope_claim = NoScope | ScopeOther | Scopes "string option list"

record claims =
  cl_exp :: "int option"
  cl_iat :: "int option"
  cl_nbf :: "int option"
  cl_azp :: "string option"
  cl_scope :: scope_claim

text \<open>A decoded token: the algorithm that its header names, that of the method found for it, whether this is one of the
  ECDSA methods, and whether the signature fits the key of the organization.\<close>

record token =
  tk_alg :: string
  tk_method_alg :: string
  tk_ecdsa :: bool
  tk_claims :: claims
  tk_signed :: bool

definition at_least :: "int \<Rightarrow> int option \<Rightarrow> bool" where
  "at_least now t = (case t of None \<Rightarrow> True | Some e \<Rightarrow> e = 0 \<or> now \<le> e)"

definition at_most :: "int \<Rightarrow> int option \<Rightarrow> bool" where
  "at_most now t = (case t of None \<Rightarrow> True | Some e \<Rightarrow> e = 0 \<or> e \<le> now)"

text \<open>\<^verbatim>\<open>MapClaims.Valid\<close>: a time that is missing or zero is not looked at.\<close>

definition claims_Valid :: "int \<Rightarrow> claims \<Rightarrow> bool" where
  "claims_Valid now c \<longleftrightarrow> at_least now (cl_exp c) \<and> at_most now (cl_iat c) \<and> at_most now (cl_nbf c)"

definition key_of_token :: "token \<Rightarrow> (string, unit) result" where
  "key_of_token t =
     (if \<not> tk_ecdsa t then Inl (''Unexpected signing method: '' @ tk_alg t)
      else if tk_alg t \<noteq> tk_method_alg t then Inl (''Unexpected signing algorithm: '' @ tk_alg t)
      else Inr ())"

text \<open>\<^verbatim>\<open>jwt.Parse\<close>: decoding, the key, the times and the signature.\<close>

definition jwt_Parse :: "(string \<Rightarrow> token option) \<Rightarrow> int \<Rightarrow> string \<Rightarrow> (string, token) result" where
  "jwt_Parse dec now text = (case dec text of
     None \<Rightarrow> Inl ''token contains an invalid number of segments''
   | Some t \<Rightarrow> rbind (key_of_token t) (\<lambda>_.
       if \<not> claims_Valid now (tk_claims t) then Inl ''Token is expired''
       else if \<not> tk_signed t then Inl ''signature is invalid''
       else Inr t))"

definition In_fold :: "(string \<Rightarrow> string \<Rightarrow> bool) \<Rightarrow> string \<Rightarrow> string list \<Rightarrow> bool" where
  "In_fold eqf s l \<longleftrightarrow> list_ex (\<lambda>t. eqf s t) l"

definition scope_of :: "string \<Rightarrow> string" where "scope_of org = ''user:memberof:'' @ org"

definition scopes_grant :: "(string \<Rightarrow> string \<Rightarrow> bool) \<Rightarrow> string list \<Rightarrow> scope_claim \<Rightarrow> bool" where
  "scopes_grant eqf orgs sc = (case sc of
     Scopes ss \<Rightarrow> list_ex (\<lambda>s. case s of Some t \<Rightarrow> In_fold eqf t (map scope_of orgs) | None \<Rightarrow> False) ss
   | _ \<Rightarrow> False)"

definition AuthMethod :: "(string \<Rightarrow> string \<Rightarrow> bool) \<Rightarrow> (string \<Rightarrow> token option) \<Rightarrow> string list \<Rightarrow> int \<Rightarrow> string \<Rightarrow> bool" where
  "AuthMethod eqf dec orgs now text = (case jwt_Parse dec now text of
     Inl _ \<Rightarrow> False
   | Inr t \<Rightarrow> let c = tk_claims t in
       if \<not> claims_Valid now c then False
       else (case cl_azp c of Some azp \<Rightarrow> In_fold eqf azp orgs | None \<Rightarrow> False) \<or> scopes_grant eqf orgs (cl_scope c))"

section \<open>Commands and replies\<close>

text \<open>A result as the redis client gives it, and what is written to a connection.\<close>

datatype rvalue = VNil | VErr string | VInt int | VStr string | VBytes string | VList "rvalue list"

datatype rwrite = WErr string | WStr string | WInt int | WBulk string | WNull | WArray nat

definition write_value :: "(rvalue \<Rightarrow> string) \<Rightarrow> rvalue \<Rightarrow> rwrite" where
  "write_value show_type v = (case v of
     VErr e \<Rightarrow> WErr e | VInt n \<Rightarrow> WInt n | VStr s \<Rightarrow> WStr s | VBytes b \<Rightarrow> WBulk b
   | _ \<Rightarrow> WErr (''unhandled return type: '' @ show_type v))"

text \<open>A failed call is an error, no result is null, a list is its length with its elements.\<close>

definition write_result :: "(rvalue \<Rightarrow> string) \<Rightarrow> (string, rvalue) result \<Rightarrow> rwrite list" where
  "write_result show_type r = (case r of
     Inl e \<Rightarrow> [WErr e]
   | Inr VNil \<Rightarrow> [WNull]
   | Inr (VList vs) \<Rightarrow> WArray (length vs) # map (write_value show_type) vs
   | Inr v \<Rightarrow> [write_value show_type v])"

text \<open>A connection: whether it is authorized, and redis with the commands that it was given.\<close>

record 'r pconn =
  pc_authorized :: bool
  pc_forwarded :: "string list list"
  pc_redis :: 'r

record 'r penv =
  px_do_auth :: bool
  px_auth :: "string \<Rightarrow> bool"
  px_do :: "string list \<Rightarrow> 'r \<Rightarrow> (string, rvalue) result \<times> 'r"
  px_lower :: "string \<Rightarrow> string"
  px_type :: "rvalue \<Rightarrow> string"

definition proxy_auth :: "'r penv \<Rightarrow> string list \<Rightarrow> 'r pconn \<Rightarrow> rwrite list \<times> 'r pconn" where
  "proxy_auth E args c =
     (if length args \<noteq> 2 then ([WErr ''invalid number of arguments''], c)
      else if px_auth E (args ! 1) then ([WStr ''OK''], c\<lparr>pc_authorized := True\<rparr>)
      else ([WErr ''invalid jwt''], c))"

definition proxy_forward :: "'r penv \<Rightarrow> string list \<Rightarrow> 'r pconn \<Rightarrow> rwrite list \<times> 'r pconn" where
  "proxy_forward E args c =
     (if px_do_auth E \<and> \<not> pc_authorized c
      then ([WErr ''permission denied, please call AUTH first with a valid JWT''], c)
      else case px_do E args (pc_redis c) of
        (r, w) \<Rightarrow> (write_result (px_type E) r, c\<lparr>pc_forwarded := pc_forwarded c @ [args], pc_redis := w\<rparr>))"

text \<open>The names of two commands of an older database are translated.\<close>

definition translate :: "string \<Rightarrow> string list \<Rightarrow> string list" where
  "translate command args =
     (if command = ''lkeyexists'' then ''exists'' # tl args else if command = ''lttl'' then ''ttl'' # tl args else args)"

definition proxy_handler :: "'r penv \<Rightarrow> string list \<Rightarrow> 'r pconn \<Rightarrow> rwrite list \<times> 'r pconn" where
  "proxy_handler E args c = (let command = px_lower E (hd args) in
     if command = ''auth'' then proxy_auth E args c else proxy_forward E (translate command args) c)"

text \<open>The commands of a connection one after the other, with what is written for each.\<close>

fun serve :: "'r penv \<Rightarrow> string list list \<Rightarrow> 'r pconn \<Rightarrow> rwrite list list \<times> 'r pconn" where
  "serve E [] c = ([], c)"
| "serve E (a # as) c = (case proxy_handler E a c of (w, c') \<Rightarrow> case serve E as c' of (ws, c'') \<Rightarrow> (w # ws, c''))"

section \<open>Properties\<close>

text \<open>C38: A token opens the proxy exactly when it is signed with the key by the algorithm that it names, its times are right,
  and it is of an organization or grants the membership of one.\<close>

theorem AuthMethod_iff:
  "AuthMethod eqf dec orgs now text \<longleftrightarrow> (\<exists>t. dec text = Some t \<and> tk_ecdsa t \<and> tk_alg t = tk_method_alg t \<and> tk_signed t \<and>
     claims_Valid now (tk_claims t) \<and>
     ((\<exists>azp org. cl_azp (tk_claims t) = Some azp \<and> org \<in> set orgs \<and> eqf azp org) \<or>
      (\<exists>ss s org. cl_scope (tk_claims t) = Scopes ss \<and> Some s \<in> set ss \<and> org \<in> set orgs \<and> eqf s (scope_of org))))"
proof -
  have az: "(case x of Some azp \<Rightarrow> In_fold eqf azp orgs | None \<Rightarrow> False) \<longleftrightarrow> (\<exists>azp org. x = Some azp \<and> org \<in> set orgs \<and> eqf azp org)"
    for x by (auto simp: In_fold_def list_ex_iff split: option.split)
  have sc: "scopes_grant eqf orgs x \<longleftrightarrow> (\<exists>ss s org. x = Scopes ss \<and> Some s \<in> set ss \<and> org \<in> set orgs \<and> eqf s (scope_of org))" for x
    by (cases x) (fastforce simp: scopes_grant_def In_fold_def list_ex_iff split: option.splits)+
  show ?thesis unfolding AuthMethod_def jwt_Parse_def key_of_token_def
    by (cases "dec text") (auto simp: Let_def az sc)
qed

lemma no_organization_no_token: "\<not> AuthMethod eqf dec [] now text"
  by (simp add: AuthMethod_iff)

lemma handler_forwards:
  "px_do_auth E \<Longrightarrow> \<not> pc_authorized c \<Longrightarrow> \<not> (px_lower E (hd a) = ''auth'' \<and> length a = 2 \<and> px_auth E (a ! 1)) \<Longrightarrow>
   snd (proxy_handler E a c) = c"
  by (auto simp: proxy_handler_def proxy_auth_def proxy_forward_def Let_def)

definition opens :: "'r penv \<Rightarrow> string list \<Rightarrow> bool" where
  "opens E a \<longleftrightarrow> px_lower E (hd a) = ''auth'' \<and> length a = 2 \<and> px_auth E (a ! 1)"

lemma authorized_by_opens:
  "pc_authorized (snd (proxy_handler E a c)) \<longleftrightarrow> pc_authorized c \<or> opens E a"
  by (auto simp: proxy_handler_def proxy_auth_def proxy_forward_def opens_def Let_def split: prod.splits)

text \<open>C12: With authentication on, no command of a connection reaches redis before a token was accepted, whatever the client
  sends; and from then on the connection is open.\<close>

theorem nothing_forwarded_before_auth:
  assumes "px_do_auth E" and "\<not> pc_authorized c"
  shows "case serve E as c of (_, c') \<Rightarrow>
    (pc_authorized c' \<longleftrightarrow> list_ex (opens E) as) \<and>
    (\<exists>bs. pc_forwarded c' = pc_forwarded c @ bs \<and> length bs = length (filter (\<lambda>a. px_lower E (hd a) \<noteq> ''auth'') (dropWhile (\<lambda>a. \<not> opens E a) as)))"
proof -
  have opened: "case serve E as c of (_, c') \<Rightarrow> pc_authorized c' \<and>
      (\<exists>bs. pc_forwarded c' = pc_forwarded c @ bs \<and> length bs = length (filter (\<lambda>a. px_lower E (hd a) \<noteq> ''auth'') as))"
    if "pc_authorized c" for as c using that
  proof (induction as arbitrary: c)
    case (Cons a as)
    obtain w c1 where h: "proxy_handler E a c = (w, c1)" by (cases "proxy_handler E a c")
    have a1: "pc_authorized c1" using authorized_by_opens[of E a c] Cons.prems h by simp
    have f: "\<exists>b. pc_forwarded c1 = pc_forwarded c @ b \<and> length b = (if px_lower E (hd a) \<noteq> ''auth'' then 1 else 0)"
      using h Cons.prems by (auto simp: proxy_handler_def proxy_auth_def proxy_forward_def Let_def split: if_splits prod.splits)
    show ?case using Cons.IH[OF a1] f h by (auto split: prod.splits)
  qed simp
  show ?thesis using assms
  proof (induction as arbitrary: c)
    case (Cons a as)
    obtain w c1 where h: "proxy_handler E a c = (w, c1)" by (cases "proxy_handler E a c")
    show ?case
    proof (cases "opens E a")
      case True
      then have "pc_authorized c1" "pc_forwarded c1 = pc_forwarded c"
        using authorized_by_opens[of E a c] h
        by (auto simp: opens_def proxy_handler_def proxy_auth_def)
      moreover from True have "px_lower E (hd a) = ''auth''" by (simp add: opens_def)
      ultimately show ?thesis using opened[of c1 as] h True by (auto split: prod.splits)
    next
      case False
      then have "c1 = c" using handler_forwards[of E c a] Cons.prems h by (simp add: opens_def)
      then show ?thesis using Cons.IH[OF Cons.prems] h False by (auto split: prod.splits)
    qed
  qed simp
qed

text \<open>Exactly one reply is written for a command, so the replies of a connection stay in step with its commands: a reply is
  one value, or the length of a list and as many values.\<close>

definition one_reply :: "rwrite list \<Rightarrow> bool" where
  "one_reply ws = (case ws of
     [] \<Rightarrow> False
   | WArray n # vs \<Rightarrow> length vs = n \<and> list_all (\<lambda>v. \<forall>k. v \<noteq> WArray k) vs
   | [v] \<Rightarrow> True
   | _ \<Rightarrow> False)"

lemma write_value_flat: "write_value sh v \<noteq> WArray k"
  by (cases v) (simp_all add: write_value_def)

theorem one_reply_per_command:
  "list_all one_reply (fst (serve E as c)) \<and> length (fst (serve E as c)) = length as"
proof (induction as arbitrary: c)
  case (Cons a as)
  have r: "one_reply (write_result sh r)" for sh r
  proof (cases r)
    case (Inr v)
    then show ?thesis by (cases v) (auto simp: write_result_def one_reply_def write_value_def list_all_iff split: rvalue.splits)
  qed (simp add: write_result_def one_reply_def)
  have e: "one_reply [WErr t]" "one_reply [WStr t]" for t by (simp_all add: one_reply_def)
  have "one_reply (fst (proxy_handler E a c))"
    by (auto simp: proxy_handler_def proxy_auth_def proxy_forward_def Let_def r e split: prod.splits)
  then show ?case using Cons[of "snd (proxy_handler E a c)"] by (auto split: prod.splits)
qed simp

text \<open>A list in a list and a missing value in a list are written as errors, so the replies to scans, transactions and reads
  of several keys are spoilt.\<close>

theorem nested_values_are_errors:
  assumes "pc_authorized c" and "px_do E a (pc_redis c) = (Inr (VList (xs @ v # ys)), w)" and "v = VNil \<or> (\<exists>vs. v = VList vs)"
  shows "fst (proxy_forward E a c) ! Suc (length xs) = WErr (''unhandled return type: '' @ px_type E v)"
  using assms by (auto simp: proxy_forward_def write_result_def write_value_def nth_append)

text \<open>Who may use the proxy: everybody exactly in development mode, or when no organization is named and the support flag
  is off.\<close>

theorem proxy_is_open_iff:
  "proxy_organizations k cli = [] \<longleftrightarrow>
     ko_Is k ''development'' \<or> (cli = [] \<and> (k ''organization'' = None \<or> k ''organization'' = Some []) \<and> \<not> ko_Is k ''support'')"
  by (auto simp: proxy_organizations_def Let_def ko_Get_def split: option.splits)

text \<open>An argument \<^verbatim>\<open>organization\<close> without a value names none: the proxy is open although the argument is there.\<close>

theorem empty_organization_opens_proxy:
  "proxy_organizations (parseKernelOptions (\<lambda>_. [''organization'']) t) [] = []"
  by (simp add: proxy_organizations_def parseKernelOptions_def add_option_def split2_none ko_Get_def ko_Is_def)

section \<open>Witnesses\<close>

text \<open>A redis that answers a read of two keys with one missing value, and a token that is its own text.\<close>

definition demo_proxy :: "nat penv" where
  "demo_proxy = \<lparr>px_do_auth = True, px_auth = (\<lambda>t. t = ''jwt''), px_do = (\<lambda>a n. (Inr (VList [VBytes ''1'', VNil]), Suc n)),
     px_lower = id, px_type = (\<lambda>v. ''<nil>(<nil>)'')\<rparr>"

definition demo_conn :: "bool \<Rightarrow> nat pconn" where "demo_conn b = \<lparr>pc_authorized = b, pc_forwarded = [], pc_redis = 0\<rparr>"

lemma nothing_forwarded_before_auth_witness:
  "case serve demo_proxy [[''mget'', ''a'', ''b''], [''auth'', ''jwt''], [''mget'', ''a'', ''b'']] (demo_conn False) of (_, c') \<Rightarrow>
     pc_authorized c' \<and> length (pc_forwarded c') = 1"
proof -
  have "px_do_auth demo_proxy" "\<not> pc_authorized (demo_conn False)" by (simp_all add: demo_proxy_def demo_conn_def)
  from nothing_forwarded_before_auth[OF this, of "[[''mget'', ''a'', ''b''], [''auth'', ''jwt''], [''mget'', ''a'', ''b'']]"]
  show ?thesis by (auto simp: opens_def demo_proxy_def demo_conn_def split: prod.splits)
qed

lemma nested_values_are_errors_witness:
  "fst (proxy_forward demo_proxy [''mget'', ''a'', ''b''] (demo_conn True)) ! Suc (length [VBytes ''1'']) =
     WErr (''unhandled return type: '' @ px_type demo_proxy VNil)"
  by (rule nested_values_are_errors) (simp_all add: demo_proxy_def demo_conn_def)

end
