(* ===== verification/Base_Power.thy ===== *)
theory Base_Power
  imports Steps Paths Stream_Message
begin

text \<open>
  Restart, power-off and the update of the kernel (\<^verbatim>\<open>src/apps/plugins/base/power/power.go\<close>).  The state is what the
  actions have done, in order; the job that downloads and the calls of the kernel are arguments of the operations.
\<close>

definition RedisJobID :: string where "RedisJobID = ''redis''"
definition RedisProxyJobID :: string where "RedisProxyJobID = ''redis-proxy''"
definition BaseUpdateURL :: string where "BaseUpdateURL = ''https://bootstrap.grid.tf/kernel''"
definition BaseDownloadLocation :: string where "BaseDownloadLocation = ''/var/cache''"

datatype reboot_cmd = CmdRestart | CmdPowerOff | CmdKexec

datatype power_event =
    DidMessage string meta
  | DidLog string
  | DidShutdown "string list"
  | DidSync
  | DidReboot reboot_cmd
  | DidKexec string string

text \<open>\<open>pw_wget\<close> is the run of the download: no job, or its messages with whether it succeeds and its streams; \<open>pw_kexec\<close>
  loads the kernel of a file with a command line.\<close>

record power_env =
  pw_wget :: "string list \<Rightarrow> (go_error, message list \<times> bool \<times> string) result"
  pw_open :: "string \<Rightarrow> (go_error, unit) result"
  pw_kexec :: "string \<Rightarrow> string \<Rightarrow> bool"
  pw_reboot :: "reboot_cmd \<Rightarrow> (go_error, unit) result"
  pw_cmdline :: string

definition did :: "power_event \<Rightarrow> (power_event list, unit) act" where "did e = (\<lambda>s. (Inr (), s @ [e]))"

definition go_down :: "(power_event list, unit) act" where
  "go_down = sbind (did (DidShutdown [RedisJobID, RedisProxyJobID])) (\<lambda>_. did DidSync)"

definition last_word :: "string \<Rightarrow> (power_event list, unit) act" where
  "last_word t = did (DidMessage (t @ [CHR 0x0A]) (NewMeta 1 [ExitSuccessFlag]))"

definition power_restart :: "(power_event list, unit) act" where
  "power_restart = sbind go_down (\<lambda>_. sbind (last_word ''rebooting...'') (\<lambda>_. did (DidReboot CmdRestart)))"

definition poweroff :: "(power_event list, unit) act" where
  "poweroff = sbind go_down (\<lambda>_. sbind (last_word ''powering off...'') (\<lambda>_. did (DidReboot CmdPowerOff)))"

text \<open>Messages of the download are passed on, except those that end a stream.\<close>

definition wget_hook :: "message \<Rightarrow> (power_event list, unit) act" where
  "wget_hook m = (if Is (msg_meta m) (ExitErrorFlag OR ExitSuccessFlag) then sret () else did (DidMessage (msg_text m) (msg_meta m)))"

definition power_wget :: "power_env \<Rightarrow> string \<Rightarrow> string \<Rightarrow> (power_event list, unit) act" where
  "power_wget E file_name url =
     sbind (slift (lift_err (pw_wget E [''wget'', ''-O'', file_name, url]))) (\<lambda>(ms, ok, streams).
     sbind (sfor wget_hook ms) (\<lambda>_.
     if ok then sret () else slift (fail (''failed to download '' @ url @ '': '' @ streams))))"

text \<open>The result of loading the kernel is tested together with an error that is nil by then.\<close>

definition load_kernel :: "power_env \<Rightarrow> string \<Rightarrow> (power_event list, unit) act" where
  "load_kernel E file_name = (case pw_open E file_name of
     Inl e \<Rightarrow> slift (Inl (Fault (InternalError (error_text e))))
   | Inr _ \<Rightarrow> sbind (did (DidKexec file_name (pw_cmdline E))) (\<lambda>_.
       let err = (None :: go_error option); loaded = pw_kexec E file_name (pw_cmdline E) in
       case err of Some e \<Rightarrow> if loaded then sret () else slift (Inl (Fault (InternalError (error_text e)))) | None \<Rightarrow> sret ()))"

definition power_update :: "power_env \<Rightarrow> string \<Rightarrow> (power_event list, unit) act" where
  "power_update E im = (let img = path_base im; url = BaseUpdateURL @ ''/'' @ img; file_name = path_join [BaseDownloadLocation, img] in
     sbind (did (DidLog (''downloading image: '' @ url))) (\<lambda>_.
     sbind (power_wget E file_name url) (\<lambda>_.
     sbind (did (DidLog ''download complete'')) (\<lambda>_.
     sbind (load_kernel E file_name) (\<lambda>_.
     sbind (did (DidLog ''terminating all running process. point of no return...'')) (\<lambda>_.
     sbind go_down (\<lambda>_.
     sbind (last_word ''rebooting...'') (\<lambda>_.
     sbind (did (DidReboot CmdKexec)) (\<lambda>_.
     slift (lift_err (pw_reboot E CmdKexec)))))))))))"

section \<open>Properties\<close>

text \<open>Whatever the download says, nothing of it ends the stream of the client.\<close>

definition ends_stream :: "power_event \<Rightarrow> bool" where
  "ends_stream e = (case e of DidMessage _ m \<Rightarrow> Is m ExitErrorFlag \<or> Is m ExitSuccessFlag | _ \<Rightarrow> False)"

lemma Is_either: "Is m (f OR g) \<longleftrightarrow> Is m f \<or> Is m g"
proof -
  have "(a :: 16 word) OR b = 0 \<longleftrightarrow> a = 0 \<and> b = 0" for a b by (auto simp: bit_eq_iff bit_simps)
  then show ?thesis by (auto simp: Is_def bit.conj_disj_distrib)
qed

lemma wget_messages:
  "sfor wget_hook ms s = (Inr (), s @ map (\<lambda>m. DidMessage (msg_text m) (msg_meta m))
     (filter (\<lambda>m. \<not> (Is (msg_meta m) ExitErrorFlag \<or> Is (msg_meta m) ExitSuccessFlag)) ms))"
proof (induction ms arbitrary: s)
  case (Cons m ms)
  then show ?case by (simp add: sbind_def wget_hook_def Is_either did_def sret_def)
qed (simp add: sret_def)

theorem download_never_ends_stream:
  assumes "\<not> list_ex ends_stream s" shows "\<not> list_ex ends_stream (snd (power_wget E f u s))"
  using assms
  by (auto simp: power_wget_def act_defs wget_messages list_ex_iff ends_stream_def split: sum.splits)

text \<open>An update stops without touching the processes exactly when there is no download or its file cannot be opened; whether
  the kernel was loaded makes no difference.\<close>

theorem update_goes_down_iff:
  "(\<exists>ids. DidShutdown ids \<in> set (snd (power_update E im []))) \<longleftrightarrow>
     (let f = path_join [BaseDownloadLocation, path_base im] in
      (\<exists>ms streams. pw_wget E [''wget'', ''-O'', f, BaseUpdateURL @ ''/'' @ path_base im] = Inr (ms, True, streams)) \<and>
      (\<exists>u. pw_open E f = Inr u))"
proof (cases "pw_wget E [''wget'', ''-O'', path_join [BaseDownloadLocation, path_base im], BaseUpdateURL @ ''/'' @ path_base im]")
  case (Inl e)
  then show ?thesis by (simp add: power_update_def load_kernel_def power_wget_def did_def act_defs Let_def)
next
  case (Inr x)
  obtain ms ok streams where x: "x = (ms, ok, streams)" by (cases x)
  show ?thesis
  proof (cases ok)
    case False
    then show ?thesis using Inr x
      by (auto simp: power_update_def load_kernel_def power_wget_def did_def act_defs Let_def wget_messages fail_def)
  next
    case True
    then show ?thesis using Inr x
      by (cases "pw_open E (path_join [BaseDownloadLocation, path_base im])")
         (auto simp: power_update_def load_kernel_def power_wget_def did_def act_defs Let_def wget_messages go_down_def last_word_def)
  qed
qed

theorem failed_kexec_goes_down:
  assumes "pw_kexec E = (\<lambda>f c. False)" and "pw_wget E = (\<lambda>a. Inr ([], True, []))" and "pw_open E = (\<lambda>f. Inr ())"
  shows "DidReboot CmdKexec \<in> set (snd (power_update E im s))"
  using assms(2,3) by (simp add: power_update_def load_kernel_def power_wget_def did_def act_defs Let_def go_down_def last_word_def)

text \<open>Redis and its proxy go on, so the client gets the last message.\<close>

theorem restart_order:
  "snd (power_restart s) = s @ [DidShutdown [''redis'', ''redis-proxy''], DidSync,
     DidMessage (''rebooting...'' @ [CHR 0x0A]) (NewMeta 1 [ExitSuccessFlag]), DidReboot CmdRestart]"
  by (simp add: power_restart_def go_down_def last_word_def did_def act_defs RedisJobID_def RedisProxyJobID_def)

lemma path_base_plain: "CHR ''/'' \<notin> set (path_base p) \<or> path_base p = ''/''"
proof -
  have "CHR ''/'' \<notin> set (last_elem q)" for q
    unfolding last_elem_def by (auto dest: set_takeWhileD)
  then show ?thesis by (simp add: path_base_def Let_def)
qed

section \<open>Witnesses\<close>

lemma download_never_ends_stream_witness:
  "\<not> list_ex ends_stream (snd (power_wget \<lparr>pw_wget = (\<lambda>a. Inr ([\<lparr>msg_text = ''done'', msg_epoch = 0,
      msg_meta = NewMeta 1 [ExitSuccessFlag]\<rparr>], True, [])), pw_open = (\<lambda>f. Inr ()), pw_kexec = (\<lambda>f c. True), pw_reboot = (\<lambda>c. Inr ()),
      pw_cmdline = []\<rparr> ''f'' ''u'' []))"
  by (rule download_never_ends_stream) simp

lemma failed_kexec_goes_down_witness:
  "DidReboot CmdKexec \<in> set (snd (power_update \<lparr>pw_wget = (\<lambda>a. Inr ([], True, [])), pw_open = (\<lambda>f. Inr ()), pw_kexec = (\<lambda>f c. False),
      pw_reboot = (\<lambda>c. Inr ()), pw_cmdline = []\<rparr> ''new.efi'' []))"
  by (rule failed_kexec_goes_down) simp_all

end
