(* ===== verification/Corex.thy ===== *)
theory Corex
  imports Cont_Channel Mgr_Manager Settings_Startup
begin

text \<open>
  The process inside a container (\<^verbatim>\<open>src/apps/coreX/main.go\<close>, \<^verbatim>\<open>backend.go\<close> and \<^verbatim>\<open>bootstrap/bootstrap.go\<close>): the calls that
  set up its file systems and devices, the loop over the commands that the host sends, and the messages that go back.
  With \<open>Cont_Channel\<close> this gives both ends of the channel of a container.
\<close>

section \<open>The messages to the host\<close>

record 'f cx_enc =
  en_result :: "job_result \<Rightarrow> string"
  en_message :: "message \<Rightarrow> string"
  en_stats :: "'f cx_stat \<Rightarrow> string"

definition disp_Pre :: "command \<Rightarrow> command" where
  "disp_Pre cmd = cmd\<lparr>cmd_Flags := (cmd_Flags cmd)\<lparr>fl_NoSetPGID := True\<rparr>\<rparr>"

definition disp_Result :: "'f cx_enc \<Rightarrow> command \<Rightarrow> job_result \<Rightarrow> cx_message" where
  "disp_Result J cmd r = \<lparr>cx_Type = ''result'', cx_Command = cmd_ID cmd, cx_Payload = en_result J r\<rparr>"

definition disp_Message :: "'f cx_enc \<Rightarrow> command \<Rightarrow> message \<Rightarrow> cx_message" where
  "disp_Message J cmd m = \<lparr>cx_Type = ''log'', cx_Command = cmd_ID cmd, cx_Payload = en_message J m\<rparr>"

text \<open>The identifier of a figure is not sent.\<close>

definition disp_Stats :: "'f cx_enc \<Rightarrow> 'f stats_call \<Rightarrow> cx_message" where
  "disp_Stats J c = \<lparr>cx_Type = ''stats'', cx_Command = [], cx_Payload =
     en_stats J \<lparr>cs_Operation = st_op c, cs_Key = st_key c, cs_Value = st_value c, cs_Tags = st_tags c\<rparr>\<rparr>"

section \<open>The loop over commands\<close>

text \<open>What decoding gives: a command, or an error with as much of a command as was read.\<close>

datatype decoded = Decoded command | DecodeError command

definition decoded_command :: "decoded \<Rightarrow> command" where
  "decoded_command d = (case d of Decoded c \<Rightarrow> c | DecodeError c \<Rightarrow> c)"

record corex =
  co_manager :: manager
  co_sent :: "command list"
  co_out :: "cx_message list"

record 'f corex_env =
  ce_factories :: "string \<Rightarrow> factory option"
  ce_routers :: "(string \<Rightarrow> string option) list"
  ce_enc :: "'f cx_enc"

text \<open>One turn; \<open>uuid\<close> is the identifier for a command that comes without.  An error of decoding is only logged.\<close>

definition corex_turn :: "'f corex_env \<Rightarrow> string \<times> decoded \<Rightarrow> corex \<Rightarrow> corex" where
  "corex_turn E = (\<lambda>(uuid, d) s. let cmd = decoded_command d in
     case Run (ce_factories E) (ce_routers E) uuid [disp_Pre] cmd (co_manager s) of (r, m, sent) \<Rightarrow>
       let s = s\<lparr>co_manager := m, co_sent := co_sent s @ sent\<rparr> in
       (case r of
          Inr _ \<Rightarrow> s
        | Inl e \<Rightarrow> if IsUnknownCommand (Some e)
            then s\<lparr>co_out := co_out s @ [disp_Result (ce_enc E) cmd ((NewJobResult cmd)\<lparr>jr_State := StateUnknownCmd\<rparr>)]\<rparr>
            else s))"

definition corex_loop :: "'f corex_env \<Rightarrow> (string \<times> decoded) list \<Rightarrow> corex \<Rightarrow> corex" where
  "corex_loop E ds s = fold (corex_turn E) ds s"

text \<open>The process waits for the number before it goes on; None when it ends.\<close>

definition corex_main :: "frame list \<Rightarrow> command list option" where
  "corex_main fs = (case fs of
     FMagic n # rest \<Rightarrow> if n = UnlockMagic
       then Some (List.map_filter (\<lambda>f. case f of FCommand c \<Rightarrow> Some c | FMagic _ \<Rightarrow> None) rest) else None
   | _ \<Rightarrow> None)"

section \<open>Setting up a container\<close>

definition MS_RDONLY :: "32 word" where "MS_RDONLY = 1"
definition MS_NOSUID :: "32 word" where "MS_NOSUID = 2"
definition MS_NODEV :: "32 word" where "MS_NODEV = 4"
definition MS_NOEXEC :: "32 word" where "MS_NOEXEC = 8"
definition MS_RELATIME :: "32 word" where "MS_RELATIME = 0x200000"

datatype cx_call =
    CMkdir string nat
  | CMount string string string "32 word" string
  | CMknod string "32 word" int
  | CSymlink string string
  | CUmask nat
  | CWrite string string
  | CRemoveAll string
  | CHostname string
  | CRevoke
  | CUnprivileged
  | CPlugins
  | CSlice "startup list"
  | CKill int
  | CUnmount string

text \<open>The calls that were made; each may fail, depending on those before.\<close>

type_synonym 'a cx_act = "(cx_call list, 'a) act"

record cx_world =
  xw_fails :: "cx_call list \<Rightarrow> cx_call \<Rightarrow> go_error option"
  xw_umask :: nat
  xw_included :: "(go_error, included) result"
  xw_pids :: "int list"

definition cx_do :: "cx_world \<Rightarrow> cx_call \<Rightarrow> unit cx_act" where
  "cx_do W c = (\<lambda>s. (case xw_fails W s c of None \<Rightarrow> Inr () | Some e \<Rightarrow> Inl (Fault e), s @ [c]))"

definition cx_try :: "cx_world \<Rightarrow> cx_call \<Rightarrow> unit cx_act" where "cx_try W c = signore (cx_do W c)"

record device_node =
  dn_Name :: string
  dn_Type :: "32 word"
  dn_Mode :: "32 word"
  dn_Major :: int
  dn_Minor :: int

definition CharDevice :: "32 word" where "CharDevice = 8192"

definition mk_device :: "cx_world \<Rightarrow> string \<Rightarrow> device_node \<Rightarrow> unit cx_act" where
  "mk_device W dir d = cx_do W (CMknod (dir @ ''/'' @ dn_Name d) (dn_Type d OR dn_Mode d) (push_bit 8 (dn_Major d) OR dn_Minor d))"

text \<open>A device as it is printed: its fields, the mode as the letters of its permissions.\<close>

definition mode_letters :: "32 word \<Rightarrow> string" where
  "mode_letters m = CHR ''-'' # map (\<lambda>(i, c). if bit m i then c else CHR ''-'') (zip (rev [0..<9]) ''rwxrwxrwx'')"

definition device_text :: "device_node \<Rightarrow> string" where
  "device_text d = ''{'' @ dn_Name d @ '' '' @ itoa (unat (dn_Type d)) @ '' '' @ mode_letters (dn_Mode d) @ '' '' @
     itoa_int (dn_Major d) @ '' '' @ itoa_int (dn_Minor d) @ ''}''"

definition minimum_devices :: "device_node list" where
  "minimum_devices = map (\<lambda>(n, m, a, b). \<lparr>dn_Name = n, dn_Type = CharDevice, dn_Mode = m, dn_Major = a, dn_Minor = b\<rparr>)
     [(''console'', 384, 136, 2), (''full'', 438, 1, 7), (''null'', 438, 1, 3), (''random'', 438, 1, 8),
      (''tty'', 438, 5, 0), (''urandom'', 438, 1, 9), (''zero'', 438, 1, 5)]"

definition minimum_links :: "(string \<times> string) list" where
  "minimum_links = [(''/proc/self/fd/0'', ''/dev/stdin''), (''/proc/self/fd/1'', ''/dev/stdout''), (''/proc/self/fd/2'', ''/dev/stderr''),
     (''/proc/self/fd'', ''/dev/fd''), (''/dev/pts/ptmx'', ''/dev/ptmx''), (''/proc/kcore'', ''/dev/core'')]"

definition populateMinimumDev :: "cx_world \<Rightarrow> unit cx_act" where
  "populateMinimumDev W =
     sbind (cx_try W (CUmask 0)) (\<lambda>_.
     sbind (sfor (\<lambda>d. werr (told (''failed to create device '' @ device_text d @ '': '')) (mk_device W ''/dev'' d)) minimum_devices) (\<lambda>_.
     sbind (sfor (\<lambda>(old, new). werr (told (''failed to create symlink '' @ new @ ''->'' @ old @ '': '')) (cx_do W (CSymlink old new)))
              minimum_links) (\<lambda>_.
     sbind (cx_try W (CMkdir ''/dev/mqueue'' 511)) (\<lambda>_.
     sbind (werr (told ''failed to mount mqueue: '') (cx_do W (CMount ''mqueue'' ''/dev/mqueue'' ''mqueue'' 0 []))) (\<lambda>_.
     sbind (cx_try W (CMkdir ''/dev/shm'' 511)) (\<lambda>_.
     sbind (werr (told ''failed to mount shm: '') (cx_do W (CMount ''shm'' ''/dev/shm'' ''tmpfs''
              (MS_NOSUID OR MS_NODEV OR MS_NOEXEC OR MS_RELATIME) ''size=1G''))) (\<lambda>_.
     cx_try W (CUmask (xw_umask W)))))))))"

definition corex_Start :: "cx_world \<Rightarrow> bool \<Rightarrow> unit cx_act" where
  "corex_Start W unprivileged =
     sbind (cx_try W (CMkdir ''/etc'' 493)) (\<lambda>_.
     sbind (cx_try W (CMkdir ''/var/run'' 493)) (\<lambda>_.
     sbind (cx_try W (CMkdir ''/sys'' 493)) (\<lambda>_.
     sbind (cx_do W (CMount ''none'' ''/sys'' ''sysfs'' (MS_NOSUID OR MS_RELATIME OR MS_NODEV OR MS_NOEXEC OR MS_RDONLY) [])) (\<lambda>_.
     sbind (cx_try W (CMkdir ''/proc'' 493)) (\<lambda>_.
     sbind (cx_do W (CMount ''none'' ''/proc'' ''proc'' ((MS_NOSUID OR MS_RELATIME OR MS_NODEV OR MS_NOEXEC) OR
              (if unprivileged then MS_RDONLY else 0)) [])) (\<lambda>_.
     sbind (cx_try W (CMkdir ''/dev'' 493)) (\<lambda>_.
     sbind (if unprivileged
            then sbind (werr (told ''failed to mount dev in unprivileged: '') (cx_do W (CMount ''none'' ''/dev'' ''tmpfs'' MS_NOSUID ''mode=755''))) (\<lambda>_.
                 populateMinimumDev W)
            else cx_do W (CMount ''none'' ''/dev'' ''devtmpfs'' (MS_NOSUID OR MS_RELATIME) ''mode=755'')) (\<lambda>_.
     sbind (cx_try W (CMkdir ''/dev/pts'' 493)) (\<lambda>_.
     cx_do W (CMount ''none'' ''/dev/pts'' ''devpts'' 0 []))))))))))"

definition hosts_text :: "string \<Rightarrow> string" where
  "hosts_text h = ''127.0.0.1    '' @ h @ ''.local '' @ h @ [CHR 0x0A] @ ''127.0.0.1    localhost.localdomain localhost'' @ [CHR 0x0A]"

definition updateHostname :: "cx_world \<Rightarrow> string \<Rightarrow> unit cx_act" where
  "updateHostname W h =
     sbind (cx_do W (CWrite ''/etc/hostname'' h)) (\<lambda>_.
     sbind (cx_do W (CWrite ''/etc/hosts'' (hosts_text h))) (\<lambda>_.
     cx_do W (CHostname h)))"

definition linkMtab :: "cx_world \<Rightarrow> unit cx_act" where
  "linkMtab W = sbind (cx_try W (CRemoveAll ''/etc/mtab'')) (\<lambda>_. cx_do W (CSymlink ''../proc/self/mounts'' ''/etc/mtab''))"

text \<open>The text of the error that is returned, the list of all errors, is only logged and left out.\<close>

definition corex_startup :: "cx_world \<Rightarrow> unit cx_act" where
  "corex_startup W = sbind (slift (lift_err (xw_included W))) (\<lambda>inc.
     case GetStartupTree inc of (t, errs) \<Rightarrow>
       if errs \<noteq> [] then slift (fail ''failed to build startup tree'')
       else cx_try W (CSlice (tree_Slice t (After_Weight AfterInit) (After_Weight ToTheEnd))))"

definition corex_Bootstrap :: "cx_world \<Rightarrow> bool \<Rightarrow> string \<Rightarrow> unit cx_act" where
  "corex_Bootstrap W unprivileged h =
     sbind (updateHostname W h) (\<lambda>_.
     sbind (linkMtab W) (\<lambda>_.
     sbind (if unprivileged then sbind (cx_try W CUnprivileged) (\<lambda>_. cx_do W CRevoke) else sret ()) (\<lambda>_.
     sbind (signore (cx_do W CPlugins)) (\<lambda>_.
     signore (corex_startup W)))))"

definition UnBootstrap :: "cx_world \<Rightarrow> unit cx_act" where
  "UnBootstrap W =
     sbind (sfor (\<lambda>p. if p = 1 then sret () else cx_try W (CKill p)) (xw_pids W)) (\<lambda>_.
     sfor (\<lambda>m. cx_try W (CUnmount m)) [''/dev/pts'', ''/dev'', ''proc''])"

section \<open>Properties: commands\<close>

text \<open>What the host writes unlocks the process, which then gets the commands in their order.\<close>

lemma corex_main_forward: "corex_main (forward_frames cmds) = Some cmds"
  by (induction cmds) (auto simp: corex_main_def forward_frames_def List.map_filter_def)

text \<open>Decoding gives back a result that was encoded.\<close>

definition json_pair :: "'f cx_json \<Rightarrow> 'f cx_enc \<Rightarrow> job_result \<Rightarrow> bool" where
  "json_pair J K r \<longleftrightarrow> cj_result J (en_result K r) = r"

definition unknown_result :: "command \<Rightarrow> job_result" where
  "unknown_result cmd = (NewJobResult cmd)\<lparr>jr_State := StateUnknownCmd\<rparr>"

definition unknown_in :: "'f corex_env \<Rightarrow> command \<Rightarrow> bool" where
  "unknown_in E cmd \<longleftrightarrow> ce_factories E (cmd_Command cmd) = None \<and> route (ce_routers E) (cmd_Command cmd) = None"

lemma corex_turn_unknown:
  assumes "unknown_in E (decoded_command d)"
  shows "corex_turn E (u, d) s = s\<lparr>co_out := co_out s @ [disp_Result (ce_enc E) (decoded_command d)
    ((NewJobResult (decoded_command d))\<lparr>jr_State := StateUnknownCmd\<rparr>)]\<rparr>"
  using assms
  by (simp add: corex_turn_def Let_def unknown_in_def Run_def getFactory_def IsUnknownCommand_def UnknownCommandErr_def)

text \<open>C32: A command that a container does not know is answered all the same: from the dispatch on the host through the channel,
  the loop of the container and back, the caller gets the result that says so, with the number of the container.\<close>

theorem unknown_command_is_answered:
  assumes c: "map_of (cc_conts s) i = Some ChanReady" and id: "uuid \<noteq> []" and fresh: "pr_results (cc_proto s) uuid = None"
    and sent: "Dispatch_send uuid i cmd s = (x, s1)" and unknown: "unknown_in E cmd" and json: "json_pair J (ce_enc E) (unknown_result (cmd\<lparr>cmd_ID := uuid\<rparr>))"
    and new: "cc_sent s1 = cc_sent s @ [(i, c')]" and start: "corex_main (forward_frames [c']) = Some cmds"
    and quiet: "co_out w = []" and same: "rw_proto v = cc_proto s1"
  shows "\<exists>r. fst (Get_result uuid (rw_proto (rewind J i (co_out (corex_loop E (map (\<lambda>c. (u, Decoded c)) cmds) w)) v))) = Some (Inr r) \<and>
    jr_ID r = uuid \<and> jr_State r = StateUnknownCmd \<and> jr_Container r = ucast i"
proof -
  have c': "c' = cmd\<lparr>cmd_ID := uuid\<rparr>"
    using sent new find_chan_Some[OF c]
    by (auto simp: Dispatch_send_def pushToContainer_def container_dispatch_def on_proto_def sbind_def)
  let ?r = "(NewJobResult c')\<lparr>jr_State := StateUnknownCmd\<rparr>"
  let ?m = "disp_Result (ce_enc E) c' ?r"
  have cmds: "cmds = [c']" using start corex_main_forward[of "[c']"] by simp
  have un: "unknown_in E (decoded_command (Decoded c'))" using unknown by (simp add: unknown_in_def c' decoded_command_def)
  have out: "co_out (corex_loop E (map (\<lambda>c. (u, Decoded c)) cmds) w) = [] @ ?m # []"
    using corex_turn_unknown[OF un, of u w] quiet by (simp add: corex_loop_def cmds decoded_command_def)
  have bk: "cj_result J (cx_Payload ?m) = ?r" using json by (simp add: json_pair_def disp_Result_def unknown_result_def c')
  have "result_for J uuid ?m"
    unfolding result_for_def bk by (simp add: disp_Result_def NewJobResult_def c')
  from dispatch_is_answered[OF c id fresh this _ sent same, of "[]" "[]"]
  have "fst (Get_result uuid (rw_proto (rewind J i ([] @ ?m # []) v))) = Some (Inr (?r\<lparr>jr_Container := ucast i\<rparr>))"
    unfolding bk by simp
  then show ?thesis unfolding out by (simp add: NewJobResult_def c')
qed

text \<open>After the end of its input the loop goes on with empty commands, and writes a result in every turn.\<close>

theorem closed_channel_spins:
  assumes "unknown_in E (new_command [] [])"
  shows "co_out (corex_loop E (replicate n (u, DecodeError (new_command [] []))) s) =
    co_out s @ replicate n (disp_Result (ce_enc E) (new_command [] []) ((NewJobResult (new_command [] []))\<lparr>jr_State := StateUnknownCmd\<rparr>))"
proof (induction n arbitrary: s)
  case (Suc n)
  have "unknown_in E (decoded_command (DecodeError (new_command [] [])))" using assms by (simp add: decoded_command_def)
  from corex_turn_unknown[OF this, of u s] Suc show ?case by (simp add: corex_loop_def decoded_command_def)
qed (simp add: corex_loop_def)

text \<open>A command under an identifier that is in use is dropped without any message to the host.\<close>

theorem duplicate_in_container_unanswered:
  assumes "cmd_ID cmd \<noteq> []" and "mg_jobs (co_manager s) (cmd_ID cmd) \<noteq> None" and "\<not> unknown_in E cmd"
  shows "corex_turn E (u, Decoded cmd) s = s"
proof -
  obtain f where "getFactory (ce_factories E) (ce_routers E) cmd = Inr f"
    using assms(3) by (cases "ce_factories E (cmd_Command cmd)"; cases "route (ce_routers E) (cmd_Command cmd)")
      (simp_all add: unknown_in_def getFactory_def)
  then show ?thesis using assms(1,2)
    by (auto simp: corex_turn_def Let_def decoded_command_def Run_def RunFactory_def run_pre_def disp_Pre_def DuplicateIDErr_def IsUnknownCommand_def)
qed

section \<open>Properties: setting up\<close>

lemma cx_try_run [simp]: "cx_try W c s = (Inr (), s @ [c])"
  by (simp add: cx_try_def signore_def cx_do_def split: option.split)

lemma preserves_cx:
  "(\<And>s. P s \<Longrightarrow> P (s @ [c])) \<Longrightarrow> preserves P (cx_do W c)" "(\<And>s. P s \<Longrightarrow> P (s @ [c])) \<Longrightarrow> preserves P (cx_try W c)"
  by (auto simp: preserves_def cx_do_def)

definition guarded :: "cx_call \<Rightarrow> bool" where
  "guarded c = (case c of CMount _ tgt fstype flags _ \<Rightarrow>
     (if fstype = ''proc'' \<or> fstype = ''sysfs'' then flags AND MS_RDONLY \<noteq> 0 else fstype \<noteq> ''devtmpfs'') | _ \<Rightarrow> True)"

lemma guarded_flags:
  "(MS_NOSUID OR MS_RELATIME OR MS_NODEV OR MS_NOEXEC OR MS_RDONLY) AND MS_RDONLY \<noteq> 0"
  "((MS_NOSUID OR MS_RELATIME OR MS_NODEV OR MS_NOEXEC) OR MS_RDONLY) AND MS_RDONLY \<noteq> 0"
  by (simp_all add: MS_RDONLY_def MS_NOSUID_def MS_RELATIME_def MS_NODEV_def MS_NOEXEC_def)

text \<open>C36: An unprivileged container never gets a writable view of the kernel, however its set-up ends: what it mounts of the
  process and system file systems is read-only, and the devices of the host are not mounted.\<close>

theorem unprivileged_mounts_guarded:
  "list_all guarded (snd (corex_Start W True [])) \<and> list_all guarded (snd (corex_Bootstrap W True h []))"
proof -
  have p: "preserves (list_all guarded) (cx_do W c)" "preserves (list_all guarded) (cx_try W c)" if "guarded c" for c
    using that by (auto intro: preserves_cx)
  have g: "guarded (CMkdir a m)" "guarded (CUmask m)" "guarded (CSymlink a b)" "guarded (CMknod a t d)" "guarded (CWrite a b)"
    "guarded (CRemoveAll a)" "guarded (CHostname a)" "guarded CRevoke" "guarded CUnprivileged" "guarded CPlugins" "guarded (CSlice l)"
    for a b m t d l by (simp_all add: guarded_def)
  have m: "guarded (CMount a b ''mqueue'' f d)" "guarded (CMount a b ''tmpfs'' f d)" "guarded (CMount a b ''devpts'' f d)"
    "guarded (CMount a b ''sysfs'' (MS_NOSUID OR MS_RELATIME OR MS_NODEV OR MS_NOEXEC OR MS_RDONLY) d)"
    "guarded (CMount a b ''proc'' ((MS_NOSUID OR MS_RELATIME OR MS_NODEV OR MS_NOEXEC) OR MS_RDONLY) d)" for a b f d
    using guarded_flags by (simp_all add: guarded_def)
  have dev: "preserves (list_all guarded) (populateMinimumDev W)"
    unfolding populateMinimumDev_def mk_device_def by (intro preserves_intros preserves_werr p g m)
  have "preserves (list_all guarded) (corex_Start W True)"
    unfolding corex_Start_def if_True by (intro preserves_intros preserves_werr p g m dev)
  moreover have st: "preserves (list_all guarded) (corex_startup W)"
    unfolding corex_startup_def by (intro preserves_intros p g)
  have "preserves (list_all guarded) (corex_Bootstrap W True h)"
    unfolding corex_Bootstrap_def updateHostname_def linkMtab_def by (intro preserves_intros p g st)
  ultimately show ?thesis by (auto dest!: preservesD[where s = "[]"])
qed

lemma fail_kept:
  assumes "preserves Q m" and "\<And>a s. Q s \<Longrightarrow> fail_post Q (k a) s" and "Q s"
  shows "fail_post Q (sbind m k) s"
proof (rule fail_post_sbind)
  show "fail_post Q m s" using preservesD[OF assms(1,3)] by (simp add: fail_post_def)
  show "fail_post Q (k a) s'" if "m s = (Inr a, s')" for a s'
    using preservesD[OF assms(1,3)] that assms(2)[of s' a] by simp
qed

text \<open>When the devices cannot be set up the mask of the process is not put back.\<close>

theorem umask_not_restored:
  assumes "fst (populateMinimumDev W []) = Inl (Fault e)" and "xw_umask W \<noteq> 0"
  shows "CUmask (xw_umask W) \<notin> set (snd (populateMinimumDev W []))"
proof -
  let ?Q = "\<lambda>s. CUmask (xw_umask W) \<notin> set s"
  have p: "preserves ?Q (cx_do W c)" "preserves ?Q (cx_try W c)" if "c \<noteq> CUmask (xw_umask W)" for c
    using that by (auto intro!: preserves_cx)
  have d: "preserves ?Q (sfor (\<lambda>d. werr (f d) (mk_device W ''/dev'' d)) ds)" for f ds
    unfolding mk_device_def by (intro preserves_intros preserves_werr p) simp
  have l: "preserves ?Q (sfor (\<lambda>(old, new). werr (g new old) (cx_do W (CSymlink old new))) ls)" for g ls
    by (intro preserves_intros preserves_werr p) simp
  have last: "fail_post ?Q (cx_try W c) s" for c s by (simp add: fail_post_def)
  have "fail_post ?Q (populateMinimumDev W) []"
    unfolding populateMinimumDev_def
    by (intro fail_kept p preserves_werr d l last) (use assms(2) in simp_all)
  then show ?thesis using assms(1) by (simp add: fail_post_def)
qed

text \<open>When a container ends, every process but the first is killed; the path of the last unmounting is not absolute.\<close>

theorem UnBootstrap_calls:
  "UnBootstrap W s = (Inr (), s @ map CKill (filter (\<lambda>p. p \<noteq> 1) (xw_pids W)) @ [CUnmount ''/dev/pts'', CUnmount ''/dev'', CUnmount ''proc''])"
proof -
  have "sfor (\<lambda>p. if p = 1 then sret () else cx_try W (CKill p)) ps s = (Inr (), s @ map CKill (filter (\<lambda>p. p \<noteq> 1) ps))" for ps s
    by (induction ps arbitrary: s) (auto simp: sbind_def sret_def)
  then show ?thesis by (simp add: UnBootstrap_def sbind_def sret_def)
qed

text \<open>One service that cannot be ordered keeps all services of a container from starting, unlike those of the host.\<close>

theorem container_services_all_or_none:
  assumes "xw_included W = Inr inc"
  shows "snd (corex_startup W s) = (if snd (GetStartupTree inc) = []
    then s @ [CSlice (tree_Slice (fst (GetStartupTree inc)) 1 (- 1))] else s)"
  using assms
  by (simp add: corex_startup_def act_defs fail_def After_Weight_def Priority_def AfterInit_def AfterNet_def AfterBoot_def ToTheEnd_def
      split: prod.split)

section \<open>Witnesses\<close>

definition demo_ping :: command where "demo_ping = new_command [] ''no.such''"

definition demo_cx_json :: "nat cx_json" where
  "demo_cx_json = demo_json\<lparr>cj_result := (\<lambda>t. unknown_result (demo_ping\<lparr>cmd_ID := t\<rparr>))\<rparr>"

definition demo_corex :: "nat corex_env" where
  "demo_corex = \<lparr>ce_factories = builtin_factories, ce_routers = [],
     ce_enc = \<lparr>en_result = jr_ID, en_message = msg_text, en_stats = cs_Key\<rparr>\<rparr>"

definition demo_corex_state :: corex where
  "demo_corex_state = \<lparr>co_manager = \<lparr>mg_jobs = (\<lambda>i. if i = ''u1'' then Some (newJob demo_ping) else None), mg_queue = queue_Init\<rparr>, co_sent = [], co_out = []\<rparr>"

definition demo_fails :: cx_world where
  "demo_fails = \<lparr>xw_fails = (\<lambda>s c. case c of CMknod p t d \<Rightarrow> Some (PlainErr ''operation not permitted'') | _ \<Rightarrow> None),
     xw_umask = 18, xw_included = Inr \<lparr>i_Extension = [], i_Startup = []\<rparr>, xw_pids = [1, 7]\<rparr>"

lemma demo_unknown: "unknown_in demo_corex (new_command i ''no.such'')" "unknown_in demo_corex (new_command [] [])"
  by (simp_all add: unknown_in_def demo_corex_def new_command_def builtin_factories_def CommandSystem_def CommandContainer_def)

lemma unknown_command_is_answered_witness:
  "\<exists>r. fst (Get_result ''u1'' (rw_proto (rewind demo_cx_json 1
      (co_out (corex_loop demo_corex (map (\<lambda>c. (''x'', Decoded c)) [demo_ping\<lparr>cmd_ID := ''u1''\<rparr>]) demo_corex_state))
      (demo_rewound (cc_proto (snd (Dispatch_send ''u1'' 1 demo_ping (demo_chans ChanReady)))))))) = Some (Inr r) \<and>
    jr_ID r = ''u1'' \<and> jr_State r = StateUnknownCmd \<and> jr_Container r = ucast (1 :: 16 word)"
proof (rule unknown_command_is_answered[where s = "demo_chans ChanReady" and cmd = demo_ping and c' = "demo_ping\<lparr>cmd_ID := ''u1''\<rparr>"])
  show "Dispatch_send ''u1'' 1 demo_ping (demo_chans ChanReady) = (Inr (), snd (Dispatch_send ''u1'' 1 demo_ping (demo_chans ChanReady)))"
    "cc_sent (snd (Dispatch_send ''u1'' 1 demo_ping (demo_chans ChanReady))) = cc_sent (demo_chans ChanReady) @ [(1, demo_ping\<lparr>cmd_ID := ''u1''\<rparr>)]"
    by (simp_all add: Dispatch_send_def pushToContainer_def container_dispatch_def on_proto_def sbind_def find_chan_def sget_def demo_chans_def)
  show "unknown_in demo_corex demo_ping" using demo_unknown(1)[of "[]"] by (simp add: demo_ping_def)
qed (simp_all add: demo_chans_def demo_proto_def demo_rewound_def demo_corex_state_def corex_main_forward json_pair_def demo_cx_json_def
      demo_corex_def unknown_result_def NewJobResult_def demo_ping_def new_command_def)

lemma closed_channel_spins_witness:
  "length (co_out (corex_loop demo_corex (replicate 9 (''x'', DecodeError (new_command [] []))) demo_corex_state)) = 9"
  using closed_channel_spins[OF demo_unknown(2), of 9 "''x''" demo_corex_state] by (simp add: demo_corex_state_def)

lemma umask_not_restored_witness: "CUmask (xw_umask demo_fails) \<notin> set (snd (populateMinimumDev demo_fails []))"
proof (rule umask_not_restored)
  obtain d ds where d: "minimum_devices = d # ds" by (simp add: minimum_devices_def)
  show "fst (populateMinimumDev demo_fails []) =
      Inl (Fault (PlainErr ((''failed to create device '' @ device_text (hd minimum_devices) @ '': '') @ ''operation not permitted'')))"
    by (simp add: populateMinimumDev_def mk_device_def cx_do_def act_defs werr_def told_def error_text_def d demo_fails_def)
qed (simp add: demo_fails_def)

lemma container_services_all_or_none_witness:
  "snd (corex_startup demo_fails []) = (if snd (GetStartupTree \<lparr>i_Extension = [], i_Startup = []\<rparr>) = []
    then [] @ [CSlice (tree_Slice (fst (GetStartupTree \<lparr>i_Extension = [], i_Startup = []\<rparr>)) 1 (- 1))] else [])"
  by (rule container_services_all_or_none) (simp add: demo_fails_def)

lemma duplicate_in_container_unanswered_witness:
  "corex_turn demo_corex (''x'', Decoded (new_command ''u1'' ''core.system'')) demo_corex_state = demo_corex_state"
  by (rule duplicate_in_container_unanswered)
     (simp_all add: new_command_def demo_corex_state_def unknown_in_def demo_corex_def builtin_factories_def CommandSystem_def)

end
