(* ===== verification/Kvm_Life.thy ===== *)
theory Kvm_Life
  imports Monitor
begin

text \<open>
  The connection to libvirt, the life-cycle commands, the figures of machines, migration and disk images
  (\<^verbatim>\<open>src/apps/plugins/kvm/plugin/manager.go\<close>).  libvirt and the process manager are arguments of the operations; a
  connection and a machine are numbers and names that they give out.
\<close>

section \<open>The connection\<close>

datatype dom_op = OpDestroy | OpShutdown | OpReboot | OpReset | OpSuspend | OpResume

datatype vir_handler = LifeCycle | DeviceRemoved | DeviceRemovalFailed

record vcpu_stats = vc_State :: nat  vc_Time :: nat
record net_stats = ns_Name :: string  ns_RxBytes :: nat  ns_RxPkts :: nat  ns_RxErrs :: nat  ns_RxDrop :: nat
  ns_TxBytes :: nat  ns_TxPkts :: nat  ns_TxErrs :: nat  ns_TxDrop :: nat
record block_stats = bs_Name :: string  bs_RdBytes :: nat  bs_RdReqs :: nat  bs_RdTimes :: nat
  bs_WrBytes :: nat  bs_WrReqs :: nat  bs_WrTimes :: nat

record dom_stats =
  dm_Domain :: string
  dm_Vcpu :: "vcpu_stats list"
  dm_Net :: "net_stats list"
  dm_Block :: "block_stats list"

record ('s, 'f) life_env =
  le_alive :: "nat \<Rightarrow> 's \<Rightarrow> (go_error, bool) result"
  le_close :: "nat \<Rightarrow> 's \<Rightarrow> 's"
  le_connect :: "'s \<Rightarrow> (go_error, nat) result \<times> 's"
  le_register :: "nat \<Rightarrow> vir_handler \<Rightarrow> 's \<Rightarrow> (go_error, unit) result \<times> 's"
  le_lookup :: "nat \<Rightarrow> string \<Rightarrow> 's \<Rightarrow> (go_error, string) result"
  le_op :: "dom_op \<Rightarrow> string \<Rightarrow> 's \<Rightarrow> (go_error, unit) result \<times> 's"
  le_stats :: "string option \<Rightarrow> 's \<Rightarrow> (go_error, dom_stats list) result"
  le_name :: "string \<Rightarrow> 's \<Rightarrow> (go_error, string) result"
  le_xml :: "string \<Rightarrow> 's \<Rightarrow> (go_error, string) result"
  le_cards :: "string \<Rightarrow> (go_error, (string \<times> string) list) result"
  le_info :: "string \<Rightarrow> 's \<Rightarrow> (go_error, nat \<times> nat) result"
  le_migrate :: "string \<Rightarrow> string \<Rightarrow> string \<Rightarrow> string \<Rightarrow> 's \<Rightarrow> (go_error, unit) result \<times> 's"
  le_attach :: "string \<Rightarrow> string \<Rightarrow> 's \<Rightarrow> (go_error, unit) result \<times> 's"
  le_system :: "string list \<Rightarrow> 's \<Rightarrow> (go_error, unit) result \<times> 's"
  le_query :: "string \<Rightarrow> 's \<Rightarrow> (go_error, bool \<times> string) result \<times> 's"
  le_json :: "string \<Rightarrow> (go_error, string) result"
  le_div :: "nat \<Rightarrow> nat \<Rightarrow> 'f"

text \<open>The connection that is kept, the figures that were sent, and the rest.\<close>

record ('s, 'f) life =
  lf_conn :: "nat option"
  lf_sent :: "'f stats_call list"
  lf_sys :: 's

definition life_sys :: "('s \<Rightarrow> (go_error, 'a) result \<times> 's) \<Rightarrow> (('s, 'f) life, 'a) act" where
  "life_sys f = (\<lambda>s. case f (lf_sys s) of (r, w) \<Rightarrow> (lift_err r, s\<lparr>lf_sys := w\<rparr>))"

definition life_ask :: "('s \<Rightarrow> (go_error, 'a) result) \<Rightarrow> (('s, 'f) life, 'a) act" where
  "life_ask f = (\<lambda>s. (lift_err (f (lf_sys s)), s))"

definition register_handlers :: "('s, 'f) life_env \<Rightarrow> nat \<Rightarrow> (('s, 'f) life, unit) act" where
  "register_handlers E c = sfor (\<lambda>h. signore (life_sys (le_register E c h))) [LifeCycle, DeviceRemoved, DeviceRemovalFailed]"

text \<open>A connection that is not alive is closed and a new one is made.\<close>

definition drop_dead :: "('s, 'f) life_env \<Rightarrow> ('s, 'f) life \<Rightarrow> ('s, 'f) life" where
  "drop_dead E s = (case lf_conn s of None \<Rightarrow> s | Some c \<Rightarrow> s\<lparr>lf_sys := le_close E c (lf_sys s)\<rparr>)"

definition getConnection :: "('s, 'f) life_env \<Rightarrow> (('s, 'f) life, nat) act" where
  "getConnection E = (\<lambda>s. case lf_conn s of
     Some c \<Rightarrow> if le_alive E c (lf_sys s) = Inr True then (Inr c, s) else
       sbind (life_sys (le_connect E)) (\<lambda>n. sbind (register_handlers E n) (\<lambda>_ s. (Inr n, s\<lparr>lf_conn := Some n\<rparr>))) (drop_dead E s)
   | None \<Rightarrow>
       sbind (life_sys (le_connect E)) (\<lambda>n. sbind (register_handlers E n) (\<lambda>_ s. (Inr n, s\<lparr>lf_conn := Some n\<rparr>))) s)"

definition getDomain :: "('s, 'f) life_env \<Rightarrow> string \<Rightarrow> (('s, 'f) life, string) act" where
  "getDomain E uuid = sbind (getConnection E) (\<lambda>c.
     werr (\<lambda>_. PlainErr (''couldn'' @ CHR 0x27 # ''t find domain with the uuid '' @ uuid)) (life_ask (le_lookup E c uuid)))"

section \<open>Life cycle\<close>

definition op_name :: "dom_op \<Rightarrow> string" where
  "op_name o' = (case o' of OpDestroy \<Rightarrow> ''destroy'' | OpShutdown \<Rightarrow> ''shutdown'' | OpReboot \<Rightarrow> ''reboot'' | OpReset \<Rightarrow> ''reset''
     | OpSuspend \<Rightarrow> ''pause'' | OpResume \<Rightarrow> ''resume'')"

definition kvm_destroy :: "('s, 'f) life_env \<Rightarrow> string \<Rightarrow> (('s, 'f) life, unit) act" where
  "kvm_destroy E uuid = sbind (getDomain E uuid) (\<lambda>d. life_sys (le_op E OpDestroy d))"

definition kvm_op :: "('s, 'f) life_env \<Rightarrow> dom_op \<Rightarrow> string \<Rightarrow> (('s, 'f) life, unit) act" where
  "kvm_op E o' uuid = sbind (getDomain E uuid) (\<lambda>d.
     werr (told (''failed to '' @ op_name o' @ '' machine: '')) (life_sys (le_op E o' d)))"

definition kvm_shutdown :: "('s, 'f) life_env \<Rightarrow> string \<Rightarrow> (('s, 'f) life, unit) act" where "kvm_shutdown E = kvm_op E OpShutdown"
definition kvm_reboot :: "('s, 'f) life_env \<Rightarrow> string \<Rightarrow> (('s, 'f) life, unit) act" where "kvm_reboot E = kvm_op E OpReboot"
definition kvm_reset :: "('s, 'f) life_env \<Rightarrow> string \<Rightarrow> (('s, 'f) life, unit) act" where "kvm_reset E = kvm_op E OpReset"
definition kvm_pause :: "('s, 'f) life_env \<Rightarrow> string \<Rightarrow> (('s, 'f) life, unit) act" where "kvm_pause E = kvm_op E OpSuspend"
definition kvm_resume :: "('s, 'f) life_env \<Rightarrow> string \<Rightarrow> (('s, 'f) life, unit) act" where "kvm_resume E = kvm_op E OpResume"

definition attachDevice :: "('s, 'f) life_env \<Rightarrow> string \<Rightarrow> string \<Rightarrow> (('s, 'f) life, unit) act" where
  "attachDevice E uuid xml = sbind (getDomain E uuid) (\<lambda>d. werr (told ''failed to attach device: '') (life_sys (le_attach E d xml)))"

section \<open>Figures\<close>

text \<open>What the action shows of a machine: of each processor, card and disk the figures without those of requests.\<close>

definition kvm_info :: "('s, 'f) life_env \<Rightarrow> string \<Rightarrow>
    (('s, 'f) life, vcpu_stats list \<times> net_stats list \<times> (string \<times> nat \<times> nat \<times> nat \<times> nat) list) act" where
  "kvm_info E uuid = sbind (getDomain E uuid) (\<lambda>d. sbind (getConnection E) (\<lambda>c.
     sbind (werr (told ''failed to get machine info: '') (life_ask (le_stats E (Some d)))) (\<lambda>is.
     case is of
       [] \<Rightarrow> slift (Inl (Panic ''index out of range''))
     | i # _ \<Rightarrow> sret (dm_Vcpu i, dm_Net i,
         map (\<lambda>b. (bs_Name b, bs_RdBytes b, bs_RdTimes b, bs_WrBytes b, bs_WrTimes b)) (dm_Block i)))))"

definition virt_figure :: "string \<Rightarrow> string \<Rightarrow> 'f \<Rightarrow> string \<Rightarrow> tag list \<Rightarrow> 'f stats_call" where
  "virt_figure op key v i tags = \<lparr>st_op = op, st_key = key, st_value = v, st_id = i, st_tags = \<lparr>tag_Key = ''type'', tag_Value = ''virt''\<rparr> # tags\<rparr>"

definition vcpu_figures :: "('s, 'f) life_env \<Rightarrow> string \<Rightarrow> nat \<times> vcpu_stats \<Rightarrow> 'f stats_call list" where
  "vcpu_figures E name = (\<lambda>(i, v). let nr = [\<lparr>tag_Key = ''nr'', tag_Value = itoa i\<rparr>] in
     [virt_figure AggreagteAverage ''kvm.vcpu.state'' (le_div E (vc_State v) 1) name nr,
      virt_figure AggreagteDifference ''kvm.vcpu.time'' (le_div E (vc_Time v) 1000000000) name nr])"

definition card_figures :: "('s, 'f) life_env \<Rightarrow> string \<Rightarrow> (string \<times> string) list \<Rightarrow> net_stats \<Rightarrow> 'f stats_call list" where
  "card_figures E name macs n =
     (let i = name @ ''.'' @ (case map_of (rev macs) (ns_Name n) of None \<Rightarrow> [] | Some m \<Rightarrow> m);
          nm = [\<lparr>tag_Key = ''name'', tag_Value = ns_Name n\<rparr>];
          fig = (\<lambda>key v. virt_figure AggreagteDifference key (le_div E v 1) i nm)
      in [fig ''kvm.net.rxbytes'' (ns_RxBytes n), fig ''kvm.net.rxpackets'' (ns_RxPkts n),
          fig ''kvm.net.txbytes'' (ns_TxBytes n), fig ''kvm.net.txpackets'' (ns_TxPkts n)])"

definition block_figures :: "('s, 'f) life_env \<Rightarrow> string \<Rightarrow> block_stats \<Rightarrow> 'f stats_call list" where
  "block_figures E name b =
     (let nm = [\<lparr>tag_Key = ''name'', tag_Value = bs_Name b\<rparr>];
          fig = (\<lambda>key v. virt_figure AggreagteDifference key (le_div E v 1) (name @ ''.'' @ bs_Name b) nm)
      in [fig ''kvm.disk.rdbytes'' (bs_RdBytes b), fig ''kvm.disk.iops.read'' (bs_RdReqs b),
          fig ''kvm.disk.wrbytes'' (bs_WrBytes b), fig ''kvm.disk.iops.write'' (bs_WrReqs b)])"

definition life_send :: "'f stats_call list \<Rightarrow> (('s, 'f) life, unit) act" where
  "life_send fs = (\<lambda>s. (Inr (), s\<lparr>lf_sent := lf_sent s @ fs\<rparr>))"

definition monitor_machine :: "('s, 'f) life_env \<Rightarrow> dom_stats \<Rightarrow> (('s, 'f) life, unit) act" where
  "monitor_machine E i =
     sbind (life_ask (le_name E (dm_Domain i))) (\<lambda>name.
     sbind (werr (told ''cannot get domain xml: '') (life_ask (le_xml E (dm_Domain i)))) (\<lambda>xml.
     sbind (werr (told ''cannot parse the domain xml: '') (slift (lift_err (le_cards E xml)))) (\<lambda>macs.
     sbind (werr (told ''cannot get domain info: '') (life_ask (le_info E (dm_Domain i)))) (\<lambda>(mem, cpu).
     life_send ([virt_figure AggreagteAverage ''kvm.memory.max'' (le_div E mem 1000) name [],
        virt_figure AggreagteDifference ''kvm.cpu.time'' (le_div E cpu 1000000000) name []] @
       concat (map (vcpu_figures E name) (zip [0..<length (dm_Vcpu i)] (dm_Vcpu i))) @
       concat (map (card_figures E name macs) (dm_Net i)) @ concat (map (block_figures E name) (dm_Block i)))))))"

definition kvm_monitor :: "('s, 'f) life_env \<Rightarrow> (('s, 'f) life, unit) act" where
  "kvm_monitor E = sbind (getConnection E) (\<lambda>_. sbind (life_ask (le_stats E None)) (\<lambda>is. sfor (monitor_machine E) is))"

text \<open>The query of the aggregator: \<open>Some\<close> data, or none, which the caller sees as success.\<close>

definition infops :: "('s, 'f) life_env \<Rightarrow> string \<Rightarrow> (('s, 'f) life, string option) act" where
  "infops E uuid = sbind (life_sys (le_query E uuid)) (\<lambda>(ok, data).
     if \<not> ok then sret None else sbind (slift (lift_err (le_json E data))) (\<lambda>d. sret (Some d)))"

section \<open>Migration\<close>

definition target_tag :: string where "target_tag = ''<target''"
definition interface_tag :: string where "interface_tag = ''<interface''"
definition interface_end :: string where "interface_end = ''</interface>''"

text \<open>The expression \<^verbatim>\<open><target[^/]+/>\<close> at a place: the text after it.\<close>

definition target_at :: "string \<Rightarrow> string option" where
  "target_at s = (if has_prefix target_tag s then
       (let r = drop (length target_tag) s; a = takeWhile (\<lambda>c. c \<noteq> CHR ''/'') r; b = dropWhile (\<lambda>c. c \<noteq> CHR ''/'') r
        in if a \<noteq> [] \<and> has_prefix ''/>'' b then Some (drop 2 b) else None)
     else None)"

lemma target_at_shorter: "target_at s = Some r \<Longrightarrow> length r < length s"
proof -
  assume a: "target_at s = Some r"
  then have p: "has_prefix target_tag s" and r: "r = drop 2 (dropWhile (\<lambda>c. c \<noteq> CHR ''/'') (drop (length target_tag) s))"
    by (auto simp: target_at_def Let_def split: if_splits)
  from p obtain t where s: "s = target_tag @ t" by (auto simp: has_prefix_iff)
  have "length (dropWhile (\<lambda>c. c \<noteq> CHR ''/'') t) \<le> length t" by (rule length_dropWhile_le)
  then show ?thesis by (simp add: r s target_tag_def)
qed

function drop_targets :: "string \<Rightarrow> string" where
  "drop_targets s = (case s of [] \<Rightarrow> [] | c # cs \<Rightarrow> (case target_at s of Some r \<Rightarrow> drop_targets r | None \<Rightarrow> c # drop_targets cs))"
  by pat_completeness auto
termination by (relation "measure length") (auto dest: target_at_shorter)

declare drop_targets.simps [simp del]

text \<open>The expression for an element of a card, at a place: the element and the text after it.\<close>

definition interface_at :: "string \<Rightarrow> (string \<times> string) option" where
  "interface_at s = (if has_prefix interface_tag s then
       (let r = drop (length interface_tag) s; a = takeWhile (\<lambda>c. c \<noteq> CHR ''>'') r in
        case dropWhile (\<lambda>c. c \<noteq> CHR ''>'') r of
          _ # c # b \<Rightarrow> (case str_index interface_end b of
              None \<Rightarrow> None
            | Some k \<Rightarrow> Some (interface_tag @ a @ ''>'' @ c # take k b @ interface_end, drop (k + length interface_end) b))
        | _ \<Rightarrow> None)
     else None)"

lemma interface_at_shorter: "interface_at s = Some (e, r) \<Longrightarrow> length r < length s"
proof -
  assume a: "interface_at s = Some (e, r)"
  let ?d = "dropWhile (\<lambda>c. c \<noteq> CHR ''>'') (drop (length interface_tag) s)"
  have l: "length ?d \<le> length s"
    using length_dropWhile_le[of "\<lambda>c. c \<noteq> CHR ''>''" "drop (length interface_tag) s"] by simp
  obtain x c b k where d: "?d = x # c # b" and r: "r = drop (k + length interface_end) b"
    using a by (auto simp: interface_at_def Let_def split: if_splits list.splits option.splits)
  show ?thesis using l by (simp add: d r)
qed

function fixXML :: "string \<Rightarrow> string" where
  "fixXML s = (case s of [] \<Rightarrow> [] | c # cs \<Rightarrow> (case interface_at s of
     Some (e, r) \<Rightarrow> drop_targets e @ fixXML r | None \<Rightarrow> c # fixXML cs))"
  by pat_completeness auto
termination by (relation "measure length") (auto dest: interface_at_shorter)

declare fixXML.simps [simp del]

definition kvm_migrate :: "('s, 'f) life_env \<Rightarrow> string \<Rightarrow> string \<Rightarrow> (('s, 'f) life, unit) act" where
  "kvm_migrate E uuid dest =
     sbind (getDomain E uuid) (\<lambda>d.
     sbind (life_ask (le_name E d)) (\<lambda>name.
     sbind (werr (told ''cannot get domain xml: '') (life_ask (le_xml E d))) (\<lambda>xml.
     life_sys (le_migrate E d dest (fixXML xml) name))))"

section \<open>Images\<close>

definition createImage :: "('s, 'f) life_env \<Rightarrow> string \<Rightarrow> string \<Rightarrow> string \<Rightarrow> (('s, 'f) life, unit) act" where
  "createImage E file_name format sz = life_sys (le_system E [''qemu-img'', ''create'', ''-f'', format, file_name, sz])"

definition convertImage :: "('s, 'f) life_env \<Rightarrow> string \<Rightarrow> string \<Rightarrow> string \<Rightarrow> (('s, 'f) life, unit) act" where
  "convertImage E input output format = life_sys (le_system E [''qemu-img'', ''convert'', ''-O'', format, input, output])"

section \<open>Properties\<close>

lemma str_index_Suc: "str_index sub (c # cs) = Some (Suc n) \<Longrightarrow> \<not> has_prefix sub (c # cs) \<and> str_index sub cs = Some n"
  by (auto split: if_splits)

lemma str_index_Cons_None: "str_index sub (c # cs) = None \<Longrightarrow> \<not> has_prefix sub (c # cs) \<and> str_index sub cs = None"
  by (auto split: if_splits)

lemma drop_targets_Nil [simp]: "drop_targets [] = []" by (simp add: drop_targets.simps)
lemma fixXML_Nil [simp]: "fixXML [] = []" by (simp add: fixXML.simps)

lemma drop_targets_skip: "\<not> has_prefix target_tag (c # cs) \<Longrightarrow> drop_targets (c # cs) = c # drop_targets cs"
  by (subst drop_targets.simps) (simp add: target_at_def)

lemma fixXML_skip: "\<not> has_prefix interface_tag (c # cs) \<Longrightarrow> fixXML (c # cs) = c # fixXML cs"
  by (subst fixXML.simps) (simp add: interface_at_def)

lemma drop_targets_plain: "str_index target_tag s = None \<Longrightarrow> drop_targets s = s"
  by (induction s) (auto dest!: str_index_Cons_None simp: drop_targets_skip simp del: str_index.simps)

lemma fixXML_plain: "str_index interface_tag s = None \<Longrightarrow> fixXML s = s"
  by (induction s) (auto dest!: str_index_Cons_None simp: fixXML_skip simp del: str_index.simps)

lemma drop_targets_at:
  "str_index target_tag (a @ t) = Some (length a) \<Longrightarrow> target_at t = Some r \<Longrightarrow> drop_targets (a @ t) = a @ drop_targets r"
proof (induction a)
  case Nil
  then obtain c cs where "t = c # cs" using target_at_shorter[of t r] by (cases t) auto
  then show ?case using Nil.prems(2) by (simp add: drop_targets.simps[of "c # cs"])
next
  case (Cons c a)
  then show ?case using str_index_Suc[of target_tag c "a @ t" "length a"] by (simp add: drop_targets_skip del: str_index.simps)
qed

lemma fixXML_at:
  "str_index interface_tag (a @ t) = Some (length a) \<Longrightarrow> interface_at t = Some (e, r) \<Longrightarrow> fixXML (a @ t) = a @ drop_targets e @ fixXML r"
proof (induction a)
  case Nil
  then obtain c cs where "t = c # cs" using interface_at_shorter[of t e r] by (cases t) auto
  then show ?case using Nil.prems(2) by (simp add: fixXML.simps[of "c # cs"])
next
  case (Cons c a)
  then show ?case using str_index_Suc[of interface_tag c "a @ t" "length a"] by (simp add: fixXML_skip del: str_index.simps)
qed

text \<open>A card as libvirt prints it: its attributes, what stands before its target, the target, and what stands after it.\<close>

record card_text =
  ct_attrs :: string
  ct_before :: string
  ct_target :: string
  ct_after :: string

definition card_xml :: "bool \<Rightarrow> card_text \<Rightarrow> string" where
  "card_xml with_target k = interface_tag @ ct_attrs k @ ''>'' @ ct_before k @
     (if with_target then target_tag @ ct_target k @ ''/>'' else []) @ ct_after k @ interface_end"

definition first_at :: "string \<Rightarrow> string \<Rightarrow> string \<Rightarrow> bool" where
  "first_at sub a rest \<longleftrightarrow> str_index sub (a @ rest) = Some (length a)"

definition card_ok :: "card_text \<Rightarrow> bool" where
  "card_ok k \<longleftrightarrow> CHR ''>'' \<notin> set (ct_attrs k) \<and> ct_before k \<noteq> [] \<and> ct_target k \<noteq> [] \<and> CHR ''/'' \<notin> set (ct_target k) \<and>
     first_at target_tag (interface_tag @ ct_attrs k @ ''>'' @ ct_before k) (target_tag @ ct_target k @ ''/>'' @ ct_after k @ interface_end) \<and>
     str_index target_tag (ct_after k @ interface_end) = None \<and>
     (\<forall>r. first_at interface_end (tl (ct_before k) @ target_tag @ ct_target k @ ''/>'' @ ct_after k) (interface_end @ r))"

lemma takeWhile_upto: "x \<notin> set a \<Longrightarrow> takeWhile (\<lambda>c. c \<noteq> x) (a @ x # b) = a" "x \<notin> set a \<Longrightarrow> dropWhile (\<lambda>c. c \<noteq> x) (a @ x # b) = x # b"
  by (induction a) auto

lemma card_element: "card_ok k \<Longrightarrow> interface_at (card_xml True k @ r) = Some (card_xml True k, r)"
proof -
  assume ok: "card_ok k"
  obtain c b where cb: "ct_before k = c # b" using ok by (cases "ct_before k") (auto simp: card_ok_def)
  let ?m = "b @ target_tag @ ct_target k @ ''/>'' @ ct_after k"
  have "str_index interface_end (?m @ interface_end @ r) = Some (length ?m)"
    using ok by (simp add: card_ok_def cb first_at_def)
  then show ?thesis using ok
    by (simp add: interface_at_def card_xml_def cb card_ok_def takeWhile_upto Let_def)
qed

lemma card_dropped: "card_ok k \<Longrightarrow> drop_targets (card_xml True k) = card_xml False k"
proof -
  assume ok: "card_ok k"
  let ?a = "interface_tag @ ct_attrs k @ ''>'' @ ct_before k"
  let ?t = "target_tag @ ct_target k @ ''/>'' @ ct_after k @ interface_end"
  have "target_at ?t = Some (ct_after k @ interface_end)"
    using ok by (simp add: target_at_def card_ok_def takeWhile_upto Let_def has_prefix_def)
  from drop_targets_at[OF _ this, of ?a] ok
  have "drop_targets (?a @ ?t) = ?a @ ct_after k @ interface_end"
    by (simp add: card_ok_def first_at_def drop_targets_plain)
  then show ?thesis by (simp add: card_xml_def)
qed

text \<open>C40: The description of a machine that is sent to the target of a migration is that of the source in which every card has
  lost exactly its target device; everything else, the targets of disks too, stays as it is.\<close>

theorem fixXML_drops_card_targets:
  assumes "list_all (\<lambda>(a, k). card_ok k \<and> (\<forall>r. first_at interface_tag a (interface_tag @ r))) xs"
    and "str_index interface_tag z = None"
  shows "fixXML (concat (map (\<lambda>(a, k). a @ card_xml True k) xs) @ z) = concat (map (\<lambda>(a, k). a @ card_xml False k) xs) @ z"
  using assms(1)
proof (induction xs)
  case Nil
  then show ?case using fixXML_plain[OF assms(2)] by simp
next
  case (Cons x xs)
  obtain a k where x: "x = (a, k)" by (cases x)
  let ?r = "concat (map (\<lambda>(a, k). a @ card_xml True k) xs) @ z"
  have ok: "card_ok k" and f: "\<And>r. first_at interface_tag a (interface_tag @ r)" using Cons.prems by (auto simp: x)
  have e: "interface_at (card_xml True k @ ?r) = Some (card_xml True k, ?r)" by (rule card_element[OF ok])
  have "str_index interface_tag (a @ card_xml True k @ ?r) = Some (length a)"
    using f by (simp add: card_xml_def first_at_def)
  from fixXML_at[OF this e] show ?case using Cons by (simp add: x card_dropped[OF ok])
qed

text \<open>A query that fails is answered as a success without data.\<close>

theorem failed_query_is_success:
  assumes "le_query E uuid (lf_sys s) = (Inr (False, d), w)"
  shows "infops E uuid s = (Inr None, s\<lparr>lf_sys := w\<rparr>)"
  using assms by (simp add: infops_def life_sys_def act_defs)

text \<open>The connection is kept while it is alive; a command then only asks for the machine and works on it.\<close>

theorem kvm_op_on_live_connection:
  assumes "lf_conn s = Some c" and "le_alive E c (lf_sys s) = Inr True" and "le_lookup E c uuid (lf_sys s) = Inr d"
  shows "kvm_op E o' uuid s = werr (told (''failed to '' @ op_name o' @ '' machine: '')) (life_sys (le_op E o' d)) s"
  using assms by (simp add: kvm_op_def getDomain_def getConnection_def sbind_def werr_def life_ask_def)

text \<open>The figures of cards are told apart by the hardware address, and two cards without one of a machine are not.\<close>

lemma card_figures_id:
  "set (map st_id (card_figures E name macs n)) = {name @ ''.'' @ (case map_of (rev macs) (ns_Name n) of None \<Rightarrow> [] | Some m \<Rightarrow> m)}"
  by (simp add: card_figures_def Let_def virt_figure_def)

section \<open>Witnesses\<close>

definition demo_card :: card_text where
  "demo_card = \<lparr>ct_attrs = '' type=b'', ct_before = ''<mac/>'', ct_target = '' dev=v0'', ct_after = ''<model/>''\<rparr>"

lemma demo_card_ok: "card_ok demo_card"
proof -
  have "first_at interface_end (tl (ct_before demo_card) @ target_tag @ ct_target demo_card @ ''/>'' @ ct_after demo_card) (interface_end @ r)" for r
    by (simp add: first_at_def demo_card_def interface_end_def target_tag_def has_prefix_def)
  then show ?thesis
    by (simp add: card_ok_def first_at_def demo_card_def interface_end_def target_tag_def interface_tag_def has_prefix_def)
qed

lemma fixXML_drops_card_targets_witness:
  "fixXML (concat (map (\<lambda>(a, k). a @ card_xml True k) [(''<disk><target dev=vda/></disk>'', demo_card)]) @ ''</devices>'') =
     concat (map (\<lambda>(a, k). a @ card_xml False k) [(''<disk><target dev=vda/></disk>'', demo_card)]) @ ''</devices>''"
proof (rule fixXML_drops_card_targets)
  have "first_at interface_tag ''<disk><target dev=vda/></disk>'' (interface_tag @ r)" for r
    by (simp add: first_at_def interface_tag_def has_prefix_def)
  then show "list_all (\<lambda>(a, k). card_ok k \<and> (\<forall>r. first_at interface_tag a (interface_tag @ r))) [(''<disk><target dev=vda/></disk>'', demo_card)]"
    using demo_card_ok by simp
qed (simp add: interface_tag_def has_prefix_def)

end
