(* ===== verification/Spec2Isabelle.thy ===== *)
theory Spec2Isabelle
  imports Prelude Stream_Message Stream_Input Bounded_Log Pm_Types Steps Mgr_Queue Mgr_Backoff
    Settings_Condition Settings_Startup Utils_Model Mgr_Stats Mgr_Job Mgr_Slice Mgr_Manager
    Mgr_Deadlock Plugin_Manager Aggregator Protocol Net_Ip Nft Socat Sequence Containers Kvm_Domain
    Kvm_Sync Kvm_Manager Kvm_Props Scan Disk Cgroup Bridge Logger Btrfs Cont_Network Dmi Paths
    Cont_Files Flist Cont_Flist Fs Cont_Channel Monitor Ip Boot Redis_Proxy Base_Power Corex Kvm_Life
begin

text \<open>
  A verification development for Zero-OS core0: the process manager that boots a node and runs every command on
  it, and the plugins it loads.

  The program.  \<^verbatim>\<open>apps/core0\<close> is the init process of a node and \<^verbatim>\<open>apps/coreX\<close> the one of a container; both run
  commands through the process manager in \<^verbatim>\<open>base/mgr\<close>.  A command becomes a job; jobs with the name of a queue run one
  after the other (\<^verbatim>\<open>queue.go\<close>); a job starts a process, reads its output through \<^verbatim>\<open>base/stream\<close>, gives the
  messages to hooks and handlers, and restarts the process by the back-off policy (\<^verbatim>\<open>job.go\<close>, \<^verbatim>\<open>backoff.go\<close>).  At boot the
  services of the configuration (\<^verbatim>\<open>base/settings\<close>) are weighed, cut into slices and started in the order of their
  dependencies (\<^verbatim>\<open>waitmachine.go\<close>).  Plugins (\<^verbatim>\<open>apps/core0/plugin\<close>) register the actions that commands name: the
  protocol keeps results in redis, nft and socat the firewall and port forwards, corex the containers, kvm the virtual
  machines, the aggregator the statistics.

  Which theory models what.

  \<^item> \<open>Prelude\<close>: results as sums, loops that stop at the first error (\<open>rfold\<close>, \<open>rmap\<close>), and the functions of the Go packages
    strings and strconv that the code uses, with their laws.
  \<^item> \<open>Stream_Message\<close>, \<open>Stream_Input\<close>, \<open>Bounded_Log\<close> (\<^verbatim>\<open>base/stream/{message,input,buffer}.go\<close>): level and flags in
    one word, the consumer that cuts reads into messages (\<open>consume\<close>, state \<open>consumer\<close>), the buffers that keep the last
    entries; the locale \<open>bounded_log\<close> is what both the buffers and the histories of the aggregator promise.
  \<^item> \<open>Pm_Types\<close> (\<^verbatim>\<open>base/pm\<close>): commands, results, errors, hooks.  \<open>Steps\<close>: handlers as steps on a state that return, fail or panic.
  \<^item> \<open>Mgr_Queue\<close>, \<open>Mgr_Backoff\<close>, \<open>Mgr_Stats\<close>, \<open>Mgr_Job\<close>, \<open>Mgr_Slice\<close>, \<open>Mgr_Manager\<close>, \<open>Mgr_Deadlock\<close> (\<^verbatim>\<open>base/mgr\<close>): the
    queues (locale \<open>sequencer\<close>), the delay policy, statistics messages, one run of a process and the restart loop, the
    wait machine as a step relation, the job and pid tables, and the interleaving of RunFactory with the main loop.
  \<^item> \<open>Settings_Condition\<close>, \<open>Settings_Startup\<close> (\<^verbatim>\<open>base/settings\<close>): the condition language with its parser, the weights of
    services and the startup tree.  \<open>Utils_Model\<close> (\<^verbatim>\<open>base/utils\<close>): levels, templates, the kernel command line.
  \<^item> \<open>Plugin_Manager\<close> (\<^verbatim>\<open>apps/core0/plugin\<close>, \<^verbatim>\<open>apps/coreX\<close>): opening plugins after the ones they require, routing
    of actions, stores (locale \<open>kv_store\<close>).
  \<^item> \<open>Aggregator\<close>, \<open>Protocol\<close>, \<open>Nft\<close>, \<open>Socat\<close>, \<open>Containers\<close> (the plugins of these names under \<^verbatim>\<open>apps/plugins\<close>), with
    \<open>Net_Ip\<close> for IPv4 addresses and \<open>Sequence\<close> for the 16-bit counters that number containers and virtual
    machines (locale \<open>cyclic_ids\<close>).
  \<^item> \<open>Kvm_Domain\<close>, \<open>Kvm_Sync\<close>, \<open>Kvm_Manager\<close>, \<open>Kvm_Props\<close> (\<^verbatim>\<open>apps/plugins/kvm/plugin\<close>): the description of a virtual machine and the
    way back to its media, waiting for device removals as steps of concurrent calls, the operations of the manager, and
    their properties.
  \<^item> \<open>Disk\<close> (\<^verbatim>\<open>apps/plugins/base/disk\<close>): what the kernel, lsblk, parted, smartctl and hdparm say of a disk, read into the answers of
    the disk actions.
  \<^item> \<open>Cgroup\<close> (\<^verbatim>\<open>apps/plugins/cgroup/plugin\<close>): control groups over the kernel's file system, whose documented behaviour for the
    two limits of memory is \<open>memory_laws\<close>.
  \<^item> \<open>Bridge\<close> (\<^verbatim>\<open>apps/plugins/base/bridge\<close>): networks of bridges and their overlap, creating and removing a bridge with its name
    server and the firewall rules that belong to it, over the model of the firewall plugin.
  \<^item> \<open>Logger\<close> (\<^verbatim>\<open>apps/plugins/logger/plugin\<close>): the streamed output of jobs and the subscriptions to the log, over the lists of the
    database (locale \<open>list_database\<close> and its extension \<open>working_database\<close>, interpreted on the list operations of the protocol plugin).
  \<^item> \<open>Scan\<close>: \<^verbatim>\<open>fmt.Sscanf\<close> and \<^verbatim>\<open>strings.Split\<close> as the readers of program output use them.
  \<^item> \<open>Btrfs\<close> (\<^verbatim>\<open>apps/plugins/base/btrfs\<close>): the readers of what the btrfs program prints and the actions that run it.
  \<^item> \<open>Cont_Network\<close> (\<^verbatim>\<open>containers/plugin/network.go\<close> and the start of \<^verbatim>\<open>container.go\<close>): the steps that set up a
    card of each type before and after the process of a container runs, and what the end of the container takes back, over the
    links of the host; the steps refine what \<open>Containers\<close> says of a card.
  \<^item> \<open>Dmi\<close> (\<^verbatim>\<open>apps/plugins/base/info/dmi.go\<close>): the reader of the hardware description and the action that runs the program.
  \<^item> \<open>Paths\<close>: \<^verbatim>\<open>path.Clean\<close> and its relatives, \<^verbatim>\<open>SafeNormalize\<close> of \<^verbatim>\<open>base/utils\<close>, and when a path lies below another.
  \<^item> \<open>Cont_Files\<close> (\<^verbatim>\<open>containers/plugin/filesystem.go\<close>): the sandbox of a container as mounts of the host and its end.
  \<^item> \<open>Flist\<close> (\<^verbatim>\<open>apps/plugins/zfs/plugin\<close>): lists of files, the copy that is kept of each, and the wait for the mount, with the
    hooks of \<open>Pm_Types\<close>.
  \<^item> \<open>Cont_Flist\<close> (\<^verbatim>\<open>containers/plugin/flist.go\<close>, \<^verbatim>\<open>backup.go\<close>): lists and backups made of a running container.
  \<^item> \<open>Fs\<close> (\<^verbatim>\<open>apps/plugins/base/fs\<close>): open modes, the cache of file handles, and the actions on paths.
  \<^item> \<open>Cont_Channel\<close> (\<^verbatim>\<open>containers/plugin/comm.go\<close>, \<^verbatim>\<open>manager.go\<close>, \<^verbatim>\<open>container.go\<close>): commands handed to a container, and its messages
    as they reach \<open>Protocol\<close> and the aggregator.
  \<^item> \<open>Monitor\<close> (\<^verbatim>\<open>apps/plugins/base/monitor\<close>, \<^verbatim>\<open>job\<close>, \<^verbatim>\<open>process\<close>): the figures sent to the aggregator, and actions on jobs
    and processes.
  \<^item> \<open>Ip\<close> (\<^verbatim>\<open>apps/plugins/base/ip\<close>): links, addresses, routes and bonds over netlink.
  \<^item> \<open>Boot\<close> (\<^verbatim>\<open>apps/core0/bootstrap\<close>): the network of the host and the order of the boot sequence, over the tree of
    \<open>Settings_Startup\<close>, the commands of \<open>Mgr_Manager\<close> and the netlink of \<open>Ip\<close>; the wait for the internet has a fuel of 41, as
    two minutes are 40 pauses of three seconds.
  \<^item> \<open>Redis_Proxy\<close> (\<^verbatim>\<open>apps/redis-proxy\<close>): the organizations, the check of tokens, the commands and replies of a connection.
  \<^item> \<open>Base_Power\<close> (\<^verbatim>\<open>apps/plugins/base/power\<close>): restart, power-off and update as the events they cause.
  \<^item> \<open>Corex\<close> (\<^verbatim>\<open>apps/coreX\<close>): the set-up of a container from inside, its loop over commands and its messages; with
    \<open>Cont_Channel\<close> and \<open>Mgr_Manager\<close> both ends of the channel are there.
  \<^item> \<open>Kvm_Life\<close> (\<^verbatim>\<open>apps/plugins/kvm/plugin/manager.go\<close>): the cached connection to libvirt, the life-cycle commands, the
    figures of machines, the description that a migration sends, and disk images.

  How the code is read.  A struct is a record, an enumeration a datatype, an error the left side of a sum; a panic is
  an outcome of its own where the code can panic.  Integers keep their width where it matters (levels, weights, numbers of
  guests, masks) and are \<open>int\<close> elsewhere.  A Go map that the code ranges over is an association list in the order of the iteration;
  theorems over all lists cover every order.  A mutex that spans an operation makes it one step; where the interleaving
  matters (queues, slices, RunFactory and the loop, device removals) the steps are those between the locks.  Programs and
  libraries outside the repository (nft, redis, libvirt, netlink, qemu-img, TOML and JSON decoding, net/url) are arguments of the
  definitions; what is assumed of them stands in the statements.

  What the lemmas show.  Each theory proves that its operations keep the invariant of the state (queues, tables of jobs,
  containers, machines, forwards), what they return on every branch, and the contract of the component: queued jobs
  run one at a time and none is forgotten, services start after what they depend on, a slice always comes to its end, output
  is neither invented nor reordered, restarts follow the policy, plugins are opened exactly when they can be, rules and
  forwards are removed exactly, numbers and addresses are not given out twice.  Where the code does not do what it means
  to, a theorem states what it does instead.

  Bounds and fuel.  The searches for a number visit at most \<open>seq_mod\<close> = 65536 values, which are all of them.  The parser of
  conditions and the opening of plugins take fuel; \<open>GetExpression_print\<close> and \<open>Load_returns\<close> show that
  more than the length of the text, and more than the number of plugins, is enough, and \<open>circular_requires_diverge\<close> that no
  fuel is when plugins require each other.

  Not modelled.  System calls and what only wraps them (namespaces, block devices, the console); mounts, netlink and files are parameters where a component decides what to do with them, the
  redis connection pool, the command-line clients, vendored packages and generated assets.  Goroutines are modelled where
  their interleaving is observable in the state of a component; timing is not, beyond the values of deadlines and delays.
\<close>

end
